(* ===== verification/Prelude.thy ===== *)
theory Prelude
  imports Main "HOL-Library.Char_ord" "HOL-Library.List_Lexorder" "HOL-Library.Code_Target_Nat"
begin

text \<open>
  Shared vocabulary of the development: Rust results as sums with the combinators the
  source uses (\<open>?\<close>, \<open>ok_or\<close>, \<open>map_err\<close>, \<open>collect\<close>), Rust strings as their UTF-8 bytes
  (Isabelle's \<open>string\<close>, one \<open>char\<close> per byte) with the byte and string operations of the
  standard library that the source calls, and tables of rows with the SQL selections and
  updates the stores issue.  Every definition here models the Rust standard library or SQL,
  so none of them is in the map of source lines.
\<close>

named_theorems result_simps \<open>rewriting of result combinators\<close>
named_theorems table_simps \<open>rewriting of row selections and updates\<close>

section \<open>Results\<close>

definition and_then :: "'e + 'a \<Rightarrow> ('a \<Rightarrow> 'e + 'b) \<Rightarrow> 'e + 'b" where
  "and_then m f = (case m of Inl e \<Rightarrow> Inl e | Inr v \<Rightarrow> f v)"

definition map_err :: "('e \<Rightarrow> 'f) \<Rightarrow> 'e + 'a \<Rightarrow> 'f + 'a" where
  "map_err f m = (case m of Inl e \<Rightarrow> Inl (f e) | Inr v \<Rightarrow> Inr v)"

definition map_ok :: "('a \<Rightarrow> 'b) \<Rightarrow> 'e + 'a \<Rightarrow> 'e + 'b" where
  "map_ok f m = (case m of Inl e \<Rightarrow> Inl e | Inr v \<Rightarrow> Inr (f v))"

definition ok_or :: "'e \<Rightarrow> 'a option \<Rightarrow> 'e + 'a" where
  "ok_or e x = (case x of None \<Rightarrow> Inl e | Some v \<Rightarrow> Inr v)"

definition is_ok :: "'e + 'a \<Rightarrow> bool" where
  "is_ok m = (case m of Inl _ \<Rightarrow> False | Inr _ \<Rightarrow> True)"

fun collect_results :: "('e + 'a) list \<Rightarrow> 'e + 'a list" where
  "collect_results [] = Inr []"
| "collect_results (Inl e # rs) = Inl e"
| "collect_results (Inr v # rs) =
     (case collect_results rs of Inl e \<Rightarrow> Inl e | Inr vs \<Rightarrow> Inr (v # vs))"

definition is_some_and :: "'a option \<Rightarrow> ('a \<Rightarrow> bool) \<Rightarrow> bool" where
  "is_some_and x P = (case x of None \<Rightarrow> False | Some v \<Rightarrow> P v)"

definition is_none_or :: "'a option \<Rightarrow> ('a \<Rightarrow> bool) \<Rightarrow> bool" where
  "is_none_or x P = (case x of None \<Rightarrow> True | Some v \<Rightarrow> P v)"

lemma and_then_simps [simp, result_simps]:
  "and_then (Inl e) f = Inl e" "and_then (Inr v) f = f v"
  by (simp_all add: and_then_def)

lemma and_then_Inr_iff [result_simps]:
  "and_then m f = Inr r \<longleftrightarrow> (\<exists>v. m = Inr v \<and> f v = Inr r)"
  by (cases m) auto

lemma if_Inl_eq_Inr [simp, result_simps]:
  "((if P then Inl e else m) = Inr r) \<longleftrightarrow> \<not> P \<and> m = Inr r"
  by simp

lemma map_err_simps [simp, result_simps]:
  "map_err f (Inl e) = Inl (f e)" "map_err f (Inr v) = Inr v"
  by (simp_all add: map_err_def)

lemma map_err_Inr_iff [simp, result_simps]: "map_err f m = Inr r \<longleftrightarrow> m = Inr r"
  by (cases m) auto

lemma map_ok_simps [simp, result_simps]:
  "map_ok f (Inl e) = Inl e" "map_ok f (Inr v) = Inr (f v)"
  by (simp_all add: map_ok_def)

lemma map_ok_Inr_iff [result_simps]: "map_ok f m = Inr r \<longleftrightarrow> (\<exists>v. m = Inr v \<and> r = f v)"
  by (cases m) auto

lemma ok_or_simps [simp, result_simps]: "ok_or e None = Inl e" "ok_or e (Some v) = Inr v"
  by (simp_all add: ok_or_def)

lemma ok_or_Inr_iff [simp, result_simps]: "ok_or e x = Inr v \<longleftrightarrow> x = Some v"
  by (cases x) auto

lemma is_ok_simps [simp, result_simps]: "is_ok (Inl e) = False" "is_ok (Inr v) = True"
  by (simp_all add: is_ok_def)

lemma is_ok_iff: "is_ok m \<longleftrightarrow> (\<exists>v. m = Inr v)"
  by (cases m) auto

lemma is_some_and_simps [simp, result_simps]:
  "is_some_and None P = False" "is_some_and (Some v) P = P v"
  by (simp_all add: is_some_and_def)

lemma is_some_and_iff: "is_some_and x P \<longleftrightarrow> (\<exists>v. x = Some v \<and> P v)"
  by (cases x) auto

lemma is_none_or_simps [simp, result_simps]:
  "is_none_or None P = True" "is_none_or (Some v) P = P v"
  by (simp_all add: is_none_or_def)

lemma collect_results_Inr:
  "collect_results rs = Inr vs \<Longrightarrow> length vs = length rs \<and> (\<forall>i < length rs. rs ! i = Inr (vs ! i))"
proof (induction rs arbitrary: vs rule: collect_results.induct)
  case (3 v rs)
  then show ?case by (auto split: sum.splits simp: nth_Cons split: nat.splits)
qed auto

lemma collect_results_map_Inr:
  "collect_results (map f xs) = Inr vs \<Longrightarrow> list_all2 (\<lambda>x v. f x = Inr v) xs vs"
  by (auto dest: collect_results_Inr simp: list_all2_conv_all_nth)

lemma collect_results_set:
  assumes "collect_results (map f xs) = Inr vs" and "v \<in> set vs"
  shows "\<exists>x \<in> set xs. f x = Inr v"
proof -
  from assms(2) obtain i where i: "i < length vs" "v = vs ! i"
    by (auto simp: in_set_conv_nth)
  with collect_results_map_Inr [OF assms(1)] have "f (xs ! i) = Inr v" "i < length xs"
    by (auto simp: list_all2_conv_all_nth)
  then show ?thesis by (auto intro: bexI [of _ "xs ! i"])
qed

lemma sorted_list_of_set_code [simp]: "sorted_list_of_set (set xs) = sort (remdups xs)"
  by (rule sorted_list_of_set_sort_remdups)

section \<open>Bytes and strings\<close>

text \<open>A Rust \<open>String\<close> is modelled by its UTF-8 bytes, so \<open>length\<close> is Rust's \<open>len()\<close>.\<close>

abbreviation byte :: "char \<Rightarrow> nat" where
  "byte c \<equiv> of_char c"

definition is_ascii_digit :: "char \<Rightarrow> bool" where
  "is_ascii_digit c \<longleftrightarrow> 48 \<le> byte c \<and> byte c \<le> 57"

definition is_ascii_upper :: "char \<Rightarrow> bool" where
  "is_ascii_upper c \<longleftrightarrow> 65 \<le> byte c \<and> byte c \<le> 90"

definition is_ascii_lower :: "char \<Rightarrow> bool" where
  "is_ascii_lower c \<longleftrightarrow> 97 \<le> byte c \<and> byte c \<le> 122"

definition is_ascii_alphanumeric :: "char \<Rightarrow> bool" where
  "is_ascii_alphanumeric c \<longleftrightarrow> is_ascii_digit c \<or> is_ascii_upper c \<or> is_ascii_lower c"

definition is_ascii_hexdigit :: "char \<Rightarrow> bool" where
  "is_ascii_hexdigit c \<longleftrightarrow>
     is_ascii_digit c \<or> (65 \<le> byte c \<and> byte c \<le> 70) \<or> (97 \<le> byte c \<and> byte c \<le> 102)"

definition is_ascii_graphic :: "char \<Rightarrow> bool" where
  "is_ascii_graphic c \<longleftrightarrow> 33 \<le> byte c \<and> byte c \<le> 126"

definition is_ascii :: "char \<Rightarrow> bool" where
  "is_ascii c \<longleftrightarrow> byte c < 128"

definition to_ascii_lowercase_char :: "char \<Rightarrow> char" where
  "to_ascii_lowercase_char c = (if is_ascii_upper c then char_of (byte c + 32) else c)"

definition to_ascii_lowercase :: "string \<Rightarrow> string" where
  "to_ascii_lowercase s = map to_ascii_lowercase_char s"

lemmas ascii_defs =
  is_ascii_digit_def is_ascii_upper_def is_ascii_lower_def is_ascii_alphanumeric_def
  is_ascii_hexdigit_def is_ascii_graphic_def is_ascii_def

fun starts_with :: "string \<Rightarrow> string \<Rightarrow> bool" where
  "starts_with s [] = True"
| "starts_with [] (p # ps) = False"
| "starts_with (c # s) (p # ps) = (c = p \<and> starts_with s ps)"

definition ends_with :: "string \<Rightarrow> string \<Rightarrow> bool" where
  "ends_with s p = starts_with (rev s) (rev p)"

definition strip_prefix :: "string \<Rightarrow> string \<Rightarrow> string option" where
  "strip_prefix p s = (if starts_with s p then Some (drop (length p) s) else None)"

lemma starts_with_iff: "starts_with s p \<longleftrightarrow> (\<exists>r. s = p @ r)"
  by (induction s p rule: starts_with.induct) auto

lemma starts_with_append [simp]: "starts_with (p @ s) p"
  by (auto simp: starts_with_iff)

lemma strip_prefix_Some_iff: "strip_prefix p s = Some r \<longleftrightarrow> s = p @ r"
  by (auto simp: strip_prefix_def starts_with_iff)

lemma strip_prefix_append [simp]: "strip_prefix p (p @ s) = Some s"
  by (simp add: strip_prefix_Some_iff)

lemma strip_prefix_Cons [simp]: "strip_prefix [c] (c # s) = Some s"
  by (simp add: strip_prefix_Some_iff)

lemma strip_prefix_None_iff: "strip_prefix p s = None \<longleftrightarrow> (\<forall>r. s \<noteq> p @ r)"
  by (auto simp: strip_prefix_def starts_with_iff)

text \<open>\<open>str::split\<close> on one character: always at least one part.\<close>

fun split_on :: "char \<Rightarrow> string \<Rightarrow> string list" where
  "split_on c [] = [[]]"
| "split_on c (x # xs) =
     (if x = c then [] # split_on c xs
      else (case split_on c xs of [] \<Rightarrow> [[x]] | p # ps \<Rightarrow> (x # p) # ps))"

fun split_once :: "char \<Rightarrow> string \<Rightarrow> (string \<times> string) option" where
  "split_once c [] = None"
| "split_once c (x # xs) =
     (if x = c then Some ([], xs)
      else (case split_once c xs of None \<Rightarrow> None | Some (a, b) \<Rightarrow> Some (x # a, b)))"

fun join_with :: "string \<Rightarrow> string list \<Rightarrow> string" where
  "join_with sep [] = []"
| "join_with sep [x] = x"
| "join_with sep (x # y # zs) = x @ sep @ join_with sep (y # zs)"

lemma split_on_nonempty: "split_on c s \<noteq> []"
  by (induction s) (auto split: list.splits)

lemma split_on_parts: "p \<in> set (split_on c s) \<Longrightarrow> c \<notin> set p"
proof (induction s arbitrary: p)
  case (Cons x xs)
  then show ?case by (fastforce split: if_splits list.splits)
qed auto

lemma join_split_on: "join_with [c] (split_on c s) = s"
proof (induction s)
  case (Cons x xs)
  obtain p ps where ps: "split_on c xs = p # ps"
    using split_on_nonempty [of c xs] by (cases "split_on c xs") auto
  then show ?case using Cons by (cases ps) auto
qed simp

lemma split_once_Some_iff:
  "split_once c s = Some (a, b) \<longleftrightarrow> s = a @ c # b \<and> c \<notin> set a"
proof (induction s arbitrary: a b)
  case (Cons x xs)
  show ?case
  proof (cases "x = c")
    case True
    then show ?thesis by (cases a) auto
  next
    case False
    then have "split_once c (x # xs) = Some (a, b)
        \<longleftrightarrow> (\<exists>a'. a = x # a' \<and> split_once c xs = Some (a', b))"
      by (auto split: option.splits)
    with Cons.IH False show ?thesis by (cases a) auto
  qed
qed simp

text \<open>\<open>str::parse\<close> for an unsigned integer type with largest value \<open>m\<close>.\<close>

definition digit_value :: "char \<Rightarrow> nat" where
  "digit_value c = byte c - 48"

definition digits_value :: "string \<Rightarrow> nat" where
  "digits_value s = foldl (\<lambda>n c. 10 * n + digit_value c) 0 s"

definition parse_uint :: "nat \<Rightarrow> string \<Rightarrow> nat option" where
  "parse_uint m s =
     (let ds = (case s of [] \<Rightarrow> [] | c # r \<Rightarrow> if c = CHR ''+'' then r else s)
      in if ds = [] \<or> \<not> list_all is_ascii_digit ds \<or> m < digits_value ds then None
         else Some (digits_value ds))"

abbreviation u16_max :: nat where "u16_max \<equiv> 65535"
abbreviation u64_max :: nat where "u64_max \<equiv> 18446744073709551615"

lemma parse_uint_bound: "parse_uint m s = Some n \<Longrightarrow> n \<le> m"
  by (auto simp: parse_uint_def Let_def split: if_splits)

text \<open>Unicode scalar values of a UTF-8 string (\<open>str::chars\<close>).\<close>

fun utf8_chars :: "nat list \<Rightarrow> nat list" where
  "utf8_chars [] = []"
| "utf8_chars (b # bs) =
     (if b < 192 then b # utf8_chars bs
      else if b < 224 then (case bs of c # r \<Rightarrow> ((b - 192) * 64 + (c - 128)) # utf8_chars r | [] \<Rightarrow> [b])
      else if b < 240 then
        (case bs of c # c' # r \<Rightarrow> ((b - 224) * 4096 + (c - 128) * 64 + (c' - 128)) # utf8_chars r | _ \<Rightarrow> [b])
      else
        (case bs of c # c' # c'' # r \<Rightarrow>
           ((b - 240) * 262144 + (c - 128) * 4096 + (c' - 128) * 64 + (c'' - 128)) # utf8_chars r
         | _ \<Rightarrow> [b]))"

definition str_chars :: "string \<Rightarrow> nat list" where
  "str_chars s = utf8_chars (map of_char s)"

definition is_control :: "nat \<Rightarrow> bool" where
  "is_control n \<longleftrightarrow> n < 32 \<or> (127 \<le> n \<and> n < 160)"

text \<open>\<open>str::trim\<close> removes Unicode white space; these are the UTF-8 forms of it.\<close>

definition ws_seqs :: "string list" where
  "ws_seqs =
     map (\<lambda>n. [char_of n]) [9, 10, 11, 12, 13, 32::nat]
     @ map (map char_of) [[194, 133], [194, 160], [225, 154, 128::nat]]
     @ map (\<lambda>n. map char_of [226, 128, n::nat]) ([128, 129, 130, 131, 132, 133, 134, 135, 136, 137, 138, 168, 169, 175])
     @ map (map char_of) [[226, 129, 159], [227, 128, 128::nat]]"

definition strip_any :: "string list \<Rightarrow> string \<Rightarrow> string option" where
  "strip_any ws s = (case find (\<lambda>w. w \<noteq> [] \<and> starts_with s w) ws of
     None \<Rightarrow> None | Some w \<Rightarrow> Some (drop (length w) s))"

lemma strip_any_shorter: "strip_any ws s = Some r \<Longrightarrow> length r < length s"
  by (auto simp: strip_any_def find_Some_iff starts_with_iff split: option.splits)

function trim_by :: "string list \<Rightarrow> string \<Rightarrow> string" where
  "trim_by ws s = (case strip_any ws s of None \<Rightarrow> s | Some r \<Rightarrow> trim_by ws r)"
  by pat_completeness auto
termination
  by (relation "measure (\<lambda>(ws, s). length s)") (auto dest: strip_any_shorter)

declare trim_by.simps [simp del]

definition trim :: "string \<Rightarrow> string" where
  "trim s = rev (trim_by (map rev ws_seqs) (rev (trim_by ws_seqs s)))"

lemma trim_by_Nil [simp]: "trim_by ws [] = []"
proof -
  have "strip_any ws [] = None"
    using strip_any_shorter [of ws "[]"] by (cases "strip_any ws []") auto
  then show ?thesis by (simp add: trim_by.simps)
qed

lemma trim_Nil [simp]: "trim [] = []"
  by (simp add: trim_def)

text \<open>The ordered list a \<open>BTreeSet<String>\<close> built from a sequence iterates over.\<close>

definition btree_list :: "string list \<Rightarrow> string list" where
  "btree_list xs = sort (remdups xs)"

lemma set_btree_list [simp]: "set (btree_list xs) = set xs"
  by (simp add: btree_list_def)

lemma distinct_btree_list [simp]: "distinct (btree_list xs)"
  by (simp add: btree_list_def)

lemma sorted_btree_list [simp]: "sorted (btree_list xs)"
  by (simp add: btree_list_def)

lemma length_btree_list [simp]: "length (btree_list xs) = card (set xs)"
  by (simp add: btree_list_def length_remdups_card_conv)

lemma btree_list_eq_iff: "btree_list xs = btree_list ys \<longleftrightarrow> set xs = set ys"
proof
  assume "btree_list xs = btree_list ys"
  then show "set xs = set ys" using set_btree_list by metis
next
  assume "set xs = set ys"
  then show "btree_list xs = btree_list ys"
    by (metis sorted_distinct_set_unique sorted_btree_list distinct_btree_list set_btree_list)
qed

lemma btree_list_idem [simp]: "btree_list (btree_list xs) = btree_list xs"
  by (simp add: btree_list_eq_iff)

end
