(* ===== verification/Externals.thy ===== *)
theory Externals
  imports Prelude "HOL-Library.Word"
begin

text \<open>
  The third-party crates the program calls, as parameters of the model: one record \<open>libs\<close>
  whose fields are the library functions (\<open>url\<close>, \<open>sha2\<close>, \<open>base64\<close>, \<open>serde_json\<close>,
  \<open>form_urlencoded\<close>, \<open>uuid\<close>), and the documented laws that some theorems name as hypotheses.
  A parsed \<open>Url\<close> is the record of its accessors' results.  The record \<open>env\<close> holds what an
  operation reads from the outside: monotonic instants, database clock readings, random
  bytes and fresh UUIDs, each indexed by the point of the operation that reads it.
\<close>

section \<open>Addresses and URLs\<close>

type_synonym ipv4 = "8 word \<times> 8 word \<times> 8 word \<times> 8 word"
type_synonym ipv6 = "16 word list"

datatype ip_addr = V4 ipv4 | V6 ipv6

datatype url_host = Domain string | Ipv4 ipv4 | Ipv6 ipv6

record url =
  url_scheme :: string
  url_username :: string
  url_password :: "string option"
  url_host_of :: "url_host option"
  url_port :: "nat option"
  url_port_or_known_default :: "nat option"
  url_path :: string
  url_query :: "string option"
  url_fragment :: "string option"
  url_cannot_be_a_base :: bool
  url_as_str :: string
  url_origin :: string

section \<open>JSON values\<close>

text \<open>\<open>serde_json::Value\<close>; a number keeps its text, which is all the code can observe of it.\<close>

datatype json =
    JNull
  | JBool bool
  | JNumber string
  | JString string
  | JArray "json list"
  | JObject "(string \<times> json) list"

fun as_str :: "json \<Rightarrow> string option" where
  "as_str (JString s) = Some s"
| "as_str _ = None"

fun as_array :: "json \<Rightarrow> json list option" where
  "as_array (JArray xs) = Some xs"
| "as_array _ = None"

fun json_get :: "string \<Rightarrow> json \<Rightarrow> json option" where
  "json_get k (JObject kvs) = map_of kvs k"
| "json_get k _ = None"

lemma as_str_Some_iff [simp]: "as_str v = Some s \<longleftrightarrow> v = JString s"
  by (cases v) auto

lemma as_array_Some_iff [simp]: "as_array v = Some xs \<longleftrightarrow> v = JArray xs"
  by (cases v) auto

section \<open>The library record and its laws\<close>

type_synonym uuid = nat

record libs =
  url_parse :: "string \<Rightarrow> url option"
  url_join :: "url \<Rightarrow> string \<Rightarrow> url option"
  sha256 :: "string \<Rightarrow> string"
  b64_encode :: "string \<Rightarrow> string"
  b64_decode :: "string \<Rightarrow> string option"
  json_parse :: "string \<Rightarrow> json option"
  json_entries :: "string \<Rightarrow> (string \<times> json) list option"
  uuid_parse :: "string \<Rightarrow> uuid option"
  uuid_show :: "uuid \<Rightarrow> string"
  form_parse :: "string \<Rightarrow> (string \<times> string) list"
  form_serialize :: "(string \<times> string) list \<Rightarrow> string"
  from_timestamp :: "int \<Rightarrow> int option"

definition b64url_char :: "char \<Rightarrow> bool" where
  "b64url_char c \<longleftrightarrow> is_ascii_alphanumeric c \<or> c = CHR ''-'' \<or> c = CHR ''_''"

text \<open>RFC 4648 base64url without padding, as the \<open>base64\<close> crate documents its engine.\<close>

definition base64_laws :: "libs \<Rightarrow> bool" where
  "base64_laws L \<longleftrightarrow>
     (\<forall>b. b64_decode L (b64_encode L b) = Some b)
     \<and> (\<forall>b. list_all b64url_char (b64_encode L b))
     \<and> (\<forall>b. length (b64_encode L b) = (4 * length b + 2) div 3)"

text \<open>SHA-256 digests are 32 bytes.\<close>

definition sha256_laws :: "libs \<Rightarrow> bool" where
  "sha256_laws L \<longleftrightarrow> (\<forall>s. length (sha256 L s) = 32)"

section \<open>Readings of the outside world\<close>

record env =
  env_instant :: "nat \<Rightarrow> nat"
  env_clock :: "nat \<Rightarrow> int"
  env_random :: "nat \<Rightarrow> string"
  env_uuid :: "nat \<Rightarrow> uuid"

text \<open>
  Instants are nanoseconds of the monotonic clock.  Database time is in microseconds since
  the Unix epoch, the resolution of \<open>timestamptz\<close>; intervals are counted in the same unit.
\<close>

definition seconds :: "int \<Rightarrow> int" where
  "seconds n = n * 1000000"

definition days :: "int \<Rightarrow> int" where
  "days n = seconds (n * 86400)"

definition minutes :: "int \<Rightarrow> int" where
  "minutes n = seconds (n * 60)"

text \<open>\<open>chrono::DateTime::timestamp\<close>: whole seconds, rounded towards the past.\<close>

definition timestamp :: "int \<Rightarrow> int" where
  "timestamp t = t div 1000000"

lemma timestamp_seconds [simp]: "timestamp (seconds n) = n"
  by (simp add: timestamp_def seconds_def)

lemma timestamp_mono: "s \<le> t \<Longrightarrow> timestamp s \<le> timestamp t"
  by (simp add: timestamp_def zdiv_mono1)

lemmas interval_defs = days_def minutes_def seconds_def

record duration =
  dur_secs :: nat
  dur_subsec_nanos :: nat

abbreviation from_secs :: "nat \<Rightarrow> duration" where
  "from_secs n \<equiv> \<lparr>dur_secs = n, dur_subsec_nanos = 0\<rparr>"

end
