(* ===== verification/Cimd.thy ===== *)
theory Cimd
  imports Externals
begin

text \<open>
  \<open>src/src/cimd.rs\<close>, the pure part: the validated metadata document and its security
  binding, the lease on a fetched snapshot, validation of client identifiers, host names,
  addresses and documents, and the cache lifetime computed from response headers.  The
  fetcher itself is in \<open>Cimd_Fetch\<close>.
\<close>

unbundle bit_operations_syntax

section \<open>Data\<close>

definition MAX_DOCUMENT_BYTES :: nat where "MAX_DOCUMENT_BYTES = 5 * 1024"
definition MAX_CACHE_ENTRIES :: nat where "MAX_CACHE_ENTRIES = 128"
definition MAX_CLIENT_ID_BYTES :: nat where "MAX_CLIENT_ID_BYTES = 2048"
definition MAX_REDIRECTS :: nat where "MAX_REDIRECTS = 16"
definition REQUEST_TIMEOUT :: nat where "REQUEST_TIMEOUT = 5"
definition MAX_CACHE_TTL :: nat where "MAX_CACHE_TTL = 300"
definition NON_CACHEABLE_LEASE :: nat where "NON_CACHEABLE_LEASE = 5"

datatype cimd_error = InvalidUrl | UnsafeDestination | FetchFailed | InvalidDocument | Busy

record client_metadata_document =
  doc_client_id :: string
  doc_client_name :: string
  doc_redirect_uris :: "string list"
  doc_refresh_allowed :: bool

datatype cimd_redirect_kind = CExact | CNativeLoopback

record cimd_bound_redirect =
  br_uri :: string
  br_kind :: cimd_redirect_kind

record cimd_security_binding =
  cb_version :: nat
  cb_client_id :: string
  cb_redirects :: "cimd_bound_redirect list"
  cb_refresh_allowed :: bool

definition http_prefix :: string where "http_prefix = ''http://''"

definition bound_redirect :: "string \<Rightarrow> cimd_bound_redirect" where
  "bound_redirect uri = \<lparr>br_uri = uri,
     br_kind = (if starts_with uri http_prefix then CNativeLoopback else CExact)\<rparr>"

definition security_binding :: "client_metadata_document \<Rightarrow> bool \<Rightarrow> cimd_security_binding" where
  "security_binding doc server_allows_refresh =
     \<lparr>cb_version = 1,
      cb_client_id = doc_client_id doc,
      cb_redirects = sort_key br_uri (map bound_redirect (doc_redirect_uris doc)),
      cb_refresh_allowed = (doc_refresh_allowed doc \<and> server_allows_refresh)\<rparr>"

record leased_client_metadata =
  lease_document :: client_metadata_document
  lease_valid_until :: nat

definition is_fresh :: "nat \<Rightarrow> leased_client_metadata \<Rightarrow> bool" where
  "is_fresh now s \<longleftrightarrow> now < lease_valid_until s"

section \<open>Host names\<close>

definition octet_text :: "string \<Rightarrow> bool" where
  "octet_text s \<longleftrightarrow> s \<noteq> [] \<and> length s \<le> 3 \<and> list_all is_ascii_digit s \<and> digits_value s \<le> 255
     \<and> (length s = 1 \<or> hd s \<noteq> CHR ''0'')"

definition ipv4_text :: "string \<Rightarrow> bool" where
  "ipv4_text s \<longleftrightarrow> length (split_on (CHR ''.'') s) = 4 \<and> list_all octet_text (split_on (CHR ''.'') s)"

definition hex_group :: "string \<Rightarrow> bool" where
  "hex_group s \<longleftrightarrow> s \<noteq> [] \<and> length s \<le> 4 \<and> list_all is_ascii_hexdigit s"

text \<open>Number of 16-bit groups of a colon separated list, whose last part may be an IPv4 address.\<close>

definition group_count :: "string \<Rightarrow> nat option" where
  "group_count s =
     (if s = [] then Some 0
      else let ps = split_on (CHR '':'') s in
        if list_all hex_group ps then Some (length ps)
        else if list_all hex_group (butlast ps) \<and> ipv4_text (last ps) then Some (length ps + 1)
        else None)"

fun split_double_colon :: "string \<Rightarrow> (string \<times> string) option" where
  "split_double_colon (a # b # r) =
     (if a = CHR '':'' \<and> b = CHR '':'' then Some ([], r)
      else map_option (\<lambda>(x, y). (a # x, y)) (split_double_colon (b # r)))"
| "split_double_colon _ = None"

definition ipv6_text :: "string \<Rightarrow> bool" where
  "ipv6_text s = (case split_double_colon s of
     None \<Rightarrow> group_count s = Some 8
   | Some (l, r) \<Rightarrow>
       (l = [] \<or> list_all hex_group (split_on (CHR '':'') l))
       \<and> (case (group_count l, group_count r) of
            (Some m, Some n) \<Rightarrow> m + n \<le> 7 | _ \<Rightarrow> False))"

definition parses_as_ip :: "string \<Rightarrow> bool" where
  "parses_as_ip s \<longleftrightarrow> ipv4_text s \<or> ipv6_text s"

definition reserved_tlds :: "string list" where
  "reserved_tlds = [''localhost'', ''local'', ''internal'', ''test'', ''invalid'', ''example'',
     ''onion'', ''arpa'', ''home'', ''lan'']"

definition dns_label :: "string \<Rightarrow> bool" where
  "dns_label label \<longleftrightarrow> label \<noteq> [] \<and> length label \<le> 63
     \<and> \<not> starts_with label ''-'' \<and> \<not> ends_with label ''-''
     \<and> list_all (\<lambda>b. is_ascii_alphanumeric b \<or> b = CHR ''-'') label"

definition trim_end_dots :: "string \<Rightarrow> string" where
  "trim_end_dots host = rev (dropWhile (\<lambda>c. c = CHR ''.'') (rev host))"

definition public_dns_name :: "string \<Rightarrow> bool" where
  "public_dns_name host0 =
     (let host = trim_end_dots host0 in
      if host = [] \<or> 253 < length host \<or> CHR ''.'' \<notin> set host \<or> parses_as_ip host then False
      else if last (split_on (CHR ''.'') host) \<in> set reserved_tlds then False
      else list_all dns_label (split_on (CHR ''.'') host))"

section \<open>Addresses\<close>

definition public_v4 :: "ipv4 \<Rightarrow> bool" where
  "public_v4 v = (case v of (a, b, c, d) \<Rightarrow>
     if a = 0 \<or> a = 10 \<or> a = 127 \<or> 224 \<le> a then False
     else if a = 100 then \<not> (64 \<le> b \<and> b \<le> 127)
     else if a = 169 then b \<noteq> 254
     else if a = 172 then \<not> (16 \<le> b \<and> b \<le> 31)
     else if a = 192 then
       b \<noteq> 0 \<and> b \<noteq> 168
       \<and> \<not> (b = 2 \<or> (b = 31 \<and> c = 196) \<or> (b = 52 \<and> c = 193) \<or> (b = 88 \<and> c = 99) \<or> (b = 175 \<and> c = 48))
     else if a = 198 then b \<noteq> 18 \<and> b \<noteq> 19 \<and> (b \<noteq> 51 \<or> c \<noteq> 100)
     else if a = 203 then b \<noteq> 0 \<or> c \<noteq> 113
     else True)"

definition ipv4_mapped :: "ipv6 \<Rightarrow> bool" where
  "ipv4_mapped s \<longleftrightarrow> take 5 s = [0, 0, 0, 0, 0] \<and> s ! 5 = 0xffff"

fun public_ip :: "ip_addr \<Rightarrow> bool" where
  "public_ip (V4 v) = public_v4 v"
| "public_ip (V6 s) =
     (if ipv4_mapped s then False
      else (s ! 0 AND 0xe000) = 0x2000
        \<and> \<not> (s ! 0 = 0x2001 \<and> (s ! 1 \<le> 0x01ff \<or> s ! 1 = 0x0db8))
        \<and> s ! 0 \<noteq> 0x2002
        \<and> s ! 0 \<noteq> 0x3fff
        \<and> \<not> (s ! 0 = 0x2620 \<and> s ! 1 = 0x004f \<and> s ! 2 = 0x8000))"

section \<open>Client identifiers\<close>

definition https_prefix :: string where "https_prefix = ''https://''"

definition raw_path :: "string \<Rightarrow> string option" where
  "raw_path after_scheme =
     (if CHR ''/'' \<in> set after_scheme then
        Some (takeWhile (\<lambda>c. c \<noteq> CHR ''?'' \<and> c \<noteq> CHR ''#'')
                (dropWhile (\<lambda>c. c \<noteq> CHR ''/'') after_scheme))
      else None)"

definition validate_client_id :: "libs \<Rightarrow> string \<Rightarrow> cimd_error + (url \<times> string \<times> nat)" where
  "validate_client_id L raw =
     (if raw = [] \<or> MAX_CLIENT_ID_BYTES < length raw \<or> \<not> starts_with raw https_prefix
         \<or> char_of (92::nat) \<in> set raw \<or> list_ex is_control (str_chars raw) then Inl InvalidUrl
      else case raw_path (drop (length https_prefix) raw) of None \<Rightarrow> Inl InvalidUrl
      | Some path \<Rightarrow>
        if list_ex (\<lambda>seg. seg = ''.'' \<or> seg = ''..'') (split_on (CHR ''/'') path) then Inl InvalidUrl
        else case url_parse L raw of None \<Rightarrow> Inl InvalidUrl
        | Some u \<Rightarrow>
          if url_as_str u \<noteq> raw \<or> url_scheme u \<noteq> ''https'' \<or> url_username u \<noteq> []
             \<or> url_password u \<noteq> None \<or> url_fragment u \<noteq> None \<or> url_query u \<noteq> None
          then Inl InvalidUrl
          else case url_host_of u of
              None \<Rightarrow> Inl InvalidUrl
            | Some (Domain host) \<Rightarrow>
                if \<not> public_dns_name host then Inl UnsafeDestination
                else (case url_port_or_known_default u of
                    None \<Rightarrow> Inl InvalidUrl
                  | Some port \<Rightarrow> Inr (u, host, port))
            | Some _ \<Rightarrow> Inl UnsafeDestination)"

section \<open>Documents\<close>

definition bidi_or_markup :: "nat \<Rightarrow> bool" where
  "bidi_or_markup c \<longleftrightarrow> (0x200b \<le> c \<and> c \<le> 0x200f) \<or> (0x202a \<le> c \<and> c \<le> 0x202e)
     \<or> (0x2066 \<le> c \<and> c \<le> 0x2069) \<or> c = 60 \<or> c = 62 \<or> c = 38"

definition safe_name :: "string \<Rightarrow> bool" where
  "safe_name name =
     (let n = trim name in
      n \<noteq> [] \<and> n = name \<and> length (str_chars n) \<le> 128
      \<and> \<not> list_ex (\<lambda>c. is_control c \<or> bidi_or_markup c) (str_chars n))"

definition ipv4_localhost :: ipv4 where "ipv4_localhost = (127, 0, 0, 1)"
definition ipv6_localhost :: ipv6 where "ipv6_localhost = [0, 0, 0, 0, 0, 0, 0, 1]"

definition cimd_safe_redirect :: "libs \<Rightarrow> string \<Rightarrow> bool" where
  "cimd_safe_redirect L raw =
     (if raw = [] \<or> 2048 < length raw then False
      else case url_parse L raw of None \<Rightarrow> False
      | Some u \<Rightarrow>
        if url_as_str u \<noteq> raw \<or> url_username u \<noteq> [] \<or> url_password u \<noteq> None \<or> url_fragment u \<noteq> None
        then False
        else if url_scheme u = ''https'' then
          (case url_host_of u of Some (Domain host) \<Rightarrow> public_dns_name host | _ \<Rightarrow> False)
        else if url_scheme u = ''http'' then
          (case url_host_of u of
             Some (Ipv4 ip) \<Rightarrow> ip = ipv4_localhost \<and> url_port u \<noteq> None
           | Some (Ipv6 ip) \<Rightarrow> ip = ipv6_localhost \<and> url_port u \<noteq> None
           | _ \<Rightarrow> False)
        else False)"

text \<open>The visitor of \<open>StrictObject\<close>: entries in order, a repeated field is an error.\<close>

fun strict_object :: "(string \<times> json) list \<Rightarrow> (string \<times> json) list \<Rightarrow> (string \<times> json) list option" where
  "strict_object object [] = Some object"
| "strict_object object ((key, value) # rest) =
     (if map_of object key \<noteq> None then None else strict_object ((key, value) # object) rest)"

definition grants_allow_refresh :: "json list \<Rightarrow> cimd_error + bool" where
  "grants_allow_refresh grants =
     (if grants = [] \<or> 2 < length grants
         \<or> (length grants = 2 \<and> grants ! 0 = grants ! 1)
         \<or> list_ex (\<lambda>v. as_str v \<noteq> Some ''authorization_code'' \<and> as_str v \<noteq> Some ''refresh_token'') grants
         \<or> \<not> list_ex (\<lambda>v. as_str v = Some ''authorization_code'') grants
      then Inl InvalidDocument
      else Inr (list_ex (\<lambda>v. as_str v = Some ''refresh_token'') grants))"

fun collect_redirects :: "libs \<Rightarrow> json list \<Rightarrow> string list \<Rightarrow> cimd_error + string list" where
  "collect_redirects L [] uris = Inr uris"
| "collect_redirects L (item # items) uris =
     (case as_str item of None \<Rightarrow> Inl InvalidDocument
      | Some raw \<Rightarrow>
        if \<not> cimd_safe_redirect L raw \<or> raw \<in> set uris then Inl InvalidDocument
        else collect_redirects L items (uris @ [raw]))"

definition obj_get :: "(string \<times> json) list \<Rightarrow> string \<Rightarrow> cimd_error + json" where
  "obj_get obj key = ok_or InvalidDocument (map_of obj key)"

definition obj_str :: "(string \<times> json) list \<Rightarrow> string \<Rightarrow> cimd_error + string" where
  "obj_str obj key = and_then (obj_get obj key) (\<lambda>v. ok_or InvalidDocument (as_str v))"

definition document_grants :: "(string \<times> json) list \<Rightarrow> cimd_error + bool" where
  "document_grants obj = (case map_of obj ''grant_types'' of
     None \<Rightarrow> Inr False
   | Some v \<Rightarrow> and_then (ok_or InvalidDocument (as_array v)) grants_allow_refresh)"

definition bad_response_types :: "(string \<times> json) list \<Rightarrow> bool" where
  "bad_response_types obj = is_some_and (map_of obj ''response_types'')
     (\<lambda>v. is_none_or (as_array v) (\<lambda>a. length a \<noteq> 1 \<or> as_str (a ! 0) \<noteq> Some ''code''))"

definition validate_document :: "libs \<Rightarrow> string \<Rightarrow> string \<Rightarrow> cimd_error + client_metadata_document" where
  "validate_document L client_id body =
     and_then (ok_or InvalidDocument
                (case json_entries L body of None \<Rightarrow> None | Some es \<Rightarrow> strict_object [] es)) (\<lambda>obj.
     and_then (obj_str obj ''client_id'') (\<lambda>id.
     and_then (obj_str obj ''client_name'') (\<lambda>name.
       if id \<noteq> client_id \<or> \<not> safe_name name then Inl InvalidDocument
       else if map_of obj ''client_secret'' \<noteq> None \<or> map_of obj ''client_secret_expires_at'' \<noteq> None
             \<or> map_of obj ''jwks'' \<noteq> None \<or> map_of obj ''jwks_uri'' \<noteq> None then Inl InvalidDocument
       else if Option.bind (map_of obj ''token_endpoint_auth_method'') as_str \<noteq> Some ''none''
       then Inl InvalidDocument
       else and_then (document_grants obj) (\<lambda>refresh_allowed.
         if bad_response_types obj then Inl InvalidDocument
         else and_then (and_then (obj_get obj ''redirect_uris'') (\<lambda>v. ok_or InvalidDocument (as_array v)))
           (\<lambda>redirects.
             if redirects = [] \<or> MAX_REDIRECTS < length redirects then Inl InvalidDocument
             else and_then (collect_redirects L redirects []) (\<lambda>redirect_uris.
               Inr \<lparr>doc_client_id = id, doc_client_name = name,
                    doc_redirect_uris = redirect_uris, doc_refresh_allowed = refresh_allowed\<rparr>))))))"

section \<open>Cache lifetime\<close>

definition unquote :: "string \<Rightarrow> string" where
  "unquote value =
     (if starts_with value [CHR 0x22] \<and> ends_with value [CHR 0x22] \<and> 2 \<le> length value
      then take (length value - 2) (drop 1 value) else value)"

definition directive_parts :: "string \<Rightarrow> string \<times> string option" where
  "directive_parts directive = (case split_once (CHR ''='') directive of
     None \<Rightarrow> (directive, None) | Some (name, value) \<Rightarrow> (trim name, Some (trim value)))"

definition uncacheable_names :: "string list" where
  "uncacheable_names = [''no-store'', ''no-cache'', ''private'']"

fun ttl_directives :: "string list \<Rightarrow> nat option \<Rightarrow> nat option option" where
  "ttl_directives [] maximum_age = Some maximum_age"
| "ttl_directives (directive # rest) maximum_age =
     (if directive = [] \<or> CHR '';'' \<in> set directive then None
      else let (name, value0) = directive_parts directive; value = map_option unquote value0 in
        if name = [] \<or> \<not> list_all (\<lambda>b. is_ascii_alphanumeric b \<or> b = CHR ''-'') name then None
        else if to_ascii_lowercase name \<in> set uncacheable_names then None
        else if is_some_and value (\<lambda>v. v = [] \<or> \<not> list_all is_ascii_graphic v \<or> CHR 0x22 \<in> set v)
        then None
        else if to_ascii_lowercase name = ''max-age'' then
          (case Option.bind value (parse_uint u64_max) of
             None \<Rightarrow> None
           | Some secs \<Rightarrow> ttl_directives rest
               (Some (case maximum_age of None \<Rightarrow> secs | Some current \<Rightarrow> min current secs)))
        else ttl_directives rest maximum_age)"

definition cache_ttl :: "string list option \<Rightarrow> nat \<Rightarrow> nat option" where
  "cache_ttl headers response_age = (case headers of None \<Rightarrow> None
   | Some field_values \<Rightarrow>
     (case ttl_directives (map trim (concat (map (split_on (CHR '','')) field_values))) None of
        Some (Some maximum_age) \<Rightarrow>
          (let ttl = min maximum_age MAX_CACHE_TTL in
           if response_age < ttl then Some (ttl - response_age) else None)
      | _ \<Rightarrow> None))"

end
