(* ===== verification/OAuth_Policy.thy ===== *)
theory OAuth_Policy
  imports Cimd
begin

text \<open>
  \<open>src/src/oauth.rs\<close>, the value-level policy: PKCE verifiers and challenges, scope tokens,
  safe URLs, registered redirects and the redirect comparison with its loopback exception.
  The client registry built on it is in \<open>Registry\<close>.
\<close>

section \<open>Data\<close>

datatype redirect_kind = Exact | NativeLoopback | AppClaimedHttps

datatype authorization_flow = Interactive | GooglePreauthorized

datatype logout_flow = LogoutInteractive | IdTokenHint

datatype oauth_error =
    MetadataExpired
  | InvalidClientDeclaration
  | UnknownClient
  | UnsupportedResponseType
  | UnsupportedPkceMethod
  | InvalidPkce
  | InvalidRedirect
  | InvalidScope
  | InvalidResource
  | ConsentRequired

record registered_redirect =
  rr_uri :: string
  rr_kind :: redirect_kind

section \<open>PKCE\<close>

definition pkce_verifier_char :: "char \<Rightarrow> bool" where
  "pkce_verifier_char b \<longleftrightarrow> is_ascii_alphanumeric b \<or> b \<in> set ''-._~''"

definition validate_pkce_verifier :: "string \<Rightarrow> oauth_error + unit" where
  "validate_pkce_verifier value =
     (if 43 \<le> length value \<and> length value \<le> 128 \<and> list_all pkce_verifier_char value
      then Inr () else Inl InvalidPkce)"

definition validate_pkce_challenge :: "libs \<Rightarrow> string \<Rightarrow> oauth_error + unit" where
  "validate_pkce_challenge L value =
     (if length value \<noteq> 43 \<or> \<not> list_all (\<lambda>b. is_ascii_alphanumeric b \<or> b \<in> set ''-_'') value
      then Inl InvalidPkce
      else case b64_decode L value of
          None \<Rightarrow> Inl InvalidPkce
        | Some decoded \<Rightarrow>
            if length decoded = 32 \<and> b64_encode L decoded = value then Inr () else Inl InvalidPkce)"

definition s256_challenge :: "libs \<Rightarrow> string \<Rightarrow> oauth_error + string" where
  "s256_challenge L verifier =
     and_then (validate_pkce_verifier verifier) (\<lambda>_. Inr (b64_encode L (sha256 L verifier)))"

definition verify_s256 :: "libs \<Rightarrow> string \<Rightarrow> string \<Rightarrow> bool" where
  "verify_s256 L verifier expected =
     (case s256_challenge L verifier of
        Inl _ \<Rightarrow> False
      | Inr actual \<Rightarrow> is_ok (validate_pkce_challenge L expected) \<and> actual = expected)"

section \<open>Scope tokens\<close>

definition scope_char :: "char \<Rightarrow> bool" where
  "scope_char b \<longleftrightarrow> byte b = 33 \<or> (35 \<le> byte b \<and> byte b \<le> 91) \<or> (93 \<le> byte b \<and> byte b \<le> 126)"

definition valid_scope_token :: "string \<Rightarrow> bool" where
  "valid_scope_token scope \<longleftrightarrow> scope \<noteq> [] \<and> list_all scope_char scope"

section \<open>URLs\<close>

definition safe_url :: "libs \<Rightarrow> string \<Rightarrow> url option" where
  "safe_url L raw = (case url_parse L raw of None \<Rightarrow> None
     | Some u \<Rightarrow>
       if url_cannot_be_a_base u \<or> url_host_of u = None \<or> url_username u \<noteq> []
          \<or> url_password u \<noteq> None \<or> url_fragment u \<noteq> None
       then None else Some u)"

definition safe_redirect :: "libs \<Rightarrow> string \<Rightarrow> url option" where
  "safe_redirect L raw = (case url_parse L raw of None \<Rightarrow> None
     | Some u \<Rightarrow>
       if url_scheme u = [] \<or> url_username u \<noteq> [] \<or> url_password u \<noteq> None \<or> url_fragment u \<noteq> None
       then None else Some u)"

definition safe_security_identifier :: "libs \<Rightarrow> string \<Rightarrow> bool" where
  "safe_security_identifier L raw =
     (case safe_url L raw of None \<Rightarrow> False
      | Some u \<Rightarrow> url_scheme u = ''https'' \<and> url_query u = None)"

section \<open>Loopback redirects\<close>

definition authority_char :: "char \<Rightarrow> bool" where
  "authority_char c \<longleftrightarrow> c \<notin> set ''/?#''"

definition v6_host :: string where "v6_host = ''[::1]''"
definition v4_host :: string where "v4_host = ''127.0.0.1''"

definition host_and_port :: "string \<Rightarrow> (string \<times> string) option" where
  "host_and_port authority = (case strip_prefix v6_host authority of
     Some after \<Rightarrow> Some (v6_host, after)
   | None \<Rightarrow> map_option (\<lambda>after. (v4_host, after)) (strip_prefix v4_host authority))"

definition port_digits_ok :: "string \<Rightarrow> bool" where
  "port_digits_ok port \<longleftrightarrow> port \<noteq> [] \<and> list_all is_ascii_digit port
     \<and> is_some_and (parse_uint u16_max port) (\<lambda>p. p \<noteq> 0)"

definition loopback_parts :: "string \<Rightarrow> (string \<times> string) option" where
  "loopback_parts raw = (case strip_prefix http_prefix raw of None \<Rightarrow> None
     | Some rest \<Rightarrow>
       let authority = takeWhile authority_char rest; suffix = dropWhile authority_char rest in
       if starts_with suffix ''#'' then None
       else (case host_and_port authority of None \<Rightarrow> None
         | Some (host, port) \<Rightarrow>
           if port = [] then Some (host, suffix)
           else (case strip_prefix '':'' port of None \<Rightarrow> None
             | Some port \<Rightarrow> if port_digits_ok port then Some (host, suffix) else None)))"

definition new_registered_redirect :: "libs \<Rightarrow> string \<Rightarrow> redirect_kind \<Rightarrow> oauth_error + registered_redirect" where
  "new_registered_redirect L uri kind =
     (case safe_redirect L uri of None \<Rightarrow> Inl InvalidClientDeclaration
      | Some parsed \<Rightarrow>
        if kind = NativeLoopback \<and> (url_scheme parsed \<noteq> ''http'' \<or> loopback_parts uri = None)
        then Inl InvalidClientDeclaration
        else if kind = AppClaimedHttps
          \<and> (url_scheme parsed \<noteq> ''https''
             \<or> \<not> (case url_host_of parsed of Some (Domain host) \<Rightarrow> host \<noteq> ''localhost'' | _ \<Rightarrow> False))
        then Inl InvalidClientDeclaration
        else Inr \<lparr>rr_uri = uri, rr_kind = kind\<rparr>)"

definition redirect_matches :: "libs \<Rightarrow> registered_redirect \<Rightarrow> string \<Rightarrow> bool" where
  "redirect_matches L registered actual =
     (if safe_redirect L actual = None then False
      else if rr_uri registered = actual then True
      else if rr_kind registered \<noteq> NativeLoopback then False
      else (case loopback_parts (rr_uri registered) of None \<Rightarrow> False
        | Some (registered_host, registered_suffix) \<Rightarrow>
          (case loopback_parts actual of None \<Rightarrow> False
           | Some (actual_host, actual_suffix) \<Rightarrow>
               registered_host = actual_host \<and> registered_suffix = actual_suffix)))"

section \<open>PKCE lemmas\<close>

lemma validate_pkce_verifier_Inr:
  "validate_pkce_verifier v = Inr u \<longleftrightarrow>
     43 \<le> length v \<and> length v \<le> 128 \<and> list_all pkce_verifier_char v"
  by (auto simp: validate_pkce_verifier_def)

lemma s256_challenge_Inr:
  "s256_challenge L v = Inr c \<longleftrightarrow>
     is_ok (validate_pkce_verifier v) \<and> c = b64_encode L (sha256 L v)"
  by (auto simp: s256_challenge_def and_then_Inr_iff is_ok_iff)

lemma encoded_digest_is_challenge:
  assumes "base64_laws L" and "length d = 32"
  shows "validate_pkce_challenge L (b64_encode L d) = Inr ()"
proof -
  have "list_all b64url_char (b64_encode L d)" and "b64_decode L (b64_encode L d) = Some d"
    and "length (b64_encode L d) = 43"
    using assms by (simp_all add: base64_laws_def)
  then show ?thesis
    using assms(2) by (auto simp: validate_pkce_challenge_def b64url_char_def list_all_iff)
qed

lemma verify_s256_iff:
  assumes "base64_laws L" and "sha256_laws L"
  shows "verify_s256 L v c \<longleftrightarrow>
    is_ok (validate_pkce_verifier v) \<and> c = b64_encode L (sha256 L v)"
proof -
  have "validate_pkce_challenge L (b64_encode L (sha256 L v)) = Inr ()"
    using assms by (simp add: encoded_digest_is_challenge sha256_laws_def)
  then show ?thesis
    by (auto simp: verify_s256_def s256_challenge_def and_then_def split: sum.splits)
qed

lemma verify_s256_sound:
  "verify_s256 L v c \<Longrightarrow> c = b64_encode L (sha256 L v) \<and> 43 \<le> length v \<and> length v \<le> 128"
  by (auto simp: verify_s256_def s256_challenge_Inr is_ok_iff validate_pkce_verifier_Inr
      split: sum.splits)

section \<open>Loopback lemmas\<close>

lemma authority_suffix_unique:
  assumes "\<forall>c \<in> set a. authority_char c" and "s = [] \<or> \<not> authority_char (hd s)"
  shows "takeWhile authority_char (a @ s) = a" and "dropWhile authority_char (a @ s) = s"
  using assms by (cases s; simp add: takeWhile_append2 dropWhile_append2)+

lemma digit_authority: "is_ascii_digit c \<Longrightarrow> authority_char c"
  by (auto simp: is_ascii_digit_def authority_char_def)

lemma suffix_head: "dropWhile P xs = [] \<or> \<not> P (hd (dropWhile P xs))"
  using hd_dropWhile [of P xs] by blast

lemma host_and_port_Some_iff:
  "host_and_port a = Some (h, p) \<longleftrightarrow> h \<in> {v6_host, v4_host} \<and> a = h @ p"
proof -
  have "\<not> (\<exists>x y. v6_host @ x = v4_host @ y)" by (simp add: v6_host_def v4_host_def)
  then show ?thesis
    by (auto simp: host_and_port_def strip_prefix_Some_iff strip_prefix_None_iff split: option.splits)
qed

lemma parse_uint_digits:
  assumes "ds \<noteq> []" and "list_all is_ascii_digit ds"
  shows "parse_uint m ds = (if digits_value ds \<le> m then Some (digits_value ds) else None)"
proof -
  from assms obtain c r where c: "ds = c # r" "is_ascii_digit c" by (cases ds) auto
  then have "c \<noteq> CHR ''+''" by (auto simp: is_ascii_digit_def)
  with assms c show ?thesis by (auto simp: parse_uint_def Let_def)
qed

lemma port_digits_ok_iff:
  "port_digits_ok ds \<longleftrightarrow> ds \<noteq> [] \<and> list_all is_ascii_digit ds
     \<and> 1 \<le> digits_value ds \<and> digits_value ds \<le> u16_max"
  by (auto simp: port_digits_ok_def parse_uint_digits split: if_splits)

definition loopback_port :: "string \<Rightarrow> bool" where
  "loopback_port p \<longleftrightarrow> p = [] \<or> (\<exists>ds. p = CHR '':'' # ds \<and> ds \<noteq> [] \<and> list_all is_ascii_digit ds
     \<and> 1 \<le> digits_value ds \<and> digits_value ds \<le> u16_max)"

definition loopback_uri :: "string \<Rightarrow> string \<Rightarrow> string \<Rightarrow> string" where
  "loopback_uri host port suffix = http_prefix @ host @ port @ suffix"

lemma loopback_port_authority: "loopback_port p \<Longrightarrow> \<forall>c \<in> set p. authority_char c"
proof -
  assume "loopback_port p"
  moreover have "authority_char (CHR '':'')" by (simp add: authority_char_def)
  ultimately show ?thesis by (auto simp: loopback_port_def list_all_iff digit_authority)
qed

lemma loopback_host_authority: "h \<in> {v6_host, v4_host} \<Longrightarrow> \<forall>c \<in> set h. authority_char c"
  by (auto simp: v6_host_def v4_host_def authority_char_def)

definition loopback_suffix :: "string \<Rightarrow> bool" where
  "loopback_suffix s \<longleftrightarrow> s = [] \<or> hd s = CHR ''/'' \<or> hd s = CHR ''?''"

lemma loopback_parts_sound:
  assumes "loopback_parts raw = Some (h, s)"
  shows "h \<in> {v6_host, v4_host} \<and> loopback_suffix s \<and> (\<exists>p. loopback_port p \<and> raw = loopback_uri h p s)"
proof -
  from assms obtain rest where rest: "raw = http_prefix @ rest"
    by (auto simp: loopback_parts_def strip_prefix_Some_iff split: option.splits)
  let ?a = "takeWhile authority_char rest" and ?s = "dropWhile authority_char rest"
  from assms rest obtain p where p: "host_and_port ?a = Some (h, p)" "s = ?s" "\<not> starts_with ?s ''#''"
    "p = [] \<or> (\<exists>ds. p = CHR '':'' # ds \<and> port_digits_ok ds)"
    by (auto simp: loopback_parts_def Let_def strip_prefix_Some_iff split: option.splits if_splits)
  have s: "loopback_suffix s"
    using suffix_head [of authority_char rest] p(2,3)
    by (cases ?s) (auto simp: loopback_suffix_def authority_char_def)
  have h: "h \<in> {v6_host, v4_host}" "?a = h @ p"
    using p(1) by (simp_all add: host_and_port_Some_iff)
  have "loopback_port p"
    using p(4) by (auto simp: loopback_port_def port_digits_ok_iff)
  moreover have "raw = loopback_uri h p s"
    using h(2) p(2) rest takeWhile_dropWhile_id [of authority_char rest] by (simp add: loopback_uri_def)
  ultimately show ?thesis using h(1) s by blast
qed

lemma loopback_parts_complete:
  assumes h: "h \<in> {v6_host, v4_host}" and s: "loopback_suffix s" and p: "loopback_port p"
  shows "loopback_parts (loopback_uri h p s) = Some (h, s)"
proof -
  let ?rest = "(h @ p) @ s"
  have head: "s = [] \<or> \<not> authority_char (hd s)"
    using s by (auto simp: loopback_suffix_def authority_char_def)
  have all: "\<forall>c \<in> set (h @ p). authority_char c"
    using loopback_host_authority [OF h] loopback_port_authority [OF p] by auto
  have parts: "takeWhile authority_char ?rest = h @ p" "dropWhile authority_char ?rest = s"
    using authority_suffix_unique [OF all head] by auto
  have "\<not> starts_with s ''#''"
    using s by (cases s) (auto simp: loopback_suffix_def)
  moreover have "host_and_port (h @ p) = Some (h, p)"
    using h by (simp add: host_and_port_Some_iff)
  moreover have "p = [] \<or> (\<exists>ds. p = CHR '':'' # ds \<and> port_digits_ok ds)"
    using p by (auto simp: loopback_port_def port_digits_ok_iff)
  moreover have "strip_prefix http_prefix (loopback_uri h p s) = Some ?rest"
    by (simp add: loopback_uri_def strip_prefix_Some_iff)
  ultimately show ?thesis
    using parts by (auto simp: loopback_parts_def Let_def strip_prefix_Some_iff)
qed

lemma loopback_parts_iff:
  "loopback_parts raw = Some (h, s) \<longleftrightarrow>
     h \<in> {v6_host, v4_host} \<and> loopback_suffix s \<and> (\<exists>p. loopback_port p \<and> raw = loopback_uri h p s)"
  using loopback_parts_sound loopback_parts_complete by blast

end
