(* ===== verification/Registry.thy ===== *)
theory Registry
  imports OAuth_Policy "HOL-Library.AList"
begin

text \<open>
  \<open>src/src/oauth.rs\<close>, the client registry: first-party clients, the request-local projection
  of a dynamic (CIMD) client, validation of authorization requests into pending grants, and
  the approval of a pending grant.  A \<open>HashMap\<close> is an association list with the library's
  update, a \<open>BTreeSet\<close> is a set whose iteration order is \<open>btree_list\<close>.  An argument
  \<open>now\<close> is the monotonic instant that \<open>is_fresh\<close> reads in that call.
\<close>

section \<open>Data\<close>

record first_party_client =
  fpc_id :: string
  fpc_display_name :: string
  fpc_redirects :: "registered_redirect list"
  fpc_scopes :: "string set"
  fpc_resources :: "string set"
  fpc_default_resource :: "string option"
  fpc_browser_origins :: "string set"
  fpc_post_logout_redirects :: "string set"
  fpc_authorization_flow :: authorization_flow
  fpc_logout_flow :: logout_flow

record resolved_cimd_policy =
  rcp_snapshot :: leased_client_metadata
  rcp_binding :: cimd_security_binding

record client_registry =
  reg_clients :: "(string \<times> first_party_client) list"
  reg_userinfo_resource :: "string option"
  reg_dynamic :: "resolved_cimd_policy option"

record authorization_request =
  ar_client_id :: string
  ar_redirect_uri :: string
  ar_response_type :: string
  ar_code_challenge_method :: string
  ar_code_challenge :: string
  ar_scopes :: "string list"
  ar_resource :: "string option"

record pending_authorization_grant =
  pg_client_id :: string
  pg_redirect_uri :: string
  pg_scopes :: "string list"
  pg_resource :: string
  pg_code_challenge :: string
  pg_dynamic :: "resolved_cimd_policy option"

record validated_authorization_grant =
  vg_client_id :: string
  vg_redirect_uri :: string
  vg_scopes :: "string list"
  vg_resource :: string
  vg_code_challenge :: string
  vg_issue_refresh_token :: bool
  vg_dynamic :: "resolved_cimd_policy option"

text \<open>Serialisation of a binding by \<open>serde_json\<close>, and its reading back.\<close>

record binding_codec =
  binding_to_json :: "cimd_security_binding \<Rightarrow> string"
  binding_of_json :: "string \<Rightarrow> cimd_security_binding option"
  jsonb_text :: "string \<Rightarrow> string"

text \<open>What is written through a \<open>jsonb\<close> column reads back as the same binding.\<close>

definition binding_laws :: "binding_codec \<Rightarrow> bool" where
  "binding_laws B \<longleftrightarrow> (\<forall>b. binding_of_json B (jsonb_text B (binding_to_json B b)) = Some b)"

section \<open>First-party clients\<close>

definition bad_browser_origin :: "libs \<Rightarrow> string \<Rightarrow> bool" where
  "bad_browser_origin L origin \<longleftrightarrow> safe_url L origin = None
     \<or> is_some_and (url_parse L origin) (\<lambda>u. url_path u \<noteq> ''/'' \<or> url_query u \<noteq> None)"

definition with_authorization_flow ::
  "libs \<Rightarrow> string \<Rightarrow> string \<Rightarrow> registered_redirect list \<Rightarrow> string list \<Rightarrow> string list
    \<Rightarrow> string option \<Rightarrow> string list \<Rightarrow> string list \<Rightarrow> authorization_flow
    \<Rightarrow> oauth_error + first_party_client" where
  "with_authorization_flow L cid display_name redirects scopes resources default_resource
       browser_origins post_logout_redirects flow =
     (if cid = [] \<or> trim display_name = [] \<or> redirects = [] \<or> scopes = []
         \<or> (\<exists>s \<in> set scopes. \<not> valid_scope_token s)
      then Inl InvalidClientDeclaration
      else if is_some_and default_resource (\<lambda>r. r \<notin> set resources)
         \<or> (\<exists>r \<in> set resources. \<not> safe_security_identifier L r)
         \<or> (\<exists>ob \<in> set browser_origins. bad_browser_origin L ob)
         \<or> (\<exists>r \<in> set post_logout_redirects. safe_redirect L r = None)
      then Inl InvalidClientDeclaration
      else Inr \<lparr>fpc_id = cid, fpc_display_name = display_name, fpc_redirects = redirects,
                fpc_scopes = set scopes, fpc_resources = set resources,
                fpc_default_resource = default_resource,
                fpc_browser_origins = set browser_origins,
                fpc_post_logout_redirects = set post_logout_redirects,
                fpc_authorization_flow = flow, fpc_logout_flow = LogoutInteractive\<rparr>)"

definition new_first_party_client ::
  "libs \<Rightarrow> string \<Rightarrow> string \<Rightarrow> registered_redirect list \<Rightarrow> string list \<Rightarrow> string list
    \<Rightarrow> string option \<Rightarrow> string list \<Rightarrow> string list \<Rightarrow> oauth_error + first_party_client" where
  "new_first_party_client L cid display_name redirects scopes resources default_resource
       browser_origins post_logout_redirects =
     with_authorization_flow L cid display_name redirects scopes resources default_resource
       browser_origins post_logout_redirects Interactive"

definition with_logout_flow :: "first_party_client \<Rightarrow> logout_flow \<Rightarrow> first_party_client" where
  "with_logout_flow client flow = client\<lparr>fpc_logout_flow := flow\<rparr>"

section \<open>Building a registry\<close>

fun insert_clients ::
  "(string \<times> first_party_client) list \<Rightarrow> first_party_client list
    \<Rightarrow> oauth_error + (string \<times> first_party_client) list" where
  "insert_clients m [] = Inr m"
| "insert_clients m (client # clients) =
     (if map_of m (fpc_id client) \<noteq> None then Inl InvalidClientDeclaration
      else insert_clients (AList.update (fpc_id client) client m) clients)"

definition build_registry :: "first_party_client list \<Rightarrow> string option \<Rightarrow> oauth_error + client_registry" where
  "build_registry clients userinfo_resource =
     and_then (insert_clients [] clients) (\<lambda>m.
       Inr \<lparr>reg_clients = m, reg_userinfo_resource = userinfo_resource, reg_dynamic = None\<rparr>)"

definition new_registry :: "first_party_client list \<Rightarrow> oauth_error + client_registry" where
  "new_registry clients = build_registry clients None"

definition registry_with_issuer :: "libs \<Rightarrow> first_party_client list \<Rightarrow> url \<Rightarrow> oauth_error + client_registry" where
  "registry_with_issuer L clients issuer =
     and_then (ok_or InvalidClientDeclaration (url_join L issuer ''userinfo'')) (\<lambda>u.
       build_registry clients (Some (url_as_str u)))"

section \<open>Queries\<close>

definition client_of :: "client_registry \<Rightarrow> string \<Rightarrow> first_party_client option" where
  "client_of reg client_id = map_of (reg_clients reg) client_id"

definition contains_client :: "client_registry \<Rightarrow> string \<Rightarrow> bool" where
  "contains_client reg client_id \<longleftrightarrow> client_of reg client_id \<noteq> None"

definition pre_authorizes :: "client_registry \<Rightarrow> pending_authorization_grant \<Rightarrow> bool" where
  "pre_authorizes reg pending \<longleftrightarrow>
     pg_dynamic pending = None \<and> reg_dynamic reg = None
     \<and> is_some_and (client_of reg (pg_client_id pending)) (\<lambda>client.
         fpc_authorization_flow client = GooglePreauthorized
         \<and> (\<exists>redirect \<in> set (fpc_redirects client).
              rr_kind redirect = AppClaimedHttps \<and> rr_uri redirect = pg_redirect_uri pending)
         \<and> pg_resource pending \<in> fpc_resources client
         \<and> (\<forall>scope \<in> set (pg_scopes pending). scope \<in> fpc_scopes client))"

definition trusted_redirect :: "libs \<Rightarrow> client_registry \<Rightarrow> string \<Rightarrow> string \<Rightarrow> bool" where
  "trusted_redirect L reg client_id uri \<longleftrightarrow>
     is_some_and (client_of reg client_id) (\<lambda>c. \<exists>r \<in> set (fpc_redirects c). redirect_matches L r uri)"

definition allows_id_token_logout :: "client_registry \<Rightarrow> string \<Rightarrow> bool" where
  "allows_id_token_logout reg client_id \<longleftrightarrow>
     is_some_and (client_of reg client_id) (\<lambda>c. fpc_logout_flow c = IdTokenHint)"

definition valid_post_logout_redirect :: "client_registry \<Rightarrow> string \<Rightarrow> string \<Rightarrow> bool" where
  "valid_post_logout_redirect reg client_id uri \<longleftrightarrow>
     is_some_and (client_of reg client_id) (\<lambda>c. uri \<in> fpc_post_logout_redirects c)"

definition valid_browser_origin :: "client_registry \<Rightarrow> string \<Rightarrow> string \<Rightarrow> bool" where
  "valid_browser_origin reg client_id origin \<longleftrightarrow>
     is_some_and (client_of reg client_id) (\<lambda>c. origin \<in> fpc_browser_origins c)"

definition reviewed_browser_origin :: "client_registry \<Rightarrow> string \<Rightarrow> bool" where
  "reviewed_browser_origin reg origin \<longleftrightarrow>
     (\<exists>kv \<in> set (reg_clients reg). origin \<in> fpc_browser_origins (snd kv))"

definition client_display_name :: "client_registry \<Rightarrow> string \<Rightarrow> string option" where
  "client_display_name reg client_id = map_option fpc_display_name (client_of reg client_id)"

definition advertised_scopes :: "client_registry \<Rightarrow> string set" where
  "advertised_scopes reg = (\<Union>kv \<in> set (reg_clients reg). fpc_scopes (snd kv))"

text \<open>The dynamic policy, where it is about this client.\<close>

definition dynamic_for :: "client_registry \<Rightarrow> string \<Rightarrow> resolved_cimd_policy option" where
  "dynamic_for reg client_id = (case reg_dynamic reg of None \<Rightarrow> None
     | Some d \<Rightarrow> if doc_client_id (lease_document (rcp_snapshot d)) = client_id then Some d else None)"

definition policy_fresh :: "nat \<Rightarrow> resolved_cimd_policy option \<Rightarrow> oauth_error + unit" where
  "policy_fresh now dynamic =
     (if is_some_and dynamic (\<lambda>d. \<not> is_fresh now (rcp_snapshot d)) then Inl MetadataExpired else Inr ())"

definition registry_ensure_fresh :: "nat \<Rightarrow> client_registry \<Rightarrow> oauth_error + unit" where
  "registry_ensure_fresh now reg = policy_fresh now (reg_dynamic reg)"

definition validate_binding ::
  "binding_codec \<Rightarrow> nat \<Rightarrow> client_registry \<Rightarrow> string \<Rightarrow> string option \<Rightarrow> oauth_error + unit" where
  "validate_binding B now reg client_id stored =
     and_then (registry_ensure_fresh now reg) (\<lambda>_.
       if \<not> contains_client reg client_id then Inl UnknownClient
       else (case (dynamic_for reg client_id, stored) of
           (None, None) \<Rightarrow> Inr ()
         | (Some current, Some text) \<Rightarrow>
             and_then (ok_or InvalidClientDeclaration (binding_of_json B text)) (\<lambda>binding.
               if binding = rcp_binding current then Inr () else Inl InvalidClientDeclaration)
         | _ \<Rightarrow> Inl InvalidClientDeclaration))"

definition resource_allowed :: "client_registry \<Rightarrow> first_party_client \<Rightarrow> string set \<Rightarrow> string \<Rightarrow> bool" where
  "resource_allowed reg client requested resource \<longleftrightarrow>
     resource \<in> fpc_resources client
     \<or> (''openid'' \<in> requested \<and> reg_userinfo_resource reg = Some resource)"

definition permits_refresh :: "client_registry \<Rightarrow> string \<Rightarrow> string list \<Rightarrow> string \<Rightarrow> bool" where
  "permits_refresh reg client_id scopes resource =
     (case client_of reg client_id of None \<Rightarrow> False
      | Some client \<Rightarrow>
        if dynamic_for reg client_id \<noteq> None \<and> resource \<notin> fpc_resources client then False
        else card (set scopes) = length scopes \<and> set scopes \<subseteq> fpc_scopes client
          \<and> resource_allowed reg client (set scopes) resource)"

section \<open>Validation of requests\<close>

definition effective_resource ::
  "client_registry \<Rightarrow> first_party_client \<Rightarrow> string set \<Rightarrow> string option \<Rightarrow> string option" where
  "effective_resource reg client requested resource = (case resource of
     Some r \<Rightarrow> Some r
   | None \<Rightarrow> (case fpc_default_resource client of
       Some r \<Rightarrow> Some r
     | None \<Rightarrow> if ''openid'' \<in> requested then reg_userinfo_resource reg else None))"

definition validate_pending_parts ::
  "libs \<Rightarrow> nat \<Rightarrow> client_registry \<Rightarrow> string \<Rightarrow> string \<Rightarrow> string \<Rightarrow> string \<Rightarrow> string \<Rightarrow> string list
    \<Rightarrow> string option \<Rightarrow> oauth_error + pending_authorization_grant" where
  "validate_pending_parts L now reg client_id redirect_uri response_type method challenge scopes resource =
     and_then (registry_ensure_fresh now reg) (\<lambda>_.
     if dynamic_for reg client_id \<noteq> None \<and> resource = None then Inl InvalidResource
     else and_then (ok_or UnknownClient (client_of reg client_id)) (\<lambda>client.
     if response_type \<noteq> ''code'' then Inl UnsupportedResponseType
     else if method \<noteq> ''S256'' then Inl UnsupportedPkceMethod
     else and_then (validate_pkce_challenge L challenge) (\<lambda>_.
     if \<not> (\<exists>r \<in> set (fpc_redirects client). redirect_matches L r redirect_uri) then Inl InvalidRedirect
     else if card (set scopes) \<noteq> length scopes \<or> scopes = []
        \<or> (\<exists>s \<in> set scopes. \<not> valid_scope_token s) \<or> \<not> set scopes \<subseteq> fpc_scopes client
     then Inl InvalidScope
     else and_then (ok_or InvalidResource (effective_resource reg client (set scopes) resource)) (\<lambda>resource.
     if dynamic_for reg client_id \<noteq> None \<and> resource \<notin> fpc_resources client then Inl InvalidResource
     else if \<not> resource_allowed reg client (set scopes) resource then Inl InvalidResource
     else Inr \<lparr>pg_client_id = fpc_id client, pg_redirect_uri = redirect_uri,
               pg_scopes = btree_list scopes, pg_resource = resource,
               pg_code_challenge = challenge, pg_dynamic = dynamic_for reg client_id\<rparr>))))"

definition validate_pending ::
  "libs \<Rightarrow> nat \<Rightarrow> client_registry \<Rightarrow> authorization_request \<Rightarrow> oauth_error + pending_authorization_grant" where
  "validate_pending L now reg request =
     validate_pending_parts L now reg (ar_client_id request) (ar_redirect_uri request)
       (ar_response_type request) (ar_code_challenge_method request)
       (ar_code_challenge request) (ar_scopes request) (ar_resource request)"

definition revalidate_pending ::
  "libs \<Rightarrow> nat \<Rightarrow> client_registry \<Rightarrow> pending_authorization_grant \<Rightarrow> oauth_error + pending_authorization_grant" where
  "revalidate_pending L now reg p =
     validate_pending_parts L now reg (pg_client_id p) (pg_redirect_uri p) ''code'' ''S256''
       (pg_code_challenge p) (pg_scopes p) (Some (pg_resource p))"

section \<open>Dynamic clients\<close>

definition declared_name :: string where
  "declared_name = [CHR '' '', CHR 0xC2, CHR 0xB7, CHR '' ''] @ ''nombre declarado: ''"

definition cimd_registered_redirect :: "libs \<Rightarrow> string \<Rightarrow> oauth_error + registered_redirect" where
  "cimd_registered_redirect L uri =
     new_registered_redirect L uri (if starts_with uri http_prefix then NativeLoopback else Exact)"

definition project_cimd ::
  "libs \<Rightarrow> nat \<Rightarrow> client_registry \<Rightarrow> leased_client_metadata \<Rightarrow> string list \<Rightarrow> string list \<Rightarrow> bool
    \<Rightarrow> oauth_error + client_registry" where
  "project_cimd L now reg snapshot scopes resources allow_refresh =
     (let doc = lease_document snapshot in
      if contains_client reg (doc_client_id doc) \<or> \<not> is_fresh now snapshot \<or> scopes = [] \<or> resources = []
      then Inl InvalidClientDeclaration
      else
        let effective_refresh = (allow_refresh \<and> doc_refresh_allowed doc);
            effective_scopes = filter (\<lambda>s. effective_refresh \<or> s \<noteq> ''offline_access'') scopes
        in and_then (collect_results (map (cimd_registered_redirect L) (doc_redirect_uris doc))) (\<lambda>redirects.
           and_then (new_first_party_client L (doc_client_id doc)
                (doc_client_id doc @ declared_name @ doc_client_name doc)
                redirects effective_scopes resources None [] []) (\<lambda>client.
             Inr (reg\<lparr>reg_clients := AList.update (fpc_id client) client (reg_clients reg),
                      reg_dynamic := Some \<lparr>rcp_snapshot = snapshot,
                         rcp_binding = security_binding doc allow_refresh\<rparr>\<rparr>))))"

section \<open>Pending and validated grants\<close>

definition pending_ensure_fresh :: "nat \<Rightarrow> pending_authorization_grant \<Rightarrow> oauth_error + unit" where
  "pending_ensure_fresh now p = policy_fresh now (pg_dynamic p)"

definition pending_cimd_binding_json :: "binding_codec \<Rightarrow> pending_authorization_grant \<Rightarrow> string option" where
  "pending_cimd_binding_json B p = map_option (\<lambda>d. binding_to_json B (rcp_binding d)) (pg_dynamic p)"

definition approve_grant ::
  "nat \<Rightarrow> pending_authorization_grant \<Rightarrow> bool \<Rightarrow> oauth_error + validated_authorization_grant" where
  "approve_grant now p consent =
     and_then (pending_ensure_fresh now p) (\<lambda>_.
       let refresh = (''offline_access'' \<in> set (pg_scopes p)) in
       if refresh \<and> \<not> consent then Inl ConsentRequired
       else Inr \<lparr>vg_client_id = pg_client_id p, vg_redirect_uri = pg_redirect_uri p,
                 vg_scopes = pg_scopes p, vg_resource = pg_resource p,
                 vg_code_challenge = pg_code_challenge p, vg_issue_refresh_token = refresh,
                 vg_dynamic = pg_dynamic p\<rparr>)"

definition grant_ensure_fresh :: "nat \<Rightarrow> validated_authorization_grant \<Rightarrow> oauth_error + unit" where
  "grant_ensure_fresh now g = policy_fresh now (vg_dynamic g)"

definition grant_cimd_binding_json :: "binding_codec \<Rightarrow> validated_authorization_grant \<Rightarrow> string option" where
  "grant_cimd_binding_json B g = map_option (\<lambda>d. binding_to_json B (rcp_binding d)) (vg_dynamic g)"

end
