(* ===== verification/Reference_Libs.thy ===== *)
theory Reference_Libs
  imports Registry
begin

text \<open>
  Concrete values of the library parameters, used by the witnesses: base64url without
  padding as RFC 4648 defines it (with a proof that it satisfies \<open>base64_laws\<close>), a 32-byte
  digest that stands for SHA-256 in closed examples, and the parse results of the handful of
  URLs the examples use.  Nothing here models code of the repository.
\<close>

section \<open>base64url\<close>

definition enc6 :: "nat \<Rightarrow> char" where
  "enc6 n = (if n < 26 then char_of (65 + n) else if n < 52 then char_of (71 + n)
     else if n < 62 then char_of (n - 4) else if n = 62 then CHR ''-'' else CHR ''_'')"

definition dec6 :: "char \<Rightarrow> nat option" where
  "dec6 c = (let b = byte c in
     if 65 \<le> b \<and> b \<le> 90 then Some (b - 65) else if 97 \<le> b \<and> b \<le> 122 then Some (b - 71)
     else if 48 \<le> b \<and> b \<le> 57 then Some (b + 4) else if b = 45 then Some 62
     else if b = 95 then Some 63 else None)"

fun sextets :: "nat list \<Rightarrow> nat list" where
  "sextets [] = []"
| "sextets [a] = [a div 4, (a mod 4) * 16]"
| "sextets [a, b] = [a div 4, (a mod 4) * 16 + b div 16, (b mod 16) * 4]"
| "sextets (a # b # c # r) =
     a div 4 # ((a mod 4) * 16 + b div 16) # ((b mod 16) * 4 + c div 64) # (c mod 64) # sextets r"

fun octets :: "nat list \<Rightarrow> nat list option" where
  "octets [] = Some []"
| "octets [w] = None"
| "octets [w, x] = (if x mod 16 = 0 then Some [w * 4 + x div 16] else None)"
| "octets [w, x, y] = (if y mod 4 = 0 then Some [w * 4 + x div 16, (x mod 16) * 16 + y div 4] else None)"
| "octets (w # x # y # z # r) =
     map_option (\<lambda>bs. (w * 4 + x div 16) # ((x mod 16) * 16 + y div 4) # ((y mod 4) * 64 + z) # bs) (octets r)"

definition ref_b64_encode :: "string \<Rightarrow> string" where
  "ref_b64_encode s = map enc6 (sextets (map of_char s))"

definition ref_b64_decode :: "string \<Rightarrow> string option" where
  "ref_b64_decode s = map_option (map char_of) (Option.bind (those (map dec6 s)) octets)"

lemma dec6_enc6: "n < 64 \<Longrightarrow> dec6 (enc6 n) = Some n"
  by (auto simp: dec6_def enc6_def Let_def)

lemma b64url_char_enc6: "b64url_char (enc6 n)"
  by (auto simp: enc6_def b64url_char_def ascii_defs)

lemma packed:
  fixes x y m :: nat
  assumes "y < m"
  shows "(x * m + y) div m = x" and "(x * m + y) mod m = y"
  using assms by simp_all

lemma packed_bound:
  fixes x y m n :: nat
  assumes "x < n" and "y < m"
  shows "x * m + y < n * m"
proof -
  have "x * m + y < (x + 1) * m" using assms(2) by simp
  also have "\<dots> \<le> n * m" using assms(1) by (intro mult_right_mono) auto
  finally show ?thesis .
qed

lemma sextets_bound: "\<forall>b \<in> set bs. b < 256 \<Longrightarrow> \<forall>x \<in> set (sextets bs). x < 64"
proof (induction bs rule: sextets.induct)
  case (2 a)
  then show ?case using packed_bound [of "a mod 4" 4 0 16] by auto
next
  case (3 a b)
  then have "b div 16 < 16" by auto
  then show ?case
    using 3 packed_bound [of "a mod 4" 4 "b div 16" 16] packed_bound [of "b mod 16" 16 0 4] by auto
next
  case (4 a b c r)
  then have "b div 16 < 16" "c div 64 < 4" by auto
  then show ?case
    using 4 packed_bound [of "a mod 4" 4 "b div 16" 16] packed_bound [of "b mod 16" 16 "c div 64" 4]
    by auto
qed auto

lemma octets_sextets: "\<forall>b \<in> set bs. b < 256 \<Longrightarrow> octets (sextets bs) = Some bs"
proof (induction bs rule: sextets.induct)
  case (2 a)
  show ?case by simp
next
  case (3 a b)
  then have "b div 16 < 16" by auto
  from packed [OF this, of "a mod 4"] show ?case by simp
next
  case (4 a b c r)
  then have "b div 16 < 16" "c div 64 < 4" by auto
  from packed [OF this(1), of "a mod 4"] packed [OF this(2), of "b mod 16"]
  have "a div 4 * 4 + ((a mod 4) * 16 + b div 16) div 16 = a"
    "((a mod 4) * 16 + b div 16) mod 16 * 16 + ((b mod 16) * 4 + c div 64) div 4 = b"
    "((b mod 16) * 4 + c div 64) mod 4 * 64 + c mod 64 = c" by simp_all
  moreover have "octets (sextets r) = Some r" using 4 by auto
  ultimately show ?case by simp
qed simp

lemma those_map_dec6: "\<forall>x \<in> set xs. x < 64 \<Longrightarrow> those (map (dec6 \<circ> enc6) xs) = Some xs"
  by (induction xs) (auto simp: dec6_enc6)

lemma length_sextets: "length (sextets bs) = (4 * length bs + 2) div 3"
  by (induction bs rule: sextets.induct) auto

lemma ref_b64_roundtrip: "ref_b64_decode (ref_b64_encode s) = Some s"
proof -
  have b: "\<forall>b \<in> set (map of_char s). b < (256 :: nat)" by auto
  have "map (char_of \<circ> of_char) s = s" by (induction s) auto
  then show ?thesis
    using those_map_dec6 [OF sextets_bound [OF b]] octets_sextets [OF b]
    by (simp add: ref_b64_decode_def ref_b64_encode_def)
qed

section \<open>Example libraries\<close>

definition ref_sha256 :: "string \<Rightarrow> string" where
  "ref_sha256 s = take 32 (s @ replicate 32 (CHR 0x00))"

definition base_url :: url where
  "base_url = \<lparr>url_scheme = ''https'', url_username = [], url_password = None,
     url_host_of = Some (Domain ''app.shocker.cl''), url_port = None,
     url_port_or_known_default = Some 443, url_path = ''/'', url_query = None,
     url_fragment = None, url_cannot_be_a_base = False, url_as_str = [], url_origin = []\<rparr>"

definition ref_urls :: "(string \<times> url) list" where
  "ref_urls =
    [(''https://app.shocker.cl/cb'', base_url\<lparr>url_path := ''/cb'', url_as_str := ''https://app.shocker.cl/cb''\<rparr>),
     (''https://api.shocker.cl/r'', base_url\<lparr>url_host_of := Some (Domain ''api.shocker.cl''),
        url_path := ''/r'', url_as_str := ''https://api.shocker.cl/r''\<rparr>),
     (''https://app.shocker.cl/bye'', base_url\<lparr>url_path := ''/bye'', url_as_str := ''https://app.shocker.cl/bye''\<rparr>),
     (''https://app.shocker.cl'', base_url\<lparr>url_as_str := ''https://app.shocker.cl/''\<rparr>),
     (''https://auth.shocker.cl/'', base_url\<lparr>url_host_of := Some (Domain ''auth.shocker.cl''),
        url_as_str := ''https://auth.shocker.cl/''\<rparr>),
     (''https://auth.shocker.cl/userinfo'', base_url\<lparr>url_host_of := Some (Domain ''auth.shocker.cl''),
        url_path := ''/userinfo'', url_as_str := ''https://auth.shocker.cl/userinfo''\<rparr>),
     (''https://client.shocker.cl/meta'', base_url\<lparr>url_host_of := Some (Domain ''client.shocker.cl''),
        url_path := ''/meta'', url_as_str := ''https://client.shocker.cl/meta''\<rparr>),
     (''http://127.0.0.1:8080/cb'', base_url\<lparr>url_scheme := ''http'', url_host_of := Some (Ipv4 (127, 0, 0, 1)),
        url_port := Some 8080, url_port_or_known_default := Some 8080, url_path := ''/cb'',
        url_as_str := ''http://127.0.0.1:8080/cb''\<rparr>),
     (''http://127.0.0.1:9/cb'', base_url\<lparr>url_scheme := ''http'', url_host_of := Some (Ipv4 (127, 0, 0, 1)),
        url_port := Some 9, url_port_or_known_default := Some 9, url_path := ''/cb'',
        url_as_str := ''http://127.0.0.1:9/cb''\<rparr>)]"

definition ref_libs :: libs where
  "ref_libs = \<lparr>url_parse = map_of ref_urls,
     url_join = (\<lambda>u path. map_of ref_urls (url_as_str u @ path)),
     sha256 = ref_sha256, b64_encode = ref_b64_encode, b64_decode = ref_b64_decode,
     json_parse = (\<lambda>s. None), json_entries = (\<lambda>s. None),
     uuid_parse = (\<lambda>s. parse_uint 1000 s), uuid_show = (\<lambda>n. ''u''),
     form_parse = (\<lambda>s. map (\<lambda>p. case split_once (CHR ''='') p of None \<Rightarrow> (p, []) | Some kv \<Rightarrow> kv)
        (filter (\<lambda>p. p \<noteq> []) (split_on (CHR ''&'') s))),
     form_serialize = (\<lambda>kvs. join_with ''&'' (map (\<lambda>(k, v). k @ ''='' @ v) kvs)),
     from_timestamp = (\<lambda>n. Some (seconds n))\<rparr>"

lemma ref_libs_base64 [simp]: "base64_laws ref_libs"
  using ref_b64_roundtrip b64url_char_enc6
  by (auto simp: base64_laws_def ref_libs_def ref_b64_encode_def length_sextets list_all_iff)

lemma ref_libs_sha256 [simp]: "sha256_laws ref_libs"
  by (auto simp: sha256_laws_def ref_libs_def ref_sha256_def min_def)

text \<open>
  A lossless text form of security bindings, standing for the JSON text: every string is
  written with a marker before each character and a terminator, lists likewise.
\<close>

abbreviation mark :: char where "mark \<equiv> CHR ''+''"
abbreviation stop :: char where "stop \<equiv> CHR ''.''"

fun put_str :: "string \<Rightarrow> string" where
  "put_str [] = [stop]"
| "put_str (c # s) = mark # c # put_str s"

fun get_str :: "string \<Rightarrow> string \<times> string" where
  "get_str (m # c # r) = (if m = mark then (case get_str r of (s, r') \<Rightarrow> (c # s, r')) else ([], c # r))"
| "get_str r = ([], [])"

definition put_redirect :: "cimd_bound_redirect \<Rightarrow> string" where
  "put_redirect r = (if br_kind r = CExact then mark else stop) # put_str (br_uri r)"

fun put_redirects :: "cimd_bound_redirect list \<Rightarrow> string" where
  "put_redirects [] = [stop]"
| "put_redirects (r # rs) = mark # put_redirect r @ put_redirects rs"

text \<open>The first argument is fuel: the text itself is long enough.\<close>

fun get_redirects :: "string \<Rightarrow> string \<Rightarrow> cimd_bound_redirect list" where
  "get_redirects (u # n) (m # k # r) =
     (if m = mark then (case get_str r of (s, r') \<Rightarrow>
        \<lparr>br_uri = s, br_kind = (if k = mark then CExact else CNativeLoopback)\<rparr> # get_redirects n r') else [])"
| "get_redirects _ _ = []"

definition put_binding :: "cimd_security_binding \<Rightarrow> string" where
  "put_binding b = put_str (replicate (cb_version b) mark) @ put_str (cb_client_id b)
     @ (if cb_refresh_allowed b then mark else stop) # put_redirects (cb_redirects b)"

definition get_binding :: "string \<Rightarrow> cimd_security_binding option" where
  "get_binding s = (case get_str s of (v, s1) \<Rightarrow> (case get_str s1 of (i, s2) \<Rightarrow>
     (case s2 of [] \<Rightarrow> None | f # s3 \<Rightarrow>
        Some \<lparr>cb_version = length v, cb_client_id = i,
          cb_redirects = get_redirects s3 s3, cb_refresh_allowed = (f = mark)\<rparr>)))"

lemma get_put_str: "r \<noteq> [] \<Longrightarrow> get_str (put_str s @ r) = (s, r)"
  by (induction s) (auto simp: neq_Nil_conv)

lemma put_redirects_nonempty: "put_redirects rs \<noteq> []"
  by (cases rs) auto

lemma get_put_redirects: "length rs \<le> length n \<Longrightarrow> get_redirects n (put_redirects rs) = rs"
proof (induction rs arbitrary: n)
  case Nil
  then show ?case by (cases n) auto
next
  case (Cons r rs)
  then obtain u m where m: "n = u # m" "length rs \<le> length m" by (cases n) auto
  then show ?case
    using Cons.IH get_put_str [OF put_redirects_nonempty, of "br_uri r" rs]
    by (cases r; cases "br_kind r") (auto simp: put_redirect_def)
qed

lemma length_put_redirects: "length rs \<le> length (put_redirects rs)"
  by (induction rs) auto

lemma get_put_binding: "get_binding (put_binding b) = Some b"
  by (cases b) (simp add: get_binding_def put_binding_def get_put_str get_put_redirects length_put_redirects)

definition ref_codec :: binding_codec where
  "ref_codec = \<lparr>binding_to_json = put_binding, binding_of_json = get_binding, jsonb_text = (\<lambda>s. s)\<rparr>"

lemma ref_codec_laws [simp]: "binding_laws ref_codec"
  by (simp add: binding_laws_def ref_codec_def get_put_binding)

definition ref_env :: env where
  "ref_env = \<lparr>env_instant = (\<lambda>_. 10), env_clock = (\<lambda>k. seconds 1000),
     env_random = (\<lambda>k. replicate 32 (char_of (65 + k))), env_uuid = (\<lambda>k. 100 + k)\<rparr>"

definition env_at :: "int \<Rightarrow> nat \<Rightarrow> env" where
  "env_at t u = \<lparr>env_instant = (\<lambda>_. 10), env_clock = (\<lambda>k. t),
     env_random = (\<lambda>k. replicate 32 (char_of (u + k))), env_uuid = (\<lambda>k. u + k)\<rparr>"

text \<open>A verifier of 43 characters and its challenge.\<close>

definition ref_verifier :: string where
  "ref_verifier = replicate 43 (CHR ''v'')"

definition ref_challenge :: string where
  "ref_challenge = ref_b64_encode (ref_sha256 ref_verifier)"

definition ref_client :: first_party_client where
  "ref_client = \<lparr>fpc_id = ''app'', fpc_display_name = ''App'',
     fpc_redirects = [\<lparr>rr_uri = ''https://app.shocker.cl/cb'', rr_kind = AppClaimedHttps\<rparr>,
                      \<lparr>rr_uri = ''http://127.0.0.1:8080/cb'', rr_kind = NativeLoopback\<rparr>],
     fpc_scopes = {''openid'', ''offline_access''}, fpc_resources = {''https://api.shocker.cl/r''},
     fpc_default_resource = Some ''https://api.shocker.cl/r'',
     fpc_browser_origins = {''https://app.shocker.cl''},
     fpc_post_logout_redirects = {''https://app.shocker.cl/bye''},
     fpc_authorization_flow = GooglePreauthorized, fpc_logout_flow = IdTokenHint\<rparr>"

definition ref_registry :: client_registry where
  "ref_registry = \<lparr>reg_clients = [(''app'', ref_client)],
     reg_userinfo_resource = Some ''https://auth.shocker.cl/userinfo'', reg_dynamic = None\<rparr>"

end
