(* ===== verification/Registry_Facts.thy ===== *)
theory Registry_Facts
  imports Reference_Libs "HOL-Library.Multiset"
begin

text \<open>
  What the registry of \<open>Registry\<close> guarantees: its well-formedness, the exact conditions under
  which a request becomes a pending grant, stability of that answer over time, the refresh
  policy agreeing with it, and the containment of dynamic clients.
\<close>

section \<open>Well-formedness\<close>

definition registry_wf :: "client_registry \<Rightarrow> bool" where
  "registry_wf reg \<longleftrightarrow> distinct (map fst (reg_clients reg))
     \<and> (\<forall>(k, c) \<in> set (reg_clients reg). fpc_id c = k)"

lemma registry_wf_client: "registry_wf reg \<Longrightarrow> client_of reg k = Some c \<Longrightarrow> fpc_id c = k"
  by (auto simp: registry_wf_def client_of_def dest!: map_of_SomeD)

lemma client_of_update [simp]:
  "client_of (reg\<lparr>reg_clients := AList.update k c (reg_clients reg), reg_dynamic := d\<rparr>) k'
     = (if k' = k then Some c else client_of reg k')"
  by (simp add: client_of_def update_conv)

lemma wf_update:
  assumes "distinct (map fst m)" and "\<forall>(k, c) \<in> set m. fpc_id c = k"
  shows "distinct (map fst (AList.update (fpc_id c) c m))
    \<and> (\<forall>(k, c') \<in> set (AList.update (fpc_id c) c m). fpc_id c' = k)"
proof
  show "distinct (map fst (AList.update (fpc_id c) c m))"
    using assms(1) by (simp add: distinct_update)
  show "\<forall>(k, c') \<in> set (AList.update (fpc_id c) c m). fpc_id c' = k"
    using assms(2) by (induction m) (auto split: if_splits)
qed

lemma insert_clients_wf:
  assumes "insert_clients m cs = Inr m'"
    and "distinct (map fst m)" and "\<forall>(k, c) \<in> set m. fpc_id c = k"
  shows "distinct (map fst m') \<and> (\<forall>(k, c) \<in> set m'. fpc_id c = k)"
  using assms
proof (induction m cs rule: insert_clients.induct)
  case (2 m c cs)
  then show ?case using wf_update [of m c] by (auto split: if_splits)
qed simp

lemma insert_clients_lookup:
  assumes "insert_clients m cs = Inr m'"
  shows "distinct (map fpc_id cs)
    \<and> map_of m' k = (case find (\<lambda>c. fpc_id c = k) cs of Some c \<Rightarrow> Some c | None \<Rightarrow> map_of m k)
    \<and> (\<forall>c \<in> set cs. map_of m (fpc_id c) = None)"
  using assms
proof (induction m cs rule: insert_clients.induct)
  case (2 m c cs)
  then have new: "map_of m (fpc_id c) = None"
    and rest: "insert_clients (AList.update (fpc_id c) c m) cs = Inr m'"
    by (auto split: if_splits)
  from 2(1) [OF _ rest] new
  have IH: "distinct (map fpc_id cs)"
    "map_of m' k = (case find (\<lambda>c. fpc_id c = k) cs of Some c \<Rightarrow> Some c
       | None \<Rightarrow> map_of (AList.update (fpc_id c) c m) k)"
    "\<forall>c' \<in> set cs. map_of (AList.update (fpc_id c) c m) (fpc_id c') = None" by auto
  from IH(3) have fresh: "\<forall>c' \<in> set cs. fpc_id c' \<noteq> fpc_id c \<and> map_of m (fpc_id c') = None"
    by (auto simp: update_conv split: if_splits)
  have "find (\<lambda>c'. fpc_id c' = fpc_id c) cs = None"
    using fresh by (auto simp: find_None_iff)
  then show ?case using IH fresh new by (auto simp: update_conv split: option.splits)
qed simp

lemma build_registry_wf: "build_registry cs u = Inr reg \<Longrightarrow> registry_wf reg"
  using insert_clients_wf [of "[]" cs]
  by (fastforce simp: build_registry_def and_then_Inr_iff registry_wf_def)

lemma new_client_id:
  "new_first_party_client L cid name rs ss res d bo pl = Inr c \<Longrightarrow>
     fpc_id c = cid \<and> fpc_scopes c = set ss \<and> fpc_resources c = set res \<and> fpc_redirects c = rs
     \<and> fpc_default_resource c = d \<and> fpc_browser_origins c = set bo
     \<and> fpc_post_logout_redirects c = set pl \<and> fpc_authorization_flow c = Interactive
     \<and> fpc_logout_flow c = LogoutInteractive"
  by (auto simp: new_first_party_client_def with_authorization_flow_def split: if_splits)

lemma project_cimd_Inr:
  assumes "project_cimd L now reg snap scopes resources allow = Inr reg'"
  obtains client redirects where
    "contains_client reg (doc_client_id (lease_document snap)) = False"
    "is_fresh now snap"
    "collect_results (map (cimd_registered_redirect L) (doc_redirect_uris (lease_document snap))) = Inr redirects"
    "fpc_id client = doc_client_id (lease_document snap)"
    "fpc_redirects client = redirects"
    "fpc_scopes client = set (filter (\<lambda>s. (allow \<and> doc_refresh_allowed (lease_document snap))
        \<or> s \<noteq> ''offline_access'') scopes)"
    "fpc_resources client = set resources" "fpc_default_resource client = None"
    "fpc_browser_origins client = {}" "fpc_post_logout_redirects client = {}"
    "fpc_authorization_flow client = Interactive" "fpc_logout_flow client = LogoutInteractive"
    "reg' = reg\<lparr>reg_clients := AList.update (fpc_id client) client (reg_clients reg),
         reg_dynamic := Some \<lparr>rcp_snapshot = snap,
           rcp_binding = security_binding (lease_document snap) allow\<rparr>\<rparr>"
  using assms by (auto simp: project_cimd_def Let_def and_then_Inr_iff split: if_splits
      dest!: new_client_id)

lemma project_cimd_wf:
  assumes "project_cimd L now reg snap scopes resources allow = Inr reg'" and "registry_wf reg"
  shows "registry_wf reg'"
proof -
  from assms(1) obtain client where "reg' = reg\<lparr>reg_clients := AList.update (fpc_id client) client (reg_clients reg),
         reg_dynamic := Some \<lparr>rcp_snapshot = snap,
           rcp_binding = security_binding (lease_document snap) allow\<rparr>\<rparr>"
    by (rule project_cimd_Inr)
  then show ?thesis
    using assms(2) wf_update [of "reg_clients reg" client] by (simp add: registry_wf_def)
qed

section \<open>Freshness\<close>

lemma policy_fresh_cases: "policy_fresh now d = Inr () \<or> policy_fresh now d = Inl MetadataExpired"
  by (simp add: policy_fresh_def)

lemma policy_fresh_Inr [simp]:
  "policy_fresh now d = Inr u \<longleftrightarrow> (\<forall>p. d = Some p \<longrightarrow> is_fresh now (rcp_snapshot p))"
  by (cases d) (auto simp: policy_fresh_def)

lemma static_always_fresh [simp]: "policy_fresh now None = Inr ()"
  by (simp add: policy_fresh_def)

lemma is_fresh_antimono: "is_fresh now s \<Longrightarrow> now' \<le> now \<Longrightarrow> is_fresh now' s"
  by (simp add: is_fresh_def)

section \<open>Validation of requests\<close>

lemma card_length_iff_distinct: "card (set xs) = length xs \<longleftrightarrow> distinct xs"
  by (metis card_distinct distinct_card)

definition grant_conditions ::
  "libs \<Rightarrow> client_registry \<Rightarrow> string \<Rightarrow> string \<Rightarrow> string \<Rightarrow> string list \<Rightarrow> string \<Rightarrow> first_party_client \<Rightarrow> bool" where
  "grant_conditions L reg client_id redirect_uri challenge scopes resource client \<longleftrightarrow>
     client_of reg client_id = Some client
     \<and> is_ok (validate_pkce_challenge L challenge)
     \<and> trusted_redirect L reg client_id redirect_uri
     \<and> distinct scopes \<and> scopes \<noteq> [] \<and> (\<forall>s \<in> set scopes. valid_scope_token s)
     \<and> set scopes \<subseteq> fpc_scopes client
     \<and> resource_allowed reg client (set scopes) resource
     \<and> (dynamic_for reg client_id \<noteq> None \<longrightarrow> resource \<in> fpc_resources client)"

lemma validate_pending_parts_Inr:
  "validate_pending_parts L now reg cid redirect rt method challenge scopes res = Inr p \<longleftrightarrow>
     registry_ensure_fresh now reg = Inr ()
     \<and> rt = ''code'' \<and> method = ''S256''
     \<and> (dynamic_for reg cid \<noteq> None \<longrightarrow> res \<noteq> None)
     \<and> (\<exists>client resource.
          effective_resource reg client (set scopes) res = Some resource
          \<and> grant_conditions L reg cid redirect challenge scopes resource client
          \<and> p = \<lparr>pg_client_id = fpc_id client, pg_redirect_uri = redirect,
               pg_scopes = btree_list scopes, pg_resource = resource,
               pg_code_challenge = challenge, pg_dynamic = dynamic_for reg cid\<rparr>)"
proof (cases "client_of reg cid")
  case None
  then show ?thesis by (auto simp: validate_pending_parts_def grant_conditions_def and_then_Inr_iff)
next
  case (Some c)
  then have trusted: "trusted_redirect L reg cid redirect
      \<longleftrightarrow> (\<exists>r \<in> set (fpc_redirects c). redirect_matches L r redirect)"
    by (simp add: trusted_redirect_def)
  show ?thesis
    unfolding validate_pending_parts_def grant_conditions_def and_then_Inr_iff trusted
    using Some by (auto simp: card_length_iff_distinct is_ok_iff and_then_Inr_iff)
qed

lemma validate_pending_parts_wf:
  assumes "registry_wf reg"
    and "validate_pending_parts L now reg cid redirect rt method challenge scopes res = Inr p"
  shows "pg_client_id p = cid \<and> pg_redirect_uri p = redirect \<and> pg_code_challenge p = challenge
    \<and> pg_scopes p = btree_list scopes \<and> pg_dynamic p = dynamic_for reg cid
    \<and> (\<forall>r. res = Some r \<longrightarrow> pg_resource p = r)
    \<and> (\<exists>client. grant_conditions L reg cid redirect challenge scopes (pg_resource p) client)"
  using assms registry_wf_client [OF assms(1)]
  by (auto simp: validate_pending_parts_Inr grant_conditions_def effective_resource_def)

lemma validate_pending_parts_again:
  assumes "registry_wf reg"
    and "validate_pending_parts L now reg cid redirect rt method challenge scopes res = Inr p"
  shows "validate_pending_parts L now' reg cid redirect ''code'' ''S256'' challenge (btree_list scopes)
           (Some (pg_resource p))
         = and_then (registry_ensure_fresh now' reg) (\<lambda>_. Inr p)"
proof -
  from assms(2) obtain client where c: "grant_conditions L reg cid redirect challenge scopes (pg_resource p) client"
    and p: "p = \<lparr>pg_client_id = fpc_id client, pg_redirect_uri = redirect,
               pg_scopes = btree_list scopes, pg_resource = pg_resource p,
               pg_code_challenge = challenge, pg_dynamic = dynamic_for reg cid\<rparr>"
    by (auto simp: validate_pending_parts_Inr)
  have c': "grant_conditions L reg cid redirect challenge (btree_list scopes) (pg_resource p) client"
  proof -
    have "scopes \<noteq> [] \<longleftrightarrow> btree_list scopes \<noteq> []"
      using set_btree_list [of scopes] by (metis set_empty)
    with c show ?thesis by (simp add: grant_conditions_def)
  qed
  show ?thesis
  proof (cases "registry_ensure_fresh now' reg = Inr ()")
    case True
    have "validate_pending_parts L now' reg cid redirect ''code'' ''S256'' challenge (btree_list scopes)
        (Some (pg_resource p)) = Inr p"
      using True c' p by (auto simp: validate_pending_parts_Inr effective_resource_def)
    with True show ?thesis by simp
  next
    case False
    then have "registry_ensure_fresh now' reg = Inl MetadataExpired"
      using policy_fresh_cases by (auto simp: registry_ensure_fresh_def)
    then show ?thesis by (simp add: validate_pending_parts_def)
  qed
qed

text \<open>C9: a request validates exactly when the metadata lease holds, the response type is
  \<open>code\<close> with an \<open>S256\<close> challenge of 32 encoded bytes, the redirect matches a registered one,
  the scopes are distinct, well-formed and granted to the client, and the (given or default)
  resource is allowed; the pending grant then carries those values, scopes sorted.\<close>
theorem validate_pending_exact:
  assumes "registry_wf reg"
  shows "validate_pending L now reg req = Inr p \<longleftrightarrow>
    registry_ensure_fresh now reg = Inr ()
    \<and> ar_response_type req = ''code'' \<and> ar_code_challenge_method req = ''S256''
    \<and> (dynamic_for reg (ar_client_id req) \<noteq> None \<longrightarrow> ar_resource req \<noteq> None)
    \<and> (\<exists>client. grant_conditions L reg (ar_client_id req) (ar_redirect_uri req)
                   (ar_code_challenge req) (ar_scopes req) (pg_resource p) client
        \<and> effective_resource reg client (set (ar_scopes req)) (ar_resource req) = Some (pg_resource p))
    \<and> pg_client_id p = ar_client_id req \<and> pg_redirect_uri p = ar_redirect_uri req
    \<and> pg_scopes p = btree_list (ar_scopes req) \<and> pg_code_challenge p = ar_code_challenge req
    \<and> pg_dynamic p = dynamic_for reg (ar_client_id req)"
proof -
  have "fpc_id c = ar_client_id req" if "grant_conditions L reg (ar_client_id req) (ar_redirect_uri req)
      (ar_code_challenge req) (ar_scopes req) r c" for r c
    using that registry_wf_client [OF assms] by (simp add: grant_conditions_def)
  then show ?thesis
    by (cases p) (auto simp: validate_pending_def validate_pending_parts_Inr)
qed

definition ref_request :: authorization_request where
  "ref_request = \<lparr>ar_client_id = ''app'', ar_redirect_uri = ''http://127.0.0.1:9/cb'',
     ar_response_type = ''code'', ar_code_challenge_method = ''S256'',
     ar_code_challenge = ref_challenge, ar_scopes = [''openid'', ''offline_access''],
     ar_resource = None\<rparr>"

definition ref_pending :: pending_authorization_grant where
  "ref_pending = \<lparr>pg_client_id = ''app'', pg_redirect_uri = ''http://127.0.0.1:9/cb'',
     pg_scopes = [''offline_access'', ''openid''], pg_resource = ''https://api.shocker.cl/r'',
     pg_code_challenge = ref_challenge, pg_dynamic = None\<rparr>"

lemma ref_registry_wf [simp]: "registry_wf ref_registry"
  by (simp add: registry_wf_def ref_registry_def ref_client_def)

lemma ref_request_valid: "validate_pending ref_libs 10 ref_registry ref_request = Inr ref_pending"
  by code_simp

theorem validate_pending_exact_witness:
  "registry_wf ref_registry \<and> pg_scopes ref_pending = btree_list (ar_scopes ref_request)"
  using validate_pending_exact [of ref_registry ref_libs 10 ref_request ref_pending] ref_request_valid
  by simp

section \<open>Stability of the answer\<close>

text \<open>
  The stores ask the registry about the same stored row several times in one transaction.
  They rely on one law: once a row was accepted, a later answer is either the same grant or
  the expiry of the metadata lease, never another grant or another refusal.
\<close>

locale revalidation =
  fixes check :: "'t \<Rightarrow> 'row \<Rightarrow> 'e + 'g"
    and expired :: "'e"
  assumes stable: "check t row = Inr g \<Longrightarrow> check t' row = Inr g \<or> check t' row = Inl expired"
begin

lemma same_grant: "check t row = Inr g \<Longrightarrow> check t' row = Inr g' \<Longrightarrow> g' = g"
  by (drule stable [where t' = t']) auto

lemma refusal_is_expiry: "check t row = Inr g \<Longrightarrow> check t' row = Inl e \<Longrightarrow> e = expired"
  by (drule stable [where t' = t']) auto

end

locale leased_revalidation = revalidation check expired
  for check :: "'t::linorder \<Rightarrow> 'row \<Rightarrow> 'e + 'g" and expired :: "'e" +
  assumes earlier: "check t row = Inr g \<Longrightarrow> t' \<le> t \<Longrightarrow> check t' row = Inr g"
begin

lemma between: "check t row = Inr g \<Longrightarrow> check t' row = Inr g' \<Longrightarrow> s \<le> t' \<Longrightarrow> check s row = Inr g"
  using earlier same_grant by blast

end

lemma validate_pending_parts_time:
  assumes "validate_pending_parts L t reg cid redirect rt method challenge scopes res = Inr g"
  shows "validate_pending_parts L t' reg cid redirect rt method challenge scopes res
    = and_then (registry_ensure_fresh t' reg) (\<lambda>_. Inr g)"
proof (cases "registry_ensure_fresh t' reg = Inr ()")
  case True
  with assms have "validate_pending_parts L t' reg cid redirect rt method challenge scopes res = Inr g"
    unfolding validate_pending_parts_Inr by blast
  with True show ?thesis by simp
next
  case False
  then have "registry_ensure_fresh t' reg = Inl MetadataExpired"
    using policy_fresh_cases by (auto simp: registry_ensure_fresh_def)
  then show ?thesis by (simp add: validate_pending_parts_def)
qed

lemma registry_ensure_fresh_cases:
  "registry_ensure_fresh t reg = Inr () \<or> registry_ensure_fresh t reg = Inl MetadataExpired"
  unfolding registry_ensure_fresh_def by (rule policy_fresh_cases)

lemma revalidate_pending_time:
  "revalidate_pending L t reg p = Inr g \<Longrightarrow>
     revalidate_pending L t' reg p = and_then (registry_ensure_fresh t' reg) (\<lambda>_. Inr g)"
  unfolding revalidate_pending_def by (rule validate_pending_parts_time)

lemma registry_fresh_antimono:
  "registry_ensure_fresh t reg = Inr () \<Longrightarrow> t' \<le> t \<Longrightarrow> registry_ensure_fresh t' reg = Inr ()"
  by (auto simp: registry_ensure_fresh_def intro: is_fresh_antimono)

interpretation pending_policy:
  leased_revalidation "\<lambda>t (reg, p). revalidate_pending L t reg p" MetadataExpired for L
proof (unfold_locales, goal_cases)
  case (1 t row g t')
  then show ?case
    using registry_ensure_fresh_cases [of t' "fst row"]
    by (cases row) (auto simp: revalidate_pending_time [where t = t and t' = t'])
next
  case (2 t row g t')
  then have "registry_ensure_fresh t (fst row) = Inr ()"
    by (cases row) (simp add: revalidate_pending_def validate_pending_parts_Inr)
  then have "registry_ensure_fresh t' (fst row) = Inr ()"
    using 2(2) by (rule registry_fresh_antimono)
  with 2(1) show ?case
    by (cases row) (simp add: revalidate_pending_time [where t = t and t' = t'])
qed

text \<open>a pending grant is a fixed point of the registry that produced it: revalidating it at
  any later instant gives the same grant, or only the expiry of the metadata lease.\<close>
theorem revalidate_fixed_point:
  assumes "registry_wf reg" and "validate_pending L t reg req = Inr p"
  shows "(revalidate_pending L t' reg p = Inr p \<or> revalidate_pending L t' reg p = Inl MetadataExpired)
    \<and> (t' \<le> t \<longrightarrow> revalidate_pending L t' reg p = Inr p)"
proof -
  have parts: "validate_pending_parts L t reg (ar_client_id req) (ar_redirect_uri req)
      (ar_response_type req) (ar_code_challenge_method req) (ar_code_challenge req)
      (ar_scopes req) (ar_resource req) = Inr p"
    using assms(2) by (simp add: validate_pending_def)
  have "registry_ensure_fresh t reg = Inr ()"
    using parts by (simp add: validate_pending_parts_Inr)
  with validate_pending_parts_again [OF assms(1) parts, of t] validate_pending_parts_wf [OF assms(1) parts]
  have again: "revalidate_pending L t reg p = Inr p"
    by (simp add: revalidate_pending_def)
  from pending_policy.stable [of L t "(reg, p)" p t'] pending_policy.earlier [of L t "(reg, p)" p t'] again
  show ?thesis by simp
qed

theorem revalidate_fixed_point_witness:
  "revalidate_pending ref_libs 3 ref_registry ref_pending = Inr ref_pending"
  using revalidate_fixed_point [OF ref_registry_wf ref_request_valid, of 3] by simp

section \<open>Refresh policy\<close>

text \<open>whatever the registry grants it also lets the client refresh: the scopes and resource of
  a validated request satisfy \<open>permits_refresh\<close> of the same registry.\<close>
theorem granted_is_refreshable:
  assumes "registry_wf reg" and "validate_pending L t reg req = Inr p"
  shows "permits_refresh reg (pg_client_id p) (pg_scopes p) (pg_resource p)"
proof -
  from validate_pending_parts_wf [OF assms(1) assms(2) [unfolded validate_pending_def]]
  show ?thesis
    by (auto simp: permits_refresh_def grant_conditions_def card_length_iff_distinct)
qed

theorem granted_is_refreshable_witness:
  "permits_refresh ref_registry (pg_client_id ref_pending) (pg_scopes ref_pending) (pg_resource ref_pending)"
  by (rule granted_is_refreshable [OF ref_registry_wf ref_request_valid])

section \<open>Redirects\<close>

text \<open>A redirect is accepted exactly when it is a safe URL equal byte for byte to the
  registered one, or when the registered one is a native loopback redirect and both are
  \<open>http\<close> URLs with the same literal loopback host and the same path and query, whatever
  their ports (RFC 8252, section 7.3).\<close>
theorem redirect_matches_exact:
  "redirect_matches L r actual \<longleftrightarrow>
     safe_redirect L actual \<noteq> None
     \<and> (rr_uri r = actual
        \<or> (rr_kind r = NativeLoopback
           \<and> (\<exists>h \<in> {v6_host, v4_host}. \<exists>s p q. loopback_suffix s \<and> loopback_port p \<and> loopback_port q
                \<and> rr_uri r = loopback_uri h p s \<and> actual = loopback_uri h q s)))"
proof (cases "rr_kind r = NativeLoopback \<and> rr_uri r \<noteq> actual \<and> safe_redirect L actual \<noteq> None")
  case True
  then have "redirect_matches L r actual \<longleftrightarrow>
      (\<exists>h s. loopback_parts (rr_uri r) = Some (h, s) \<and> loopback_parts actual = Some (h, s))"
    by (auto simp: redirect_matches_def split: option.splits)
  also have "\<dots> \<longleftrightarrow> (\<exists>h \<in> {v6_host, v4_host}. \<exists>s p q. loopback_suffix s \<and> loopback_port p \<and> loopback_port q
      \<and> rr_uri r = loopback_uri h p s \<and> actual = loopback_uri h q s)"
    unfolding loopback_parts_iff by blast
  finally show ?thesis using True by blast
next
  case False
  then show ?thesis by (auto simp: redirect_matches_def)
qed

section \<open>PKCE\<close>

text \<open>with the documented laws of SHA-256 and base64url, a verifier passes against a challenge
  exactly when it is 43 to 128 unreserved characters and the challenge is the encoded digest
  of it; in particular every well-formed verifier passes against its own challenge.\<close>
theorem verify_s256_exact:
  assumes "base64_laws L" and "sha256_laws L"
  shows "verify_s256 L v c \<longleftrightarrow>
     43 \<le> length v \<and> length v \<le> 128 \<and> list_all pkce_verifier_char v
     \<and> s256_challenge L v = Inr c"
  by (auto simp: verify_s256_iff [OF assms] s256_challenge_Inr is_ok_iff validate_pkce_verifier_Inr)

theorem verify_s256_exact_witness:
  "verify_s256 ref_libs ref_verifier ref_challenge"
proof -
  have "s256_challenge ref_libs ref_verifier = Inr ref_challenge" by code_simp
  moreover have "43 \<le> length ref_verifier \<and> length ref_verifier \<le> 128 \<and> list_all pkce_verifier_char ref_verifier"
    by code_simp
  ultimately show ?thesis
    using verify_s256_exact [OF ref_libs_base64 ref_libs_sha256, of ref_verifier ref_challenge] by blast
qed

section \<open>Dynamic clients\<close>

text \<open>C25: projecting a dynamic client adds exactly one entry under the document's client id,
  which no first-party client has; every first-party client stays as it was, and the dynamic
  one can never be pre-authorized, take part in hint logout, name a browser origin or a
  post-logout redirect, nor hold \<open>offline_access\<close> unless server and document both allow it.\<close>
theorem project_cimd_containment:
  assumes "project_cimd L now reg snap scopes resources allow = Inr reg'"
  shows "client_of reg (doc_client_id (lease_document snap)) = None
    \<and> (\<forall>k. k \<noteq> doc_client_id (lease_document snap) \<longrightarrow> client_of reg' k = client_of reg k)
    \<and> (\<exists>c. client_of reg' (doc_client_id (lease_document snap)) = Some c
         \<and> fpc_scopes c \<subseteq> set scopes \<and> fpc_resources c = set resources
         \<and> (''offline_access'' \<in> fpc_scopes c \<longrightarrow> allow \<and> doc_refresh_allowed (lease_document snap)))
    \<and> (\<forall>p. \<not> pre_authorizes reg' p)
    \<and> \<not> allows_id_token_logout reg' (doc_client_id (lease_document snap))
    \<and> (\<forall>uri. \<not> valid_browser_origin reg' (doc_client_id (lease_document snap)) uri)
    \<and> (\<forall>uri. \<not> valid_post_logout_redirect reg' (doc_client_id (lease_document snap)) uri)"
  using assms
proof (rule project_cimd_Inr)
  fix c redirects
  assume a: "contains_client reg (doc_client_id (lease_document snap)) = False"
    "fpc_id c = doc_client_id (lease_document snap)"
    "fpc_scopes c = set (filter (\<lambda>s. (allow \<and> doc_refresh_allowed (lease_document snap))
        \<or> s \<noteq> ''offline_access'') scopes)"
    "fpc_resources c = set resources" "fpc_browser_origins c = {}" "fpc_post_logout_redirects c = {}"
    "fpc_logout_flow c = LogoutInteractive"
    and reg': "reg' = reg\<lparr>reg_clients := AList.update (fpc_id c) c (reg_clients reg),
         reg_dynamic := Some \<lparr>rcp_snapshot = snap,
           rcp_binding = security_binding (lease_document snap) allow\<rparr>\<rparr>"
  show ?thesis
    using a unfolding reg' contains_client_def pre_authorizes_def allows_id_token_logout_def
      valid_browser_origin_def valid_post_logout_redirect_def client_of_update
    by auto
qed

definition ref_document :: client_metadata_document where
  "ref_document = \<lparr>doc_client_id = ''https://client.shocker.cl/meta'', doc_client_name = ''C'',
     doc_redirect_uris = [''https://app.shocker.cl/cb''], doc_refresh_allowed = True\<rparr>"

definition ref_lease :: leased_client_metadata where
  "ref_lease = \<lparr>lease_document = ref_document, lease_valid_until = 1000\<rparr>"

definition ref_projection :: client_registry where
  "ref_projection = (case project_cimd ref_libs 10 ref_registry ref_lease [''openid'', ''offline_access'']
     [''https://api.shocker.cl/r''] True of Inr r \<Rightarrow> r | Inl _ \<Rightarrow> ref_registry)"

lemma ref_projection_ok:
  "project_cimd ref_libs 10 ref_registry ref_lease [''openid'', ''offline_access'']
     [''https://api.shocker.cl/r''] True = Inr ref_projection"
proof -
  have "is_ok (project_cimd ref_libs 10 ref_registry ref_lease [''openid'', ''offline_access'']
     [''https://api.shocker.cl/r''] True)" by code_simp
  then show ?thesis by (auto simp: ref_projection_def is_ok_iff)
qed

theorem project_cimd_containment_witness:
  "client_of ref_registry (doc_client_id (lease_document ref_lease)) = None
   \<and> client_of ref_projection ''app'' = client_of ref_registry ''app''"
  using project_cimd_containment [OF ref_projection_ok]
  by (simp add: ref_lease_def ref_document_def)

section \<open>Security bindings\<close>

lemma br_uri_bound [simp]: "br_uri (bound_redirect u) = u"
  by (simp add: bound_redirect_def)

lemma binding_redirects:
  "cb_redirects (security_binding doc allow) = map bound_redirect (sort (doc_redirect_uris doc))"
proof -
  have "sort_key br_uri (map bound_redirect xs) = map bound_redirect (sort xs)" for xs
  proof (induction xs)
    case (Cons x xs)
    have "insort_key br_uri (bound_redirect x) (map bound_redirect ys) = map bound_redirect (insort x ys)" for ys
      by (induction ys) auto
    with Cons show ?case by simp
  qed simp
  then show ?thesis by (simp add: security_binding_def)
qed

lemma map_bound_redirect_eq: "map bound_redirect xs = map bound_redirect ys \<longleftrightarrow> xs = ys"
proof
  assume "map bound_redirect xs = map bound_redirect ys"
  then have "map br_uri (map bound_redirect xs) = map br_uri (map bound_redirect ys)" by simp
  then show "xs = ys" by (simp add: comp_def)
qed simp

text \<open>two metadata documents have the same durable security binding exactly when they name
  the same client, declare the same redirects (in any order) and agree on refresh; the
  display name never matters.\<close>
theorem security_binding_identity:
  "security_binding d a = security_binding d' a' \<longleftrightarrow>
     doc_client_id d = doc_client_id d'
     \<and> mset (doc_redirect_uris d) = mset (doc_redirect_uris d')
     \<and> (doc_refresh_allowed d \<and> a) = (doc_refresh_allowed d' \<and> a')"
proof -
  have "security_binding d a = security_binding d' a' \<longleftrightarrow>
      doc_client_id d = doc_client_id d'
      \<and> cb_redirects (security_binding d a) = cb_redirects (security_binding d' a')
      \<and> (doc_refresh_allowed d \<and> a) = (doc_refresh_allowed d' \<and> a')"
    by (auto simp: security_binding_def)
  moreover have "sort xs = sort ys \<longleftrightarrow> mset xs = mset ys" for xs ys :: "string list"
    by (metis mset_sort properties_for_sort sorted_sort)
  ultimately show ?thesis by (simp add: binding_redirects map_bound_redirect_eq)
qed

lemma dynamic_for_projected:
  assumes "project_cimd L now reg snap scopes resources allow = Inr reg'"
  shows "dynamic_for reg' (doc_client_id (lease_document snap)) =
    Some \<lparr>rcp_snapshot = snap, rcp_binding = security_binding (lease_document snap) allow\<rparr>"
  using assms by (rule project_cimd_Inr) (simp add: dynamic_for_def)

text \<open>a stored binding is accepted by a later projection of the same client exactly while
  the lease holds and the binding is unchanged; a first-party grant (no binding) is never
  accepted for a dynamic client.\<close>
theorem validate_binding_of_projection:
  assumes "project_cimd L now reg snap scopes resources allow = Inr reg'"
    and "binding_laws B"
  shows "(validate_binding B t reg' (doc_client_id (lease_document snap))
            (Some (jsonb_text B (binding_to_json B b))) = Inr ()
          \<longleftrightarrow> is_fresh t snap \<and> b = security_binding (lease_document snap) allow)
    \<and> validate_binding B t reg' (doc_client_id (lease_document snap)) None \<noteq> Inr ()"
proof -
  have d: "reg_dynamic reg' = Some \<lparr>rcp_snapshot = snap, rcp_binding = security_binding (lease_document snap) allow\<rparr>"
    and c: "contains_client reg' (doc_client_id (lease_document snap))"
    using assms(1) by (rule project_cimd_Inr; simp add: contains_client_def)+
  show ?thesis
    using assms(2) c d dynamic_for_projected [OF assms(1)]
    by (auto simp: validate_binding_def and_then_Inr_iff registry_ensure_fresh_def binding_laws_def)
qed

theorem validate_binding_of_projection_witness:
  "validate_binding ref_codec 500 ref_projection ''https://client.shocker.cl/meta''
     (Some (jsonb_text ref_codec (binding_to_json ref_codec (security_binding ref_document True)))) = Inr ()"
  using validate_binding_of_projection [OF ref_projection_ok ref_codec_laws, of 500]
  by (simp add: ref_lease_def ref_document_def is_fresh_def)

section \<open>Approval\<close>

text \<open>approving a pending grant yields a refresh-token permission exactly when
  \<open>offline_access\<close> was granted, and never without consent.\<close>
theorem approve_grant_exact:
  "approve_grant now p consent = Inr g \<longleftrightarrow>
     pending_ensure_fresh now p = Inr ()
     \<and> (''offline_access'' \<in> set (pg_scopes p) \<longrightarrow> consent)
     \<and> g = \<lparr>vg_client_id = pg_client_id p, vg_redirect_uri = pg_redirect_uri p,
           vg_scopes = pg_scopes p, vg_resource = pg_resource p, vg_code_challenge = pg_code_challenge p,
           vg_issue_refresh_token = (''offline_access'' \<in> set (pg_scopes p)), vg_dynamic = pg_dynamic p\<rparr>"
  by (auto simp: approve_grant_def and_then_Inr_iff Let_def)

end
