(* ===== verification/Database.thy ===== *)
theory Database
  imports Registry_Facts
begin

text \<open>
  The persistent state: the tables of \<open>src/migrations\<close> as lists of rows in insertion order,
  inserts that enforce the declared constraints (\<open>None\<close> is a constraint violation, which
  aborts the transaction), selections and updates by predicate, and the identity operations
  of \<open>src/src/database.rs\<close> and \<open>src/src/identity.rs\<close>.  A transaction is a function from the
  database to a result and the database after it; a result without a commit returns the
  database unchanged.
\<close>

section \<open>The pool\<close>

text \<open>\<open>tokio::time::timeout\<close>: the future finished in time with this result, or it did not.\<close>

datatype 'a timed = Elapsed | Finished 'a

text \<open>\<open>Database::ready\<close>, given what \<open>SELECT 1\<close> answered within the readiness timeout (\<open>None\<close> an error).\<close>

definition database_ready :: "int option timed \<Rightarrow> bool" where
  "database_ready outcome = (case outcome of Finished (Some n) \<Rightarrow> n = 1 | _ \<Rightarrow> False)"

section \<open>Rows and tables\<close>

record provider_session_row =
  ps_id :: uuid
  ps_token_hash :: string
  ps_user_id :: uuid
  ps_auth_time :: int
  ps_expires_at :: int
  ps_revoked_at :: "int option"
  ps_upstream_auth_time :: "int option"

record authorization_code_row =
  ac_id :: uuid
  ac_code_hash :: string
  ac_session_id :: uuid
  ac_client_id :: string
  ac_redirect_uri :: string
  ac_scopes :: "string list"
  ac_resource :: string
  ac_code_challenge :: string
  ac_issue_refresh_token :: bool
  ac_issued_at :: int
  ac_expires_at :: int
  ac_consumed_at :: "int option"
  ac_oidc_nonce :: "string option"
  ac_upstream_auth_time :: "int option"
  ac_cimd_binding :: "string option"

record refresh_family_row =
  rf_id :: uuid
  rf_source_code_id :: uuid
  rf_session_id :: uuid
  rf_user_id :: uuid
  rf_client_id :: string
  rf_scopes :: "string list"
  rf_resource :: string
  rf_issued_at :: int
  rf_expires_at :: int
  rf_revoked_at :: "int option"
  rf_upstream_auth_time :: "int option"
  rf_cimd_binding :: "string option"

record refresh_member_row =
  rm_id :: uuid
  rm_family_id :: uuid
  rm_token_hash :: string
  rm_issued_at :: int
  rm_consumed_at :: "int option"
  rm_successor_id :: "uuid option"

datatype stage =
    AwaitingStart | AwaitingGoogle | CallbackClaimed | AwaitingConsent
  | Approved | Denied | Failed | Expired

record browser_row =
  ba_id :: uuid
  ba_stage :: stage
  ba_upstream_state_hash :: "string option"
  ba_browser_binding_hash :: "string option"
  ba_upstream_nonce :: "string option"
  ba_upstream_verifier :: "string option"
  ba_claim_hash :: "string option"
  ba_csrf_hash :: "string option"
  ba_session_id :: "uuid option"
  ba_client_id :: string
  ba_redirect_uri :: string
  ba_scopes :: "string list"
  ba_resource :: string
  ba_code_challenge :: string
  ba_downstream_state :: "string option"
  ba_oidc_nonce :: "string option"
  ba_created_at :: int
  ba_expires_at :: int
  ba_cimd_binding :: "string option"
  ba_allow_pre_authorization :: bool

record logout_row =
  lc_id :: uuid
  lc_csrf_hash :: string
  lc_session_id :: uuid
  lc_client_id :: string
  lc_redirect_uri :: string
  lc_downstream_state :: "string option"
  lc_created_at :: int
  lc_expires_at :: int
  lc_consumed_at :: "int option"

record external_identity_row =
  ei_issuer :: string
  ei_subject :: string
  ei_user_id :: uuid

record user_profile =
  up_name :: "string option"
  up_given_name :: "string option"
  up_family_name :: "string option"
  up_picture :: "string option"
  up_verified_email :: "string option"

record user_profile_row =
  upr_user_id :: uuid
  upr_profile :: user_profile
  upr_updated_at :: int

record db =
  db_users :: "uuid list"
  db_identities :: "external_identity_row list"
  db_profiles :: "user_profile_row list"
  db_sessions :: "provider_session_row list"
  db_codes :: "authorization_code_row list"
  db_families :: "refresh_family_row list"
  db_members :: "refresh_member_row list"
  db_browser :: "browser_row list"
  db_logouts :: "logout_row list"

definition empty_db :: db where
  "empty_db = \<lparr>db_users = [], db_identities = [], db_profiles = [], db_sessions = [], db_codes = [],
     db_families = [], db_members = [], db_browser = [], db_logouts = []\<rparr>"

text \<open>\<open>UPDATE \<dots> SET \<dots> WHERE\<close>, and the number of rows it affects.\<close>

definition update_where :: "('r \<Rightarrow> bool) \<Rightarrow> ('r \<Rightarrow> 'r) \<Rightarrow> 'r list \<Rightarrow> 'r list" where
  "update_where P f rows = map (\<lambda>r. if P r then f r else r) rows"

definition rows_affected :: "('r \<Rightarrow> bool) \<Rightarrow> 'r list \<Rightarrow> nat" where
  "rows_affected P rows = length (filter P rows)"

text \<open>\<open>COALESCE(column, value)\<close>.\<close>

definition coalesce :: "'a option \<Rightarrow> 'a \<Rightarrow> 'a option" where
  "coalesce x v = (case x of None \<Rightarrow> Some v | Some w \<Rightarrow> Some w)"

lemma coalesce_not_None [simp]: "coalesce x v \<noteq> None"
  by (cases x) (auto simp: coalesce_def)

lemma coalesce_ex [simp]: "\<exists>y. coalesce x v = Some y"
  by (cases x) (auto simp: coalesce_def)

lemma coalesce_Some [simp]: "coalesce (Some w) v = Some w"
  by (simp add: coalesce_def)

lemma update_where_simps [simp, table_simps]:
  "update_where P f [] = []"
  "update_where P f (r # rs) = (if P r then f r else r) # update_where P f rs"
  "update_where P f (rs @ qs) = update_where P f rs @ update_where P f qs"
  "length (update_where P f rs) = length rs"
  by (simp_all add: update_where_def)

lemma set_update_where [table_simps]:
  "set (update_where P f rs) = (\<lambda>r. if P r then f r else r) ` set rs"
  by (simp add: update_where_def)

lemma nth_update_where [simp, table_simps]:
  "i < length rs \<Longrightarrow> update_where P f rs ! i = (if P (rs ! i) then f (rs ! i) else rs ! i)"
  by (simp add: update_where_def)

lemma map_update_where [table_simps]:
  "(\<And>r. P r \<Longrightarrow> g (f r) = g r) \<Longrightarrow> map g (update_where P f rs) = map g rs"
  by (simp add: update_where_def)

lemma update_where_none: "(\<And>r. r \<in> set rs \<Longrightarrow> \<not> P r) \<Longrightarrow> update_where P f rs = rs"
  by (simp add: update_where_def map_idI)

lemma find_Some_set: "find P xs = Some x \<Longrightarrow> x \<in> set xs \<and> P x"
  by (auto simp: find_Some_iff)

lemma find_unique_key:
  assumes "distinct (map key xs)" and "x \<in> set xs"
  shows "find (\<lambda>r. key r = key x) xs = Some x"
  using assms by (induction xs) (auto simp: image_iff)

lemma distinct_key_eq:
  "distinct (map key xs) \<Longrightarrow> x \<in> set xs \<Longrightarrow> y \<in> set xs \<Longrightarrow> key x = key y \<Longrightarrow> x = y"
  by (auto simp: distinct_map dest: inj_onD)

section \<open>Selections by key\<close>

definition session_by_id :: "db \<Rightarrow> uuid \<Rightarrow> provider_session_row option" where
  "session_by_id d sid = find (\<lambda>r. ps_id r = sid) (db_sessions d)"

definition code_by_id :: "db \<Rightarrow> uuid \<Rightarrow> authorization_code_row option" where
  "code_by_id d cid = find (\<lambda>r. ac_id r = cid) (db_codes d)"

definition code_by_hash :: "db \<Rightarrow> string \<Rightarrow> authorization_code_row option" where
  "code_by_hash d h = find (\<lambda>r. ac_code_hash r = h) (db_codes d)"

definition family_by_id :: "db \<Rightarrow> uuid \<Rightarrow> refresh_family_row option" where
  "family_by_id d fid = find (\<lambda>r. rf_id r = fid) (db_families d)"

definition member_by_id :: "db \<Rightarrow> uuid \<Rightarrow> refresh_member_row option" where
  "member_by_id d mid = find (\<lambda>r. rm_id r = mid) (db_members d)"

definition member_by_hash :: "db \<Rightarrow> string \<Rightarrow> refresh_member_row option" where
  "member_by_hash d h = find (\<lambda>r. rm_token_hash r = h) (db_members d)"

lemmas by_key_defs =
  session_by_id_def code_by_id_def code_by_hash_def family_by_id_def member_by_id_def
  member_by_hash_def

section \<open>Constrained inserts\<close>

definition insert_session :: "db \<Rightarrow> provider_session_row \<Rightarrow> db option" where
  "insert_session d r =
     (if ps_id r \<in> ps_id ` set (db_sessions d) \<or> ps_token_hash r \<in> ps_token_hash ` set (db_sessions d)
         \<or> length (ps_token_hash r) \<noteq> 32 \<or> ps_user_id r \<notin> set (db_users d)
         \<or> ps_auth_time r + days 30 < ps_expires_at r
      then None else Some (d\<lparr>db_sessions := db_sessions d @ [r]\<rparr>))"

definition insert_code :: "db \<Rightarrow> authorization_code_row \<Rightarrow> db option" where
  "insert_code d r =
     (if ac_id r \<in> ac_id ` set (db_codes d) \<or> ac_code_hash r \<in> ac_code_hash ` set (db_codes d)
         \<or> length (ac_code_hash r) \<noteq> 32 \<or> ac_session_id r \<notin> ps_id ` set (db_sessions d)
         \<or> ac_client_id r = [] \<or> ac_redirect_uri r = [] \<or> ac_resource r = []
         \<or> ac_issued_at r + seconds 60 < ac_expires_at r
      then None else Some (d\<lparr>db_codes := db_codes d @ [r]\<rparr>))"

definition insert_family :: "db \<Rightarrow> refresh_family_row \<Rightarrow> db option" where
  "insert_family d r =
     (if rf_id r \<in> rf_id ` set (db_families d)
         \<or> rf_source_code_id r \<in> rf_source_code_id ` set (db_families d)
         \<or> rf_source_code_id r \<notin> ac_id ` set (db_codes d)
         \<or> rf_session_id r \<notin> ps_id ` set (db_sessions d) \<or> rf_user_id r \<notin> set (db_users d)
         \<or> rf_issued_at r + days 30 < rf_expires_at r
      then None else Some (d\<lparr>db_families := db_families d @ [r]\<rparr>))"

definition insert_member :: "db \<Rightarrow> refresh_member_row \<Rightarrow> db option" where
  "insert_member d r =
     (if rm_id r \<in> rm_id ` set (db_members d) \<or> rm_token_hash r \<in> rm_token_hash ` set (db_members d)
         \<or> length (rm_token_hash r) \<noteq> 32 \<or> rm_family_id r \<notin> rf_id ` set (db_families d)
      then None else Some (d\<lparr>db_members := db_members d @ [r]\<rparr>))"

definition bad_hash :: "string option \<Rightarrow> bool" where
  "bad_hash h \<longleftrightarrow> is_some_and h (\<lambda>v. length v \<noteq> 32)"

definition insert_browser :: "db \<Rightarrow> browser_row \<Rightarrow> db option" where
  "insert_browser d r =
     (if ba_id r \<in> ba_id ` set (db_browser d)
         \<or> (ba_upstream_state_hash r \<noteq> None
            \<and> ba_upstream_state_hash r \<in> ba_upstream_state_hash ` set (db_browser d))
         \<or> (ba_claim_hash r \<noteq> None \<and> ba_claim_hash r \<in> ba_claim_hash ` set (db_browser d))
         \<or> bad_hash (ba_upstream_state_hash r) \<or> bad_hash (ba_browser_binding_hash r)
         \<or> bad_hash (ba_claim_hash r) \<or> bad_hash (ba_csrf_hash r)
         \<or> is_some_and (ba_session_id r) (\<lambda>s. s \<notin> ps_id ` set (db_sessions d))
         \<or> ba_created_at r + minutes 10 < ba_expires_at r
      then None else Some (d\<lparr>db_browser := db_browser d @ [r]\<rparr>))"

definition insert_logout :: "db \<Rightarrow> logout_row \<Rightarrow> db option" where
  "insert_logout d r =
     (if lc_id r \<in> lc_id ` set (db_logouts d) \<or> length (lc_csrf_hash r) \<noteq> 32
         \<or> lc_session_id r \<notin> ps_id ` set (db_sessions d)
         \<or> lc_created_at r + minutes 10 < lc_expires_at r
      then None else Some (d\<lparr>db_logouts := db_logouts d @ [r]\<rparr>))"

definition GOOGLE_ISSUER :: string where
  "GOOGLE_ISSUER = ''https://accounts.google.com''"

definition insert_user :: "db \<Rightarrow> uuid \<Rightarrow> db option" where
  "insert_user d u =
     (if u \<in> set (db_users d) then None else Some (d\<lparr>db_users := db_users d @ [u]\<rparr>))"

definition insert_identity :: "db \<Rightarrow> external_identity_row \<Rightarrow> db option" where
  "insert_identity d r =
     (if ei_issuer r \<noteq> GOOGLE_ISSUER \<or> ei_subject r = [] \<or> ei_user_id r \<notin> set (db_users d)
         \<or> (ei_issuer r, ei_subject r) \<in> (\<lambda>q. (ei_issuer q, ei_subject q)) ` set (db_identities d)
         \<or> (ei_user_id r, ei_issuer r) \<in> (\<lambda>q. (ei_user_id q, ei_issuer q)) ` set (db_identities d)
      then None else Some (d\<lparr>db_identities := db_identities d @ [r]\<rparr>))"

lemmas insert_defs =
  insert_session_def insert_code_def insert_family_def insert_member_def insert_browser_def
  insert_logout_def insert_user_def insert_identity_def

section \<open>Identities\<close>

record external_identity =
  xi_issuer :: string
  xi_subject :: string

datatype identity_error = UnsupportedIssuer | EmptySubject

record authenticated_user =
  au_id :: uuid
  au_upstream_auth_time :: "int option"

record verified_google_identity =
  vgi_subject :: string
  vgi_profile :: user_profile
  vgi_auth_time :: "int option"

datatype sqlx_error = ConstraintViolation | RowNotFound

definition google_identity :: "string \<Rightarrow> string \<Rightarrow> identity_error + external_identity" where
  "google_identity issuer subject =
     (if issuer \<noteq> ''accounts.google.com'' \<and> issuer \<noteq> GOOGLE_ISSUER then Inl UnsupportedIssuer
      else if subject = [] then Inl EmptySubject
      else Inr \<lparr>xi_issuer = GOOGLE_ISSUER, xi_subject = subject\<rparr>)"

definition identity_user :: "db \<Rightarrow> string \<Rightarrow> string \<Rightarrow> uuid option" where
  "identity_user d issuer subject =
     map_option ei_user_id (find (\<lambda>r. ei_issuer r = issuer \<and> ei_subject r = subject) (db_identities d))"

text \<open>The body both entry points share, under the advisory lock on the identity.\<close>

definition find_or_insert_identity :: "db \<Rightarrow> uuid \<Rightarrow> string \<Rightarrow> string \<Rightarrow> (uuid \<times> db) option" where
  "find_or_insert_identity d fresh issuer subject =
     (case identity_user d issuer subject of
        Some uid \<Rightarrow> Some (uid, d)
      | None \<Rightarrow> Option.bind (insert_user d fresh) (\<lambda>d1.
          Option.bind (insert_identity d1 \<lparr>ei_issuer = issuer, ei_subject = subject, ei_user_id = fresh\<rparr>)
            (\<lambda>d2. Some (fresh, d2))))"

definition find_or_create_external_identity ::
  "env \<Rightarrow> db \<Rightarrow> external_identity \<Rightarrow> (sqlx_error + uuid) \<times> db" where
  "find_or_create_external_identity e d identity =
     (case find_or_insert_identity d (env_uuid e 0) (xi_issuer identity) (xi_subject identity) of
        None \<Rightarrow> (Inl ConstraintViolation, d)
      | Some (uid, d') \<Rightarrow> (Inr uid, d'))"

definition upsert_profile :: "db \<Rightarrow> uuid \<Rightarrow> user_profile \<Rightarrow> int \<Rightarrow> db" where
  "upsert_profile d uid profile now =
     (let row = \<lparr>upr_user_id = uid, upr_profile = profile, upr_updated_at = now\<rparr> in
      if uid \<in> upr_user_id ` set (db_profiles d)
      then d\<lparr>db_profiles := update_where (\<lambda>r. upr_user_id r = uid) (\<lambda>_. row) (db_profiles d)\<rparr>
      else d\<lparr>db_profiles := db_profiles d @ [row]\<rparr>)"

definition upsert_verified_google_identity_tx ::
  "db \<Rightarrow> uuid \<Rightarrow> verified_google_identity \<Rightarrow> int \<Rightarrow> (uuid \<times> db) option" where
  "upsert_verified_google_identity_tx d fresh identity now =
     (case find_or_insert_identity d fresh GOOGLE_ISSUER (vgi_subject identity) of
        None \<Rightarrow> None
      | Some (uid, d') \<Rightarrow> Some (uid, upsert_profile d' uid (vgi_profile identity) now))"

definition upstream_time :: "libs \<Rightarrow> verified_google_identity \<Rightarrow> int option" where
  "upstream_time L identity = Option.bind (vgi_auth_time identity) (from_timestamp L)"

definition find_or_create_verified_google_identity ::
  "libs \<Rightarrow> env \<Rightarrow> db \<Rightarrow> verified_google_identity \<Rightarrow> (sqlx_error + authenticated_user) \<times> db" where
  "find_or_create_verified_google_identity L e d identity =
     (case upsert_verified_google_identity_tx d (env_uuid e 0) identity (env_clock e 0) of
        None \<Rightarrow> (Inl ConstraintViolation, d)
      | Some (uid, d') \<Rightarrow>
          (Inr \<lparr>au_id = uid, au_upstream_auth_time = upstream_time L identity\<rparr>, d'))"

definition find_profile :: "db \<Rightarrow> uuid \<Rightarrow> user_profile option" where
  "find_profile d uid = map_option upr_profile (find (\<lambda>r. upr_user_id r = uid) (db_profiles d))"

end
