(* ===== verification/Credentials.thy ===== *)
theory Credentials
  imports Database
begin

text \<open>
  \<open>src/src/credentials.rs\<close>: provider sessions, one-time authorization codes, refresh-token
  families with strict rotation, revocation and logout.

  Every operation is one transaction.  Rows read under \<open>FOR UPDATE\<close>, and everything written,
  belong to the argument \<open>d\<close>.  A lookup made before the session lock is taken may see an
  older state, because other transactions can commit in between: it reads from a separate
  snapshot (\<open>d0\<close>, or \<open>dq\<close> for the query that precedes the transaction).  Nothing relates the
  snapshots, so a theorem about all of them covers every interleaving the locks allow.
  The indices of \<open>env_instant\<close> and \<open>env_clock\<close> follow the order of the readings.
\<close>

section \<open>Data\<close>

datatype credential_error = CredMetadataExpired | InvalidGrant | InvalidLifetime | CredDatabase

record provider_session =
  pv_raw :: string
  pv_id :: uuid
  pv_expires_at :: int

record exchange_result =
  ex_session_id :: uuid
  ex_user_id :: uuid
  ex_client_id :: string
  ex_scopes :: "string list"
  ex_resource :: string
  ex_refresh_token :: "string option"
  ex_oidc_nonce :: "string option"
  ex_upstream_auth_time :: "int option"

section \<open>Helpers\<close>

definition hash :: "libs \<Rightarrow> string \<Rightarrow> string" where
  "hash L raw = sha256 L raw"

definition random_credential :: "libs \<Rightarrow> env \<Rightarrow> nat \<Rightarrow> string" where
  "random_credential L e k = b64_encode L (env_random e k)"

definition same_scopes :: "string list \<Rightarrow> string list \<Rightarrow> bool" where
  "same_scopes left right \<longleftrightarrow> card (set left) = length left \<and> set left = set right"

definition bounded_seconds :: "duration \<Rightarrow> nat \<Rightarrow> credential_error + nat" where
  "bounded_seconds dur maximum =
     (if (dur_secs dur = 0 \<and> dur_subsec_nanos dur = 0) \<or> maximum < dur_secs dur \<or> dur_subsec_nanos dur \<noteq> 0
      then Inl InvalidLifetime else Inr (dur_secs dur))"

fun credential_policy_error :: "oauth_error \<Rightarrow> credential_error" where
  "credential_policy_error MetadataExpired = CredMetadataExpired"
| "credential_policy_error _ = InvalidGrant"

definition check_binding ::
  "binding_codec \<Rightarrow> nat \<Rightarrow> client_registry option \<Rightarrow> string \<Rightarrow> string option \<Rightarrow> credential_error + unit" where
  "check_binding B now registry client binding = (case registry of
     Some reg \<Rightarrow> map_err credential_policy_error (validate_binding B now reg client binding)
   | None \<Rightarrow> if binding = None then Inr () else Inl InvalidGrant)"

section \<open>Sessions\<close>

definition create_provider_session ::
  "libs \<Rightarrow> env \<Rightarrow> db \<Rightarrow> authenticated_user \<Rightarrow> duration \<Rightarrow> (credential_error + provider_session) \<times> db" where
  "create_provider_session L e d user lifetime =
     (case bounded_seconds lifetime (30 * 24 * 60 * 60) of
        Inl err \<Rightarrow> (Inl err, d)
      | Inr secs \<Rightarrow>
        let raw = random_credential L e 0; t = env_clock e 0;
            row = \<lparr>ps_id = env_uuid e 0, ps_token_hash = hash L raw, ps_user_id = au_id user,
                   ps_auth_time = t, ps_expires_at = t + seconds (int secs), ps_revoked_at = None,
                   ps_upstream_auth_time = au_upstream_auth_time user\<rparr>
        in (case insert_session d row of
              None \<Rightarrow> (Inl CredDatabase, d)
            | Some d' \<Rightarrow>
                (Inr \<lparr>pv_raw = raw, pv_id = ps_id row, pv_expires_at = ps_expires_at row\<rparr>, d')))"

definition find_provider_session ::
  "libs \<Rightarrow> env \<Rightarrow> db \<Rightarrow> string \<Rightarrow> credential_error + provider_session" where
  "find_provider_session L e d raw =
     (case find (\<lambda>r. ps_token_hash r = hash L raw \<and> ps_revoked_at r = None \<and> env_clock e 0 < ps_expires_at r)
             (db_sessions d) of
        None \<Rightarrow> Inl InvalidGrant
      | Some r \<Rightarrow> Inr \<lparr>pv_raw = raw, pv_id = ps_id r, pv_expires_at = ps_expires_at r\<rparr>)"

section \<open>Authorization codes\<close>

definition insert_authorization_code_tx ::
  "libs \<Rightarrow> binding_codec \<Rightarrow> env \<Rightarrow> nat \<Rightarrow> int \<Rightarrow> db \<Rightarrow> uuid \<Rightarrow> validated_authorization_grant
    \<Rightarrow> string option \<Rightarrow> int option \<Rightarrow> nat \<Rightarrow> (string \<times> db) option" where
  "insert_authorization_code_tx L B e k t d session_id grant oidc_nonce upstream_auth_time secs =
     (let raw = random_credential L e k;
          expires = t + seconds (int secs);
          row = \<lparr>ac_id = env_uuid e k, ac_code_hash = hash L raw, ac_session_id = session_id,
                 ac_client_id = vg_client_id grant, ac_redirect_uri = vg_redirect_uri grant,
                 ac_scopes = vg_scopes grant, ac_resource = vg_resource grant,
                 ac_code_challenge = vg_code_challenge grant,
                 ac_issue_refresh_token = vg_issue_refresh_token grant, ac_issued_at = t,
                 ac_expires_at = (case session_by_id d session_id of None \<Rightarrow> expires
                                  | Some s \<Rightarrow> min expires (ps_expires_at s)),
                 ac_consumed_at = None, ac_oidc_nonce = oidc_nonce,
                 ac_upstream_auth_time = upstream_auth_time,
                 ac_cimd_binding = map_option (jsonb_text B) (grant_cimd_binding_json B grant)\<rparr>
      in map_option (\<lambda>d'. (raw, d')) (insert_code d row))"

definition session_active :: "int \<Rightarrow> provider_session_row \<Rightarrow> bool" where
  "session_active now s \<longleftrightarrow> ps_revoked_at s = None \<and> now < ps_expires_at s"

definition issue_authorization_code ::
  "libs \<Rightarrow> binding_codec \<Rightarrow> env \<Rightarrow> db \<Rightarrow> provider_session \<Rightarrow> validated_authorization_grant \<Rightarrow> duration
    \<Rightarrow> (credential_error + string) \<times> db" where
  "issue_authorization_code L B e d session grant lifetime =
     (case bounded_seconds lifetime 60 of Inl err \<Rightarrow> (Inl err, d)
      | Inr secs \<Rightarrow>
     (case session_by_id d (pv_id session) of None \<Rightarrow> (Inl InvalidGrant, d)
      | Some s \<Rightarrow>
        if \<not> session_active (env_clock e 0) s then (Inl InvalidGrant, d)
        else if \<not> is_ok (grant_ensure_fresh (env_instant e 0) grant) then (Inl CredMetadataExpired, d)
        else (case insert_authorization_code_tx L B e 0 (env_clock e 1) d (pv_id session) grant None
                     (ps_upstream_auth_time s) secs of
            None \<Rightarrow> (Inl CredDatabase, d)
          | Some (raw, d') \<Rightarrow>
              if \<not> is_ok (grant_ensure_fresh (env_instant e 1) grant) then (Inl CredMetadataExpired, d)
              else (Inr raw, d'))))"

section \<open>Refresh members\<close>

definition insert_refresh :: "libs \<Rightarrow> env \<Rightarrow> nat \<Rightarrow> db \<Rightarrow> uuid \<Rightarrow> int \<Rightarrow> (string \<times> db) option" where
  "insert_refresh L e k d family_id now =
     (let raw = random_credential L e k in
      map_option (\<lambda>d'. (raw, d'))
        (insert_member d \<lparr>rm_id = env_uuid e k, rm_family_id = family_id, rm_token_hash = hash L raw,
           rm_issued_at = now, rm_consumed_at = None, rm_successor_id = None\<rparr>))"

definition revoke_families :: "(refresh_family_row \<Rightarrow> bool) \<Rightarrow> int \<Rightarrow> db \<Rightarrow> db" where
  "revoke_families P now d =
     d\<lparr>db_families := update_where P (\<lambda>f. f\<lparr>rf_revoked_at := coalesce (rf_revoked_at f) now\<rparr>) (db_families d)\<rparr>"

definition revoke_session :: "uuid \<Rightarrow> int \<Rightarrow> db \<Rightarrow> db" where
  "revoke_session sid now d =
     d\<lparr>db_sessions := update_where (\<lambda>s. ps_id s = sid)
         (\<lambda>s. s\<lparr>ps_revoked_at := coalesce (ps_revoked_at s) now\<rparr>) (db_sessions d)\<rparr>"

section \<open>Exchanging a code\<close>

definition consume_code :: "uuid \<Rightarrow> int \<Rightarrow> db \<Rightarrow> db" where
  "consume_code cid now d =
     d\<lparr>db_codes := update_where (\<lambda>c. ac_id c = cid) (\<lambda>c. c\<lparr>ac_consumed_at := Some now\<rparr>) (db_codes d)\<rparr>"

definition family_of_code ::
  "uuid \<Rightarrow> authorization_code_row \<Rightarrow> provider_session_row \<Rightarrow> int \<Rightarrow> refresh_family_row" where
  "family_of_code fid code session now =
     \<lparr>rf_id = fid, rf_source_code_id = ac_id code, rf_session_id = ac_session_id code,
      rf_user_id = ps_user_id session, rf_client_id = ac_client_id code, rf_scopes = ac_scopes code,
      rf_resource = ac_resource code, rf_issued_at = now,
      rf_expires_at = min (now + days 30) (ps_expires_at session), rf_revoked_at = None,
      rf_upstream_auth_time = ac_upstream_auth_time code, rf_cimd_binding = ac_cimd_binding code\<rparr>"

text \<open>Lines that write: consume the code and, for a refreshable grant, start its family.\<close>

definition redeem_code ::
  "libs \<Rightarrow> env \<Rightarrow> int \<Rightarrow> db \<Rightarrow> authorization_code_row \<Rightarrow> provider_session_row \<Rightarrow> (string option \<times> db) option" where
  "redeem_code L e now d code session =
     (let d1 = consume_code (ac_id code) now d in
      if ac_issue_refresh_token code then
        Option.bind (insert_family d1 (family_of_code (env_uuid e 0) code session now)) (\<lambda>d2.
        Option.bind (insert_refresh L e 1 d2 (env_uuid e 0) now) (\<lambda>(raw, d3). Some (Some raw, d3)))
      else Some (None, d1))"

definition code_matches ::
  "libs \<Rightarrow> authorization_code_row \<Rightarrow> string \<Rightarrow> string \<Rightarrow> string \<Rightarrow> string \<Rightarrow> bool" where
  "code_matches L code client_id redirect_uri resource verifier \<longleftrightarrow>
     ac_client_id code = client_id \<and> ac_redirect_uri code = redirect_uri \<and> ac_resource code = resource
     \<and> verify_s256 L verifier (ac_code_challenge code)"

definition exchange_policy ::
  "libs \<Rightarrow> binding_codec \<Rightarrow> env \<Rightarrow> client_registry option \<Rightarrow> authorization_code_row \<Rightarrow> string \<Rightarrow> string
    \<Rightarrow> string \<Rightarrow> credential_error + unit" where
  "exchange_policy L B e registry code client_id redirect_uri resource =
     and_then (check_binding B (env_instant e 0) registry client_id (ac_cimd_binding code)) (\<lambda>_.
     and_then (case registry of None \<Rightarrow> Inr ()
        | Some reg \<Rightarrow> map_err credential_policy_error (map_ok (\<lambda>_. ())
            (validate_pending_parts L (env_instant e 1) reg client_id redirect_uri ''code'' ''S256''
               (ac_code_challenge code) (ac_scopes code) (Some resource)))) (\<lambda>_.
     check_binding B (env_instant e 2) registry client_id (ac_cimd_binding code)))"

definition exchange_code_bound ::
  "libs \<Rightarrow> binding_codec \<Rightarrow> env \<Rightarrow> db \<Rightarrow> db \<Rightarrow> string \<Rightarrow> string \<Rightarrow> string \<Rightarrow> string \<Rightarrow> string
    \<Rightarrow> client_registry option \<Rightarrow> (credential_error + exchange_result) \<times> db" where
  "exchange_code_bound L B e d0 d raw client_id redirect_uri resource verifier registry =
     (case code_by_hash d0 (hash L raw) of None \<Rightarrow> (Inl InvalidGrant, d)
      | Some code0 \<Rightarrow>
     if \<not> code_matches L code0 client_id redirect_uri resource verifier then (Inl InvalidGrant, d)
     else (case session_by_id d (ac_session_id code0) of None \<Rightarrow> (Inl InvalidGrant, d)
      | Some session \<Rightarrow>
     (case code_by_id d (ac_id code0) of None \<Rightarrow> (Inl CredDatabase, d)
      | Some code \<Rightarrow>
     if ac_session_id code \<noteq> ac_session_id code0
        \<or> \<not> code_matches L code client_id redirect_uri resource verifier then (Inl InvalidGrant, d)
     else (case exchange_policy L B e registry code client_id redirect_uri resource of
        Inl err \<Rightarrow> (Inl err, d)
      | Inr _ \<Rightarrow>
     let now = env_clock e 0;
         rebind = check_binding B (env_instant e 3) registry client_id (ac_cimd_binding code)
     in if ac_consumed_at code \<noteq> None then
          (case rebind of Inl err \<Rightarrow> (Inl err, d)
           | Inr _ \<Rightarrow> (Inl InvalidGrant, revoke_families (\<lambda>f. rf_source_code_id f = ac_id code) now d))
        else if ac_expires_at code \<le> now \<or> ps_expires_at session \<le> now \<or> ps_revoked_at session \<noteq> None
        then (Inl InvalidGrant, d)
        else (case redeem_code L e now d code session of None \<Rightarrow> (Inl CredDatabase, d)
         | Some (refresh_token, d') \<Rightarrow>
            (case rebind of Inl err \<Rightarrow> (Inl err, d)
             | Inr _ \<Rightarrow>
                (Inr \<lparr>ex_session_id = ac_session_id code, ex_user_id = ps_user_id session,
                      ex_client_id = ac_client_id code, ex_scopes = ac_scopes code,
                      ex_resource = ac_resource code, ex_refresh_token = refresh_token,
                      ex_oidc_nonce = ac_oidc_nonce code,
                      ex_upstream_auth_time = ac_upstream_auth_time code\<rparr>, d')))))))"

definition exchange_code ::
  "libs \<Rightarrow> binding_codec \<Rightarrow> env \<Rightarrow> db \<Rightarrow> db \<Rightarrow> string \<Rightarrow> string \<Rightarrow> string \<Rightarrow> string \<Rightarrow> string
    \<Rightarrow> (credential_error + exchange_result) \<times> db" where
  "exchange_code L B e d0 d raw client_id redirect_uri resource verifier =
     exchange_code_bound L B e d0 d raw client_id redirect_uri resource verifier None"

definition exchange_code_request ::
  "libs \<Rightarrow> binding_codec \<Rightarrow> nat \<Rightarrow> env \<Rightarrow> db \<Rightarrow> db \<Rightarrow> db \<Rightarrow> string \<Rightarrow> string \<Rightarrow> string \<Rightarrow> string option
    \<Rightarrow> string \<Rightarrow> string list option \<Rightarrow> client_registry \<Rightarrow> (credential_error + exchange_result) \<times> db" where
  "exchange_code_request L B now0 e dq d0 d raw client_id redirect_uri resource verifier scopes registry =
     (case find (\<lambda>c. ac_code_hash c = hash L raw \<and> ac_client_id c = client_id \<and> ac_redirect_uri c = redirect_uri)
             (db_codes dq) of
        None \<Rightarrow> (Inl InvalidGrant, d)
      | Some stored \<Rightarrow>
        if is_some_and resource (\<lambda>value. value \<noteq> ac_resource stored)
           \<or> is_some_and scopes (\<lambda>value. \<not> same_scopes value (ac_scopes stored))
        then (Inl InvalidGrant, d)
        else (case validate_pending_parts L now0 registry client_id redirect_uri ''code'' ''S256''
                     (ac_code_challenge stored) (ac_scopes stored) (Some (ac_resource stored)) of
            Inl err \<Rightarrow> (Inl (credential_policy_error err), d)
          | Inr _ \<Rightarrow> exchange_code_bound L B e d0 d raw client_id redirect_uri (ac_resource stored)
                       verifier (Some registry)))"

section \<open>Rotating a refresh token\<close>

definition consume_member :: "uuid \<Rightarrow> int \<Rightarrow> uuid \<Rightarrow> db \<Rightarrow> db" where
  "consume_member mid now successor d =
     d\<lparr>db_members := update_where (\<lambda>m. rm_id m = mid)
         (\<lambda>m. m\<lparr>rm_consumed_at := Some now, rm_successor_id := Some successor\<rparr>) (db_members d)\<rparr>"

definition rotate_member ::
  "libs \<Rightarrow> env \<Rightarrow> int \<Rightarrow> db \<Rightarrow> uuid \<Rightarrow> uuid \<Rightarrow> (string \<times> db) option" where
  "rotate_member L e now d mid family_id =
     Option.bind (insert_refresh L e 0 d family_id now) (\<lambda>(raw, d1).
     Option.bind (member_by_hash d1 (hash L raw)) (\<lambda>successor.
       Some (raw, consume_member mid now (rm_id successor) d1)))"

definition rotate_refresh_bound ::
  "libs \<Rightarrow> binding_codec \<Rightarrow> env \<Rightarrow> db \<Rightarrow> db \<Rightarrow> string \<Rightarrow> string \<Rightarrow> string \<Rightarrow> client_registry option
    \<Rightarrow> (credential_error + exchange_result) \<times> db" where
  "rotate_refresh_bound L B e d0 d raw client_id resource registry =
     (case member_by_hash d0 (hash L raw) of None \<Rightarrow> (Inl InvalidGrant, d)
      | Some m0 \<Rightarrow>
     (case family_by_id d0 (rm_family_id m0) of None \<Rightarrow> (Inl InvalidGrant, d)
      | Some f0 \<Rightarrow>
     (case session_by_id d (rf_session_id f0) of None \<Rightarrow> (Inl CredDatabase, d)
      | Some session \<Rightarrow>
     (case family_by_id d (rm_family_id m0) of None \<Rightarrow> (Inl CredDatabase, d)
      | Some family \<Rightarrow>
     (case member_by_id d (rm_id m0) of None \<Rightarrow> (Inl CredDatabase, d)
      | Some member \<Rightarrow>
     if rf_client_id family \<noteq> client_id \<or> rf_resource family \<noteq> resource then (Inl InvalidGrant, d)
     else (case check_binding B (env_instant e 0) registry client_id (rf_cimd_binding family) of
        Inl err \<Rightarrow> (Inl err, d)
      | Inr _ \<Rightarrow>
     if is_some_and registry (\<lambda>reg. \<not> permits_refresh reg client_id (rf_scopes family) (rf_resource family))
     then (Inl InvalidGrant, d)
     else (case check_binding B (env_instant e 1) registry client_id (rf_cimd_binding family) of
        Inl err \<Rightarrow> (Inl err, d)
      | Inr _ \<Rightarrow>
     let now = env_clock e 0;
         rebind = check_binding B (env_instant e 2) registry client_id (rf_cimd_binding family)
     in if rm_consumed_at member \<noteq> None then
          (case rebind of Inl err \<Rightarrow> (Inl err, d)
           | Inr _ \<Rightarrow> (Inl InvalidGrant, revoke_families (\<lambda>f. rf_id f = rm_family_id m0) now d))
        else if rf_revoked_at family \<noteq> None \<or> ps_revoked_at session \<noteq> None
           \<or> rf_expires_at family \<le> now \<or> ps_expires_at session \<le> now
        then (Inl InvalidGrant, d)
        else (case rotate_member L e now d (rm_id m0) (rm_family_id m0) of None \<Rightarrow> (Inl CredDatabase, d)
         | Some (successor, d') \<Rightarrow>
            (case rebind of Inl err \<Rightarrow> (Inl err, d)
             | Inr _ \<Rightarrow>
                (Inr \<lparr>ex_session_id = rf_session_id f0, ex_user_id = ps_user_id session,
                      ex_client_id = rf_client_id family, ex_scopes = rf_scopes family,
                      ex_resource = rf_resource family, ex_refresh_token = Some successor,
                      ex_oidc_nonce = None,
                      ex_upstream_auth_time = rf_upstream_auth_time family\<rparr>, d'))))))))))"

definition rotate_refresh ::
  "libs \<Rightarrow> binding_codec \<Rightarrow> env \<Rightarrow> db \<Rightarrow> db \<Rightarrow> string \<Rightarrow> string \<Rightarrow> string
    \<Rightarrow> (credential_error + exchange_result) \<times> db" where
  "rotate_refresh L B e d0 d raw client_id resource =
     rotate_refresh_bound L B e d0 d raw client_id resource None"

definition family_of_token :: "db \<Rightarrow> string \<Rightarrow> refresh_family_row option" where
  "family_of_token d h = Option.bind (member_by_hash d h) (\<lambda>m. family_by_id d (rm_family_id m))"

definition rotate_refresh_request ::
  "libs \<Rightarrow> binding_codec \<Rightarrow> env \<Rightarrow> db \<Rightarrow> db \<Rightarrow> db \<Rightarrow> string \<Rightarrow> string \<Rightarrow> string option
    \<Rightarrow> string list option \<Rightarrow> client_registry \<Rightarrow> (credential_error + exchange_result) \<times> db" where
  "rotate_refresh_request L B e dq d0 d raw client_id resource scopes registry =
     (case family_of_token dq (hash L raw) of None \<Rightarrow> (Inl InvalidGrant, d)
      | Some stored \<Rightarrow>
        if rf_client_id stored \<noteq> client_id then (Inl InvalidGrant, d)
        else if is_some_and resource (\<lambda>value. value \<noteq> rf_resource stored)
           \<or> is_some_and scopes (\<lambda>value. \<not> same_scopes value (rf_scopes stored))
           \<or> \<not> permits_refresh registry client_id (rf_scopes stored) (rf_resource stored)
        then (Inl InvalidGrant, d)
        else rotate_refresh_bound L B e d0 d raw client_id (rf_resource stored) (Some registry))"

section \<open>Revocation and logout\<close>

definition revoke_refresh ::
  "libs \<Rightarrow> env \<Rightarrow> db \<Rightarrow> db \<Rightarrow> string \<Rightarrow> string \<Rightarrow> (credential_error + unit) \<times> db" where
  "revoke_refresh L e d0 d raw client_id =
     (case family_of_token d0 (hash L raw) of None \<Rightarrow> (Inr (), d)
      | Some f0 \<Rightarrow>
        if rf_client_id f0 \<noteq> client_id then (Inr (), d)
        else if session_by_id d (rf_session_id f0) = None \<or> family_by_id d (rf_id f0) = None
        then (Inl CredDatabase, d)
        else (Inr (), revoke_families (\<lambda>f. rf_id f = rf_id f0) (env_clock e 0) d))"

definition logout :: "env \<Rightarrow> db \<Rightarrow> provider_session \<Rightarrow> (credential_error + unit) \<times> db" where
  "logout e d session =
     (if session_by_id d (pv_id session) = None then (Inl CredDatabase, d)
      else (Inr (), revoke_families (\<lambda>f. rf_session_id f = pv_id session) (env_clock e 1)
                      (revoke_session (pv_id session) (env_clock e 0) d)))"

end
