(* ===== verification/Evolution.thy ===== *)
theory Evolution
  imports Credentials
begin

text \<open>
  What a committed transaction may do to the credential tables, whichever operation runs it:
  no row disappears or changes identity, a recorded consumption or revocation is never
  erased or moved, and rows are only appended.  The order on one kind of row is an instance
  of the locale \<open>evolution\<close>, which lifts it to tables; \<open>creds_le\<close> is the order on databases.
\<close>

section \<open>The interface: an order on rows lifted to tables\<close>

locale evolution =
  fixes le :: "'r \<Rightarrow> 'r \<Rightarrow> bool"
  assumes le_refl: "le r r"
    and le_trans: "le r s \<Longrightarrow> le s t \<Longrightarrow> le r t"
begin

definition rows_le :: "'r list \<Rightarrow> 'r list \<Rightarrow> bool" where
  "rows_le rs rs' \<longleftrightarrow> length rs \<le> length rs' \<and> (\<forall>i < length rs. le (rs ! i) (rs' ! i))"

lemma rows_refl [simp]: "rows_le rs rs"
  by (simp add: rows_le_def le_refl)

lemma rows_trans: "rows_le rs ss \<Longrightarrow> rows_le ss ts \<Longrightarrow> rows_le rs ts"
  unfolding rows_le_def by (meson le_trans order_trans order_less_le_trans)

lemma rows_append [simp]: "rows_le rs (rs @ qs)"
  by (simp add: rows_le_def nth_append le_refl)

lemma rows_update:
  assumes "\<And>r. r \<in> set rs \<Longrightarrow> P r \<Longrightarrow> le r (f r)"
  shows "rows_le rs (update_where P f rs)"
  using assms by (simp add: rows_le_def le_refl)

lemma rows_member: "rows_le rs rs' \<Longrightarrow> r \<in> set rs \<Longrightarrow> \<exists>r' \<in> set rs'. le r r'"
  unfolding rows_le_def in_set_conv_nth by (metis nth_mem order_less_le_trans)

lemma rows_find:
  assumes "rows_le rs rs'" and "\<And>r r'. le r r' \<Longrightarrow> key r' = key r"
    and "distinct (map key rs')" and "find (\<lambda>r. key r = k) rs = Some r"
  shows "\<exists>r'. find (\<lambda>r. key r = k) rs' = Some r' \<and> le r r'"
proof -
  from assms(4) have r: "r \<in> set rs" "key r = k"
    by (auto dest: find_Some_set)
  from rows_member [OF assms(1) r(1)] obtain r' where r': "r' \<in> set rs'" "le r r'" by blast
  with find_unique_key [OF assms(3) r'(1)] assms(2) r show ?thesis by auto
qed

lemma rows_find_some:
  assumes "rows_le rs rs'" and "\<And>r r'. le r r' \<Longrightarrow> key r' = key r"
    and "find (\<lambda>r. key r = k) rs = Some r"
  shows "\<exists>r'. find (\<lambda>r. key r = k) rs' = Some r'"
proof -
  from assms(3) have "r \<in> set rs" "key r = k" by (auto dest: find_Some_set)
  with rows_member [OF assms(1)] assms(2) have "\<exists>r' \<in> set rs'. key r' = k" by metis
  then show ?thesis by (metis (mono_tags, lifting) find_None_iff not_Some_eq)
qed

end

section \<open>The orders on the rows\<close>

definition session_le :: "provider_session_row \<Rightarrow> provider_session_row \<Rightarrow> bool" where
  "session_le r r' \<longleftrightarrow> r' = r\<lparr>ps_revoked_at := ps_revoked_at r'\<rparr>
     \<and> (ps_revoked_at r \<noteq> None \<longrightarrow> ps_revoked_at r' = ps_revoked_at r)"

definition code_le :: "authorization_code_row \<Rightarrow> authorization_code_row \<Rightarrow> bool" where
  "code_le r r' \<longleftrightarrow> r' = r\<lparr>ac_consumed_at := ac_consumed_at r'\<rparr>
     \<and> (ac_consumed_at r \<noteq> None \<longrightarrow> ac_consumed_at r' = ac_consumed_at r)"

definition family_le :: "refresh_family_row \<Rightarrow> refresh_family_row \<Rightarrow> bool" where
  "family_le r r' \<longleftrightarrow> r' = r\<lparr>rf_revoked_at := rf_revoked_at r'\<rparr>
     \<and> (rf_revoked_at r \<noteq> None \<longrightarrow> rf_revoked_at r' = rf_revoked_at r)"

definition member_le :: "refresh_member_row \<Rightarrow> refresh_member_row \<Rightarrow> bool" where
  "member_le r r' \<longleftrightarrow> r' = r\<lparr>rm_consumed_at := rm_consumed_at r', rm_successor_id := rm_successor_id r'\<rparr>
     \<and> (rm_consumed_at r \<noteq> None \<longrightarrow> r' = r)"

lemma session_leD: "session_le r r' \<Longrightarrow> ps_id r' = ps_id r \<and> ps_token_hash r' = ps_token_hash r
    \<and> ps_user_id r' = ps_user_id r \<and> ps_expires_at r' = ps_expires_at r
    \<and> ps_auth_time r' = ps_auth_time r \<and> ps_upstream_auth_time r' = ps_upstream_auth_time r"
  unfolding session_le_def by (cases r; cases r') auto

lemma code_leD: "code_le r r' \<Longrightarrow> ac_id r' = ac_id r \<and> ac_code_hash r' = ac_code_hash r
    \<and> ac_session_id r' = ac_session_id r \<and> ac_client_id r' = ac_client_id r
    \<and> ac_redirect_uri r' = ac_redirect_uri r \<and> ac_scopes r' = ac_scopes r
    \<and> ac_resource r' = ac_resource r \<and> ac_code_challenge r' = ac_code_challenge r
    \<and> ac_issue_refresh_token r' = ac_issue_refresh_token r \<and> ac_issued_at r' = ac_issued_at r
    \<and> ac_expires_at r' = ac_expires_at r \<and> ac_cimd_binding r' = ac_cimd_binding r
    \<and> ac_upstream_auth_time r' = ac_upstream_auth_time r"
  unfolding code_le_def by (cases r; cases r') auto

lemma family_leD: "family_le r r' \<Longrightarrow> rf_id r' = rf_id r \<and> rf_source_code_id r' = rf_source_code_id r
    \<and> rf_session_id r' = rf_session_id r \<and> rf_user_id r' = rf_user_id r
    \<and> rf_client_id r' = rf_client_id r \<and> rf_scopes r' = rf_scopes r \<and> rf_resource r' = rf_resource r
    \<and> rf_issued_at r' = rf_issued_at r \<and> rf_expires_at r' = rf_expires_at r
    \<and> rf_cimd_binding r' = rf_cimd_binding r \<and> rf_upstream_auth_time r' = rf_upstream_auth_time r"
  unfolding family_le_def by (cases r; cases r') auto

lemma member_leD: "member_le r r' \<Longrightarrow> rm_id r' = rm_id r \<and> rm_family_id r' = rm_family_id r
    \<and> rm_token_hash r' = rm_token_hash r \<and> rm_issued_at r' = rm_issued_at r"
  unfolding member_le_def by (cases r; cases r') auto

interpretation sessions: evolution session_le
proof
  show "session_le r r" for r by (simp add: session_le_def)
  show "session_le r t" if "session_le r s" "session_le s t" for r s t
    using that unfolding session_le_def by (cases r; cases s; cases t) auto
qed

interpretation codes: evolution code_le
proof
  show "code_le r r" for r by (simp add: code_le_def)
  show "code_le r t" if "code_le r s" "code_le s t" for r s t
    using that unfolding code_le_def by (cases r; cases s; cases t) auto
qed

interpretation families: evolution family_le
proof
  show "family_le r r" for r by (simp add: family_le_def)
  show "family_le r t" if "family_le r s" "family_le s t" for r s t
    using that unfolding family_le_def by (cases r; cases s; cases t) auto
qed

interpretation members: evolution member_le
proof
  show "member_le r r" for r by (simp add: member_le_def)
  show "member_le r t" if "member_le r s" "member_le s t" for r s t
    using that unfolding member_le_def by (cases r; cases s; cases t) auto
qed

section \<open>The order on databases\<close>

definition creds_le :: "db \<Rightarrow> db \<Rightarrow> bool" where
  "creds_le d d' \<longleftrightarrow>
     sessions.rows_le (db_sessions d) (db_sessions d') \<and> codes.rows_le (db_codes d) (db_codes d')
     \<and> families.rows_le (db_families d) (db_families d') \<and> members.rows_le (db_members d) (db_members d')"

lemma creds_le_refl [simp]: "creds_le d d"
  by (simp add: creds_le_def)

lemma creds_le_trans: "creds_le d d1 \<Longrightarrow> creds_le d1 d2 \<Longrightarrow> creds_le d d2"
  unfolding creds_le_def
  using sessions.rows_trans codes.rows_trans families.rows_trans members.rows_trans by blast

text \<open>Operations on other tables leave the credential tables where they are.\<close>

definition same_creds :: "db \<Rightarrow> db \<Rightarrow> bool" where
  "same_creds d d' \<longleftrightarrow> db_sessions d' = db_sessions d \<and> db_codes d' = db_codes d
     \<and> db_families d' = db_families d \<and> db_members d' = db_members d"

lemma same_creds_le [simp]: "same_creds d d' \<Longrightarrow> creds_le d d'"
  by (simp add: same_creds_def creds_le_def)

lemma same_creds_trans: "same_creds d d1 \<Longrightarrow> same_creds d1 d2 \<Longrightarrow> same_creds d d2"
  by (simp add: same_creds_def)

section \<open>Every write respects the order\<close>

lemma creds_le_inserts:
  "insert_session d s = Some d' \<Longrightarrow> creds_le d d'"
  "insert_code d c = Some d' \<Longrightarrow> creds_le d d'"
  "insert_family d f = Some d' \<Longrightarrow> creds_le d d'"
  "insert_member d m = Some d' \<Longrightarrow> creds_le d d'"
  by (auto simp: insert_defs creds_le_def split: if_splits)

lemma creds_le_revoke_families: "creds_le d (revoke_families P now d)"
  unfolding creds_le_def revoke_families_def
  by (auto intro!: families.rows_update simp: family_le_def coalesce_def split: option.splits)

lemma creds_le_revoke_session: "creds_le d (revoke_session sid now d)"
  unfolding creds_le_def revoke_session_def
  by (auto intro!: sessions.rows_update simp: session_le_def coalesce_def split: option.splits)

lemma creds_le_consume_code:
  assumes "distinct (map ac_id (db_codes d))" and "code_by_id d cid = Some c" and "ac_consumed_at c = None"
  shows "creds_le d (consume_code cid now d)"
proof -
  from assms(2) have c: "c \<in> set (db_codes d)" "ac_id c = cid"
    unfolding code_by_id_def by (auto dest: find_Some_set)
  have "code_le r (r\<lparr>ac_consumed_at := Some now\<rparr>)" if "r \<in> set (db_codes d)" "ac_id r = cid" for r
  proof -
    have "r = c" using distinct_key_eq [OF assms(1) that(1) c(1)] that c by simp
    then show ?thesis using assms(3) by (simp add: code_le_def)
  qed
  then show ?thesis
    unfolding creds_le_def consume_code_def by (auto intro!: codes.rows_update)
qed

lemma creds_le_consume_member:
  assumes "distinct (map rm_id (db_members d))" and "m \<in> set (db_members d)"
    and "rm_id m = mid" and "rm_consumed_at m = None"
  shows "creds_le d (consume_member mid now succ d)"
proof -
  have "member_le r (r\<lparr>rm_consumed_at := Some now, rm_successor_id := Some succ\<rparr>)"
    if "r \<in> set (db_members d)" "rm_id r = mid" for r
  proof -
    have "r = m" using distinct_key_eq [OF assms(1) that(1) assms(2)] that assms(3) by simp
    then show ?thesis using assms(4) by (simp add: member_le_def)
  qed
  then show ?thesis
    unfolding creds_le_def consume_member_def by (auto intro!: members.rows_update)
qed

end
