(* ===== verification/Credential_Invariant.thy ===== *)
theory Credential_Invariant
  imports Evolution
begin

text \<open>
  The invariant of the credential tables and its preservation by the writes the operations
  of \<open>credentials.rs\<close> are made of.  It says what the schema cannot: a family descends from a
  consumed refreshable code with the same session, client, scopes, resource and binding and
  ends no later than its session; a revoked session has only revoked families; a family has
  exactly one live member, and every spent member names its successor.
\<close>

section \<open>The invariant\<close>

definition sessions_wf :: "provider_session_row list \<Rightarrow> bool" where
  "sessions_wf S \<longleftrightarrow> distinct (map ps_id S) \<and> distinct (map ps_token_hash S)"

definition code_ok :: "provider_session_row list \<Rightarrow> authorization_code_row \<Rightarrow> bool" where
  "code_ok S c \<longleftrightarrow> ac_expires_at c \<le> ac_issued_at c + seconds 60
     \<and> (\<exists>s \<in> set S. ps_id s = ac_session_id c \<and> ac_expires_at c \<le> ps_expires_at s)"

definition codes_wf :: "provider_session_row list \<Rightarrow> authorization_code_row list \<Rightarrow> bool" where
  "codes_wf S C \<longleftrightarrow> distinct (map ac_id C) \<and> distinct (map ac_code_hash C) \<and> (\<forall>c \<in> set C. code_ok S c)"

definition descends_from :: "refresh_family_row \<Rightarrow> authorization_code_row \<Rightarrow> bool" where
  "descends_from f c \<longleftrightarrow> rf_source_code_id f = ac_id c \<and> ac_consumed_at c \<noteq> None
     \<and> ac_issue_refresh_token c \<and> rf_session_id f = ac_session_id c \<and> rf_client_id f = ac_client_id c
     \<and> rf_scopes f = ac_scopes c \<and> rf_resource f = ac_resource c
     \<and> rf_cimd_binding f = ac_cimd_binding c \<and> rf_upstream_auth_time f = ac_upstream_auth_time c"

definition under_session :: "refresh_family_row \<Rightarrow> provider_session_row \<Rightarrow> bool" where
  "under_session f s \<longleftrightarrow> ps_id s = rf_session_id f \<and> ps_user_id s = rf_user_id f
     \<and> rf_expires_at f \<le> ps_expires_at s \<and> (ps_revoked_at s \<noteq> None \<longrightarrow> rf_revoked_at f \<noteq> None)"

definition families_wf ::
  "provider_session_row list \<Rightarrow> authorization_code_row list \<Rightarrow> refresh_family_row list \<Rightarrow> bool" where
  "families_wf S C F \<longleftrightarrow> distinct (map rf_id F) \<and> distinct (map rf_source_code_id F)
     \<and> (\<forall>f \<in> set F. rf_expires_at f \<le> rf_issued_at f + days 30
          \<and> (\<exists>c \<in> set C. descends_from f c) \<and> (\<exists>s \<in> set S. under_session f s))"

definition live_members :: "refresh_member_row list \<Rightarrow> uuid \<Rightarrow> refresh_member_row list" where
  "live_members M fid = filter (\<lambda>m. rm_family_id m = fid \<and> rm_consumed_at m = None) M"

definition linked :: "refresh_member_row list \<Rightarrow> refresh_member_row \<Rightarrow> bool" where
  "linked M m \<longleftrightarrow> (rm_consumed_at m = None \<longleftrightarrow> rm_successor_id m = None)
     \<and> (\<forall>sid. rm_successor_id m = Some sid \<longrightarrow>
          (\<exists>n \<in> set M. rm_id n = sid \<and> rm_family_id n = rm_family_id m))"

definition members_wf :: "refresh_family_row list \<Rightarrow> refresh_member_row list \<Rightarrow> bool" where
  "members_wf F M \<longleftrightarrow> distinct (map rm_id M) \<and> distinct (map rm_token_hash M)
     \<and> (\<forall>m \<in> set M. linked M m \<and> rm_family_id m \<in> rf_id ` set F)
     \<and> (\<forall>f \<in> set F. length (live_members M (rf_id f)) = 1)"

definition cred_inv :: "db \<Rightarrow> bool" where
  "cred_inv d \<longleftrightarrow> sessions_wf (db_sessions d) \<and> codes_wf (db_sessions d) (db_codes d)
     \<and> families_wf (db_sessions d) (db_codes d) (db_families d)
     \<and> members_wf (db_families d) (db_members d)"

lemma cred_inv_empty [simp]: "cred_inv empty_db"
  by (simp add: cred_inv_def empty_db_def sessions_wf_def codes_wf_def families_wf_def members_wf_def)

lemma cred_inv_same: "same_creds d d' \<Longrightarrow> cred_inv d' \<longleftrightarrow> cred_inv d"
  by (simp add: cred_inv_def same_creds_def)

section \<open>Selections under the invariant\<close>

lemma cred_inv_distinct:
  assumes "cred_inv d"
  shows "distinct (map ps_id (db_sessions d))" "distinct (map ac_id (db_codes d))"
    "distinct (map ac_code_hash (db_codes d))" "distinct (map rf_id (db_families d))"
    "distinct (map rm_id (db_members d))" "distinct (map rm_token_hash (db_members d))"
    "distinct (map ps_token_hash (db_sessions d))" "distinct (map rf_source_code_id (db_families d))"
  using assms
  by (simp_all add: cred_inv_def sessions_wf_def codes_wf_def families_wf_def members_wf_def)

lemma by_key_SomeD:
  "session_by_id d sid = Some s \<Longrightarrow> s \<in> set (db_sessions d) \<and> ps_id s = sid"
  "code_by_id d cid = Some c \<Longrightarrow> c \<in> set (db_codes d) \<and> ac_id c = cid"
  "code_by_hash d h = Some c \<Longrightarrow> c \<in> set (db_codes d) \<and> ac_code_hash c = h"
  "family_by_id d fid = Some f \<Longrightarrow> f \<in> set (db_families d) \<and> rf_id f = fid"
  "member_by_id d mid = Some m \<Longrightarrow> m \<in> set (db_members d) \<and> rm_id m = mid"
  "member_by_hash d h = Some m \<Longrightarrow> m \<in> set (db_members d) \<and> rm_token_hash m = h"
  unfolding by_key_defs by (auto dest: find_Some_set)

lemma by_key_SomeI:
  assumes "cred_inv d"
  shows "s \<in> set (db_sessions d) \<Longrightarrow> session_by_id d (ps_id s) = Some s"
    "c \<in> set (db_codes d) \<Longrightarrow> code_by_id d (ac_id c) = Some c"
    "c \<in> set (db_codes d) \<Longrightarrow> code_by_hash d (ac_code_hash c) = Some c"
    "f \<in> set (db_families d) \<Longrightarrow> family_by_id d (rf_id f) = Some f"
    "m \<in> set (db_members d) \<Longrightarrow> member_by_id d (rm_id m) = Some m"
    "m \<in> set (db_members d) \<Longrightarrow> member_by_hash d (rm_token_hash m) = Some m"
  unfolding by_key_defs using cred_inv_distinct [OF assms] by (auto intro: find_unique_key)

text \<open>What a key selected before, it selects after, with the row evolved.\<close>

lemma by_key_later:
  assumes "creds_le d d'" and "cred_inv d'"
  shows "session_by_id d sid = Some s \<Longrightarrow> \<exists>s'. session_by_id d' sid = Some s' \<and> session_le s s'"
    "code_by_id d cid = Some c \<Longrightarrow> \<exists>c'. code_by_id d' cid = Some c' \<and> code_le c c'"
    "code_by_hash d h = Some c \<Longrightarrow> \<exists>c'. code_by_hash d' h = Some c' \<and> code_le c c'"
    "family_by_id d fid = Some f \<Longrightarrow> \<exists>f'. family_by_id d' fid = Some f' \<and> family_le f f'"
    "member_by_id d mid = Some m \<Longrightarrow> \<exists>m'. member_by_id d' mid = Some m' \<and> member_le m m'"
    "member_by_hash d mh = Some m \<Longrightarrow> \<exists>m'. member_by_hash d' mh = Some m' \<and> member_le m m'"
  unfolding by_key_defs
  using assms(1) [unfolded creds_le_def] cred_inv_distinct [OF assms(2)]
  by (auto intro!: sessions.rows_find codes.rows_find families.rows_find members.rows_find
      dest: session_leD code_leD family_leD member_leD)

section \<open>Appending rows\<close>

lemma code_ok_mono: "code_ok S c \<Longrightarrow> code_ok (S @ T) c"
  by (auto simp: code_ok_def)

lemma families_wf_mono: "families_wf S C F \<Longrightarrow> families_wf (S @ T) (C @ D) F"
  unfolding families_wf_def by fastforce

lemma cred_inv_insert_session:
  assumes "insert_session d r = Some d'" and "cred_inv d"
  shows "cred_inv d'"
proof -
  from assms(1) have d': "d' = d\<lparr>db_sessions := db_sessions d @ [r]\<rparr>"
    and new: "ps_id r \<notin> ps_id ` set (db_sessions d)" "ps_token_hash r \<notin> ps_token_hash ` set (db_sessions d)"
    by (auto simp: insert_session_def split: if_splits)
  have "families_wf (db_sessions d @ [r]) (db_codes d @ []) (db_families d)"
    using assms(2) families_wf_mono unfolding cred_inv_def by blast
  then show ?thesis
    using assms(2) new unfolding d' cred_inv_def
    by (auto simp: sessions_wf_def codes_wf_def intro: code_ok_mono)
qed

lemma cred_inv_insert_code:
  assumes "insert_code d r = Some d'" and "cred_inv d"
    and "\<And>s. session_by_id d (ac_session_id r) = Some s \<Longrightarrow> ac_expires_at r \<le> ps_expires_at s"
  shows "cred_inv d'"
proof -
  from assms(1) have d': "d' = d\<lparr>db_codes := db_codes d @ [r]\<rparr>"
    and new: "ac_id r \<notin> ac_id ` set (db_codes d)" "ac_code_hash r \<notin> ac_code_hash ` set (db_codes d)"
    and r: "ac_session_id r \<in> ps_id ` set (db_sessions d)" "ac_expires_at r \<le> ac_issued_at r + seconds 60"
    by (auto simp: insert_code_def split: if_splits)
  from r(1) obtain s where s: "s \<in> set (db_sessions d)" "ps_id s = ac_session_id r" by auto
  with assms(3) by_key_SomeI(1) [OF assms(2) s(1)] have "ac_expires_at r \<le> ps_expires_at s" by simp
  then have ok: "code_ok (db_sessions d) r" using s r(2) by (auto simp: code_ok_def)
  have "families_wf (db_sessions d @ []) (db_codes d @ [r]) (db_families d)"
    using assms(2) families_wf_mono unfolding cred_inv_def by blast
  then show ?thesis
    using assms(2) new ok unfolding d' cred_inv_def by (auto simp: codes_wf_def)
qed

section \<open>Revocation\<close>

text \<open>A marking of families changes nothing but \<open>rf_revoked_at\<close>, and only from \<open>None\<close>.\<close>

lemma revoke_families_simps [simp]:
  "db_sessions (revoke_families P now d) = db_sessions d"
  "db_codes (revoke_families P now d) = db_codes d"
  "db_members (revoke_families P now d) = db_members d"
  by (simp_all add: revoke_families_def)

lemma revoke_session_simps [simp]:
  "db_codes (revoke_session sid now d) = db_codes d"
  "db_families (revoke_session sid now d) = db_families d"
  "db_members (revoke_session sid now d) = db_members d"
  by (simp_all add: revoke_session_def)

lemma revoke_families_set:
  "f' \<in> set (db_families (revoke_families P now d)) \<Longrightarrow>
     \<exists>f \<in> set (db_families d). f' = (if P f then f\<lparr>rf_revoked_at := coalesce (rf_revoked_at f) now\<rparr> else f)"
  by (auto simp: revoke_families_def set_update_where)

lemma revoke_families_marks:
  assumes "f \<in> set (db_families (revoke_families P now d))" "P f"
    and "\<And>f v. P (f\<lparr>rf_revoked_at := v\<rparr>) = P f"
  shows "rf_revoked_at f \<noteq> None"
proof -
  from revoke_families_set [OF assms(1)] obtain g where
    g: "f = (if P g then g\<lparr>rf_revoked_at := coalesce (rf_revoked_at g) now\<rparr> else g)" by blast
  then have "P g" using assms(2,3) by (metis (full_types))
  with g show ?thesis by simp
qed

lemma revoke_families_map:
  "(\<And>f v. g (f\<lparr>rf_revoked_at := v\<rparr>) = g f) \<Longrightarrow>
     map g (db_families (revoke_families P now d)) = map g (db_families d)"
  by (simp add: revoke_families_def map_update_where)

lemma descends_from_revoked [simp]: "descends_from (f\<lparr>rf_revoked_at := v\<rparr>) c = descends_from f c"
  by (simp add: descends_from_def)

lemma under_session_revoked: "under_session f s \<Longrightarrow> under_session (f\<lparr>rf_revoked_at := coalesce (rf_revoked_at f) now\<rparr>) s"
  by (simp add: under_session_def)

lemma members_wf_cong:
  "map rf_id F' = map rf_id F \<Longrightarrow> members_wf F' M \<longleftrightarrow> members_wf F M"
  unfolding members_wf_def by (metis (no_types, lifting) image_eqI image_iff list.set_map)

lemma cred_inv_revoke_families:
  assumes "cred_inv d"
  shows "cred_inv (revoke_families P now d)"
proof -
  let ?d = "revoke_families P now d"
  have "families_wf (db_sessions d) (db_codes d) (db_families ?d)"
    unfolding families_wf_def
  proof (intro conjI ballI)
    show "distinct (map rf_id (db_families ?d))" "distinct (map rf_source_code_id (db_families ?d))"
      using cred_inv_distinct [OF assms] by (simp_all add: revoke_families_map)
    fix f' assume "f' \<in> set (db_families ?d)"
    from revoke_families_set [OF this] obtain f where f: "f \<in> set (db_families d)"
      "f' = (if P f then f\<lparr>rf_revoked_at := coalesce (rf_revoked_at f) now\<rparr> else f)" by blast
    from assms f(1) have "rf_expires_at f \<le> rf_issued_at f + days 30"
      "\<exists>c \<in> set (db_codes d). descends_from f c" "\<exists>s \<in> set (db_sessions d). under_session f s"
      by (auto simp: cred_inv_def families_wf_def)
    with f(2) show "rf_expires_at f' \<le> rf_issued_at f' + days 30"
      "\<exists>c \<in> set (db_codes d). descends_from f' c" "\<exists>s \<in> set (db_sessions d). under_session f' s"
      by (auto intro: under_session_revoked)
  qed
  then show ?thesis
    using assms members_wf_cong [of "db_families ?d" "db_families d"]
    by (simp add: cred_inv_def revoke_families_map)
qed

text \<open>Revoking a session together with its families, in one transaction.\<close>

definition end_session :: "uuid \<Rightarrow> int \<Rightarrow> int \<Rightarrow> db \<Rightarrow> db" where
  "end_session sid now now' d =
     revoke_families (\<lambda>f. rf_session_id f = sid) now' (revoke_session sid now d)"

lemma revoke_session_member:
  "s \<in> set (db_sessions d) \<Longrightarrow>
     (if ps_id s = sid then s\<lparr>ps_revoked_at := coalesce (ps_revoked_at s) now\<rparr> else s)
       \<in> set (db_sessions (revoke_session sid now d))"
  by (auto simp: revoke_session_def set_update_where)

lemma cred_inv_end_session:
  assumes "cred_inv d"
  shows "cred_inv (end_session sid now now' d)"
proof -
  let ?S = "db_sessions (revoke_session sid now d)" and ?d = "end_session sid now now' d"
  have S: "sessions_wf ?S"
    using cred_inv_distinct [OF assms]
    by (simp add: sessions_wf_def revoke_session_def map_update_where)
  have "code_ok ?S c" if c: "code_ok (db_sessions d) c" for c
  proof -
    from c obtain s where "s \<in> set (db_sessions d)" "ps_id s = ac_session_id c"
      "ac_expires_at c \<le> ps_expires_at s" by (auto simp: code_ok_def)
    then show ?thesis
      using c unfolding code_ok_def
      by (intro conjI bexI [OF _ revoke_session_member [of s]]) (auto simp: code_ok_def)
  qed
  then have C: "codes_wf ?S (db_codes d)"
    using assms by (simp add: cred_inv_def codes_wf_def)
  have "families_wf ?S (db_codes d) (db_families ?d)"
    unfolding families_wf_def
  proof (intro conjI ballI)
    show "distinct (map rf_id (db_families ?d))" "distinct (map rf_source_code_id (db_families ?d))"
      using cred_inv_distinct [OF assms] by (simp_all add: end_session_def revoke_families_map)
    fix f' assume "f' \<in> set (db_families ?d)"
    from revoke_families_set [OF this [unfolded end_session_def]] obtain f where
      f: "f \<in> set (db_families d)" "f' = (if rf_session_id f = sid
            then f\<lparr>rf_revoked_at := coalesce (rf_revoked_at f) now'\<rparr> else f)" by auto
    from assms f(1) obtain s where fs: "rf_expires_at f \<le> rf_issued_at f + days 30"
      "\<exists>c \<in> set (db_codes d). descends_from f c" "s \<in> set (db_sessions d)" "under_session f s"
      by (auto simp: cred_inv_def families_wf_def)
    with f(2) show "rf_expires_at f' \<le> rf_issued_at f' + days 30"
      "\<exists>c \<in> set (db_codes d). descends_from f' c" by auto
    show "\<exists>s \<in> set ?S. under_session f' s"
      using revoke_session_member [OF fs(3), of sid now] fs(4) f(2)
      by (intro bexI) (auto simp: under_session_def)
  qed
  moreover have "members_wf (db_families ?d) (db_members d)"
    using assms members_wf_cong [of "db_families ?d" "db_families d"]
    by (simp add: cred_inv_def end_session_def revoke_families_map)
  ultimately show ?thesis using S C by (simp add: cred_inv_def end_session_def)
qed

lemma creds_le_end_session: "creds_le d (end_session sid now now' d)"
  unfolding end_session_def
  using creds_le_trans creds_le_revoke_families creds_le_revoke_session by blast

section \<open>Consuming a code\<close>

lemma consume_code_simps [simp]:
  "db_sessions (consume_code cid now d) = db_sessions d"
  "db_families (consume_code cid now d) = db_families d"
  "db_members (consume_code cid now d) = db_members d"
  by (simp_all add: consume_code_def)

lemma consume_code_member:
  "c \<in> set (db_codes d) \<Longrightarrow>
     (if ac_id c = cid then c\<lparr>ac_consumed_at := Some now\<rparr> else c) \<in> set (db_codes (consume_code cid now d))"
  by (auto simp: consume_code_def set_update_where)

lemma descends_from_consumed: "descends_from f c \<Longrightarrow> descends_from f (c\<lparr>ac_consumed_at := Some now\<rparr>)"
  by (simp add: descends_from_def)

lemma cred_inv_consume_code:
  assumes "cred_inv d"
  shows "cred_inv (consume_code cid now d)"
proof -
  let ?d = "consume_code cid now d"
  have "codes_wf (db_sessions d) (db_codes ?d)"
    using assms cred_inv_distinct [OF assms]
    by (auto simp: codes_wf_def consume_code_def map_update_where set_update_where cred_inv_def code_ok_def)
  moreover have "\<exists>c \<in> set (db_codes ?d). descends_from f c"
    if "\<exists>c \<in> set (db_codes d). descends_from f c" for f
    using that consume_code_member [of _ d cid now] descends_from_consumed [of f _ now] by metis
  then have "families_wf (db_sessions d) (db_codes ?d) (db_families d)"
    using assms by (simp add: families_wf_def cred_inv_def)
  ultimately show ?thesis using assms by (simp add: cred_inv_def)
qed

section \<open>Starting a family\<close>

lemma live_members_append:
  "live_members (M @ [m]) fid =
     live_members M fid @ (if rm_family_id m = fid \<and> rm_consumed_at m = None then [m] else [])"
  by (simp add: live_members_def)

lemma linked_append: "linked M m \<Longrightarrow> linked (M @ [n]) m"
  by (auto simp: linked_def)

lemma cred_inv_start_family:
  assumes "cred_inv d" and "insert_family d f = Some d1" and "insert_member d1 m = Some d2"
    and m: "rm_family_id m = rf_id f" "rm_consumed_at m = None" "rm_successor_id m = None"
    and f: "c \<in> set (db_codes d)" "descends_from f c" "s \<in> set (db_sessions d)" "under_session f s"
  shows "cred_inv d2"
proof -
  from assms(2,3) have d2: "d2 = d\<lparr>db_families := db_families d @ [f], db_members := db_members d @ [m]\<rparr>"
    and newf: "rf_id f \<notin> rf_id ` set (db_families d)"
      "rf_source_code_id f \<notin> rf_source_code_id ` set (db_families d)"
      "rf_expires_at f \<le> rf_issued_at f + days 30"
    and newm: "rm_id m \<notin> rm_id ` set (db_members d)" "rm_token_hash m \<notin> rm_token_hash ` set (db_members d)"
    by (auto simp: insert_family_def insert_member_def split: if_splits)
  have F: "families_wf (db_sessions d) (db_codes d) (db_families d @ [f])"
    using assms(1) newf f unfolding cred_inv_def families_wf_def by auto
  from assms(1) have M: "members_wf (db_families d) (db_members d)" by (simp add: cred_inv_def)
  then have none: "rm_family_id n \<noteq> rf_id f" if "n \<in> set (db_members d)" for n
    using that newf(1) by (metis members_wf_def)
  have "live_members (db_members d) (rf_id f) = []"
    using none by (auto simp: live_members_def filter_empty_conv)
  moreover have "rf_id g \<noteq> rf_id f" if "g \<in> set (db_families d)" for g
    using that newf(1) by (metis imageI)
  ultimately have "members_wf (db_families d @ [f]) (db_members d @ [m])"
    using M newm m unfolding members_wf_def
    by (auto simp: live_members_append intro: linked_append) (auto simp: linked_def)
  with F assms(1) show ?thesis unfolding d2 by (simp add: cred_inv_def)
qed

section \<open>Rotating a member\<close>

definition spend :: "uuid \<Rightarrow> int \<Rightarrow> uuid \<Rightarrow> refresh_member_row list \<Rightarrow> refresh_member_row list" where
  "spend mid now sid M = update_where (\<lambda>m. rm_id m = mid)
     (\<lambda>m. m\<lparr>rm_consumed_at := Some now, rm_successor_id := Some sid\<rparr>) M"

lemma consume_member_spend: "consume_member mid now sid d = d\<lparr>db_members := spend mid now sid (db_members d)\<rparr>"
  by (simp add: consume_member_def spend_def)

lemma live_members_spend:
  "live_members (spend mid now sid M) fid = filter (\<lambda>m. rm_id m \<noteq> mid) (live_members M fid)"
  by (induction M) (auto simp: live_members_def spend_def)

lemma spend_member:
  "n \<in> set M \<Longrightarrow> \<exists>n' \<in> set (spend mid now sid M). rm_id n' = rm_id n \<and> rm_family_id n' = rm_family_id n"
  by (induction M) (auto simp: spend_def)

lemma linked_spend_other:
  "linked M m \<Longrightarrow> linked (spend mid now sid M) m"
  unfolding linked_def using spend_member [of _ M mid now sid] by metis

lemma live_member_unique:
  assumes "members_wf F M" and "m \<in> set M" and "rm_consumed_at m = None"
  shows "live_members M (rm_family_id m) = [m]"
proof -
  have "m \<in> set (live_members M (rm_family_id m))" using assms by (simp add: live_members_def)
  moreover have "length (live_members M (rm_family_id m)) = 1"
    using assms by (auto simp: members_wf_def)
  ultimately show ?thesis by (auto simp: length_Suc_conv)
qed

lemma members_wf_rotate:
  assumes wf: "members_wf F M" and m: "m \<in> set M" "rm_consumed_at m = None"
    and n: "rm_id n \<notin> rm_id ` set M" "rm_token_hash n \<notin> rm_token_hash ` set M"
      "rm_family_id n = rm_family_id m" "rm_consumed_at n = None" "rm_successor_id n = None"
  shows "members_wf F (spend (rm_id m) now (rm_id n) (M @ [n]))"
proof -
  let ?M = "spend (rm_id m) now (rm_id n) (M @ [n])"
  have other: "rm_id n \<noteq> rm_id m" using n(1) m(1) by force
  have keys: "map rm_id ?M = map rm_id M @ [rm_id n]" "map rm_token_hash ?M = map rm_token_hash M @ [rm_token_hash n]"
    unfolding spend_def by (simp_all add: map_update_where)
  have succ: "n \<in> set ?M" using other by (auto simp: spend_def set_update_where)
  have "linked ?M x \<and> rm_family_id x \<in> rf_id ` set F" if "x \<in> set ?M" for x
  proof -
    from that obtain y where y: "y \<in> set (M @ [n])" "x = (if rm_id y = rm_id m
        then y\<lparr>rm_consumed_at := Some now, rm_successor_id := Some (rm_id n)\<rparr> else y)"
      unfolding spend_def set_update_where by blast
    show ?thesis
    proof (cases "rm_id y = rm_id m")
      case True
      then have "y \<in> set M" using y(1) other by auto
      with wf m(1) True have "y = m" by (auto simp: members_wf_def intro: distinct_key_eq)
      with y True wf m(1) n(3) succ show ?thesis by (auto simp: linked_def members_wf_def)
    next
      case False
      with y have "x = y" by simp
      with y(1) wf m(1) n have "linked (M @ [n]) x \<and> rm_family_id x \<in> rf_id ` set F"
        unfolding members_wf_def by (auto intro: linked_append simp: linked_def)
      then show ?thesis using linked_spend_other by blast
    qed
  qed
  moreover have "length (live_members ?M (rf_id f)) = 1" if "f \<in> set F" for f
  proof (cases "rf_id f = rm_family_id m")
    case True
    then show ?thesis
      using live_member_unique [OF wf m] n other by (simp add: live_members_spend live_members_append)
  next
    case False
    have "x \<in> set (live_members M (rf_id f)) \<Longrightarrow> rm_id x \<noteq> rm_id m" for x
      using False wf m(1) distinct_key_eq [of rm_id M x m] by (auto simp: live_members_def members_wf_def)
    then have "filter (\<lambda>x. rm_id x \<noteq> rm_id m) (live_members M (rf_id f)) = live_members M (rf_id f)"
      by (simp add: filter_id_conv)
    with False n(3) wf that show ?thesis
      by (simp add: live_members_spend live_members_append members_wf_def)
  qed
  ultimately show ?thesis
    using wf n unfolding members_wf_def keys by auto
qed

lemma cred_inv_rotate:
  assumes "cred_inv d" and "insert_member d n = Some d1"
    and "m \<in> set (db_members d)" "rm_consumed_at m = None"
    and "rm_family_id n = rm_family_id m" "rm_consumed_at n = None" "rm_successor_id n = None"
  shows "cred_inv (consume_member (rm_id m) now (rm_id n) d1)"
    and "creds_le d (consume_member (rm_id m) now (rm_id n) d1)"
proof -
  from assms(2) have d1: "d1 = d\<lparr>db_members := db_members d @ [n]\<rparr>"
    and new: "rm_id n \<notin> rm_id ` set (db_members d)" "rm_token_hash n \<notin> rm_token_hash ` set (db_members d)"
    by (auto simp: insert_member_def split: if_splits)
  from assms(1) have "members_wf (db_families d) (db_members d)" by (simp add: cred_inv_def)
  from members_wf_rotate [OF this assms(3,4) new assms(5-7)] assms(1)
  show "cred_inv (consume_member (rm_id m) now (rm_id n) d1)"
    by (simp add: cred_inv_def consume_member_spend d1)
  have "distinct (map rm_id (db_members d1))" "m \<in> set (db_members d1)"
    using cred_inv_distinct(5) [OF assms(1)] new assms(3) by (auto simp: d1)
  from creds_le_consume_member [OF this refl assms(4)] creds_le_inserts(4) [OF assms(2)]
  show "creds_le d (consume_member (rm_id m) now (rm_id n) d1)"
    using creds_le_trans by blast
qed

end
