(* ===== verification/Credential_Operations.thy ===== *)
theory Credential_Operations
  imports Credential_Invariant
begin

text \<open>
  What each operation of \<open>credentials.rs\<close> does to the database: inversion of its outcomes,
  preservation of the invariant and of the order on rows.  The contract is the locale
  \<open>transactional\<close>, whose lemmas are about histories of committed transactions; the operations
  of the store interpret it.
\<close>

section \<open>Histories of committed transactions\<close>

text \<open>
  A history lists the committed states, newest first.  A transaction runs on the newest
  state and may have read any older one before it took its locks.
\<close>

type_synonym transaction = "db \<Rightarrow> db \<Rightarrow> db \<Rightarrow> db"

inductive committed :: "(db \<Rightarrow> bool) \<Rightarrow> transaction set \<Rightarrow> db list \<Rightarrow> bool" for ok T where
  committed_start: "ok d \<Longrightarrow> committed ok T [d]"
| committed_step: "committed ok T (d # h) \<Longrightarrow> t \<in> T \<Longrightarrow> dq \<in> set (d # h) \<Longrightarrow> d0 \<in> set (d # h)
    \<Longrightarrow> committed ok T (t dq d0 d # d # h)"

inductive_cases committed_consE: "committed ok T (a # d # h)"
inductive_simps committed_single: "committed ok T [d]"

lemma committed_suffix: "committed ok T (g @ d # h) \<Longrightarrow> committed ok T (d # h)"
proof (induction g)
  case (Cons a g)
  then have "committed ok T (a # g @ d # h)" by simp
  then have "committed ok T (g @ d # h)" by (cases g) (auto elim: committed_consE)
  with Cons.IH show ?case .
qed simp

text \<open>
  The interface of a store: its operations, numbered by requests, keep an invariant and only
  move forward in an order on states.  What follows for whole histories is proved once.
\<close>

locale transactional =
  fixes ok :: "db \<Rightarrow> bool" and le :: "db \<Rightarrow> db \<Rightarrow> bool" and run :: "'i \<Rightarrow> transaction"
  assumes le_refl: "le d d"
    and le_trans: "le d d1 \<Longrightarrow> le d1 d2 \<Longrightarrow> le d d2"
    and keeps: "ok d \<Longrightarrow> le dq d \<Longrightarrow> le d0 d \<Longrightarrow> ok (run i dq d0 d)"
    and grows: "ok d \<Longrightarrow> le dq d \<Longrightarrow> le d0 d \<Longrightarrow> le d (run i dq d0 d)"
begin

lemma history: "committed ok (range run) h \<Longrightarrow> h \<noteq> [] \<and> (\<forall>d \<in> set h. ok d \<and> le d (hd h))"
proof (induction rule: committed.induct)
  case (committed_start d)
  then show ?case by (simp add: le_refl)
next
  case (committed_step d h t dq d0)
  then obtain i where t: "t = run i" by blast
  from committed_step have "ok d" "le dq d" "le d0 d" by auto
  from keeps [OF this, of i] grows [OF this, of i] committed_step.IH le_trans le_refl
  show ?case unfolding t by fastforce
qed

lemma history_inv: "committed ok (range run) h \<Longrightarrow> d \<in> set h \<Longrightarrow> ok d"
  using history by blast

lemma history_grows: "committed ok (range run) (g @ d # h) \<Longrightarrow> d' \<in> set (g @ [d]) \<Longrightarrow> le d d'"
proof (induction g)
  case Nil
  then show ?case by (simp add: le_refl)
next
  case (Cons a g)
  have "committed ok (range run) (g @ d # h)"
    using Cons.prems(1) by (cases g) (auto elim: committed_consE)
  moreover have "le d a" using history [OF Cons.prems(1)] by auto
  ultimately show ?case using Cons by auto
qed

end

section \<open>Exchange\<close>

lemma redeem_codeD:
  assumes "redeem_code L e now d code session = Some (rt, d')"
  shows "if ac_issue_refresh_token code
    then \<exists>raw d2 m. rt = Some raw
      \<and> insert_family (consume_code (ac_id code) now d) (family_of_code (env_uuid e 0) code session now) = Some d2
      \<and> insert_member d2 m = Some d' \<and> m = \<lparr>rm_id = env_uuid e 1, rm_family_id = env_uuid e 0,
           rm_token_hash = hash L raw, rm_issued_at = now, rm_consumed_at = None, rm_successor_id = None\<rparr>
      \<and> raw = random_credential L e 1
    else rt = None \<and> d' = consume_code (ac_id code) now d"
  using assms
  by (auto simp: redeem_code_def insert_refresh_def Let_def split: if_splits option.splits bind_splits)

lemma exchange_policy_Inr:
  "exchange_policy L B e registry code client_id redirect_uri resource = Inr u \<Longrightarrow>
     check_binding B (env_instant e 0) registry client_id (ac_cimd_binding code) = Inr ()
     \<and> check_binding B (env_instant e 2) registry client_id (ac_cimd_binding code) = Inr ()
     \<and> (case registry of None \<Rightarrow> True | Some reg \<Rightarrow> \<exists>p. validate_pending_parts L (env_instant e 1) reg
          client_id redirect_uri ''code'' ''S256'' (ac_code_challenge code) (ac_scopes code) (Some resource) = Inr p)"
  unfolding exchange_policy_def
  by (auto simp: and_then_Inr_iff map_ok_Inr_iff split: option.splits)

text \<open>The locked rows an exchange decides on, once its checks have passed.\<close>

definition exchange_ready ::
  "libs \<Rightarrow> binding_codec \<Rightarrow> env \<Rightarrow> db \<Rightarrow> db \<Rightarrow> string \<Rightarrow> string \<Rightarrow> string \<Rightarrow> string \<Rightarrow> string
    \<Rightarrow> client_registry option \<Rightarrow> authorization_code_row \<Rightarrow> provider_session_row \<Rightarrow> bool" where
  "exchange_ready L B e d0 d raw client_id redirect_uri resource verifier registry code session \<longleftrightarrow>
     (\<exists>code0. code_by_hash d0 (hash L raw) = Some code0 \<and> ac_id code0 = ac_id code)
     \<and> code_by_id d (ac_id code) = Some code \<and> session_by_id d (ac_session_id code) = Some session
     \<and> code_matches L code client_id redirect_uri resource verifier
     \<and> exchange_policy L B e registry code client_id redirect_uri resource = Inr ()"

lemma exchange_cases:
  assumes "exchange_code_bound L B e d0 d raw client_id redirect_uri resource verifier registry = (out, d')"
  shows "(\<exists>err. out = Inl err \<and> d' = d)
    \<or> (\<exists>code session. exchange_ready L B e d0 d raw client_id redirect_uri resource verifier registry code session
        \<and> check_binding B (env_instant e 3) registry client_id (ac_cimd_binding code) = Inr ()
        \<and> ((ac_consumed_at code \<noteq> None \<and> out = Inl InvalidGrant
             \<and> d' = revoke_families (\<lambda>f. rf_source_code_id f = ac_id code) (env_clock e 0) d)
          \<or> (ac_consumed_at code = None \<and> env_clock e 0 < ac_expires_at code
             \<and> env_clock e 0 < ps_expires_at session \<and> ps_revoked_at session = None
             \<and> (\<exists>rt. redeem_code L e (env_clock e 0) d code session = Some (rt, d')
                 \<and> out = Inr \<lparr>ex_session_id = ac_session_id code, ex_user_id = ps_user_id session,
                      ex_client_id = ac_client_id code, ex_scopes = ac_scopes code,
                      ex_resource = ac_resource code, ex_refresh_token = rt,
                      ex_oidc_nonce = ac_oidc_nonce code,
                      ex_upstream_auth_time = ac_upstream_auth_time code\<rparr>))))"
  (is "?fail \<or> ?done")
proof (cases "?fail")
  case False
  note run = assms [unfolded exchange_code_bound_def]
  obtain code0 where code0: "code_by_hash d0 (hash L raw) = Some code0"
    using run False by (cases "code_by_hash d0 (hash L raw)") auto
  note run = run [unfolded code0 option.case]
  have m0: "code_matches L code0 client_id redirect_uri resource verifier"
    using run False by (metis Pair_inject)
  note run = run [unfolded if_not_P [OF not_not [THEN iffD2, OF m0]]]
  obtain session where session: "session_by_id d (ac_session_id code0) = Some session"
    using run False by (cases "session_by_id d (ac_session_id code0)") auto
  note run = run [unfolded session option.case]
  obtain code where code: "code_by_id d (ac_id code0) = Some code"
    using run False by (cases "code_by_id d (ac_id code0)") auto
  note run = run [unfolded code option.case]
  have m: "\<not> (ac_session_id code \<noteq> ac_session_id code0 \<or> \<not> code_matches L code client_id redirect_uri resource verifier)"
    using run False by (metis Pair_inject)
  note run = run [unfolded if_not_P [OF m]]
  obtain u where policy: "exchange_policy L B e registry code client_id redirect_uri resource = Inr u"
    using run False by (cases "exchange_policy L B e registry code client_id redirect_uri resource") auto
  note run = run [unfolded policy sum.case Let_def]
  have id: "ac_id code = ac_id code0" using by_key_SomeD(2) [OF code] by simp
  have ready: "exchange_ready L B e d0 d raw client_id redirect_uri resource verifier registry code session"
    using code0 m session code policy id by (simp add: exchange_ready_def)
  have "?done"
    using run False ready
    by (intro exI [of _ code] exI [of _ session]) (auto split: if_splits option.splits sum.splits simp: not_le)
  then show ?thesis ..
qed simp

lemma family_of_code_facts:
  assumes "code_by_id d (ac_id code) = Some code" "session_by_id d (ac_session_id code) = Some session"
    and "ac_issue_refresh_token code" and "ps_revoked_at session = None"
  shows "(\<exists>c \<in> set (db_codes (consume_code (ac_id code) now d)). descends_from (family_of_code fid code session now) c)
    \<and> session \<in> set (db_sessions (consume_code (ac_id code) now d))
    \<and> under_session (family_of_code fid code session now) session"
proof (intro conjI)
  have "code \<in> set (db_codes d)" using by_key_SomeD(2) [OF assms(1)] by simp
  from consume_code_member [OF this, of "ac_id code" now]
  have "code\<lparr>ac_consumed_at := Some now\<rparr> \<in> set (db_codes (consume_code (ac_id code) now d))" by simp
  moreover have "descends_from (family_of_code fid code session now) (code\<lparr>ac_consumed_at := Some now\<rparr>)"
    using assms(3) by (simp add: descends_from_def family_of_code_def)
  ultimately show "\<exists>c \<in> set (db_codes (consume_code (ac_id code) now d)).
      descends_from (family_of_code fid code session now) c" by blast
  show "session \<in> set (db_sessions (consume_code (ac_id code) now d))"
    using by_key_SomeD(1) [OF assms(2)] by simp
  show "under_session (family_of_code fid code session now) session"
    using by_key_SomeD(1) [OF assms(2)] assms(4) by (simp add: under_session_def family_of_code_def)
qed

lemma redeem_code_safe:
  assumes "redeem_code L e now d code session = Some (rt, d')" and "cred_inv d"
    and "code_by_id d (ac_id code) = Some code" "session_by_id d (ac_session_id code) = Some session"
    and "ac_consumed_at code = None" "ps_revoked_at session = None"
  shows "cred_inv d' \<and> creds_le d d'"
proof -
  let ?d1 = "consume_code (ac_id code) now d"
  have d1: "cred_inv ?d1" "creds_le d ?d1"
    using cred_inv_consume_code [OF assms(2)] creds_le_consume_code [OF cred_inv_distinct(2) [OF assms(2)] assms(3,5)]
    by auto
  show ?thesis
  proof (cases "ac_issue_refresh_token code")
    case True
    with redeem_codeD [OF assms(1)] obtain d2 m where
      fam: "insert_family ?d1 (family_of_code (env_uuid e 0) code session now) = Some d2" and
      mem: "insert_member d2 m = Some d'" and m: "rm_family_id m = env_uuid e 0" "rm_consumed_at m = None"
        "rm_successor_id m = None" by auto
    from family_of_code_facts [OF assms(3,4) True assms(6), of now "env_uuid e 0"] obtain c where
      c: "c \<in> set (db_codes ?d1)" "descends_from (family_of_code (env_uuid e 0) code session now) c"
      and facts: "session \<in> set (db_sessions ?d1)"
        "under_session (family_of_code (env_uuid e 0) code session now) session" by blast
    have "rm_family_id m = rf_id (family_of_code (env_uuid e 0) code session now)"
      using m(1) by (simp add: family_of_code_def)
    from cred_inv_start_family [OF d1(1) fam mem this m(2,3) c facts]
    show ?thesis
      using d1(2) creds_le_inserts(3) [OF fam] creds_le_inserts(4) [OF mem] creds_le_trans by blast
  next
    case False
    with redeem_codeD [OF assms(1)] d1 show ?thesis by simp
  qed
qed

lemma exchange_safe:
  assumes "cred_inv d"
  shows "cred_inv (snd (exchange_code_bound L B e d0 d raw client_id redirect_uri resource verifier registry))
    \<and> creds_le d (snd (exchange_code_bound L B e d0 d raw client_id redirect_uri resource verifier registry))"
proof -
  obtain out d' where run:
    "exchange_code_bound L B e d0 d raw client_id redirect_uri resource verifier registry = (out, d')" by fastforce
  from exchange_cases [OF run] show ?thesis
    unfolding run snd_conv exchange_ready_def
    using assms cred_inv_revoke_families creds_le_revoke_families redeem_code_safe
    by (auto dest: redeem_code_safe)
qed

section \<open>Rotation\<close>

lemma insert_refreshD:
  assumes "insert_refresh L e k d fid now = Some (raw, d1)"
  shows "raw = random_credential L e k" and "\<exists>n. insert_member d n = Some d1
      \<and> n = \<lparr>rm_id = env_uuid e k, rm_family_id = fid, rm_token_hash = hash L raw, rm_issued_at = now,
             rm_consumed_at = None, rm_successor_id = None\<rparr>"
  using assms by (auto simp: insert_refresh_def Let_def)

lemma rotate_memberD:
  assumes "rotate_member L e now d mid fid = Some (raw, d')"
  shows "\<exists>n d1. insert_member d n = Some d1 \<and> d' = consume_member mid now (rm_id n) d1
     \<and> raw = random_credential L e 0
     \<and> n = \<lparr>rm_id = env_uuid e 0, rm_family_id = fid, rm_token_hash = hash L raw, rm_issued_at = now,
             rm_consumed_at = None, rm_successor_id = None\<rparr>"
proof -
  from assms obtain d1 successor where ins: "insert_refresh L e 0 d fid now = Some (raw, d1)"
    and succ: "member_by_hash d1 (hash L raw) = Some successor"
    and d': "d' = consume_member mid now (rm_id successor) d1"
    by (auto simp: rotate_member_def split: bind_splits)
  from insert_refreshD [OF ins] obtain n where n: "insert_member d n = Some d1"
    "n = \<lparr>rm_id = env_uuid e 0, rm_family_id = fid, rm_token_hash = hash L raw, rm_issued_at = now,
             rm_consumed_at = None, rm_successor_id = None\<rparr>" and raw: "raw = random_credential L e 0" by blast
  from n have "db_members d1 = db_members d @ [n]" and new: "hash L raw \<notin> rm_token_hash ` set (db_members d)"
    by (auto simp: insert_member_def split: if_splits)
  with succ have "successor \<in> set (db_members d @ [n])" "rm_token_hash successor = hash L raw"
    using by_key_SomeD(6) [OF succ] by auto
  moreover from this(2) new have "successor \<notin> set (db_members d)" by (metis imageI)
  ultimately have "successor = n" by simp
  with n raw d' show ?thesis by blast
qed

definition rotation_ready ::
  "libs \<Rightarrow> binding_codec \<Rightarrow> env \<Rightarrow> db \<Rightarrow> db \<Rightarrow> string \<Rightarrow> string \<Rightarrow> string \<Rightarrow> client_registry option
    \<Rightarrow> refresh_member_row \<Rightarrow> refresh_family_row \<Rightarrow> refresh_family_row \<Rightarrow> provider_session_row \<Rightarrow> bool" where
  "rotation_ready L B e d0 d raw client_id resource registry member f0 family session \<longleftrightarrow>
     (\<exists>m0. member_by_hash d0 (hash L raw) = Some m0 \<and> rm_id m0 = rm_id member
        \<and> rm_family_id m0 = rf_id family \<and> family_by_id d0 (rf_id family) = Some f0)
     \<and> member_by_id d (rm_id member) = Some member \<and> family_by_id d (rf_id family) = Some family
     \<and> session_by_id d (rf_session_id f0) = Some session
     \<and> rf_client_id family = client_id \<and> rf_resource family = resource
     \<and> check_binding B (env_instant e 0) registry client_id (rf_cimd_binding family) = Inr ()
     \<and> check_binding B (env_instant e 1) registry client_id (rf_cimd_binding family) = Inr ()
     \<and> (case registry of None \<Rightarrow> True | Some reg \<Rightarrow>
          permits_refresh reg client_id (rf_scopes family) (rf_resource family))"

lemma rotation_cases:
  assumes "rotate_refresh_bound L B e d0 d raw client_id resource registry = (out, d')"
  shows "(\<exists>err. out = Inl err \<and> d' = d)
    \<or> (\<exists>member f0 family session. rotation_ready L B e d0 d raw client_id resource registry member f0 family session
        \<and> check_binding B (env_instant e 2) registry client_id (rf_cimd_binding family) = Inr ()
        \<and> ((rm_consumed_at member \<noteq> None \<and> out = Inl InvalidGrant
             \<and> d' = revoke_families (\<lambda>f. rf_id f = rf_id family) (env_clock e 0) d)
          \<or> (rm_consumed_at member = None \<and> rf_revoked_at family = None \<and> ps_revoked_at session = None
             \<and> env_clock e 0 < rf_expires_at family \<and> env_clock e 0 < ps_expires_at session
             \<and> (\<exists>rt. rotate_member L e (env_clock e 0) d (rm_id member) (rf_id family) = Some (rt, d')
                 \<and> out = Inr \<lparr>ex_session_id = rf_session_id f0, ex_user_id = ps_user_id session,
                      ex_client_id = rf_client_id family, ex_scopes = rf_scopes family,
                      ex_resource = rf_resource family, ex_refresh_token = Some rt,
                      ex_oidc_nonce = None,
                      ex_upstream_auth_time = rf_upstream_auth_time family\<rparr>))))"
  (is "?fail \<or> ?done")
proof (cases "?fail")
  case False
  note run = assms [unfolded rotate_refresh_bound_def]
  obtain m0 where m0: "member_by_hash d0 (hash L raw) = Some m0"
    using run False by (cases "member_by_hash d0 (hash L raw)") auto
  note run = run [unfolded m0 option.case]
  obtain f0 where f0: "family_by_id d0 (rm_family_id m0) = Some f0"
    using run False by (cases "family_by_id d0 (rm_family_id m0)") auto
  note run = run [unfolded f0 option.case]
  obtain session where session: "session_by_id d (rf_session_id f0) = Some session"
    using run False by (cases "session_by_id d (rf_session_id f0)") auto
  note run = run [unfolded session option.case]
  obtain family where family: "family_by_id d (rm_family_id m0) = Some family"
    using run False by (cases "family_by_id d (rm_family_id m0)") auto
  note run = run [unfolded family option.case]
  obtain member where member: "member_by_id d (rm_id m0) = Some member"
    using run False by (cases "member_by_id d (rm_id m0)") auto
  note run = run [unfolded member option.case]
  have m: "\<not> (rf_client_id family \<noteq> client_id \<or> rf_resource family \<noteq> resource)"
    using run False by (metis Pair_inject)
  note run = run [unfolded if_not_P [OF m]]
  obtain u where b0: "check_binding B (env_instant e 0) registry client_id (rf_cimd_binding family) = Inr u"
    using run False by (cases "check_binding B (env_instant e 0) registry client_id (rf_cimd_binding family)") auto
  note run = run [unfolded b0 sum.case]
  have p: "\<not> is_some_and registry (\<lambda>reg. \<not> permits_refresh reg client_id (rf_scopes family) (rf_resource family))"
    using run False by (metis Pair_inject)
  note run = run [unfolded if_not_P [OF p]]
  obtain w where b1: "check_binding B (env_instant e 1) registry client_id (rf_cimd_binding family) = Inr w"
    using run False by (cases "check_binding B (env_instant e 1) registry client_id (rf_cimd_binding family)") auto
  note run = run [unfolded b1 sum.case Let_def]
  have ids: "rm_id member = rm_id m0" "rf_id family = rm_family_id m0"
    using by_key_SomeD(5) [OF member] by_key_SomeD(4) [OF family] by auto
  have ready: "rotation_ready L B e d0 d raw client_id resource registry member f0 family session"
    using m0 f0 session family member m b0 p b1 ids
    by (auto simp: rotation_ready_def split: option.splits)
  have "?done"
    using run False ready ids
    by (intro exI [of _ member] exI [of _ f0] exI [of _ family] exI [of _ session])
      (auto split: if_splits option.splits sum.splits simp: not_le)
  then show ?thesis ..
qed simp

lemma rotation_consistent:
  assumes "rotation_ready L B e d0 d raw client_id resource registry member f0 family session"
    and "cred_inv d" "creds_le d0 d"
  shows "rm_family_id member = rf_id family" "rm_token_hash member = hash L raw" "family_le f0 family"
    "rf_session_id f0 = rf_session_id family" "member \<in> set (db_members d)" "family \<in> set (db_families d)"
proof -
  from assms(1) obtain m0 where m0: "member_by_hash d0 (hash L raw) = Some m0" "rm_id m0 = rm_id member"
    "rm_family_id m0 = rf_id family" "family_by_id d0 (rf_id family) = Some f0"
    and now: "member_by_id d (rm_id member) = Some member" "family_by_id d (rf_id family) = Some family"
    unfolding rotation_ready_def by blast
  from by_key_later(6) [OF assms(3,2) m0(1)] obtain m' where
    m': "member_by_hash d (hash L raw) = Some m'" "member_le m0 m'" by blast
  have "member_by_id d (rm_id m') = Some m'"
    using by_key_SomeD(6) [OF m'(1)] by_key_SomeI(5) [OF assms(2)] by simp
  with now(1) member_leD [OF m'(2)] m0(2) have eq: "m' = member" by (metis option.inject)
  show "rm_family_id member = rf_id family" "rm_token_hash member = hash L raw"
    using member_leD [OF m'(2)] m0(3) by_key_SomeD(6) [OF m'(1)] unfolding eq by auto
  from by_key_later(4) [OF assms(3,2) m0(4)] now(2) show "family_le f0 family" by simp
  then show "rf_session_id f0 = rf_session_id family" using family_leD by fastforce
  show "member \<in> set (db_members d)" "family \<in> set (db_families d)"
    using by_key_SomeD(5) [OF now(1)] by_key_SomeD(4) [OF now(2)] by auto
qed

lemma rotation_safe:
  assumes "cred_inv d" "creds_le d0 d"
  shows "cred_inv (snd (rotate_refresh_bound L B e d0 d raw client_id resource registry))
    \<and> creds_le d (snd (rotate_refresh_bound L B e d0 d raw client_id resource registry))"
proof -
  obtain out d' where run: "rotate_refresh_bound L B e d0 d raw client_id resource registry = (out, d')" by fastforce
  from rotation_cases [OF run] show ?thesis
    unfolding run snd_conv
  proof (elim disjE exE conjE)
    fix member f0 family session rt
    assume ready: "rotation_ready L B e d0 d raw client_id resource registry member f0 family session"
      and live: "rm_consumed_at member = None"
      and rot: "rotate_member L e (env_clock e 0) d (rm_id member) (rf_id family) = Some (rt, d')"
    from rotate_memberD [OF rot] obtain n d1 where n: "insert_member d n = Some d1"
      "d' = consume_member (rm_id member) (env_clock e 0) (rm_id n) d1"
      "rm_family_id n = rf_id family" "rm_consumed_at n = None" "rm_successor_id n = None" by auto
    note c = rotation_consistent [OF ready assms]
    have "rm_family_id n = rm_family_id member" using n(3) c(1) by simp
    from cred_inv_rotate [OF assms(1) n(1) c(5) live this n(4,5)] n(2)
    show "cred_inv d' \<and> creds_le d d'" by simp
  qed (use assms cred_inv_revoke_families creds_le_revoke_families in auto)
qed

section \<open>The other operations\<close>

lemma create_provider_session_safe:
  assumes "cred_inv d"
  shows "cred_inv (snd (create_provider_session L e d user lifetime))
    \<and> creds_le d (snd (create_provider_session L e d user lifetime))"
  using assms cred_inv_insert_session creds_le_inserts(1)
  by (auto simp: create_provider_session_def Let_def split: sum.splits option.splits)

lemma insert_authorization_code_txD:
  assumes "insert_authorization_code_tx L B e k t d sid grant nonce upstream secs = Some (raw, d')"
  shows "\<exists>row. insert_code d row = Some d' \<and> raw = random_credential L e k \<and> ac_code_hash row = hash L raw
    \<and> ac_session_id row = sid \<and> ac_client_id row = vg_client_id grant
    \<and> ac_redirect_uri row = vg_redirect_uri grant \<and> ac_scopes row = vg_scopes grant
    \<and> ac_resource row = vg_resource grant \<and> ac_code_challenge row = vg_code_challenge grant
    \<and> ac_issue_refresh_token row = vg_issue_refresh_token grant \<and> ac_consumed_at row = None
    \<and> ac_issued_at row = t \<and> ac_expires_at row \<le> t + seconds (int secs)
    \<and> (\<forall>s. session_by_id d sid = Some s \<longrightarrow> ac_expires_at row \<le> ps_expires_at s)
    \<and> ac_oidc_nonce row = nonce \<and> ac_upstream_auth_time row = upstream
    \<and> ac_cimd_binding row = map_option (jsonb_text B) (grant_cimd_binding_json B grant)
    \<and> db_codes d' = db_codes d @ [row]"
proof -
  define row where "row = \<lparr>ac_id = env_uuid e k, ac_code_hash = hash L (random_credential L e k),
                 ac_session_id = sid,
                 ac_client_id = vg_client_id grant, ac_redirect_uri = vg_redirect_uri grant,
                 ac_scopes = vg_scopes grant, ac_resource = vg_resource grant,
                 ac_code_challenge = vg_code_challenge grant,
                 ac_issue_refresh_token = vg_issue_refresh_token grant, ac_issued_at = t,
                 ac_expires_at = (case session_by_id d sid of None \<Rightarrow> t + seconds (int secs)
                                  | Some s \<Rightarrow> min (t + seconds (int secs)) (ps_expires_at s)),
                 ac_consumed_at = None, ac_oidc_nonce = nonce,
                 ac_upstream_auth_time = upstream,
                 ac_cimd_binding = map_option (jsonb_text B) (grant_cimd_binding_json B grant)\<rparr>"
  from assms have ins: "insert_code d row = Some d'" and raw: "raw = random_credential L e k"
    unfolding insert_authorization_code_tx_def Let_def row_def [symmetric] by (auto simp: map_option_eq_Some)
  from ins have "db_codes d' = db_codes d @ [row]"
    by (auto simp: insert_code_def split: if_splits)
  with ins raw show ?thesis
    by (intro exI [of _ row] conjI) (simp_all add: row_def split: option.splits)
qed

lemma insert_authorization_code_tx_safe:
  assumes "insert_authorization_code_tx L B e k t d sid grant nonce upstream secs = Some (raw, d')"
    and "cred_inv d"
  shows "cred_inv d' \<and> creds_le d d'"
  using insert_authorization_code_txD [OF assms(1)] assms(2) cred_inv_insert_code creds_le_inserts(2)
  by metis

lemma issue_cases:
  assumes "issue_authorization_code L B e d session grant lifetime = (out, d')"
  shows "(\<exists>err. out = Inl err \<and> d' = d)
    \<or> (\<exists>secs s raw. bounded_seconds lifetime 60 = Inr secs \<and> session_by_id d (pv_id session) = Some s
        \<and> session_active (env_clock e 0) s \<and> is_ok (grant_ensure_fresh (env_instant e 0) grant)
        \<and> is_ok (grant_ensure_fresh (env_instant e 1) grant) \<and> out = Inr raw
        \<and> insert_authorization_code_tx L B e 0 (env_clock e 1) d (pv_id session) grant None
            (ps_upstream_auth_time s) secs = Some (raw, d'))"
  using assms
  by (auto simp: issue_authorization_code_def split: sum.splits option.splits if_splits prod.splits)

lemma issue_safe:
  assumes "cred_inv d"
  shows "cred_inv (snd (issue_authorization_code L B e d session grant lifetime))
    \<and> creds_le d (snd (issue_authorization_code L B e d session grant lifetime))"
proof -
  obtain out d' where run: "issue_authorization_code L B e d session grant lifetime = (out, d')" by fastforce
  from issue_cases [OF run] show ?thesis
    unfolding run snd_conv using assms insert_authorization_code_tx_safe by auto
qed

lemma revoke_refresh_safe:
  assumes "cred_inv d"
  shows "cred_inv (snd (revoke_refresh L e d0 d raw client_id))
    \<and> creds_le d (snd (revoke_refresh L e d0 d raw client_id))"
  using assms cred_inv_revoke_families creds_le_revoke_families
  by (auto simp: revoke_refresh_def split: option.splits)

lemma logout_end_session:
  "logout e d session = (if session_by_id d (pv_id session) = None then (Inl CredDatabase, d)
     else (Inr (), end_session (pv_id session) (env_clock e 0) (env_clock e 1) d))"
  by (simp add: logout_def end_session_def)

lemma logout_safe:
  assumes "cred_inv d"
  shows "cred_inv (snd (logout e d session)) \<and> creds_le d (snd (logout e d session))"
  using assms cred_inv_end_session creds_le_end_session by (simp add: logout_end_session)

section \<open>The store is a store of operations\<close>

datatype credential_request =
    CreateSession env authenticated_user duration
  | IssueCode env provider_session validated_authorization_grant duration
  | ExchangeCode nat env string string string "string option" string "string list option" client_registry
  | ExchangeBound env string string string string string
  | RotateRefresh env string string "string option" "string list option" client_registry
  | RotateBound env string string string
  | RevokeRefresh env string string
  | Logout env provider_session

fun run_credential :: "libs \<Rightarrow> binding_codec \<Rightarrow> credential_request \<Rightarrow> transaction" where
  "run_credential L B (CreateSession e user lifetime) dq d0 d = snd (create_provider_session L e d user lifetime)"
| "run_credential L B (IssueCode e session grant lifetime) dq d0 d =
     snd (issue_authorization_code L B e d session grant lifetime)"
| "run_credential L B (ExchangeCode now0 e raw client_id redirect_uri resource verifier scopes reg) dq d0 d =
     snd (exchange_code_request L B now0 e dq d0 d raw client_id redirect_uri resource verifier scopes reg)"
| "run_credential L B (ExchangeBound e raw client_id redirect_uri resource verifier) dq d0 d =
     snd (exchange_code L B e d0 d raw client_id redirect_uri resource verifier)"
| "run_credential L B (RotateRefresh e raw client_id resource scopes reg) dq d0 d =
     snd (rotate_refresh_request L B e dq d0 d raw client_id resource scopes reg)"
| "run_credential L B (RotateBound e raw client_id resource) dq d0 d =
     snd (rotate_refresh L B e d0 d raw client_id resource)"
| "run_credential L B (RevokeRefresh e raw client_id) dq d0 d = snd (revoke_refresh L e d0 d raw client_id)"
| "run_credential L B (Logout e session) dq d0 d = snd (logout e d session)"

lemma exchange_request_snd:
  "snd (exchange_code_request L B now0 e dq d0 d raw client_id redirect_uri resource verifier scopes reg) = d
   \<or> (\<exists>stored. snd (exchange_code_request L B now0 e dq d0 d raw client_id redirect_uri resource verifier scopes reg)
        = snd (exchange_code_bound L B e d0 d raw client_id redirect_uri stored verifier (Some reg)))"
  by (auto simp: exchange_code_request_def split: option.splits sum.splits)

lemma rotate_request_snd:
  "snd (rotate_refresh_request L B e dq d0 d raw client_id resource scopes reg) = d
   \<or> (\<exists>stored. snd (rotate_refresh_request L B e dq d0 d raw client_id resource scopes reg)
        = snd (rotate_refresh_bound L B e d0 d raw client_id stored (Some reg)))"
  by (auto simp: rotate_refresh_request_def split: option.splits)

lemma run_credential_safe:
  assumes "cred_inv d" "creds_le dq d" "creds_le d0 d"
  shows "cred_inv (run_credential L B r dq d0 d) \<and> creds_le d (run_credential L B r dq d0 d)"
proof (cases r)
  case (ExchangeCode now0 e raw client_id redirect_uri resource verifier scopes reg)
  then show ?thesis
    using assms exchange_safe exchange_request_snd
      [of L B now0 e dq d0 d raw client_id redirect_uri resource verifier scopes reg] by auto
next
  case (RotateRefresh e raw client_id resource scopes reg)
  then show ?thesis
    using assms rotation_safe rotate_request_snd [of L B e dq d0 d raw client_id resource scopes reg] by auto
qed (simp_all add: assms create_provider_session_safe issue_safe exchange_code_def exchange_safe
    rotate_refresh_def rotation_safe revoke_refresh_safe logout_safe)

interpretation credentials: transactional cred_inv creds_le "run_credential L B" for L B
  by unfold_locales (use creds_le_trans in \<open>auto simp: run_credential_safe\<close>)

end
