(* ===== verification/Credential_Scenario.thy ===== *)
theory Credential_Scenario
  imports Credential_Operations
begin

text \<open>
  One concrete history of the credential store, for the witnesses: a user opens a session
  (at second 1000), approves the request \<open>ref_pending\<close> (1001), exchanges the code (1010) and
  rotates the refresh token (1020).  Each state is written out, and each step evaluated.
\<close>

definition sc_secret :: "nat \<Rightarrow> string" where
  "sc_secret n = ref_b64_encode (replicate 32 (char_of n))"

definition sc_hash :: "nat \<Rightarrow> string" where
  "sc_hash n = ref_sha256 (sc_secret n)"

definition sc_db0 :: db where
  "sc_db0 = empty_db\<lparr>db_users := [1]\<rparr>"

definition sc_session_row :: provider_session_row where
  "sc_session_row = \<lparr>ps_id = 40, ps_token_hash = sc_hash 40, ps_user_id = 1, ps_auth_time = seconds 1000,
     ps_expires_at = seconds 4600, ps_revoked_at = None, ps_upstream_auth_time = Some (seconds 990)\<rparr>"

definition sc_db1 :: db where
  "sc_db1 = sc_db0\<lparr>db_sessions := [sc_session_row]\<rparr>"

definition sc_session :: provider_session where
  "sc_session = \<lparr>pv_raw = sc_secret 40, pv_id = 40, pv_expires_at = seconds 4600\<rparr>"

definition sc_user :: authenticated_user where
  "sc_user = \<lparr>au_id = 1, au_upstream_auth_time = Some (seconds 990)\<rparr>"

lemma sc_open: "create_provider_session ref_libs (env_at (seconds 1000) 40) sc_db0 sc_user (from_secs 3600)
    = (Inr sc_session, sc_db1)"
  by code_simp

definition sc_grant :: validated_authorization_grant where
  "sc_grant = projr (approve_grant 10 ref_pending True)"

definition sc_code_row :: authorization_code_row where
  "sc_code_row = \<lparr>ac_id = 50, ac_code_hash = sc_hash 50, ac_session_id = 40, ac_client_id = ''app'',
     ac_redirect_uri = ''http://127.0.0.1:9/cb'', ac_scopes = [''offline_access'', ''openid''],
     ac_resource = ''https://api.shocker.cl/r'', ac_code_challenge = ref_challenge,
     ac_issue_refresh_token = True, ac_issued_at = seconds 1001, ac_expires_at = seconds 1061,
     ac_consumed_at = None, ac_oidc_nonce = None, ac_upstream_auth_time = Some (seconds 990),
     ac_cimd_binding = None\<rparr>"

definition sc_db2 :: db where
  "sc_db2 = sc_db1\<lparr>db_codes := [sc_code_row]\<rparr>"

lemma sc_issue: "issue_authorization_code ref_libs ref_codec (env_at (seconds 1001) 50) sc_db1
     sc_session sc_grant (from_secs 60) = (Inr (sc_secret 50), sc_db2)"
  by code_simp

definition sc_family_row :: refresh_family_row where
  "sc_family_row = \<lparr>rf_id = 60, rf_source_code_id = 50, rf_session_id = 40, rf_user_id = 1,
     rf_client_id = ''app'', rf_scopes = [''offline_access'', ''openid''],
     rf_resource = ''https://api.shocker.cl/r'', rf_issued_at = seconds 1010,
     rf_expires_at = seconds 4600, rf_revoked_at = None, rf_upstream_auth_time = Some (seconds 990),
     rf_cimd_binding = None\<rparr>"

definition sc_member_row :: refresh_member_row where
  "sc_member_row = \<lparr>rm_id = 61, rm_family_id = 60, rm_token_hash = sc_hash 61,
     rm_issued_at = seconds 1010, rm_consumed_at = None, rm_successor_id = None\<rparr>"

definition sc_db3 :: db where
  "sc_db3 = sc_db2\<lparr>db_codes := [sc_code_row\<lparr>ac_consumed_at := Some (seconds 1010)\<rparr>],
     db_families := [sc_family_row], db_members := [sc_member_row]\<rparr>"

definition sc_result :: "nat \<Rightarrow> exchange_result" where
  "sc_result n = \<lparr>ex_session_id = 40, ex_user_id = 1, ex_client_id = ''app'',
     ex_scopes = [''offline_access'', ''openid''], ex_resource = ''https://api.shocker.cl/r'',
     ex_refresh_token = Some (sc_secret n), ex_oidc_nonce = None,
     ex_upstream_auth_time = Some (seconds 990)\<rparr>"

abbreviation sc_redirect :: string where
  "sc_redirect \<equiv> ''http://127.0.0.1:9/cb''"

abbreviation sc_resource :: string where
  "sc_resource \<equiv> ''https://api.shocker.cl/r''"

lemma sc_exchange: "exchange_code_bound ref_libs ref_codec (env_at (seconds 1010) 60) sc_db2 sc_db2
     (sc_secret 50) ''app'' sc_redirect sc_resource ref_verifier None = (Inr (sc_result 61), sc_db3)"
  by code_simp

definition sc_db4 :: db where
  "sc_db4 = sc_db3\<lparr>db_members := [sc_member_row\<lparr>rm_consumed_at := Some (seconds 1020), rm_successor_id := Some 70\<rparr>,
     \<lparr>rm_id = 70, rm_family_id = 60, rm_token_hash = sc_hash 70,
       rm_issued_at = seconds 1020, rm_consumed_at = None, rm_successor_id = None\<rparr>]\<rparr>"

lemma sc_rotate: "rotate_refresh_bound ref_libs ref_codec (env_at (seconds 1020) 70) sc_db3 sc_db3
     (sc_secret 61) ''app'' sc_resource None = (Inr (sc_result 70), sc_db4)"
  by code_simp

lemma sc_db0_inv [simp]: "cred_inv sc_db0"
  by (simp add: sc_db0_def cred_inv_def empty_db_def sessions_wf_def codes_wf_def families_wf_def members_wf_def)

lemma sc_db1_inv [simp]: "cred_inv sc_db1"
  using create_provider_session_safe [OF sc_db0_inv] sc_open by (metis snd_conv)

lemma sc_db2_inv [simp]: "cred_inv sc_db2" "creds_le sc_db1 sc_db2"
  using issue_safe [OF sc_db1_inv] sc_issue by (metis snd_conv)+

lemma sc_db3_inv [simp]: "cred_inv sc_db3" "creds_le sc_db2 sc_db3"
  using exchange_safe [OF sc_db2_inv(1)] sc_exchange by (metis snd_conv)+

lemma sc_db4_inv [simp]: "cred_inv sc_db4" "creds_le sc_db3 sc_db4"
  using rotation_safe [OF sc_db3_inv(1) creds_le_refl] sc_rotate by (metis snd_conv)+

end
