(* ===== verification/Credential_Properties.thy ===== *)
theory Credential_Properties
  imports Credential_Scenario
begin

text \<open>
  The security contract of \<open>credentials.rs\<close> over states related by \<open>creds_le\<close> (any number of
  committed transactions in between): codes are redeemed once and their replay revokes the
  family; rotation leaves one live token, never widens a grant, and punishes replay; a
  revoked family and a logged-out session stay dead.
\<close>

section \<open>Redeemed codes\<close>

lemma redeem_marks_code:
  assumes "redeem_code L e now d code session = Some (rt, d')"
  shows "db_codes d' = db_codes (consume_code (ac_id code) now d)" "db_sessions d' = db_sessions d"
  using redeem_codeD [OF assms]
  by (auto simp: insert_family_def insert_member_def split: if_splits)

lemma ready_code_hash:
  assumes "exchange_ready L B e d0 d raw client_id redirect_uri resource verifier registry code session"
    and "cred_inv d" "creds_le d0 d"
  shows "code_by_hash d (hash L raw) = Some code"
proof -
  from assms(1) obtain code0 where code0: "code_by_hash d0 (hash L raw) = Some code0" "ac_id code0 = ac_id code"
    "code_by_id d (ac_id code) = Some code" unfolding exchange_ready_def by blast
  from by_key_later(3) [OF assms(3,2) code0(1)] obtain c where
    c: "code_by_hash d (hash L raw) = Some c" "code_le code0 c" by blast
  have "code_by_id d (ac_id c) = Some c"
    using by_key_SomeD(3) [OF c(1)] by_key_SomeI(2) [OF assms(2)] by simp
  with code0 code_leD [OF c(2)] c(1) show ?thesis by metis
qed

lemma exchange_consumes:
  assumes "exchange_code_bound L B e d0 d raw client_id redirect_uri resource verifier registry = (Inr r, d')"
    and "cred_inv d" "creds_le d0 d"
  shows "\<exists>c. code_by_hash d' (hash L raw) = Some c \<and> ac_consumed_at c = Some (env_clock e 0)"
proof -
  from exchange_cases [OF assms(1)] obtain code session rt where
    ready: "exchange_ready L B e d0 d raw client_id redirect_uri resource verifier registry code session"
    and redeem: "redeem_code L e (env_clock e 0) d code session = Some (rt, d')"
    and live: "ac_consumed_at code = None" "ps_revoked_at session = None" by auto
  have hash: "code_by_hash d (hash L raw) = Some code" by (rule ready_code_hash [OF ready assms(2,3)])
  have inv: "cred_inv d'"
    using redeem_code_safe [OF redeem assms(2) _ _ live] ready by (simp add: exchange_ready_def)
  let ?c = "code\<lparr>ac_consumed_at := Some (env_clock e 0)\<rparr>"
  have "?c \<in> set (db_codes d')"
    using consume_code_member [of code d "ac_id code" "env_clock e 0"] by_key_SomeD(3) [OF hash]
      redeem_marks_code(1) [OF redeem] by simp
  from by_key_SomeI(3) [OF inv this] by_key_SomeD(3) [OF hash] show ?thesis by auto
qed

lemma consumed_code_not_redeemed:
  assumes "code_by_hash d1 (hash L raw) = Some c" "ac_consumed_at c \<noteq> None"
    and "creds_le d1 d2" "cred_inv d2" "creds_le d0 d2"
  shows "\<not> is_ok (fst (exchange_code_bound L B e d0 d2 raw client_id redirect_uri resource verifier registry))"
proof
  assume ok: "is_ok (fst (exchange_code_bound L B e d0 d2 raw client_id redirect_uri resource verifier registry))"
  then obtain r d' where "exchange_code_bound L B e d0 d2 raw client_id redirect_uri resource verifier registry = (Inr r, d')"
    by (metis is_ok_iff prod.collapse)
  from exchange_cases [OF this] obtain code session where
    ready: "exchange_ready L B e d0 d2 raw client_id redirect_uri resource verifier registry code session"
    and live: "ac_consumed_at code = None" by auto
  from by_key_later(3) [OF assms(3,4,1)] ready_code_hash [OF ready assms(4,5)] assms(2) live
  show False by (auto simp: code_le_def)
qed

text \<open>A snapshot taken after a code appeared still finds it.\<close>

lemma snapshot_code:
  assumes "creds_le d1 d0" "code_by_hash d1 h = Some c1" "creds_le d0 d2" "cred_inv d2"
    and "code_by_hash d2 h = Some c"
  shows "\<exists>c0. code_by_hash d0 h = Some c0 \<and> code_le c0 c"
proof -
  have "\<exists>c0. code_by_hash d0 h = Some c0"
    using codes.rows_find_some [of "db_codes d1" "db_codes d0" ac_code_hash] assms(1,2)
    unfolding code_by_hash_def creds_le_def using code_leD by blast
  with by_key_later(3) [OF assms(3,4)] assms(5) show ?thesis by fastforce
qed

text \<open>C2: An authorization code is redeemed at most once: after a successful exchange, in
  every later state of the store and whatever stale snapshot the second request looked the
  code up in, presenting the code again is refused, with any client, redirect, resource,
  verifier or registry.\<close>

theorem code_redeemed_at_most_once:
  assumes "cred_inv d" and "creds_le d0 d"
    and "exchange_code_bound L B e d0 d raw client_id redirect_uri resource verifier registry = (Inr r, d1)"
    and "creds_le d1 d2" and "cred_inv d2" and "creds_le d0' d2"
  shows "\<not> is_ok (fst (exchange_code_bound L B e' d0' d2 raw client_id' redirect_uri' resource' verifier' registry'))"
proof -
  from exchange_consumes [OF assms(3,1,2)] obtain c where
    "code_by_hash d1 (hash L raw) = Some c" "ac_consumed_at c \<noteq> None" by auto
  from consumed_code_not_redeemed [OF this assms(4-6)] show ?thesis .
qed

theorem code_redeemed_at_most_once_witness:
  "\<not> is_ok (fst (exchange_code_bound ref_libs ref_codec (env_at (seconds 1011) 80) sc_db2 sc_db3
     (sc_secret 50) ''app'' sc_redirect sc_resource ref_verifier None))"
  by (rule code_redeemed_at_most_once [OF sc_db2_inv(1) creds_le_refl sc_exchange creds_le_refl sc_db3_inv])

text \<open>C20: Replaying a redeemed code is treated as theft: a later exchange of the same code with
  the same bindings, accepted by the client policy, answers \<open>InvalidGrant\<close>, and the state it
  commits has every refresh family of that code revoked and every other family as it was.\<close>

theorem code_replay_revokes_family:
  assumes "cred_inv d" and "creds_le d0 d"
    and "exchange_code_bound L B e d0 d raw client_id redirect_uri resource verifier registry = (Inr r, d1)"
    and "creds_le d1 d0'" and "creds_le d0' d2" and "cred_inv d2"
    and "code_by_hash d2 (hash L raw) = Some c"
    and "exchange_policy L B e' registry' c client_id redirect_uri resource = Inr ()"
    and "check_binding B (env_instant e' 3) registry' client_id (ac_cimd_binding c) = Inr ()"
    and "exchange_code_bound L B e' d0' d2 raw client_id redirect_uri resource verifier registry' = (out, d3)"
  shows "out = Inl InvalidGrant \<and> d3 = revoke_families (\<lambda>f. rf_source_code_id f = ac_id c) (env_clock e' 0) d2
    \<and> (\<forall>f \<in> set (db_families d3). rf_source_code_id f = ac_id c \<longrightarrow> rf_revoked_at f \<noteq> None)"
proof -
  from exchange_cases [OF assms(3)] obtain code session rt where
    ready: "exchange_ready L B e d0 d raw client_id redirect_uri resource verifier registry code session" by auto
  have le: "creds_le d1 d2" using assms(4,5) creds_le_trans by blast
  have h: "code_by_hash d (hash L raw) = Some code" by (rule ready_code_hash [OF ready assms(1,2)])
  have dd1: "creds_le d d1" using exchange_safe [OF assms(1)] assms(3) by (metis snd_conv)
  from by_key_later(3) [OF creds_le_trans [OF dd1 le] assms(6) h] assms(7) have evolved: "code_le code c" by simp
  have matches: "code_matches L c client_id redirect_uri resource verifier"
    using ready code_leD [OF evolved] by (simp add: exchange_ready_def code_matches_def)
  from exchange_consumes [OF assms(3,1,2)] obtain c1 where
    c1: "code_by_hash d1 (hash L raw) = Some c1" "ac_consumed_at c1 \<noteq> None" by auto
  from by_key_later(3) [OF le assms(6) c1(1)] assms(7) c1(2) have used: "ac_consumed_at c \<noteq> None"
    by (auto simp: code_le_def)
  from snapshot_code [OF assms(4) c1(1) assms(5-7)] obtain c0 where
    c0: "code_by_hash d0' (hash L raw) = Some c0" "code_le c0 c" by blast
  have c: "code_by_id d2 (ac_id c) = Some c"
    using by_key_SomeD(3) [OF assms(7)] by_key_SomeI(2) [OF assms(6)] by simp
  obtain s where s: "session_by_id d2 (ac_session_id c) = Some s"
    using ready by_key_later(1) [OF creds_le_trans [OF dd1 le] assms(6)] code_leD [OF evolved]
    unfolding exchange_ready_def by metis
  have m0: "code_matches L c0 client_id redirect_uri resource verifier"
    using matches code_leD [OF c0(2)] by (simp add: code_matches_def)
  have ids: "ac_id c0 = ac_id c" "ac_session_id c0 = ac_session_id c" using code_leD [OF c0(2)] by auto
  have run: "(out, d3) = (Inl InvalidGrant, revoke_families (\<lambda>f. rf_source_code_id f = ac_id c) (env_clock e' 0) d2)"
    unfolding assms(10) [symmetric] exchange_code_bound_def
    using c0(1) m0 ids s c matches assms(8,9) used by (simp add: Let_def)
  then show ?thesis
    using revoke_families_marks [of _ "\<lambda>f. rf_source_code_id f = ac_id c" "env_clock e' 0" d2] by auto
qed

definition sc_code_used :: authorization_code_row where
  "sc_code_used = sc_code_row\<lparr>ac_consumed_at := Some (seconds 1010)\<rparr>"

theorem code_replay_revokes_family_witness:
  "exchange_code_bound ref_libs ref_codec (env_at (seconds 1030) 80) sc_db3 sc_db3
     (sc_secret 50) ''app'' sc_redirect sc_resource ref_verifier None
   = (Inl InvalidGrant, revoke_families (\<lambda>f. rf_source_code_id f = 50) (seconds 1030) sc_db3)"
proof -
  obtain out d3 where run: "exchange_code_bound ref_libs ref_codec (env_at (seconds 1030) 80) sc_db3 sc_db3
     (sc_secret 50) ''app'' sc_redirect sc_resource ref_verifier None = (out, d3)" by fastforce
  have c: "code_by_hash sc_db3 (hash ref_libs (sc_secret 50)) = Some sc_code_used" by code_simp
  have policy: "exchange_policy ref_libs ref_codec (env_at (seconds 1030) 80) None sc_code_used ''app''
      sc_redirect sc_resource = Inr ()" by code_simp
  have bind: "check_binding ref_codec (env_instant (env_at (seconds 1030) 80) 3) None ''app''
      (ac_cimd_binding sc_code_used) = Inr ()" by code_simp
  from code_replay_revokes_family [OF sc_db2_inv(1) creds_le_refl sc_exchange creds_le_refl creds_le_refl
      sc_db3_inv(1) c policy bind run] run
  show ?thesis by (simp add: sc_code_used_def sc_code_row_def env_at_def)
qed

section \<open>What a redemption requires and yields\<close>

lemma exchange_result_facts:
  assumes "cred_inv d" and "creds_le d0 d"
    and "exchange_code_bound L B e d0 d raw client_id redirect_uri resource verifier registry = (Inr r, d')"
  shows "\<exists>c s. code_by_hash d (hash L raw) = Some c \<and> session_by_id d (ac_session_id c) = Some s
    \<and> ac_client_id c = client_id \<and> ac_redirect_uri c = redirect_uri \<and> ac_resource c = resource
    \<and> verify_s256 L verifier (ac_code_challenge c)
    \<and> ac_consumed_at c = None \<and> env_clock e 0 < ac_expires_at c
    \<and> ps_revoked_at s = None \<and> env_clock e 0 < ps_expires_at s
    \<and> ex_client_id r = client_id \<and> ex_scopes r = ac_scopes c \<and> ex_resource r = resource
    \<and> ex_session_id r = ac_session_id c \<and> ex_user_id r = ps_user_id s
    \<and> ex_oidc_nonce r = ac_oidc_nonce c"
proof -
  from exchange_cases [OF assms(3)] obtain code session rt where
    ready: "exchange_ready L B e d0 d raw client_id redirect_uri resource verifier registry code session"
    and rest: "ac_consumed_at code = None" "env_clock e 0 < ac_expires_at code"
      "env_clock e 0 < ps_expires_at session" "ps_revoked_at session = None"
      "r = \<lparr>ex_session_id = ac_session_id code, ex_user_id = ps_user_id session,
         ex_client_id = ac_client_id code, ex_scopes = ac_scopes code, ex_resource = ac_resource code,
         ex_refresh_token = rt, ex_oidc_nonce = ac_oidc_nonce code,
         ex_upstream_auth_time = ac_upstream_auth_time code\<rparr>" by auto
  from ready_code_hash [OF ready assms(1,2)] ready rest show ?thesis
    by (intro exI [of _ code] exI [of _ session]) (simp add: exchange_ready_def code_matches_def)
qed

text \<open>C5: Whoever redeems a code holds everything it was bound to: the code row stored under the
  hash of the presented secret names the presented client, redirect and resource, its
  challenge is the S256 digest of the verifier, the code was unconsumed and unexpired, its
  session unexpired and unrevoked, and the result carries the code's own scopes, resource,
  session and user.\<close>

theorem exchange_authorized:
  assumes "cred_inv d" and "creds_le d0 d"
    and "exchange_code_bound L B e d0 d raw client_id redirect_uri resource verifier registry = (Inr r, d')"
  shows "\<exists>c s. code_by_hash d (hash L raw) = Some c \<and> session_by_id d (ac_session_id c) = Some s
    \<and> ac_client_id c = client_id \<and> ac_redirect_uri c = redirect_uri \<and> ac_resource c = resource
    \<and> verify_s256 L verifier (ac_code_challenge c)
    \<and> ac_consumed_at c = None \<and> env_clock e 0 < ac_expires_at c
    \<and> ps_revoked_at s = None \<and> env_clock e 0 < ps_expires_at s
    \<and> ex_client_id r = client_id \<and> ex_scopes r = ac_scopes c \<and> ex_resource r = resource
    \<and> ex_session_id r = ac_session_id c \<and> ex_user_id r = ps_user_id s
    \<and> ex_oidc_nonce r = ac_oidc_nonce c"
  by (rule exchange_result_facts [OF assms])

theorem exchange_authorized_witness:
  "\<exists>c. code_by_hash sc_db2 (hash ref_libs (sc_secret 50)) = Some c \<and> verify_s256 ref_libs ref_verifier (ac_code_challenge c)
     \<and> ex_scopes (sc_result 61) = ac_scopes c"
  using exchange_authorized [OF sc_db2_inv(1) creds_le_refl sc_exchange] by blast

text \<open>A request that does not match the code's client, redirect, resource or challenge is
  refused and leaves the database exactly as it was: a wrong binding is not evidence of
  replay and cannot revoke anybody's grant.  The same holds of a refresh token presented by
  another client or for another resource.\<close>

theorem wrong_binding_changes_nothing:
  assumes "cred_inv d" and "creds_le d0 d"
  shows "(code_by_hash d (hash L raw) = Some c \<and> \<not> code_matches L c client_id redirect_uri resource verifier
      \<longrightarrow> (\<exists>err. exchange_code_bound L B e d0 d raw client_id redirect_uri resource verifier registry = (Inl err, d)))
    \<and> (member_by_hash d (hash L raw) = Some m \<and> family_by_id d (rm_family_id m) = Some f
       \<and> (rf_client_id f \<noteq> client_id \<or> rf_resource f \<noteq> resource)
      \<longrightarrow> (\<exists>err. rotate_refresh_bound L B e d0 d raw client_id resource registry = (Inl err, d)))"
proof (intro conjI impI)
  assume c: "code_by_hash d (hash L raw) = Some c \<and> \<not> code_matches L c client_id redirect_uri resource verifier"
  obtain out d' where run: "exchange_code_bound L B e d0 d raw client_id redirect_uri resource verifier registry = (out, d')"
    by fastforce
  have "\<not> exchange_ready L B e d0 d raw client_id redirect_uri resource verifier registry code session" for code session
    using ready_code_hash [OF _ assms] c unfolding exchange_ready_def by (metis option.inject)
  with exchange_cases [OF run] run
  show "\<exists>err. exchange_code_bound L B e d0 d raw client_id redirect_uri resource verifier registry = (Inl err, d)" by auto
next
  assume m: "member_by_hash d (hash L raw) = Some m \<and> family_by_id d (rm_family_id m) = Some f
       \<and> (rf_client_id f \<noteq> client_id \<or> rf_resource f \<noteq> resource)"
  obtain out d' where run: "rotate_refresh_bound L B e d0 d raw client_id resource registry = (out, d')" by fastforce
  have "\<not> rotation_ready L B e d0 d raw client_id resource registry member f0 family session" for member f0 family session
  proof
    assume ready: "rotation_ready L B e d0 d raw client_id resource registry member f0 family session"
    note k = rotation_consistent [OF ready assms]
    have "m = member" using by_key_SomeI(6) [OF assms(1) k(5)] k(2) m by simp
    moreover have "f = family"
      using k(1) m ready calculation unfolding rotation_ready_def by (metis option.inject)
    ultimately show False using m ready by (auto simp: rotation_ready_def)
  qed
  with rotation_cases [OF run] run
  show "\<exists>err. rotate_refresh_bound L B e d0 d raw client_id resource registry = (Inl err, d)" by auto
qed

theorem wrong_binding_changes_nothing_witness:
  "(\<exists>err. exchange_code_bound ref_libs ref_codec (env_at (seconds 1010) 60) sc_db2 sc_db2
      (sc_secret 50) ''app'' sc_redirect sc_resource sc_redirect None = (Inl err, sc_db2))
   \<and> (\<exists>err. rotate_refresh_bound ref_libs ref_codec (env_at (seconds 1020) 70) sc_db3 sc_db3
      (sc_secret 61) ''other'' sc_resource None = (Inl err, sc_db3))"
proof -
  have "code_by_hash sc_db2 (hash ref_libs (sc_secret 50)) = Some sc_code_row
      \<and> \<not> code_matches ref_libs sc_code_row ''app'' sc_redirect sc_resource sc_redirect" by code_simp
  moreover have "member_by_hash sc_db3 (hash ref_libs (sc_secret 61)) = Some sc_member_row
      \<and> family_by_id sc_db3 (rm_family_id sc_member_row) = Some sc_family_row
      \<and> (rf_client_id sc_family_row \<noteq> ''other'' \<or> rf_resource sc_family_row \<noteq> sc_resource)" by code_simp
  ultimately show ?thesis
    using wrong_binding_changes_nothing [OF sc_db2_inv(1) creds_le_refl, of ref_libs "sc_secret 50" sc_code_row
        "''app''" sc_redirect sc_resource sc_redirect]
      wrong_binding_changes_nothing [OF sc_db3_inv(1) creds_le_refl, of ref_libs "sc_secret 61" _
        "''other''" _ sc_resource _ _ _ _ sc_member_row sc_family_row] by blast
qed

text \<open>A redemption starts a refresh family exactly when the grant asked for one.  The family
  copies the code's client, scopes, resource and binding, ends within 30 days and no later
  than the session, and has one live member, whose hash is that of the returned token; a code
  without refresh permission leaves families and members untouched.\<close>

theorem exchange_starts_family:
  assumes "cred_inv d" and "creds_le d0 d"
    and "exchange_code_bound L B e d0 d raw client_id redirect_uri resource verifier registry = (Inr r, d')"
    and "code_by_hash d (hash L raw) = Some c"
  shows "case ex_refresh_token r of
      None \<Rightarrow> \<not> ac_issue_refresh_token c \<and> db_families d' = db_families d \<and> db_members d' = db_members d
    | Some token \<Rightarrow> ac_issue_refresh_token c \<and> (\<exists>f n. db_families d' = db_families d @ [f]
        \<and> rf_source_code_id f = ac_id c \<and> rf_session_id f = ac_session_id c \<and> rf_client_id f = ac_client_id c
        \<and> rf_scopes f = ac_scopes c \<and> rf_resource f = ac_resource c \<and> rf_cimd_binding f = ac_cimd_binding c
        \<and> rf_revoked_at f = None \<and> rf_expires_at f \<le> env_clock e 0 + days 30
        \<and> (\<exists>s. session_by_id d (ac_session_id c) = Some s \<and> rf_expires_at f \<le> ps_expires_at s)
        \<and> live_members (db_members d') (rf_id f) = [n] \<and> rm_token_hash n = hash L token)"
proof -
  from exchange_cases [OF assms(3)] obtain code session rt where
    ready: "exchange_ready L B e d0 d raw client_id redirect_uri resource verifier registry code session"
    and live: "ac_consumed_at code = None" "ps_revoked_at session = None"
    and redeem: "redeem_code L e (env_clock e 0) d code session = Some (rt, d')"
    and r: "ex_refresh_token r = rt" by auto
  have code: "code = c" using ready_code_hash [OF ready assms(1,2)] assms(4) by simp
  have s: "session_by_id d (ac_session_id c) = Some session" and id: "code_by_id d (ac_id c) = Some c"
    using ready by (simp_all add: exchange_ready_def code)
  have inv': "cred_inv d'" using redeem_code_safe [OF redeem assms(1) _ _ live] s id code by simp
  show ?thesis
  proof (cases "ac_issue_refresh_token c")
    case False
    with redeem_codeD [OF redeem] r code show ?thesis by simp
  next
    case True
    let ?f = "family_of_code (env_uuid e 0) c session (env_clock e 0)"
    from True redeem_codeD [OF redeem] code obtain token d2 n where rt: "rt = Some token"
      and fam: "insert_family (consume_code (ac_id c) (env_clock e 0) d) ?f = Some d2"
      and mem: "insert_member d2 n = Some d'" and n: "rm_family_id n = env_uuid e 0" "rm_consumed_at n = None"
        "rm_token_hash n = hash L token" by auto
    have fams: "db_families d' = db_families d @ [?f]" and n': "n \<in> set (db_members d')"
      using fam mem by (auto simp: insert_family_def insert_member_def split: if_splits)
    have "live_members (db_members d') (rf_id ?f) = [n]"
      using live_member_unique [OF _ n' n(2)] inv' n(1) by (auto simp: cred_inv_def family_of_code_def)
    then show ?thesis
      using True r rt fams s n(3) by (auto simp: family_of_code_def)
  qed
qed

theorem exchange_starts_family_witness:
  "\<exists>f n. db_families sc_db3 = db_families sc_db2 @ [f] \<and> rf_scopes f = ac_scopes sc_code_row
     \<and> live_members (db_members sc_db3) (rf_id f) = [n] \<and> rm_token_hash n = hash ref_libs (sc_secret 61)"
proof -
  have c: "code_by_hash sc_db2 (hash ref_libs (sc_secret 50)) = Some sc_code_row" by code_simp
  from exchange_starts_family [OF sc_db2_inv(1) creds_le_refl sc_exchange c]
  show ?thesis by (auto simp: sc_result_def)
qed

section \<open>Rotation\<close>

text \<open>Rotation never widens a grant: the result of a successful rotation carries exactly the
  client, scopes, resource, session and user of the authorization code its family descends
  from, and the presented token was a live member of an unrevoked, unexpired family under an
  unrevoked, unexpired session.\<close>

theorem rotation_no_escalation:
  assumes "cred_inv d" and "creds_le d0 d"
    and "rotate_refresh_bound L B e d0 d raw client_id resource registry = (Inr r, d')"
  shows "\<exists>m f c s. m \<in> set (db_members d) \<and> f \<in> set (db_families d) \<and> c \<in> set (db_codes d) \<and> s \<in> set (db_sessions d)
    \<and> rm_token_hash m = hash L raw \<and> rm_family_id m = rf_id f \<and> rm_consumed_at m = None
    \<and> rf_revoked_at f = None \<and> env_clock e 0 < rf_expires_at f
    \<and> ps_id s = ac_session_id c \<and> ps_revoked_at s = None \<and> env_clock e 0 < ps_expires_at s
    \<and> rf_source_code_id f = ac_id c \<and> ac_issue_refresh_token c
    \<and> ex_client_id r = client_id \<and> client_id = ac_client_id c \<and> ex_scopes r = ac_scopes c
    \<and> ex_resource r = resource \<and> resource = ac_resource c
    \<and> ex_session_id r = ac_session_id c \<and> ex_user_id r = ps_user_id s"
proof -
  from rotation_cases [OF assms(3)] obtain member f0 family session rt where
    ready: "rotation_ready L B e d0 d raw client_id resource registry member f0 family session"
    and rest: "rm_consumed_at member = None" "rf_revoked_at family = None" "ps_revoked_at session = None"
      "env_clock e 0 < rf_expires_at family" "env_clock e 0 < ps_expires_at session"
    and r: "r = \<lparr>ex_session_id = rf_session_id f0, ex_user_id = ps_user_id session,
                  ex_client_id = rf_client_id family, ex_scopes = rf_scopes family,
                  ex_resource = rf_resource family, ex_refresh_token = Some rt, ex_oidc_nonce = None,
                  ex_upstream_auth_time = rf_upstream_auth_time family\<rparr>" by auto
  note k = rotation_consistent [OF ready assms(1,2)]
  from assms(1) k(6) obtain c where c: "c \<in> set (db_codes d)" "descends_from family c"
    unfolding cred_inv_def families_wf_def by blast
  have s: "session \<in> set (db_sessions d)" "ps_id session = rf_session_id family"
    using ready by_key_SomeD(1) k(4) unfolding rotation_ready_def by metis+
  show ?thesis
    using ready rest r k c s
    by (intro exI [of _ member] exI [of _ family] exI [of _ c] exI [of _ session])
      (auto simp: descends_from_def rotation_ready_def)
qed

theorem rotation_no_escalation_witness:
  "\<exists>c. c \<in> set (db_codes sc_db3) \<and> ex_scopes (sc_result 70) = ac_scopes c"
  using rotation_no_escalation [OF sc_db3_inv(1) creds_le_refl sc_rotate] by blast

text \<open>Strict rotation: a successful rotation spends the presented token, records its
  successor, and returns the token of the family's only live member.\<close>

theorem rotation_replaces_live_member:
  assumes "cred_inv d" and "creds_le d0 d"
    and "rotate_refresh_bound L B e d0 d raw client_id resource registry = (Inr r, d')"
  shows "\<exists>old new token. ex_refresh_token r = Some token
    \<and> member_by_hash d' (hash L raw) = Some old \<and> member_by_hash d' (hash L token) = Some new
    \<and> rm_consumed_at old = Some (env_clock e 0) \<and> rm_successor_id old = Some (rm_id new)
    \<and> live_members (db_members d) (rm_family_id old) \<noteq> []
    \<and> live_members (db_members d') (rm_family_id old) = [new]"
proof -
  from rotation_cases [OF assms(3)] obtain member f0 family session token where
    ready: "rotation_ready L B e d0 d raw client_id resource registry member f0 family session"
    and live: "rm_consumed_at member = None"
    and rot: "rotate_member L e (env_clock e 0) d (rm_id member) (rf_id family) = Some (token, d')"
    and r: "ex_refresh_token r = Some token" by auto
  note k = rotation_consistent [OF ready assms(1,2)]
  from rotate_memberD [OF rot] obtain n d1 where n: "insert_member d n = Some d1"
    "d' = consume_member (rm_id member) (env_clock e 0) (rm_id n) d1"
    "rm_family_id n = rf_id family" "rm_consumed_at n = None" "rm_successor_id n = None"
    "rm_token_hash n = hash L token" by auto
  have inv': "cred_inv d'" using rotation_safe [OF assms(1,2)] assms(3) by (metis snd_conv)
  from n(1) have d1: "db_members d1 = db_members d @ [n]" and fresh: "rm_id n \<notin> rm_id ` set (db_members d)"
    by (auto simp: insert_member_def split: if_splits)
  then have neq: "rm_id n \<noteq> rm_id member" using k(5) by (metis imageI)
  let ?old = "member\<lparr>rm_consumed_at := Some (env_clock e 0), rm_successor_id := Some (rm_id n)\<rparr>"
  have in': "?old \<in> set (db_members d')" "n \<in> set (db_members d')"
    using k(5) neq by (auto simp: n(2) consume_member_def set_update_where d1)
  have "member_by_hash d' (hash L raw) = Some ?old" "member_by_hash d' (hash L token) = Some n"
    using by_key_SomeI(6) [OF inv' in'(1)] by_key_SomeI(6) [OF inv' in'(2)] k(2) n(6) by simp_all
  moreover have "live_members (db_members d') (rf_id family) = [n]"
    using live_member_unique [OF _ in'(2) n(4)] inv' n(3) by (auto simp: cred_inv_def)
  moreover have "live_members (db_members d) (rf_id family) \<noteq> []"
    using live_member_unique [OF _ k(5) live] assms(1) k(1) by (auto simp: cred_inv_def)
  ultimately show ?thesis using r k(1)
    by (intro exI [of _ ?old] exI [of _ n] exI [of _ token]) simp
qed

theorem rotation_replaces_live_member_witness:
  "\<exists>old new. member_by_hash sc_db4 (hash ref_libs (sc_secret 61)) = Some old
     \<and> rm_successor_id old = Some (rm_id new) \<and> live_members (db_members sc_db4) (rm_family_id old) = [new]"
  using rotation_replaces_live_member [OF sc_db3_inv(1) creds_le_refl sc_rotate] by blast

section \<open>Dead families stay dead\<close>

lemma member_row_later:
  assumes "cred_inv d" "m \<in> set (db_members d)" "creds_le d d2" "cred_inv d2"
  shows "\<exists>m2. member_by_hash d2 (rm_token_hash m) = Some m2 \<and> member_le m m2"
  using by_key_later(6) [OF assms(3,4)] by_key_SomeI(6) [OF assms(1,2)] by blast

lemma dead_member_not_rotated:
  assumes "m \<in> set (db_members d2)" "rm_token_hash m = hash L raw" "f \<in> set (db_families d2)"
    and "rf_id f = rm_family_id m" "rm_consumed_at m \<noteq> None \<or> rf_revoked_at f \<noteq> None"
    and "cred_inv d2" "creds_le d0 d2"
  shows "\<not> is_ok (fst (rotate_refresh_bound L B e d0 d2 raw client_id resource registry))"
proof
  assume "is_ok (fst (rotate_refresh_bound L B e d0 d2 raw client_id resource registry))"
  then obtain r d' where "rotate_refresh_bound L B e d0 d2 raw client_id resource registry = (Inr r, d')"
    by (metis is_ok_iff prod.collapse)
  from rotation_cases [OF this] obtain member f0 family session where
    ready: "rotation_ready L B e d0 d2 raw client_id resource registry member f0 family session"
    and live: "rm_consumed_at member = None" "rf_revoked_at family = None" by auto
  note k = rotation_consistent [OF ready assms(6,7)]
  have "m = member" using distinct_key_eq [OF cred_inv_distinct(6) [OF assms(6)] assms(1) k(5)] assms(2) k(2) by simp
  moreover from this have "f = family"
    using distinct_key_eq [OF cred_inv_distinct(4) [OF assms(6)] assms(3) k(6)] assms(4) k(1) by simp
  ultimately show False using assms(5) live by simp
qed

lemma revoked_family_later:
  assumes "f \<in> set (db_families d)" "rf_revoked_at f \<noteq> None" "creds_le d d2"
  shows "\<exists>f2 \<in> set (db_families d2). rf_id f2 = rf_id f \<and> rf_revoked_at f2 = rf_revoked_at f"
proof -
  from families.rows_member [OF _ assms(1)] assms(3) obtain f2 where
    "f2 \<in> set (db_families d2)" "family_le f f2" by (auto simp: creds_le_def)
  with assms(2) family_leD show ?thesis by (metis family_le_def)
qed

lemma revoked_family_is_dead:
  assumes "f \<in> set (db_families d)" "rf_revoked_at f \<noteq> None" "creds_le d d2" "cred_inv d2" "creds_le d0 d2"
    and "m \<in> set (db_members d2)" "rm_token_hash m = hash L raw" "rm_family_id m = rf_id f"
  shows "\<not> is_ok (fst (rotate_refresh_bound L B e d0 d2 raw client_id resource registry))"
  using revoked_family_later [OF assms(1-3)] dead_member_not_rotated [OF assms(6,7) _ _ _ assms(4,5)] assms(2,8)
  by metis

text \<open>\<open>family_dead L d fid\<close>: in no state after \<open>d\<close> can any token of the family be rotated.\<close>

definition family_dead :: "libs \<Rightarrow> db \<Rightarrow> uuid \<Rightarrow> bool" where
  "family_dead L d fid \<longleftrightarrow> (\<forall>B token e d0 d2 n client resource registry.
     creds_le d d2 \<and> cred_inv d2 \<and> creds_le d0 d2
     \<and> member_by_hash d2 (hash L token) = Some n \<and> rm_family_id n = fid \<longrightarrow>
     \<not> is_ok (fst (rotate_refresh_bound L B e d0 d2 token client resource registry)))"

lemma family_deadI:
  assumes "f \<in> set (db_families d)" "rf_revoked_at f \<noteq> None"
  shows "family_dead L d (rf_id f)"
  unfolding family_dead_def
proof (intro allI impI)
  fix B token e d0 d2 n client resource registry
  assume "creds_le d d2 \<and> cred_inv d2 \<and> creds_le d0 d2
     \<and> member_by_hash d2 (hash L token) = Some n \<and> rm_family_id n = rf_id f"
  then show "\<not> is_ok (fst (rotate_refresh_bound L B e d0 d2 token client resource registry))"
    using by_key_SomeD(6) [of d2 "hash L token" n]
    by (intro revoked_family_is_dead [OF assms, of d2 d0 n]) auto
qed

lemma revoke_families_dead:
  assumes "f \<in> set (db_families d)"
  shows "family_dead L (revoke_families (\<lambda>g. rf_id g = rf_id f) now d) (rf_id f)"
proof -
  let ?d = "revoke_families (\<lambda>g. rf_id g = rf_id f) now d"
  obtain g where g: "g \<in> set (db_families ?d)" "rf_id g = rf_id f"
    using families.rows_member [OF _ assms] creds_le_revoke_families [of d "\<lambda>g. rf_id g = rf_id f" now] family_leD
    unfolding creds_le_def by blast
  with revoke_families_marks [OF g(1)] have "rf_revoked_at g \<noteq> None" by simp
  from family_deadI [OF g(1) this] g(2) show ?thesis by simp
qed

text \<open>The policy checks a rotation makes, as one condition on the stored family.\<close>

definition refresh_policy_ok ::
  "binding_codec \<Rightarrow> env \<Rightarrow> client_registry option \<Rightarrow> string \<Rightarrow> refresh_family_row \<Rightarrow> bool" where
  "refresh_policy_ok B e registry client_id f \<longleftrightarrow>
     (\<forall>k \<in> {0, 1, 2}. check_binding B (env_instant e k) registry client_id (rf_cimd_binding f) = Inr ())
     \<and> (case registry of None \<Rightarrow> True | Some reg \<Rightarrow> permits_refresh reg client_id (rf_scopes f) (rf_resource f))"

lemma snapshot_member:
  assumes "creds_le d1 d0" "member_by_hash d1 h = Some m1" "creds_le d0 d2" "cred_inv d2"
    and "member_by_hash d2 h = Some m"
  shows "\<exists>m0. member_by_hash d0 h = Some m0 \<and> member_le m0 m"
proof -
  have "\<exists>m0. member_by_hash d0 h = Some m0"
    using members.rows_find_some [of "db_members d1" "db_members d0" rm_token_hash] assms(1,2)
    unfolding member_by_hash_def creds_le_def using member_leD by blast
  with by_key_later(6) [OF assms(3,4)] assms(5) show ?thesis by fastforce
qed

lemma family_of_member:
  assumes "cred_inv d" "m \<in> set (db_members d)"
  shows "\<exists>f. family_by_id d (rm_family_id m) = Some f"
proof -
  from assms obtain f where "f \<in> set (db_families d)" "rf_id f = rm_family_id m"
    unfolding cred_inv_def members_wf_def by force
  with by_key_SomeI(4) [OF assms(1)] show ?thesis by metis
qed

lemma session_of_family:
  assumes "cred_inv d" "f \<in> set (db_families d)"
  shows "\<exists>s. session_by_id d (rf_session_id f) = Some s"
proof -
  from assms obtain s where "s \<in> set (db_sessions d)" "ps_id s = rf_session_id f"
    unfolding cred_inv_def families_wf_def under_session_def by blast
  with by_key_SomeI(1) [OF assms(1)] show ?thesis by metis
qed

text \<open>A spent member presented again, with the family's own client and resource.\<close>

lemma replayed_member:
  assumes "cred_inv d2" "creds_le d0 d2" "cred_inv d0"
    and m0: "member_by_hash d0 (hash L raw) = Some m0"
    and m: "member_by_hash d2 (hash L raw) = Some m" "rm_consumed_at m \<noteq> None"
    and f: "family_by_id d2 (rm_family_id m) = Some f" "rf_client_id f = client_id" "rf_resource f = resource"
    and ok: "refresh_policy_ok B e registry client_id f"
  shows "rotate_refresh_bound L B e d0 d2 raw client_id resource registry =
    (Inl InvalidGrant, revoke_families (\<lambda>g. rf_id g = rf_id f) (env_clock e 0) d2)"
proof -
  from by_key_later(6) [OF assms(2,1) m0] m(1) have le: "member_le m0 m" by simp
  then have ids: "rm_id m0 = rm_id m" "rm_family_id m0 = rm_family_id m" using member_leD by fastforce+
  from family_of_member [OF assms(3)] by_key_SomeD(6) [OF m0] obtain f0 where
    f0: "family_by_id d0 (rm_family_id m) = Some f0" using ids by metis
  from by_key_later(4) [OF assms(2,1) f0] f(1) have "family_le f0 f" by simp
  then have sid: "rf_session_id f0 = rf_session_id f" using family_leD by fastforce
  from session_of_family [OF assms(1)] by_key_SomeD(4) [OF f(1)] obtain s where
    s: "session_by_id d2 (rf_session_id f) = Some s" by blast
  have mid: "member_by_id d2 (rm_id m) = Some m"
    using by_key_SomeD(6) [OF m(1)] by_key_SomeI(5) [OF assms(1)] by simp
  have fid: "rf_id f = rm_family_id m" using by_key_SomeD(4) [OF f(1)] by simp
  show ?thesis
    unfolding rotate_refresh_bound_def
    using m0 ids f0 sid s mid f fid ok m(2)
    by (cases registry) (simp_all add: refresh_policy_ok_def Let_def)
qed

text \<open>C3: Reuse of a rotated refresh token is detected: in every later state, presenting the
  spent token again under the client's policy is refused with \<open>InvalidGrant\<close>, commits the
  revocation of its whole family, and from then on no token of that family, the live
  successor included, can be rotated.\<close>

theorem refresh_replay_revokes_family:
  assumes "cred_inv d" and "creds_le d0 d"
    and "rotate_refresh_bound L B e d0 d raw client_id resource registry = (Inr r, d1)"
    and "creds_le d1 d0'" and "cred_inv d0'" and "creds_le d0' d2" and "cred_inv d2"
    and "member_by_hash d2 (hash L raw) = Some m" and "family_by_id d2 (rm_family_id m) = Some f"
    and "refresh_policy_ok B e' registry' client_id f"
  shows "\<exists>d3. rotate_refresh_bound L B e' d0' d2 raw client_id resource registry' = (Inl InvalidGrant, d3)
    \<and> (\<forall>g \<in> set (db_families d3). rf_id g = rf_id f \<longrightarrow> rf_revoked_at g \<noteq> None)
    \<and> family_dead L d3 (rf_id f)"
proof -
  have le: "creds_le d1 d2" using assms(4,6) creds_le_trans by blast
  have dd1: "creds_le d d1" using rotation_safe [OF assms(1,2)] assms(3) by (metis snd_conv)
  from rotation_replaces_live_member [OF assms(1-3)] obtain old where
    old: "member_by_hash d1 (hash L raw) = Some old" "rm_consumed_at old \<noteq> None" by auto
  from by_key_later(6) [OF le assms(7) old(1)] assms(8) have evolved: "member_le old m" by simp
  then have used: "rm_consumed_at m \<noteq> None" using old(2) by (auto simp: member_le_def)
  from snapshot_member [OF assms(4) old(1) assms(6-8)] obtain m0 where
    m0: "member_by_hash d0' (hash L raw) = Some m0" by blast
  from rotation_cases [OF assms(3)] obtain member f0 family session where
    ready: "rotation_ready L B e d0 d raw client_id resource registry member f0 family session" by auto
  note k = rotation_consistent [OF ready assms(1,2)]
  from member_row_later [OF assms(1) k(5) creds_le_trans [OF dd1 le] assms(7)] k(2) assms(8)
  have "member_le member m" by simp
  then have "rm_family_id m = rf_id family" using member_leD k(1) by metis
  with by_key_later(4) [OF creds_le_trans [OF dd1 le] assms(7) by_key_SomeI(4) [OF assms(1) k(6)]] assms(9)
  have "family_le family f" by auto
  then have cl: "rf_client_id f = client_id" "rf_resource f = resource"
    using ready family_leD by (auto simp: rotation_ready_def)
  let ?d3 = "revoke_families (\<lambda>g. rf_id g = rf_id f) (env_clock e' 0) d2"
  have run: "rotate_refresh_bound L B e' d0' d2 raw client_id resource registry' = (Inl InvalidGrant, ?d3)"
    by (rule replayed_member [OF assms(7,6,5) m0 assms(8) used assms(9) cl assms(10)])
  have marked: "\<forall>g \<in> set (db_families ?d3). rf_id g = rf_id f \<longrightarrow> rf_revoked_at g \<noteq> None"
    using revoke_families_marks [of _ "\<lambda>g. rf_id g = rf_id f" "env_clock e' 0" d2] by auto
  have "f \<in> set (db_families d2)" using by_key_SomeD(4) [OF assms(9)] by simp
  from revoke_families_dead [OF this] run marked show ?thesis by blast
qed

theorem refresh_replay_revokes_family_witness:
  "\<exists>d3. rotate_refresh_bound ref_libs ref_codec (env_at (seconds 1030) 90) sc_db4 sc_db4 (sc_secret 61)
     ''app'' sc_resource None = (Inl InvalidGrant, d3)
     \<and> family_dead ref_libs d3 60"
proof -
  have m: "member_by_hash sc_db4 (hash ref_libs (sc_secret 61)) =
      Some (sc_member_row\<lparr>rm_consumed_at := Some (seconds 1020), rm_successor_id := Some 70\<rparr>)" by code_simp
  have f: "family_by_id sc_db4 (rm_family_id
      (sc_member_row\<lparr>rm_consumed_at := Some (seconds 1020), rm_successor_id := Some 70\<rparr>)) = Some sc_family_row"
    by code_simp
  have ok: "refresh_policy_ok ref_codec (env_at (seconds 1030) 90) None ''app'' sc_family_row" by code_simp
  from refresh_replay_revokes_family [OF sc_db3_inv(1) creds_le_refl sc_rotate creds_le_refl sc_db4_inv(1)
      creds_le_refl sc_db4_inv(1) m f ok]
  show ?thesis by (auto simp: sc_family_row_def)
qed

section \<open>Revocation and logout\<close>

text \<open>Revocation answers success to everybody and acts only for the token's own client: for
  an unknown token or another client nothing changes; otherwise only the token's family is
  revoked, and no token of that family can be rotated in any later state.\<close>

theorem revoke_refresh_is_final:
  assumes "cred_inv d" and "creds_le d0 d" and "cred_inv d0"
    and "revoke_refresh L e d0 d raw client_id = (out, d1)"
  shows "out = Inr () \<and> (case family_of_token d0 (hash L raw) of
      None \<Rightarrow> d1 = d
    | Some f \<Rightarrow> if rf_client_id f \<noteq> client_id then d1 = d
        else d1 = revoke_families (\<lambda>g. rf_id g = rf_id f) (env_clock e 0) d
          \<and> family_dead L d1 (rf_id f))"
proof (cases "family_of_token d0 (hash L raw)")
  case None
  then show ?thesis using assms(4) by (simp add: revoke_refresh_def)
next
  case (Some f)
  show ?thesis
  proof (cases "rf_client_id f = client_id")
    case False
    then show ?thesis using assms(4) Some by (simp add: revoke_refresh_def)
  next
    case True
    from Some obtain k where "family_by_id d0 k = Some f"
      by (auto simp: family_of_token_def split: bind_splits)
    then have f0: "family_by_id d0 (rf_id f) = Some f" using by_key_SomeD(4) by metis
    from by_key_later(4) [OF assms(2,1) this] obtain f' where f': "family_by_id d (rf_id f) = Some f'" "family_le f f'"
      by blast
    have f: "f' \<in> set (db_families d)" "rf_id f' = rf_id f" using by_key_SomeD(4) [OF f'(1)] by auto
    with session_of_family [OF assms(1)] family_leD [OF f'(2)] obtain s where
      s: "session_by_id d (rf_session_id f) = Some s" by metis
    have "out = Inr () \<and> d1 = revoke_families (\<lambda>g. rf_id g = rf_id f) (env_clock e 0) d"
      using assms(4) Some True f' s by (auto simp: revoke_refresh_def)
    with revoke_families_dead [OF f(1)] f(2) Some True show ?thesis by simp
  qed
qed

theorem revoke_refresh_is_final_witness:
  "revoke_refresh ref_libs (env_at (seconds 1050) 90) sc_db4 sc_db4 (sc_secret 70) ''app''
   = (Inr (), revoke_families (\<lambda>g. rf_id g = 60) (seconds 1050) sc_db4)"
proof -
  obtain out d1 where run: "revoke_refresh ref_libs (env_at (seconds 1050) 90) sc_db4 sc_db4 (sc_secret 70) ''app''
     = (out, d1)" by fastforce
  have f: "family_of_token sc_db4 (hash ref_libs (sc_secret 70)) = Some sc_family_row" by code_simp
  have cl: "rf_client_id sc_family_row = ''app''" by code_simp
  from revoke_refresh_is_final [OF sc_db4_inv(1) creds_le_refl sc_db4_inv(1) run] f cl run
  show ?thesis by (simp add: sc_family_row_def env_at_def)
qed

lemma session_revoked_later:
  assumes "session_by_id d sid = Some s" "ps_revoked_at s \<noteq> None" "creds_le d d2" "cred_inv d2"
    and "session_by_id d2 sid = Some s2"
  shows "ps_revoked_at s2 \<noteq> None"
  using by_key_later(1) [OF assms(3,4,1)] assms(2,5) by (auto simp: session_le_def)

lemma end_session_revokes:
  assumes "cred_inv d" "session_by_id d sid = Some s"
  shows "\<exists>s'. session_by_id (end_session sid now now' d) sid = Some s' \<and> ps_revoked_at s' \<noteq> None"
proof -
  have "ps_id s = sid" "s \<in> set (db_sessions d)" using by_key_SomeD(1) [OF assms(2)] by auto
  then have "s\<lparr>ps_revoked_at := coalesce (ps_revoked_at s) now\<rparr> \<in> set (db_sessions (end_session sid now now' d))"
    using revoke_session_member [of s d sid now] by (simp add: end_session_def)
  from by_key_SomeI(1) [OF cred_inv_end_session [OF assms(1)] this] \<open>ps_id s = sid\<close> show ?thesis by auto
qed

text \<open>Logout is final.  After it, in every later state, the session's secret no longer finds
  a session, no authorization code is issued under it, no code issued under it is redeemed
  (not even one issued before the logout), and no refresh token under it is rotated.\<close>

theorem logout_is_final:
  assumes "cred_inv d" and "logout e d session = (Inr u, d1)" and "creds_le d1 d2" and "cred_inv d2"
  shows "(\<forall>s e'. session_by_id d2 (pv_id session) = Some s \<and> ps_token_hash s = hash L raw \<longrightarrow>
       find_provider_session L e' d2 raw = Inl InvalidGrant)
    \<and> (\<forall>B e' session' grant lifetime. pv_id session' = pv_id session \<longrightarrow>
       \<not> is_ok (fst (issue_authorization_code L B e' d2 session' grant lifetime)))
    \<and> (\<forall>B e' d0 c client redirect resource verifier registry. creds_le d0 d2
       \<and> code_by_hash d2 (hash L raw) = Some c \<and> ac_session_id c = pv_id session \<longrightarrow>
       \<not> is_ok (fst (exchange_code_bound L B e' d0 d2 raw client redirect resource verifier registry)))
    \<and> (\<forall>B e' d0 m f client resource registry. creds_le d0 d2 \<and> member_by_hash d2 (hash L raw) = Some m
       \<and> family_by_id d2 (rm_family_id m) = Some f \<and> rf_session_id f = pv_id session \<longrightarrow>
       \<not> is_ok (fst (rotate_refresh_bound L B e' d0 d2 raw client resource registry)))"
proof -
  let ?sid = "pv_id session"
  obtain s where "session_by_id d ?sid = Some s"
    using assms(2) by (auto simp: logout_end_session split: if_splits)
  moreover have "d1 = end_session ?sid (env_clock e 0) (env_clock e 1) d"
    using assms(2) by (auto simp: logout_end_session split: if_splits)
  ultimately obtain s1 where s1: "session_by_id d1 ?sid = Some s1" "ps_revoked_at s1 \<noteq> None"
    using end_session_revokes [OF assms(1)] by blast
  have dead: "ps_revoked_at s2 \<noteq> None" if "session_by_id d2 ?sid = Some s2" for s2
    using session_revoked_later [OF s1 assms(3,4) that] .
  show ?thesis
  proof (intro conjI allI impI)
    fix s and e' :: env assume s: "session_by_id d2 ?sid = Some s \<and> ps_token_hash s = hash L raw"
    have "r = s" if "r \<in> set (db_sessions d2)" "ps_token_hash r = hash L raw" for r
      using distinct_key_eq [OF cred_inv_distinct(7) [OF assms(4)] that(1)] s that(2) by_key_SomeD(1) by metis
    then have "find (\<lambda>r. ps_token_hash r = hash L raw \<and> ps_revoked_at r = None \<and> env_clock e' 0 < ps_expires_at r)
        (db_sessions d2) = None" using dead s by (auto simp: find_None_iff)
    then show "find_provider_session L e' d2 raw = Inl InvalidGrant" by (simp add: find_provider_session_def)
  next
    fix B e' and session' :: provider_session and grant lifetime assume eq: "pv_id session' = ?sid"
    show "\<not> is_ok (fst (issue_authorization_code L B e' d2 session' grant lifetime))"
      using dead issue_cases [of L B e' d2 session' grant lifetime] eq
      by (cases "issue_authorization_code L B e' d2 session' grant lifetime") (auto simp: session_active_def is_ok_iff)
  next
    fix B e' d0 c client redirect resource verifier registry
    assume c: "creds_le d0 d2 \<and> code_by_hash d2 (hash L raw) = Some c \<and> ac_session_id c = ?sid"
    show "\<not> is_ok (fst (exchange_code_bound L B e' d0 d2 raw client redirect resource verifier registry))"
      using exchange_result_facts [OF assms(4), of d0 L B e' raw client redirect resource verifier registry] c dead
      by (cases "exchange_code_bound L B e' d0 d2 raw client redirect resource verifier registry")
        (auto simp: is_ok_iff)
  next
    fix B e' d0 m f client resource registry
    assume m: "creds_le d0 d2 \<and> member_by_hash d2 (hash L raw) = Some m
       \<and> family_by_id d2 (rm_family_id m) = Some f \<and> rf_session_id f = ?sid"
    then have f: "f \<in> set (db_families d2)" "rf_id f = rm_family_id m" using by_key_SomeD(4) by metis+
    from assms(4) f(1) obtain s where "s \<in> set (db_sessions d2)" "under_session f s"
      unfolding cred_inv_def families_wf_def by blast
    then have "rf_revoked_at f \<noteq> None"
      using by_key_SomeI(1) [OF assms(4), of s] dead [of s] m by (simp add: under_session_def)
    then show "\<not> is_ok (fst (rotate_refresh_bound L B e' d0 d2 raw client resource registry))"
      using dead_member_not_rotated [OF _ _ f _ assms(4)] m by_key_SomeD(6) by metis
  qed
qed

theorem logout_is_final_witness:
  "\<not> is_ok (fst (rotate_refresh_bound ref_libs ref_codec (env_at (seconds 1050) 95) sc_db4
      (end_session 40 (seconds 1040) (seconds 1040) sc_db4) (sc_secret 70) ''app'' sc_resource None))"
proof -
  let ?d1 = "end_session 40 (seconds 1040) (seconds 1040) sc_db4"
  have out: "logout (env_at (seconds 1040) 90) sc_db4 sc_session = (Inr (), ?d1)" by code_simp
  have m: "member_by_hash ?d1 (hash ref_libs (sc_secret 70)) = Some \<lparr>rm_id = 70, rm_family_id = 60,
     rm_token_hash = sc_hash 70, rm_issued_at = seconds 1020, rm_consumed_at = None, rm_successor_id = None\<rparr>"
    and f: "family_by_id ?d1 60 = Some (sc_family_row\<lparr>rf_revoked_at := Some (seconds 1040)\<rparr>)"
    and sid: "pv_id sc_session = 40 \<and> rf_session_id sc_family_row = 40" by code_simp+
  from logout_is_final [OF sc_db4_inv(1) out creds_le_refl cred_inv_end_session [OF sc_db4_inv(1)]]
    m f sid creds_le_end_session [of sc_db4] show ?thesis by simp
qed

section \<open>Requests at the token endpoint and lifetimes\<close>

lemma request_success:
  assumes "exchange_code_request L B now0 e dq d0 d raw client_id redirect_uri resource verifier scopes reg = (Inr r, d')"
  shows "\<exists>stored. stored \<in> set (db_codes dq) \<and> ac_code_hash stored = hash L raw
    \<and> is_none_or resource (\<lambda>v. v = ac_resource stored) \<and> is_none_or scopes (\<lambda>v. same_scopes v (ac_scopes stored))
    \<and> exchange_code_bound L B e d0 d raw client_id redirect_uri (ac_resource stored) verifier (Some reg) = (Inr r, d')"
  using assms unfolding exchange_code_request_def
  by (auto split: option.splits if_splits sum.splits dest!: find_Some_set
      simp: is_some_and_def is_none_or_def intro!: exI)

text \<open>At the token endpoint a client can repeat the scopes and the resource of its grant but
  not change them: a successful exchange request returns exactly the code's scopes and
  resource, and whatever scopes the request listed are these scopes, each once.\<close>

theorem exchange_request_cannot_change_grant:
  assumes "cred_inv d" and "creds_le dq d" and "creds_le d0 d"
    and "exchange_code_request L B now0 e dq d0 d raw client_id redirect_uri resource verifier scopes reg = (Inr r, d')"
  shows "\<exists>c. code_by_hash d (hash L raw) = Some c \<and> ex_scopes r = ac_scopes c \<and> ex_resource r = ac_resource c
    \<and> is_none_or resource (\<lambda>v. v = ac_resource c)
    \<and> is_none_or scopes (\<lambda>v. distinct v \<and> set v = set (ac_scopes c))
    \<and> ac_client_id c = client_id \<and> ac_redirect_uri c = redirect_uri"
proof -
  from request_success [OF assms(4)] obtain stored where
    stored: "stored \<in> set (db_codes dq)" "ac_code_hash stored = hash L raw"
      "is_none_or resource (\<lambda>v. v = ac_resource stored)" "is_none_or scopes (\<lambda>v. same_scopes v (ac_scopes stored))"
    and run: "exchange_code_bound L B e d0 d raw client_id redirect_uri (ac_resource stored) verifier (Some reg) = (Inr r, d')"
    by blast
  from codes.rows_member [OF _ stored(1)] assms(2) obtain c where c: "c \<in> set (db_codes d)" "code_le stored c"
    by (auto simp: creds_le_def)
  have h: "code_by_hash d (hash L raw) = Some c"
    using by_key_SomeI(3) [OF assms(1) c(1)] code_leD [OF c(2)] stored(2) by simp
  from exchange_result_facts [OF assms(1,3) run] h
  have "ex_scopes r = ac_scopes c" "ex_resource r = ac_resource c" "ac_client_id c = client_id"
    "ac_redirect_uri c = redirect_uri" by auto
  moreover have "ac_resource stored = ac_resource c" "ac_scopes stored = ac_scopes c" using code_leD [OF c(2)] by auto
  ultimately show ?thesis
    using h stored(3,4)
    by (intro exI [of _ c]) (cases resource; cases scopes; auto simp: same_scopes_def intro: card_distinct)
qed

theorem exchange_request_cannot_change_grant_witness:
  "exchange_code_request ref_libs ref_codec 10 (env_at (seconds 1010) 60) sc_db2 sc_db2 sc_db2 (sc_secret 50)
     ''app'' sc_redirect None ref_verifier (Some [''openid'', ''offline_access'']) ref_registry
     = (Inr (sc_result 61), sc_db3)
   \<and> set [''openid'', ''offline_access''] = set (ex_scopes (sc_result 61))"
proof -
  have run: "exchange_code_request ref_libs ref_codec 10 (env_at (seconds 1010) 60) sc_db2 sc_db2 sc_db2 (sc_secret 50)
     ''app'' sc_redirect None ref_verifier (Some [''openid'', ''offline_access'']) ref_registry
     = (Inr (sc_result 61), sc_db3)" by code_simp
  from exchange_request_cannot_change_grant [OF sc_db2_inv(1) creds_le_refl creds_le_refl run] obtain c :: authorization_code_row where
    "ex_scopes (sc_result 61) = ac_scopes c"
    "is_none_or (Some [''openid'', ''offline_access'']) (\<lambda>v. distinct v \<and> set v = set (ac_scopes c))"
    by (elim exE conjE) (rule that; assumption)
  then have "set [''openid'', ''offline_access''] = set (ex_scopes (sc_result 61))"
    by (simp only: is_none_or_simps)
  with run show ?thesis by blast
qed

text \<open>Lifetimes are bounded: an authorization code issued to a session lives at most 60
  seconds and never past its session, a session at most 30 days, a requested lifetime is
  accepted exactly when it is a positive whole number of seconds within the limit, and a code
  is issued only to an unrevoked, unexpired session and with a grant that is still fresh.\<close>

theorem lifetimes_bounded:
  "bounded_seconds lifetime maximum = (if dur_subsec_nanos lifetime = 0 \<and> 0 < dur_secs lifetime
      \<and> dur_secs lifetime \<le> maximum then Inr (dur_secs lifetime) else Inl InvalidLifetime)
   \<and> (\<forall>raw d'. issue_authorization_code L B e d session grant lifetime = (Inr raw, d') \<longrightarrow>
       (\<exists>c s. db_codes d' = db_codes d @ [c] \<and> ac_code_hash c = hash L raw
          \<and> session_by_id d (pv_id session) = Some s \<and> session_active (env_clock e 0) s
          \<and> ac_session_id c = pv_id session \<and> ac_scopes c = vg_scopes grant
          \<and> ac_expires_at c \<le> env_clock e 1 + seconds 60 \<and> ac_expires_at c \<le> ps_expires_at s
          \<and> is_ok (grant_ensure_fresh (env_instant e 1) grant)))
   \<and> (\<forall>s d'. create_provider_session L e d user lifetime = (Inr s, d') \<longrightarrow>
       (\<exists>row. db_sessions d' = db_sessions d @ [row] \<and> ps_user_id row = au_id user
          \<and> ps_token_hash row = hash L (pv_raw s) \<and> ps_expires_at row \<le> ps_auth_time row + days 30))"
proof (intro conjI allI impI)
  show "bounded_seconds lifetime maximum = (if dur_subsec_nanos lifetime = 0 \<and> 0 < dur_secs lifetime
      \<and> dur_secs lifetime \<le> maximum then Inr (dur_secs lifetime) else Inl InvalidLifetime)"
    by (auto simp: bounded_seconds_def)
next
  fix raw d' assume "issue_authorization_code L B e d session grant lifetime = (Inr raw, d')"
  from issue_cases [OF this] obtain secs s where
    ok: "bounded_seconds lifetime 60 = Inr secs" "session_by_id d (pv_id session) = Some s"
      "session_active (env_clock e 0) s" "is_ok (grant_ensure_fresh (env_instant e 1) grant)"
    and ins: "insert_authorization_code_tx L B e 0 (env_clock e 1) d (pv_id session) grant None
            (ps_upstream_auth_time s) secs = Some (raw, d')" by auto
  have "secs \<le> 60" using ok(1) by (auto simp: bounded_seconds_def split: if_splits)
  then have "seconds (int secs) \<le> seconds 60" by (simp add: seconds_def)
  with insert_authorization_code_txD [OF ins] ok(2-4)
  show "\<exists>c s. db_codes d' = db_codes d @ [c] \<and> ac_code_hash c = hash L raw
          \<and> session_by_id d (pv_id session) = Some s \<and> session_active (env_clock e 0) s
          \<and> ac_session_id c = pv_id session \<and> ac_scopes c = vg_scopes grant
          \<and> ac_expires_at c \<le> env_clock e 1 + seconds 60 \<and> ac_expires_at c \<le> ps_expires_at s
          \<and> is_ok (grant_ensure_fresh (env_instant e 1) grant)" by fastforce
next
  fix s d' assume "create_provider_session L e d user lifetime = (Inr s, d')"
  then show "\<exists>row. db_sessions d' = db_sessions d @ [row] \<and> ps_user_id row = au_id user
          \<and> ps_token_hash row = hash L (pv_raw s) \<and> ps_expires_at row \<le> ps_auth_time row + days 30"
    by (auto simp: create_provider_session_def insert_session_def Let_def split: sum.splits option.splits if_splits)
qed

theorem lifetimes_bounded_witness:
  "bounded_seconds (from_secs 60) 60 = Inr 60
   \<and> (\<exists>c. db_codes sc_db2 = db_codes sc_db1 @ [c] \<and> ac_expires_at c \<le> seconds 1001 + seconds 60)"
  using lifetimes_bounded [of "from_secs 60" 60 ref_libs ref_codec "env_at (seconds 1001) 50" sc_db1 sc_session
      sc_grant sc_user] sc_issue by (auto simp: env_at_def)

end
