(* ===== verification/Keys.thy ===== *)
theory Keys
  imports Credentials
begin

text \<open>
  \<open>src/src/keys.rs\<close> and the claim types of \<open>src/src/tokens.rs\<close>: loading the signing keys from
  the manifest, and the checks around signing and verifying tokens.  RSA, PEM and the JWT
  encoding belong to crates: they are the fields of the record \<open>crypto\<close>, the file system
  those of \<open>files\<close>.
\<close>

section \<open>Claims\<close>

record access_claims =
  at_iss :: string
  at_sub :: uuid
  at_aud :: "string list"
  at_exp :: int
  at_iat :: int
  at_jti :: string
  at_client_id :: string
  at_scope :: string

record id_claims =
  idc_sid :: "uuid option"
  idc_iss :: string
  idc_sub :: uuid
  idc_aud :: string
  idc_exp :: int
  idc_iat :: int
  idc_nonce :: "string option"
  idc_auth_time :: "int option"

section \<open>Parameters\<close>

datatype algorithm = RS256 | OtherAlgorithm string

record jwt_header =
  jh_alg :: algorithm
  jh_typ :: "string option"
  jh_kid :: "string option"

record validation =
  va_algorithm :: algorithm
  va_iss :: "string list option"
  va_aud :: "string list option"
  va_validate_aud :: bool
  va_validate_exp :: bool
  va_validate_nbf :: bool
  va_required :: "string list"
  va_leeway :: nat

text \<open>\<open>Validation::new\<close> of the \<open>jsonwebtoken\<close> crate.\<close>

definition new_validation :: "algorithm \<Rightarrow> validation" where
  "new_validation alg = \<lparr>va_algorithm = alg, va_iss = None, va_aud = None, va_validate_aud = True,
     va_validate_exp = True, va_validate_nbf = False, va_required = [''exp''], va_leeway = 60\<rparr>"

type_synonym encoding_key = string
type_synonym decoding_key = string

record rsa_public_key =
  rsa_n :: nat
  rsa_e :: nat

record rsa_private_key =
  rsa_public_part :: rsa_public_key

record active_key =
  ak_kid :: string
  ak_private_key :: string
  ak_public_key :: string

record public_key_entry =
  pk_kid :: string
  pk_public_key :: string

record manifest =
  mf_active :: active_key
  mf_previous :: "public_key_entry list"
  mf_next :: "public_key_entry list"

record crypto =
  cr_utf8 :: "string \<Rightarrow> string option"
  cr_private_pkcs8 :: "string \<Rightarrow> rsa_private_key option"
  cr_private_pkcs1 :: "string \<Rightarrow> rsa_private_key option"
  cr_public_spki :: "string \<Rightarrow> rsa_public_key option"
  cr_public_pkcs1 :: "string \<Rightarrow> rsa_public_key option"
  cr_encoding_key :: "string \<Rightarrow> encoding_key option"
  cr_decoding_key :: "string \<Rightarrow> decoding_key option"
  cr_manifest :: "string \<Rightarrow> manifest option"
  cr_decode_header :: "string \<Rightarrow> jwt_header option"
  cr_encode_access :: "jwt_header \<Rightarrow> access_claims \<Rightarrow> encoding_key \<Rightarrow> string option"
  cr_encode_id :: "jwt_header \<Rightarrow> id_claims \<Rightarrow> encoding_key \<Rightarrow> string option"
  cr_decode_access :: "string \<Rightarrow> decoding_key \<Rightarrow> validation \<Rightarrow> int \<Rightarrow> access_claims option"
  cr_decode_id :: "string \<Rightarrow> decoding_key \<Rightarrow> validation \<Rightarrow> int \<Rightarrow> id_claims option"

record metadata =
  md_is_file :: bool
  md_mode :: nat

record files =
  fl_read :: "string \<Rightarrow> string option"
  fl_read_to_string :: "string \<Rightarrow> string option"
  fl_open :: "string \<Rightarrow> (metadata option \<times> string option) option"
  fl_parent :: "string \<Rightarrow> string option"
  fl_join :: "string \<Rightarrow> string \<Rightarrow> string"

section \<open>Keys\<close>

definition CLOCK_SKEW_SECONDS :: nat where
  "CLOCK_SKEW_SECONDS = 30"

datatype key_error = KeyIo | KeyManifest | KeyInvalid string | KeyJwt

record jwk =
  jwk_kty :: string
  jwk_use :: string
  jwk_alg :: string
  jwk_kid :: string
  jwk_n :: string
  jwk_e :: string

record signing_keys =
  sk_active_kid :: string
  sk_encoding :: encoding_key
  sk_decoding :: "(string \<times> decoding_key) list"
  sk_jwks_json :: string

fun bit_length :: "nat \<Rightarrow> nat" where
  "bit_length n = (if n = 0 then 0 else Suc (bit_length (n div 2)))"

fun bytes_be_pos :: "nat \<Rightarrow> string" where
  "bytes_be_pos n = (if n = 0 then [] else bytes_be_pos (n div 256) @ [char_of (n mod 256)])"

declare bit_length.simps [simp del] bytes_be_pos.simps [simp del]

definition to_bytes_be :: "nat \<Rightarrow> string" where
  "to_bytes_be n = (if n = 0 then [char_of (0 :: nat)] else bytes_be_pos n)"

fun of_bytes_be :: "string \<Rightarrow> nat" where
  "of_bytes_be s = foldl (\<lambda>n c. 256 * n + byte c) 0 s"

definition validate_size :: "nat \<Rightarrow> key_error + unit" where
  "validate_size bits = (if bits < 2048 then Inl (KeyInvalid ''RSA keys must be at least 2048 bits'') else Inr ())"

definition check_kid :: "string \<Rightarrow> key_error + unit" where
  "check_kid kid = (if kid = [] \<or> 128 < length kid
       \<or> \<not> list_all (\<lambda>c. is_ascii_alphanumeric c \<or> c = CHR ''-'' \<or> c = CHR ''_'' \<or> c = CHR ''.'') kid
     then Inl (KeyInvalid ''kid must be a stable 1-128 character identifier'') else Inr ())"

definition parse_private :: "crypto \<Rightarrow> string \<Rightarrow> key_error + rsa_private_key" where
  "parse_private C pem = and_then (ok_or (KeyInvalid ''private key is not UTF-8 PEM'') (cr_utf8 C pem)) (\<lambda>text.
     ok_or (KeyInvalid ''private key is malformed'')
       (case cr_private_pkcs8 C text of Some k \<Rightarrow> Some k | None \<Rightarrow> cr_private_pkcs1 C text))"

definition parse_public :: "crypto \<Rightarrow> string \<Rightarrow> key_error + rsa_public_key" where
  "parse_public C pem = and_then (ok_or (KeyInvalid ''public key is not UTF-8 PEM'') (cr_utf8 C pem)) (\<lambda>text.
     ok_or (KeyInvalid ''public key is malformed'')
       (case cr_public_spki C text of Some k \<Rightarrow> Some k | None \<Rightarrow> cr_public_pkcs1 C text))"

text \<open>\<open>mode & 0o077\<close>: the permission bits of group and others.\<close>

definition check_private_permissions :: "metadata \<Rightarrow> key_error + unit" where
  "check_private_permissions m = (if md_mode m mod 64 \<noteq> 0
     then Inl (KeyInvalid ''private key permissions permit group or other access'') else Inr ())"

definition read_private_key :: "files \<Rightarrow> string \<Rightarrow> key_error + string" where
  "read_private_key F path = (case fl_open F path of
      None \<Rightarrow> Inl KeyIo
    | Some (None, _) \<Rightarrow> Inl KeyIo
    | Some (Some m, contents) \<Rightarrow>
        if \<not> md_is_file m then Inl (KeyInvalid ''private key must be a regular file'')
        else and_then (check_private_permissions m) (\<lambda>_. ok_or KeyIo contents))"

text \<open>What \<open>add_public\<close> is handed by mutable reference.\<close>

record key_set =
  ks_seen :: "string list"
  ks_material :: "(string \<times> string) list"
  ks_decoding :: "(string \<times> decoding_key) list"
  ks_jwks :: "jwk list"

definition empty_key_set :: key_set where
  "empty_key_set = \<lparr>ks_seen = [], ks_material = [], ks_decoding = [], ks_jwks = []\<rparr>"

definition jwk_of :: "libs \<Rightarrow> string \<Rightarrow> rsa_public_key \<Rightarrow> jwk" where
  "jwk_of L kid key = \<lparr>jwk_kty = ''RSA'', jwk_use = ''sig'', jwk_alg = ''RS256'', jwk_kid = kid,
     jwk_n = b64_encode L (to_bytes_be (rsa_n key)), jwk_e = b64_encode L (to_bytes_be (rsa_e key))\<rparr>"

definition add_public ::
  "libs \<Rightarrow> crypto \<Rightarrow> string \<Rightarrow> rsa_public_key \<Rightarrow> string \<Rightarrow> key_set \<Rightarrow> key_error + key_set" where
  "add_public L C kid key pem ks =
     (let material = (to_bytes_be (rsa_n key), to_bytes_be (rsa_e key)) in
      if kid \<in> set (ks_seen ks) then Inl (KeyInvalid ''duplicate kid'')
      else and_then (validate_size (bit_length (rsa_n key))) (\<lambda>_.
        if material \<in> set (ks_material ks) then Inl (KeyInvalid ''duplicate public key material'')
        else and_then (ok_or KeyJwt (cr_decoding_key C pem)) (\<lambda>dk.
          Inr \<lparr>ks_seen = kid # ks_seen ks, ks_material = material # ks_material ks,
               ks_decoding = (kid, dk) # ks_decoding ks, ks_jwks = ks_jwks ks @ [jwk_of L kid key]\<rparr>)))"

fun add_entries ::
  "libs \<Rightarrow> crypto \<Rightarrow> files \<Rightarrow> string \<Rightarrow> public_key_entry list \<Rightarrow> key_set \<Rightarrow> key_error + key_set" where
  "add_entries L C F base [] ks = Inr ks"
| "add_entries L C F base (entry # entries) ks =
     and_then (check_kid (pk_kid entry)) (\<lambda>_.
     and_then (ok_or KeyIo (fl_read F (fl_join F base (pk_public_key entry)))) (\<lambda>pem.
     and_then (parse_public C pem) (\<lambda>key.
     and_then (add_public L C (pk_kid entry) key pem ks) (add_entries L C F base entries))))"

text \<open>\<open>serde_json\<close> of a \<open>JwkSet\<close>; no value contains a character that JSON escapes.\<close>

definition json_member :: "string \<Rightarrow> string \<Rightarrow> string" where
  "json_member k v = [CHR 0x22] @ k @ [CHR 0x22, CHR '':'', CHR 0x22] @ v @ [CHR 0x22]"

definition jwk_json :: "jwk \<Rightarrow> string" where
  "jwk_json k = ''{'' @ join_with '','' [json_member ''kty'' (jwk_kty k), json_member ''use'' (jwk_use k),
     json_member ''alg'' (jwk_alg k), json_member ''kid'' (jwk_kid k), json_member ''n'' (jwk_n k),
     json_member ''e'' (jwk_e k)] @ ''}''"

definition jwks_json :: "jwk list \<Rightarrow> string" where
  "jwks_json keys = ''{'' @ [CHR 0x22] @ ''keys'' @ [CHR 0x22] @ '':['' @ join_with '','' (map jwk_json keys) @ '']}''"

definition load_key_set :: "libs \<Rightarrow> crypto \<Rightarrow> files \<Rightarrow> string \<Rightarrow> key_error + manifest \<times> string \<times> key_set" where
  "load_key_set L C F manifest_path =
     and_then (ok_or KeyIo (fl_read_to_string F manifest_path)) (\<lambda>text.
     and_then (ok_or KeyManifest (cr_manifest C text)) (\<lambda>mf.
     let base = (case fl_parent F manifest_path of Some p \<Rightarrow> p | None \<Rightarrow> ''.'');
         active = mf_active mf
     in and_then (check_kid (ak_kid active)) (\<lambda>_.
        and_then (read_private_key F (fl_join F base (ak_private_key active))) (\<lambda>private_pem.
        and_then (parse_private C private_pem) (\<lambda>private.
        and_then (validate_size (bit_length (rsa_n (rsa_public_part private)))) (\<lambda>_.
        and_then (ok_or KeyIo (fl_read F (fl_join F base (ak_public_key active)))) (\<lambda>public_pem.
        and_then (parse_public C public_pem) (\<lambda>public.
        if rsa_public_part private \<noteq> public
        then Inl (KeyInvalid ''active private and public keys do not match'')
        else and_then (add_public L C (ak_kid active) public public_pem empty_key_set) (\<lambda>ks0.
             and_then (add_entries L C F base (mf_previous mf @ mf_next mf) ks0) (\<lambda>ks.
               Inr (mf, private_pem, ks)))))))))))"

definition load_keys :: "libs \<Rightarrow> crypto \<Rightarrow> files \<Rightarrow> string \<Rightarrow> key_error + signing_keys" where
  "load_keys L C F manifest_path =
     and_then (load_key_set L C F manifest_path) (\<lambda>(mf, private_pem, ks).
     and_then (ok_or KeyJwt (cr_encoding_key C private_pem)) (\<lambda>encoding.
       Inr \<lparr>sk_active_kid = ak_kid (mf_active mf), sk_encoding = encoding,
            sk_decoding = ks_decoding ks, sk_jwks_json = jwks_json (ks_jwks ks)\<rparr>))"

section \<open>Tokens\<close>

definition sign_header :: "signing_keys \<Rightarrow> string \<Rightarrow> jwt_header" where
  "sign_header keys token_type = \<lparr>jh_alg = RS256, jh_typ = Some token_type, jh_kid = Some (sk_active_kid keys)\<rparr>"

definition sign :: "crypto \<Rightarrow> signing_keys \<Rightarrow> access_claims \<Rightarrow> key_error + string" where
  "sign C keys claims = ok_or KeyJwt (cr_encode_access C (sign_header keys ''at+jwt'') claims (sk_encoding keys))"

definition sign_id :: "crypto \<Rightarrow> signing_keys \<Rightarrow> id_claims \<Rightarrow> key_error + string" where
  "sign_id C keys claims = ok_or KeyJwt (cr_encode_id C (sign_header keys ''JWT'') claims (sk_encoding keys))"

definition has_unsupported_crit :: "libs \<Rightarrow> string \<Rightarrow> bool" where
  "has_unsupported_crit L token =
     is_some_and (Option.bind (b64_decode L (hd (split_on (CHR ''.'') token))) (\<lambda>bytes.
        Option.bind (json_parse L bytes) (json_get ''crit'')))
       (\<lambda>crit. is_none_or (as_array crit) (\<lambda>items. items \<noteq> []))"

definition token_key ::
  "libs \<Rightarrow> crypto \<Rightarrow> signing_keys \<Rightarrow> string \<Rightarrow> string \<Rightarrow> string \<Rightarrow> key_error + decoding_key" where
  "token_key L C keys token typ message =
     and_then (ok_or KeyJwt (cr_decode_header C token)) (\<lambda>h.
     if jh_alg h \<noteq> RS256 \<or> jh_typ h \<noteq> Some typ \<or> has_unsupported_crit L token
     then Inl (KeyInvalid message)
     else and_then (ok_or (KeyInvalid ''token kid is missing'') (jh_kid h)) (\<lambda>kid.
       ok_or (KeyInvalid ''token kid is unknown'') (map_of (sk_decoding keys) kid)))"

definition verify_id_logout ::
  "libs \<Rightarrow> crypto \<Rightarrow> int \<Rightarrow> signing_keys \<Rightarrow> string \<Rightarrow> string \<Rightarrow> key_error + id_claims" where
  "verify_id_logout L C now keys token issuer =
     and_then (token_key L C keys token ''JWT'' ''logout hint algorithm or type is invalid'') (\<lambda>key.
     let v = (new_validation RS256)\<lparr>va_iss := Some [issuer], va_validate_aud := False,
               va_validate_exp := False, va_required := [''exp'', ''iat'', ''sub'', ''iss'', ''aud'']\<rparr>
     in and_then (ok_or KeyJwt (cr_decode_id C token key v now)) (\<lambda>claims.
        if idc_aud claims = [] \<or> idc_exp claims \<le> idc_iat claims
           \<or> timestamp now + int CLOCK_SKEW_SECONDS < idc_iat claims
        then Inl (KeyInvalid ''logout hint claims are invalid'') else Inr claims))"

definition verify ::
  "libs \<Rightarrow> crypto \<Rightarrow> int \<Rightarrow> signing_keys \<Rightarrow> string \<Rightarrow> string \<Rightarrow> string \<Rightarrow> key_error + access_claims" where
  "verify L C now keys token issuer audience =
     and_then (token_key L C keys token ''at+jwt'' ''token algorithm or type is invalid'') (\<lambda>key.
     ok_or KeyJwt (cr_decode_access C token key
       ((new_validation RS256)\<lparr>va_iss := Some [issuer], va_aud := Some [audience],
          va_required := [''exp'', ''iss'', ''aud''], va_leeway := CLOCK_SKEW_SECONDS\<rparr>) now))"

end
