(* ===== verification/Tokens.thy ===== *)
theory Tokens
  imports Keys
begin

text \<open>\<open>src/src/tokens.rs\<close>: the token response built from an exchange result.\<close>

record token_response =
  tr_access_token :: string
  tr_token_type :: string
  tr_expires_in :: nat
  tr_scope :: string
  tr_refresh_token :: "string option"
  tr_id_token :: "string option"

definition token_audiences :: "exchange_result \<Rightarrow> string \<Rightarrow> string list" where
  "token_audiences exchange userinfo =
     (if ''openid'' \<in> set (ex_scopes exchange) \<and> ex_resource exchange \<noteq> userinfo
      then [ex_resource exchange, userinfo] else [ex_resource exchange])"

definition access_claims_of :: "env \<Rightarrow> libs \<Rightarrow> string \<Rightarrow> string \<Rightarrow> exchange_result \<Rightarrow> access_claims" where
  "access_claims_of e L issuer userinfo exchange =
     \<lparr>at_iss = issuer, at_sub = ex_user_id exchange, at_aud = token_audiences exchange userinfo,
      at_exp = timestamp (env_clock e 0) + 300, at_iat = timestamp (env_clock e 0),
      at_jti = uuid_show L (env_uuid e 0), at_client_id = ex_client_id exchange,
      at_scope = join_with '' '' (ex_scopes exchange)\<rparr>"

definition id_claims_of :: "env \<Rightarrow> string \<Rightarrow> exchange_result \<Rightarrow> id_claims" where
  "id_claims_of e issuer exchange =
     \<lparr>idc_sid = Some (ex_session_id exchange), idc_iss = issuer, idc_sub = ex_user_id exchange,
      idc_aud = ex_client_id exchange, idc_exp = timestamp (env_clock e 0) + 300,
      idc_iat = timestamp (env_clock e 0), idc_nonce = ex_oidc_nonce exchange,
      idc_auth_time = map_option timestamp (ex_upstream_auth_time exchange)\<rparr>"

definition issue ::
  "libs \<Rightarrow> crypto \<Rightarrow> env \<Rightarrow> signing_keys \<Rightarrow> string \<Rightarrow> string \<Rightarrow> exchange_result \<Rightarrow> bool \<Rightarrow> key_error + token_response" where
  "issue L C e keys issuer userinfo exchange initial =
     and_then (sign C keys (access_claims_of e L issuer userinfo exchange)) (\<lambda>access_token.
     and_then (if initial \<and> ''openid'' \<in> set (ex_scopes exchange)
               then map_ok Some (sign_id C keys (id_claims_of e issuer exchange)) else Inr None) (\<lambda>id_token.
     Inr \<lparr>tr_access_token = access_token, tr_token_type = ''Bearer'', tr_expires_in = 300,
          tr_scope = join_with '' '' (ex_scopes exchange), tr_refresh_token = ex_refresh_token exchange,
          tr_id_token = id_token\<rparr>))"

end
