(* ===== verification/Logout.thy ===== *)
theory Logout
  imports Credential_Properties Tokens
begin

text \<open>
  \<open>src/src/logout.rs\<close>: one-time logout challenges bound to a provider session, and their
  completion by a form post (\<open>finish\<close>) or by an identity-token hint (\<open>finish_hint\<close>).
\<close>

record logout_challenge =
  lch_id :: uuid
  lch_csrf :: string
  lch_redirect_uri :: string

record logout_outcome =
  lo_redirect_uri :: string
  lo_state :: "string option"

definition submitted :: "uuid \<Rightarrow> string \<Rightarrow> logout_challenge" where
  "submitted cid csrf = \<lparr>lch_id = cid, lch_csrf = csrf, lch_redirect_uri = []\<rparr>"

definition logout_insert ::
  "libs \<Rightarrow> env \<Rightarrow> db \<Rightarrow> provider_session \<Rightarrow> string \<Rightarrow> string \<Rightarrow> string option
    \<Rightarrow> (credential_error + logout_challenge) \<times> db" where
  "logout_insert L e d session client_id redirect state =
     (let cid = env_uuid e 0; csrf = random_credential L e 0; now = env_clock e 0; t = env_clock e 1 in
      if is_none_or (session_by_id d (pv_id session)) (\<lambda>s. ps_revoked_at s \<noteq> None \<or> ps_expires_at s \<le> now)
      then (Inl InvalidGrant, d)
      else (case insert_logout d \<lparr>lc_id = cid, lc_csrf_hash = hash L csrf, lc_session_id = pv_id session,
                   lc_client_id = client_id, lc_redirect_uri = redirect, lc_downstream_state = state,
                   lc_created_at = t, lc_expires_at = t + minutes 10, lc_consumed_at = None\<rparr> of
          None \<Rightarrow> (Inl CredDatabase, d)
        | Some d' \<Rightarrow> (Inr \<lparr>lch_id = cid, lch_csrf = csrf, lch_redirect_uri = redirect\<rparr>, d')))"

definition begin_logout ::
  "libs \<Rightarrow> env \<Rightarrow> db \<Rightarrow> provider_session \<Rightarrow> string \<Rightarrow> string \<Rightarrow> string option \<Rightarrow> client_registry
    \<Rightarrow> (credential_error + logout_challenge) \<times> db" where
  "begin_logout L e d session client_id redirect state reg =
     (if \<not> valid_post_logout_redirect reg client_id redirect then (Inl InvalidGrant, d)
      else logout_insert L e d session client_id redirect state)"

definition begin_local ::
  "libs \<Rightarrow> env \<Rightarrow> db \<Rightarrow> provider_session \<Rightarrow> string \<Rightarrow> (credential_error + logout_challenge) \<times> db" where
  "begin_local L e d session local_uri = logout_insert L e d session [] local_uri None"

definition consume_challenge :: "uuid \<Rightarrow> int \<Rightarrow> db \<Rightarrow> db" where
  "consume_challenge cid now d =
     d\<lparr>db_logouts := update_where (\<lambda>c. lc_id c = cid) (\<lambda>c. c\<lparr>lc_consumed_at := Some now\<rparr>) (db_logouts d)\<rparr>"

text \<open>What an identity-token hint is checked against, inside the session lock: the first check
  refuses the request, the second only declines to skip the confirmation page.\<close>

definition hint_malformed :: "int \<Rightarrow> logout_row \<Rightarrow> id_claims \<Rightarrow> bool" where
  "hint_malformed now row hint \<longleftrightarrow> idc_aud hint \<noteq> lc_client_id row \<or> idc_exp hint \<le> idc_iat hint
     \<or> timestamp now + int CLOCK_SKEW_SECONDS < idc_iat hint"

definition hint_unusable ::
  "client_registry \<Rightarrow> provider_session \<Rightarrow> provider_session_row \<Rightarrow> logout_row \<Rightarrow> id_claims \<Rightarrow> bool" where
  "hint_unusable reg session s row hint \<longleftrightarrow> \<not> allows_id_token_logout reg (lc_client_id row)
     \<or> idc_sub hint \<noteq> ps_user_id s \<or> idc_sid hint \<noteq> Some (pv_id session)
     \<or> idc_iat hint < timestamp (ps_auth_time s) - int CLOCK_SKEW_SECONDS"

definition finish_inner ::
  "libs \<Rightarrow> env \<Rightarrow> db \<Rightarrow> provider_session \<Rightarrow> logout_challenge \<Rightarrow> client_registry \<Rightarrow> id_claims option
    \<Rightarrow> (credential_error + logout_outcome option) \<times> db" where
  "finish_inner L e d session challenge reg hint =
     (case session_by_id d (pv_id session) of None \<Rightarrow> (Inl InvalidGrant, d)
      | Some s \<Rightarrow>
     (case find (\<lambda>c. lc_id c = lch_id challenge \<and> lc_session_id c = pv_id session
                     \<and> lc_csrf_hash c = hash L (lch_csrf challenge)) (db_logouts d) of
        None \<Rightarrow> (Inl InvalidGrant, d)
      | Some row \<Rightarrow>
     let now = env_clock e 0 in
     if ps_revoked_at s \<noteq> None \<or> ps_expires_at s \<le> now \<or> lc_consumed_at row \<noteq> None \<or> lc_expires_at row \<le> now
        \<or> (lc_client_id row \<noteq> [] \<and> \<not> valid_post_logout_redirect reg (lc_client_id row) (lc_redirect_uri row))
     then (Inl InvalidGrant, d)
     else if is_some_and hint (hint_malformed now row) then (Inl InvalidGrant, d)
     else if is_some_and hint (hint_unusable reg session s row) then (Inr None, d)
     else (Inr (Some \<lparr>lo_redirect_uri = lc_redirect_uri row, lo_state = lc_downstream_state row\<rparr>),
           revoke_families (\<lambda>f. rf_session_id f = pv_id session) now
             (revoke_session (pv_id session) now (consume_challenge (lch_id challenge) now d)))))"

definition finish ::
  "libs \<Rightarrow> env \<Rightarrow> db \<Rightarrow> provider_session \<Rightarrow> logout_challenge \<Rightarrow> client_registry
    \<Rightarrow> (credential_error + logout_outcome) \<times> db" where
  "finish L e d session challenge reg =
     (case finish_inner L e d session challenge reg None of (out, d') \<Rightarrow>
        (and_then out (ok_or InvalidGrant), d'))"

definition finish_hint ::
  "libs \<Rightarrow> env \<Rightarrow> db \<Rightarrow> provider_session \<Rightarrow> logout_challenge \<Rightarrow> client_registry \<Rightarrow> id_claims
    \<Rightarrow> (credential_error + logout_outcome option) \<times> db" where
  "finish_hint L e d session challenge reg hint = finish_inner L e d session challenge reg (Some hint)"

end
