(* ===== verification/Browser.thy ===== *)
theory Browser
  imports Logout
begin

text \<open>
  \<open>src/src/browser.rs\<close>: the browser authorization transaction, from the redirect to Google to
  the consent decision.  Each operation is one transaction on the row of one browser
  authorization, locked \<open>FOR UPDATE\<close>; the policy is checked again after the writes and the
  transaction is rolled back when it changed.  \<open>revalidate\<close> reads the clock twice, at the
  program points \<open>k\<close> and \<open>k + 1\<close>.
\<close>

section \<open>Data\<close>

datatype browser_error = BrMetadataExpired | BrInvalid | BrPolicyChanged | BrDatabase

record browser_start =
  bs_transaction_id :: uuid
  bs_upstream_state :: string
  bs_browser_binding :: string
  bs_upstream_nonce :: string
  bs_upstream_verifier :: string

record consent_handle =
  ch_transaction_id :: uuid
  ch_csrf :: string

record login_completion =
  lgc_session :: provider_session
  lgc_consent :: consent_handle

record consent_outcome =
  co_code :: string
  co_redirect_uri :: string
  co_downstream_state :: "string option"

record denial_outcome =
  dn_redirect_uri :: string
  dn_downstream_state :: "string option"

record consent_view_data =
  cv_transaction_id :: uuid
  cv_csrf :: string
  cv_client_name :: string
  cv_scopes :: "string list"
  cv_resource :: string
  cv_redirect_uri :: string
  cv_account :: string

definition upstream_challenge :: "libs \<Rightarrow> browser_start \<Rightarrow> string option" where
  "upstream_challenge L start = (case s256_challenge L (bs_upstream_verifier start) of
     Inr c \<Rightarrow> Some c | Inl _ \<Rightarrow> None)"

section \<open>Helpers\<close>

fun policy_error :: "oauth_error \<Rightarrow> browser_error" where
  "policy_error MetadataExpired = BrMetadataExpired"
| "policy_error _ = BrPolicyChanged"

definition browser_bounded_seconds :: "duration \<Rightarrow> nat \<Rightarrow> browser_error + nat" where
  "browser_bounded_seconds dur maximum =
     (if (dur_secs dur = 0 \<and> dur_subsec_nanos dur = 0) \<or> maximum < dur_secs dur \<or> dur_subsec_nanos dur \<noteq> 0
      then Inl BrInvalid else Inr (dur_secs dur))"

definition set_browser :: "uuid \<Rightarrow> (browser_row \<Rightarrow> browser_row) \<Rightarrow> db \<Rightarrow> db" where
  "set_browser bid f d = d\<lparr>db_browser := update_where (\<lambda>r. ba_id r = bid) f (db_browser d)\<rparr>"

definition lock_session :: "db \<Rightarrow> uuid \<Rightarrow> browser_error + provider_session_row" where
  "lock_session d sid = ok_or BrInvalid (session_by_id d sid)"

definition lock_consent :: "libs \<Rightarrow> db \<Rightarrow> uuid \<Rightarrow> uuid \<Rightarrow> string \<Rightarrow> browser_error + browser_row" where
  "lock_consent L d bid sid csrf = ok_or BrInvalid
     (find (\<lambda>r. ba_id r = bid \<and> ba_session_id r = Some sid \<and> ba_csrf_hash r = Some (hash L csrf)
              \<and> ba_stage r = AwaitingConsent) (db_browser d))"

definition browser_ensure_fresh :: "int \<Rightarrow> provider_session_row \<Rightarrow> int option \<Rightarrow> browser_error + unit" where
  "browser_ensure_fresh now s browser_expiry =
     (if ps_revoked_at s \<noteq> None \<or> ps_expires_at s \<le> now \<or> is_some_and browser_expiry (\<lambda>expiry. expiry \<le> now)
      then Inl BrInvalid else Inr ())"

definition revalidate ::
  "libs \<Rightarrow> binding_codec \<Rightarrow> env \<Rightarrow> nat \<Rightarrow> client_registry \<Rightarrow> browser_row \<Rightarrow> browser_error + pending_authorization_grant" where
  "revalidate L B e k reg row =
     and_then (map_err policy_error (validate_binding B (env_instant e k) reg (ba_client_id row) (ba_cimd_binding row))) (\<lambda>_.
     map_err policy_error (validate_pending_parts L (env_instant e (k + 1)) reg (ba_client_id row) (ba_redirect_uri row)
       ''code'' ''S256'' (ba_code_challenge row) (ba_scopes row) (Some (ba_resource row))))"

definition validate_optional_registry ::
  "libs \<Rightarrow> binding_codec \<Rightarrow> env \<Rightarrow> nat \<Rightarrow> client_registry option \<Rightarrow> browser_row \<Rightarrow> browser_error + unit" where
  "validate_optional_registry L B e k registry row = (case registry of
     Some reg \<Rightarrow> map_ok (\<lambda>_. ()) (revalidate L B e k reg row)
   | None \<Rightarrow> if ba_cimd_binding row = None then Inr () else Inl BrPolicyChanged)"

text \<open>\<open>checked_policy!\<close>: an error rolls the transaction back.\<close>

definition checked :: "'e + 'a \<Rightarrow> db \<Rightarrow> ('a \<Rightarrow> ('e + 'b) \<times> db) \<Rightarrow> ('e + 'b) \<times> db" where
  "checked m d f = (case m of Inl err \<Rightarrow> (Inl err, d) | Inr v \<Rightarrow> f v)"

definition insert_or :: "db option \<Rightarrow> db \<Rightarrow> (db \<Rightarrow> (browser_error + 'b) \<times> db) \<Rightarrow> (browser_error + 'b) \<times> db" where
  "insert_or m d f = (case m of None \<Rightarrow> (Inl BrDatabase, d) | Some d' \<Rightarrow> f d')"

lemma checked_simps [simp]: "checked (Inl err) d f = (Inl err, d)" "checked (Inr v) d f = f v"
  by (simp_all add: checked_def)

lemma insert_or_simps [simp]: "insert_or None d f = (Inl BrDatabase, d)" "insert_or (Some d') d f = f d'"
  by (simp_all add: insert_or_def)

section \<open>Lookups\<close>

definition transaction_client_id :: "db \<Rightarrow> uuid \<Rightarrow> browser_error + string" where
  "transaction_client_id d bid =
     ok_or BrInvalid (map_option ba_client_id (find (\<lambda>r. ba_id r = bid) (db_browser d)))"

definition claimed_row :: "libs \<Rightarrow> db \<Rightarrow> string \<Rightarrow> browser_row option" where
  "claimed_row L d claim =
     find (\<lambda>r. ba_claim_hash r = Some (hash L claim) \<and> ba_stage r = CallbackClaimed) (db_browser d)"

definition callback_client_id :: "libs \<Rightarrow> db \<Rightarrow> string \<Rightarrow> browser_error + string" where
  "callback_client_id L d claim = ok_or BrInvalid (map_option ba_client_id (claimed_row L d claim))"

section \<open>Starting\<close>

definition browser_row_of ::
  "binding_codec \<Rightarrow> uuid \<Rightarrow> stage \<Rightarrow> pending_authorization_grant \<Rightarrow> string option \<Rightarrow> string option \<Rightarrow> bool
    \<Rightarrow> int \<Rightarrow> browser_row" where
  "browser_row_of B bid stage pending downstream_state oidc_nonce allow_pre t =
     \<lparr>ba_id = bid, ba_stage = stage, ba_upstream_state_hash = None, ba_browser_binding_hash = None,
      ba_upstream_nonce = None, ba_upstream_verifier = None, ba_claim_hash = None, ba_csrf_hash = None,
      ba_session_id = None, ba_client_id = pg_client_id pending, ba_redirect_uri = pg_redirect_uri pending,
      ba_scopes = pg_scopes pending, ba_resource = pg_resource pending,
      ba_code_challenge = pg_code_challenge pending, ba_downstream_state = downstream_state,
      ba_oidc_nonce = oidc_nonce, ba_created_at = t, ba_expires_at = t + minutes 10,
      ba_cimd_binding = map_option (jsonb_text B) (pending_cimd_binding_json B pending),
      ba_allow_pre_authorization = allow_pre\<rparr>"

definition begin_google_with_pre_authorization ::
  "libs \<Rightarrow> binding_codec \<Rightarrow> env \<Rightarrow> db \<Rightarrow> pending_authorization_grant \<Rightarrow> string option \<Rightarrow> string option \<Rightarrow> bool
    \<Rightarrow> (browser_error + browser_start) \<times> db" where
  "begin_google_with_pre_authorization L B e d pending downstream_state oidc_nonce allow_pre =
     (let start = \<lparr>bs_transaction_id = env_uuid e 0, bs_upstream_state = random_credential L e 0,
                   bs_browser_binding = random_credential L e 1, bs_upstream_nonce = random_credential L e 2,
                   bs_upstream_verifier = random_credential L e 3\<rparr>;
          row = (browser_row_of B (bs_transaction_id start) AwaitingStart pending downstream_state oidc_nonce
                   allow_pre (env_clock e 0))
                \<lparr>ba_upstream_state_hash := Some (hash L (bs_upstream_state start)),
                 ba_browser_binding_hash := Some (hash L (bs_browser_binding start)),
                 ba_upstream_nonce := Some (bs_upstream_nonce start),
                 ba_upstream_verifier := Some (bs_upstream_verifier start)\<rparr>
      in checked (map_err policy_error (pending_ensure_fresh (env_instant e 0) pending)) d (\<lambda>_.
         insert_or (insert_browser d row) d (\<lambda>d'.
         checked (map_err policy_error (pending_ensure_fresh (env_instant e 1) pending)) d (\<lambda>_.
           (Inr start, d')))))"

definition begin_google ::
  "libs \<Rightarrow> binding_codec \<Rightarrow> env \<Rightarrow> db \<Rightarrow> pending_authorization_grant \<Rightarrow> string option \<Rightarrow> string option
    \<Rightarrow> (browser_error + browser_start) \<times> db" where
  "begin_google L B e d pending downstream_state oidc_nonce =
     begin_google_with_pre_authorization L B e d pending downstream_state oidc_nonce False"

text \<open>The upstream nonce and verifier are decoded as non-null columns: a null is a decoding
  error, after the single statement has taken effect.\<close>

definition start_google ::
  "libs \<Rightarrow> env \<Rightarrow> db \<Rightarrow> uuid \<Rightarrow> string \<Rightarrow> string \<Rightarrow> (browser_error + string \<times> string) \<times> db" where
  "start_google L e d transaction_id state binding =
     (case find (\<lambda>r. ba_id r = transaction_id \<and> ba_upstream_state_hash r = Some (hash L state)
                 \<and> ba_browser_binding_hash r = Some (hash L binding) \<and> ba_stage r = AwaitingStart
                 \<and> env_clock e 0 < ba_expires_at r) (db_browser d) of
        None \<Rightarrow> (Inl BrInvalid, d)
      | Some row \<Rightarrow>
        let d' = set_browser (ba_id row) (\<lambda>r. r\<lparr>ba_stage := AwaitingGoogle\<rparr>) d
        in (case (ba_upstream_nonce row, ba_upstream_verifier row) of
              (Some nonce, Some verifier) \<Rightarrow> (Inr (nonce, verifier), d')
            | _ \<Rightarrow> (Inl BrDatabase, d')))"

definition cancel_google_bound ::
  "libs \<Rightarrow> binding_codec \<Rightarrow> env \<Rightarrow> db \<Rightarrow> uuid \<Rightarrow> string \<Rightarrow> string \<Rightarrow> client_registry option
    \<Rightarrow> (browser_error + denial_outcome) \<times> db" where
  "cancel_google_bound L B e d transaction_id state binding registry =
     checked (ok_or BrInvalid (find (\<lambda>r. ba_id r = transaction_id \<and> ba_upstream_state_hash r = Some (hash L state)
                 \<and> ba_browser_binding_hash r = Some (hash L binding) \<and> ba_stage r = AwaitingStart
                 \<and> env_clock e 0 < ba_expires_at r) (db_browser d))) d (\<lambda>row.
     checked (validate_optional_registry L B e 0 registry row) d (\<lambda>_.
     checked (validate_optional_registry L B e 2 registry row) d (\<lambda>_.
       (Inr \<lparr>dn_redirect_uri = ba_redirect_uri row, dn_downstream_state = ba_downstream_state row\<rparr>,
        set_browser transaction_id (\<lambda>r. r\<lparr>ba_stage := Denied, ba_upstream_verifier := None,
          ba_upstream_nonce := None\<rparr>) d))))"

definition cancel_google ::
  "libs \<Rightarrow> binding_codec \<Rightarrow> env \<Rightarrow> db \<Rightarrow> uuid \<Rightarrow> string \<Rightarrow> string \<Rightarrow> (browser_error + denial_outcome) \<times> db" where
  "cancel_google L B e d transaction_id state binding =
     cancel_google_bound L B e d transaction_id state binding None"

definition cancel_google_with_registry ::
  "libs \<Rightarrow> binding_codec \<Rightarrow> env \<Rightarrow> db \<Rightarrow> uuid \<Rightarrow> string \<Rightarrow> string \<Rightarrow> client_registry
    \<Rightarrow> (browser_error + denial_outcome) \<times> db" where
  "cancel_google_with_registry L B e d transaction_id state binding reg =
     cancel_google_bound L B e d transaction_id state binding (Some reg)"

definition begin_authenticated_with_pre_authorization ::
  "libs \<Rightarrow> binding_codec \<Rightarrow> env \<Rightarrow> db \<Rightarrow> provider_session \<Rightarrow> pending_authorization_grant \<Rightarrow> string option
    \<Rightarrow> string option \<Rightarrow> bool \<Rightarrow> (browser_error + consent_handle) \<times> db" where
  "begin_authenticated_with_pre_authorization L B e d session pending downstream_state oidc_nonce allow_pre =
     (let bid = env_uuid e 0; csrf = random_credential L e 0;
          row = (browser_row_of B bid AwaitingConsent pending downstream_state oidc_nonce allow_pre (env_clock e 1))
                \<lparr>ba_csrf_hash := Some (hash L csrf), ba_session_id := Some (pv_id session)\<rparr>
      in checked (lock_session d (pv_id session)) d (\<lambda>s.
         checked (browser_ensure_fresh (env_clock e 0) s None) d (\<lambda>_.
         checked (map_err policy_error (pending_ensure_fresh (env_instant e 0) pending)) d (\<lambda>_.
         insert_or (insert_browser d row) d (\<lambda>d'.
         checked (map_err policy_error (pending_ensure_fresh (env_instant e 1) pending)) d (\<lambda>_.
           (Inr \<lparr>ch_transaction_id = bid, ch_csrf = csrf\<rparr>, d')))))))"

definition begin_authenticated ::
  "libs \<Rightarrow> binding_codec \<Rightarrow> env \<Rightarrow> db \<Rightarrow> provider_session \<Rightarrow> pending_authorization_grant \<Rightarrow> string option
    \<Rightarrow> string option \<Rightarrow> (browser_error + consent_handle) \<times> db" where
  "begin_authenticated L B e d session pending downstream_state oidc_nonce =
     begin_authenticated_with_pre_authorization L B e d session pending downstream_state oidc_nonce False"

definition session_upstream_auth_time :: "env \<Rightarrow> db \<Rightarrow> provider_session \<Rightarrow> browser_error + int option" where
  "session_upstream_auth_time e d session =
     and_then (lock_session d (pv_id session)) (\<lambda>s.
     and_then (browser_ensure_fresh (env_clock e 0) s None) (\<lambda>_. Inr (ps_upstream_auth_time s)))"

section \<open>The Google callback\<close>

definition claim_callback ::
  "libs \<Rightarrow> env \<Rightarrow> db \<Rightarrow> string \<Rightarrow> string \<Rightarrow> (browser_error + string \<times> string \<times> string) \<times> db" where
  "claim_callback L e d state binding =
     (let claim = random_credential L e 0 in
      case find (\<lambda>r. ba_upstream_state_hash r = Some (hash L state)
                 \<and> ba_browser_binding_hash r = Some (hash L binding) \<and> ba_stage r = AwaitingGoogle) (db_browser d) of
        None \<Rightarrow> (Inl BrInvalid, d)
      | Some row \<Rightarrow>
        (case (ba_upstream_verifier row, ba_upstream_nonce row) of
           (Some verifier, Some nonce) \<Rightarrow>
             if ba_expires_at row \<le> env_clock e 0
             then (Inl BrInvalid,
                   set_browser (ba_id row) (\<lambda>r. r\<lparr>ba_stage := Expired, ba_upstream_verifier := None\<rparr>) d)
             else if Some (hash L claim) \<in> ba_claim_hash ` set (db_browser d) then (Inl BrDatabase, d)
             else (Inr (claim, verifier, nonce),
                   set_browser (ba_id row) (\<lambda>r. r\<lparr>ba_stage := CallbackClaimed,
                     ba_claim_hash := Some (hash L claim), ba_upstream_verifier := None\<rparr>) d)
         | _ \<Rightarrow> (Inl BrDatabase, d)))"

definition claimed :: "libs \<Rightarrow> string \<Rightarrow> browser_row \<Rightarrow> bool" where
  "claimed L claim r \<longleftrightarrow> ba_claim_hash r = Some (hash L claim) \<and> ba_stage r = CallbackClaimed"

definition fail_callback :: "libs \<Rightarrow> db \<Rightarrow> string \<Rightarrow> (browser_error + unit) \<times> db" where
  "fail_callback L d claim =
     (if rows_affected (claimed L claim) (db_browser d) = 1 then Inr () else Inl BrInvalid,
      d\<lparr>db_browser := update_where (claimed L claim) (\<lambda>r. r\<lparr>ba_stage := Failed\<rparr>) (db_browser d)\<rparr>)"

definition deny_callback ::
  "libs \<Rightarrow> binding_codec \<Rightarrow> env \<Rightarrow> db \<Rightarrow> string \<Rightarrow> client_registry \<Rightarrow> (browser_error + denial_outcome) \<times> db" where
  "deny_callback L B e d claim reg =
     checked (ok_or BrInvalid (claimed_row L d claim)) d (\<lambda>row.
     if ba_expires_at row \<le> env_clock e 0 then (Inl BrInvalid, d)
     else checked (revalidate L B e 0 reg row) d (\<lambda>_.
          checked (revalidate L B e 2 reg row) d (\<lambda>_.
            (Inr \<lparr>dn_redirect_uri = ba_redirect_uri row, dn_downstream_state = ba_downstream_state row\<rparr>,
             d\<lparr>db_browser := update_where (\<lambda>r. ba_claim_hash r = Some (hash L claim))
                (\<lambda>r. r\<lparr>ba_stage := Denied, ba_claim_hash := None\<rparr>) (db_browser d)\<rparr>))))"

text \<open>The writes of a completed callback, staged in a savepoint: identity, profile and session.\<close>

definition stage_login ::
  "libs \<Rightarrow> env \<Rightarrow> db \<Rightarrow> verified_google_identity \<Rightarrow> nat \<Rightarrow> (provider_session \<times> db) option" where
  "stage_login L e d identity secs =
     (let raw = random_credential L e 0; t = env_clock e 0 in
      Option.bind (upsert_verified_google_identity_tx d (env_uuid e 1) identity t) (\<lambda>(uid, d1).
      let row = \<lparr>ps_id = env_uuid e 0, ps_token_hash = hash L raw, ps_user_id = uid, ps_auth_time = t,
                 ps_expires_at = t + seconds (int secs), ps_revoked_at = None,
                 ps_upstream_auth_time = upstream_time L identity\<rparr>
      in Option.bind (insert_session d1 row) (\<lambda>d2.
           Some (\<lparr>pv_raw = raw, pv_id = ps_id row, pv_expires_at = ps_expires_at row\<rparr>, d2))))"

definition complete_callback_bound ::
  "libs \<Rightarrow> binding_codec \<Rightarrow> env \<Rightarrow> db \<Rightarrow> string \<Rightarrow> verified_google_identity \<Rightarrow> duration \<Rightarrow> client_registry option
    \<Rightarrow> (browser_error + login_completion) \<times> db" where
  "complete_callback_bound L B e d claim identity session_lifetime registry =
     checked (browser_bounded_seconds session_lifetime (30 * 24 * 60 * 60)) d (\<lambda>secs.
     checked (ok_or BrInvalid (claimed_row L d claim)) d (\<lambda>row.
     checked (validate_optional_registry L B e 0 registry row) d (\<lambda>_.
     checked (validate_optional_registry L B e 2 registry row) d (\<lambda>_.
     (case stage_login L e d identity secs of None \<Rightarrow> (Inl BrDatabase, d)
      | Some (session, d1) \<Rightarrow>
        if ba_expires_at row \<le> env_clock e 1
        then (Inl BrInvalid, set_browser (ba_id row) (\<lambda>r. r\<lparr>ba_stage := Expired\<rparr>) d)
        else checked (validate_optional_registry L B e 4 registry row) d (\<lambda>_.
        let csrf = random_credential L e 1 in
        if rows_affected (\<lambda>r. ba_id r = ba_id row \<and> ba_stage r = CallbackClaimed) (db_browser d1) \<noteq> 1
        then (Inl BrInvalid, d)
        else checked (validate_optional_registry L B e 6 registry row) d (\<lambda>_.
          (Inr \<lparr>lgc_session = session, lgc_consent = \<lparr>ch_transaction_id = ba_id row, ch_csrf = csrf\<rparr>\<rparr>,
           set_browser (ba_id row) (\<lambda>r. r\<lparr>ba_stage := AwaitingConsent, ba_session_id := Some (pv_id session),
             ba_csrf_hash := Some (hash L csrf), ba_claim_hash := None\<rparr>) d1))))))))"

definition complete_callback ::
  "libs \<Rightarrow> binding_codec \<Rightarrow> env \<Rightarrow> db \<Rightarrow> string \<Rightarrow> verified_google_identity \<Rightarrow> duration
    \<Rightarrow> (browser_error + login_completion) \<times> db" where
  "complete_callback L B e d claim identity session_lifetime =
     complete_callback_bound L B e d claim identity session_lifetime None"

definition complete_callback_with_registry ::
  "libs \<Rightarrow> binding_codec \<Rightarrow> env \<Rightarrow> db \<Rightarrow> string \<Rightarrow> verified_google_identity \<Rightarrow> duration \<Rightarrow> client_registry
    \<Rightarrow> (browser_error + login_completion) \<times> db" where
  "complete_callback_with_registry L B e d claim identity session_lifetime reg =
     complete_callback_bound L B e d claim identity session_lifetime (Some reg)"

section \<open>Consent\<close>

text \<open>Lines shared by every consent operation: the locked session and row, still fresh.\<close>

definition with_consent ::
  "libs \<Rightarrow> env \<Rightarrow> db \<Rightarrow> provider_session \<Rightarrow> consent_handle
    \<Rightarrow> (provider_session_row \<Rightarrow> browser_row \<Rightarrow> (browser_error + 'a) \<times> db) \<Rightarrow> (browser_error + 'a) \<times> db" where
  "with_consent L e d session handle f =
     checked (lock_session d (pv_id session)) d (\<lambda>s.
     checked (lock_consent L d (ch_transaction_id handle) (pv_id session) (ch_csrf handle)) d (\<lambda>row.
     checked (browser_ensure_fresh (env_clock e 0) s (Some (ba_expires_at row))) d (\<lambda>_. f s row)))"

definition mark_approved :: "uuid \<Rightarrow> db \<Rightarrow> db" where
  "mark_approved bid d = set_browser bid (\<lambda>r. r\<lparr>ba_stage := Approved, ba_csrf_hash := None\<rparr>) d"

definition approve ::
  "libs \<Rightarrow> binding_codec \<Rightarrow> env \<Rightarrow> db \<Rightarrow> provider_session \<Rightarrow> consent_handle \<Rightarrow> client_registry
    \<Rightarrow> (browser_error + consent_outcome) \<times> db" where
  "approve L B e d session handle reg = with_consent L e d session handle (\<lambda>s row.
     checked (revalidate L B e 0 reg row) d (\<lambda>pending.
     checked (map_err policy_error (approve_grant (env_instant e 2) pending True)) d (\<lambda>grant.
     (case insert_authorization_code_tx L B e 0 (env_clock e 1) d (pv_id session) grant (ba_oidc_nonce row)
             (ps_upstream_auth_time s) 60 of
        None \<Rightarrow> (Inl BrDatabase, d)
      | Some (code, d') \<Rightarrow>
        checked (revalidate L B e 3 reg row) d (\<lambda>_.
          (Inr \<lparr>co_code = code, co_redirect_uri = ba_redirect_uri row,
                co_downstream_state = ba_downstream_state row\<rparr>,
           mark_approved (ch_transaction_id handle) d'))))))"

definition approve_pre_authorized ::
  "libs \<Rightarrow> binding_codec \<Rightarrow> env \<Rightarrow> db \<Rightarrow> provider_session \<Rightarrow> consent_handle \<Rightarrow> client_registry
    \<Rightarrow> (browser_error + consent_outcome option) \<times> db" where
  "approve_pre_authorized L B e d session handle reg = with_consent L e d session handle (\<lambda>s row.
     checked (revalidate L B e 0 reg row) d (\<lambda>pending.
     if \<not> ba_allow_pre_authorization row \<or> \<not> pre_authorizes reg pending then (Inr None, d)
     else checked (map_err policy_error (approve_grant (env_instant e 2) pending True)) d (\<lambda>grant.
     (case insert_authorization_code_tx L B e 0 (env_clock e 1) d (pv_id session) grant (ba_oidc_nonce row)
             (ps_upstream_auth_time s) 60 of
        None \<Rightarrow> (Inl BrDatabase, d)
      | Some (code, d') \<Rightarrow>
        checked (revalidate L B e 3 reg row) d (\<lambda>current.
        if \<not> pre_authorizes reg current then (Inl BrPolicyChanged, d)
        else checked (browser_ensure_fresh (env_clock e 2) s (Some (ba_expires_at row))) d (\<lambda>_.
          (Inr (Some \<lparr>co_code = code, co_redirect_uri = ba_redirect_uri row,
                      co_downstream_state = ba_downstream_state row\<rparr>),
           mark_approved (ch_transaction_id handle) d')))))))"

definition middle_dot :: string where
  "middle_dot = [CHR '' '', CHR 0xC2, CHR 0xB7, CHR '' '']"

definition account_label :: "libs \<Rightarrow> db \<Rightarrow> uuid \<Rightarrow> string" where
  "account_label L d uid = (case find_profile d uid of
     None \<Rightarrow> uuid_show L uid
   | Some p \<Rightarrow> (case (up_verified_email p, up_name p) of
       (Some email, _) \<Rightarrow> email
     | (None, Some name) \<Rightarrow> name @ middle_dot @ uuid_show L uid
     | (None, None) \<Rightarrow> uuid_show L uid))"

definition consent_view ::
  "libs \<Rightarrow> binding_codec \<Rightarrow> env \<Rightarrow> db \<Rightarrow> provider_session \<Rightarrow> consent_handle \<Rightarrow> client_registry
    \<Rightarrow> (browser_error + consent_view_data) \<times> db" where
  "consent_view L B e d session handle reg = with_consent L e d session handle (\<lambda>s row.
     checked (revalidate L B e 0 reg row) d (\<lambda>_.
     checked (ok_or BrPolicyChanged (client_display_name reg (ba_client_id row))) d (\<lambda>client_name.
     checked (revalidate L B e 2 reg row) d (\<lambda>_.
       (Inr \<lparr>cv_transaction_id = ch_transaction_id handle, cv_csrf = ch_csrf handle,
             cv_client_name = client_name, cv_scopes = ba_scopes row, cv_resource = ba_resource row,
             cv_redirect_uri = ba_redirect_uri row, cv_account = account_label L d (ps_user_id s)\<rparr>, d)))))"

definition deny_bound ::
  "libs \<Rightarrow> binding_codec \<Rightarrow> env \<Rightarrow> db \<Rightarrow> provider_session \<Rightarrow> consent_handle \<Rightarrow> client_registry option
    \<Rightarrow> (browser_error + denial_outcome) \<times> db" where
  "deny_bound L B e d session handle registry = with_consent L e d session handle (\<lambda>s row.
     checked (validate_optional_registry L B e 0 registry row) d (\<lambda>_.
     checked (validate_optional_registry L B e 2 registry row) d (\<lambda>_.
       (Inr \<lparr>dn_redirect_uri = ba_redirect_uri row, dn_downstream_state = ba_downstream_state row\<rparr>,
        set_browser (ch_transaction_id handle) (\<lambda>r. r\<lparr>ba_stage := Denied, ba_csrf_hash := None\<rparr>) d))))"

definition deny ::
  "libs \<Rightarrow> binding_codec \<Rightarrow> env \<Rightarrow> db \<Rightarrow> provider_session \<Rightarrow> consent_handle \<Rightarrow> (browser_error + denial_outcome) \<times> db" where
  "deny L B e d session handle = deny_bound L B e d session handle None"

definition deny_with_registry ::
  "libs \<Rightarrow> binding_codec \<Rightarrow> env \<Rightarrow> db \<Rightarrow> provider_session \<Rightarrow> consent_handle \<Rightarrow> client_registry
    \<Rightarrow> (browser_error + denial_outcome) \<times> db" where
  "deny_with_registry L B e d session handle reg = deny_bound L B e d session handle (Some reg)"

end
