(* ===== verification/Browser_Facts.thy ===== *)
theory Browser_Facts
  imports Browser
begin

text \<open>
  The browser authorization as a state machine: the stages it may pass through, the order on
  its rows (an instance of \<open>evolution\<close>), the invariant of the table, and the proof that every
  operation of \<open>browser.rs\<close> and \<open>logout.rs\<close> respects them and the credential contract.
\<close>

section \<open>Stages\<close>

inductive stage_step :: "stage \<Rightarrow> stage \<Rightarrow> bool" where
  start: "stage_step AwaitingStart AwaitingGoogle"
| cancel: "stage_step AwaitingStart Denied"
| claim: "stage_step AwaitingGoogle CallbackClaimed"
| late: "stage_step AwaitingGoogle Expired"
| login: "stage_step CallbackClaimed AwaitingConsent"
| fail: "stage_step CallbackClaimed Failed"
| refuse: "stage_step CallbackClaimed Denied"
| stale: "stage_step CallbackClaimed Expired"
| approve: "stage_step AwaitingConsent Approved"
| deny: "stage_step AwaitingConsent Denied"

inductive_cases stage_stepE: "stage_step s t"
inductive_simps stage_step_from_start: "stage_step AwaitingStart t"
inductive_simps stage_step_from_consent: "stage_step AwaitingConsent t"

fun stage_rank :: "stage \<Rightarrow> nat" where
  "stage_rank AwaitingStart = 0"
| "stage_rank AwaitingGoogle = 1"
| "stage_rank CallbackClaimed = 2"
| "stage_rank AwaitingConsent = 3"
| "stage_rank _ = 4"

lemma stage_step_rank: "stage_step s t \<Longrightarrow> stage_rank s < stage_rank t"
  by (auto elim: stage_stepE)

lemma stage_steps_rank: "stage_step\<^sup>*\<^sup>* s t \<Longrightarrow> s = t \<or> stage_rank s < stage_rank t"
  by (induction rule: rtranclp_induct) (auto dest: stage_step_rank)

section \<open>The order on browser rows\<close>

text \<open>What never changes: identity, request, binding and expiry.\<close>

definition browser_fixed where
  "browser_fixed r = (ba_id r, ba_upstream_state_hash r, ba_browser_binding_hash r,
     (ba_client_id r, ba_redirect_uri r, ba_scopes r, ba_resource r, ba_code_challenge r),
     (ba_downstream_state r, ba_oidc_nonce r, ba_created_at r, ba_expires_at r),
     ba_cimd_binding r, ba_allow_pre_authorization r)"

definition browser_le :: "browser_row \<Rightarrow> browser_row \<Rightarrow> bool" where
  "browser_le r r' \<longleftrightarrow> stage_step\<^sup>*\<^sup>* (ba_stage r) (ba_stage r') \<and> browser_fixed r' = browser_fixed r
     \<and> (ba_stage r' = ba_stage r \<longrightarrow> r' = r)"

lemma browser_leD: "browser_le r r' \<Longrightarrow> ba_id r' = ba_id r \<and> ba_upstream_state_hash r' = ba_upstream_state_hash r
    \<and> ba_expires_at r' = ba_expires_at r \<and> (r' = r \<or> stage_rank (ba_stage r) < stage_rank (ba_stage r'))"
  by (auto simp: browser_le_def browser_fixed_def dest: stage_steps_rank)

interpretation browsers: evolution browser_le
proof
  show "browser_le r r" for r by (simp add: browser_le_def)
  show "browser_le r t" if st: "browser_le r s" "browser_le s t" for r s t
    unfolding browser_le_def
  proof (intro conjI impI)
    show "stage_step\<^sup>*\<^sup>* (ba_stage r) (ba_stage t)" "browser_fixed t = browser_fixed r"
      using st by (auto simp: browser_le_def)
    assume eq: "ba_stage t = ba_stage r"
    have "s = r \<or> stage_rank (ba_stage r) < stage_rank (ba_stage s)"
      "t = s \<or> stage_rank (ba_stage s) < stage_rank (ba_stage t)" using browser_leD st by blast+
    with eq show "t = r" by auto
  qed
qed

lemma browser_le_step:
  assumes "stage_step (ba_stage r) (ba_stage r')" "browser_fixed r' = browser_fixed r"
  shows "browser_le r r'"
  using assms stage_step_rank [OF assms(1)] by (auto simp: browser_le_def)

section \<open>The invariant of the browser table\<close>

definition keyed :: "(browser_row \<Rightarrow> string option) \<Rightarrow> browser_row list \<Rightarrow> bool" where
  "keyed g rows \<longleftrightarrow> (\<forall>r \<in> set rows. \<forall>r' \<in> set rows. g r \<noteq> None \<and> g r = g r' \<longrightarrow> ba_id r = ba_id r')"

definition browser_inv :: "browser_row list \<Rightarrow> bool" where
  "browser_inv rows \<longleftrightarrow> distinct (map ba_id rows) \<and> keyed ba_upstream_state_hash rows \<and> keyed ba_claim_hash rows"

lemma browser_inv_same_row:
  assumes "browser_inv rows" "r \<in> set rows" "r' \<in> set rows"
    "ba_id r = ba_id r' \<or> ba_claim_hash r = Some h \<and> ba_claim_hash r' = Some h
     \<or> ba_upstream_state_hash r = Some k \<and> ba_upstream_state_hash r' = Some k"
  shows "r = r'"
proof -
  have "ba_id r = ba_id r'"
    using assms(4)
  proof (elim disjE)
    assume "ba_claim_hash r = Some h \<and> ba_claim_hash r' = Some h"
    then show ?thesis using assms(1-3) unfolding browser_inv_def keyed_def by (metis option.distinct(1))
  next
    assume "ba_upstream_state_hash r = Some k \<and> ba_upstream_state_hash r' = Some k"
    then show ?thesis using assms(1-3) unfolding browser_inv_def keyed_def by (metis option.distinct(1))
  qed
  with distinct_key_eq [of ba_id rows r r'] assms show ?thesis by (simp add: browser_inv_def)
qed

lemma browser_inv_insert:
  assumes "insert_browser d r = Some d'" "browser_inv (db_browser d)"
  shows "browser_inv (db_browser d')" "browsers.rows_le (db_browser d) (db_browser d')"
    "db_browser d' = db_browser d @ [r]"
proof -
  have new: "ba_id r \<notin> ba_id ` set (db_browser d)"
      "ba_upstream_state_hash r = None \<or> ba_upstream_state_hash r \<notin> ba_upstream_state_hash ` set (db_browser d)"
      "ba_claim_hash r = None \<or> ba_claim_hash r \<notin> ba_claim_hash ` set (db_browser d)"
    and d': "db_browser d' = db_browser d @ [r]"
    using assms(1) by (auto simp: insert_browser_def split: if_splits)
  have k: "keyed g (rows @ [r])" if "keyed g rows" "g r = None \<or> g r \<notin> g ` set rows" for g rows
    unfolding keyed_def
  proof (intro ballI impI)
    fix x y assume xy: "x \<in> set (rows @ [r])" "y \<in> set (rows @ [r])" and eq: "g x \<noteq> None \<and> g x = g y"
    from xy have "x = r \<or> x \<in> set rows" "y = r \<or> y \<in> set rows" by auto
    with that eq show "ba_id x = ba_id y" unfolding keyed_def by (metis imageI)
  qed
  show "browser_inv (db_browser d')"
    using assms(2) new unfolding d' browser_inv_def by (auto intro: k)
  show "browsers.rows_le (db_browser d) (db_browser d')" "db_browser d' = db_browser d @ [r]"
    by (simp_all add: d')
qed

text \<open>Advancing the rows that satisfy \<open>P\<close> to a next stage; the claim hash may be dropped, or
  set to a value no row has when only one row is concerned.\<close>

lemma browser_inv_update:
  assumes "browser_inv rows"
    and "\<And>r. r \<in> set rows \<Longrightarrow> P r \<Longrightarrow> browser_le r (f r)"
    and "\<And>r. r \<in> set rows \<Longrightarrow> P r \<Longrightarrow> ba_claim_hash (f r) \<in> {None, ba_claim_hash r}
           \<or> (ba_claim_hash (f r) \<notin> ba_claim_hash ` set rows \<and> (\<forall>q \<in> set rows. P q \<longrightarrow> ba_id q = ba_id r))"
  shows "browser_inv (update_where P f rows)" "browsers.rows_le rows (update_where P f rows)"
proof -
  show "browsers.rows_le rows (update_where P f rows)"
    using assms(2) by (rule browsers.rows_update)
  let ?u = "\<lambda>r. if P r then f r else r"
  have fixed: "ba_id (?u r) = ba_id r \<and> ba_upstream_state_hash (?u r) = ba_upstream_state_hash r"
    if "r \<in> set rows" for r using browser_leD [OF assms(2) [OF that]] by auto
  have ids: "map ba_id (update_where P f rows) = map ba_id rows"
    unfolding update_where_def using fixed by simp
  have "keyed ba_upstream_state_hash (update_where P f rows)"
    using assms(1) fixed unfolding keyed_def browser_inv_def set_update_where ball_simps
    by (metis (no_types, lifting))
  moreover have "keyed ba_claim_hash (update_where P f rows)"
    unfolding keyed_def set_update_where ball_simps
  proof (intro ballI impI)
    fix r r' assume r: "r \<in> set rows" "r' \<in> set rows"
      and eq: "ba_claim_hash (?u r) \<noteq> None \<and> ba_claim_hash (?u r) = ba_claim_hash (?u r')"
    have old: "ba_claim_hash (?u q) = ba_claim_hash q \<or> (P q \<and> ba_claim_hash (?u q) \<notin> ba_claim_hash ` set rows
        \<and> (\<forall>p \<in> set rows. P p \<longrightarrow> ba_id p = ba_id q))" if "q \<in> {r, r'}" for q
    proof (cases "P q")
      case True
      have "q \<in> set rows" "ba_claim_hash (?u q) \<noteq> None" using that r eq by (elim insertE emptyE; metis)+
      with assms(3) [of q] True show ?thesis by auto
    qed simp
    have "ba_id r = ba_id r'"
    proof (cases "ba_claim_hash (?u r) = ba_claim_hash r \<and> ba_claim_hash (?u r') = ba_claim_hash r'")
      case True
      with eq r assms(1) show ?thesis unfolding browser_inv_def keyed_def by metis
    next
      case False
      with old [of r] old [of r'] r eq show ?thesis by (metis imageI insertCI)
    qed
    then show "ba_id (?u r) = ba_id (?u r')" using fixed r by simp
  qed
  ultimately show "browser_inv (update_where P f rows)"
    using assms(1) by (simp add: browser_inv_def ids)
qed

end
