(* ===== verification/System_Invariant.thy ===== *)
theory System_Invariant
  imports Browser_Facts
begin

text \<open>
  The invariant of the whole database and the order on its states, and the proof that every
  operation of \<open>credentials.rs\<close>, \<open>logout.rs\<close>, \<open>browser.rs\<close> and \<open>database.rs\<close> keeps the one and
  respects the other.
\<close>

section \<open>Logout challenges and identities\<close>

definition logout_le :: "logout_row \<Rightarrow> logout_row \<Rightarrow> bool" where
  "logout_le r r' \<longleftrightarrow> r' = r\<lparr>lc_consumed_at := lc_consumed_at r'\<rparr> \<and> (lc_consumed_at r \<noteq> None \<longrightarrow> r' = r)"

interpretation logouts: evolution logout_le
proof
  show "logout_le r r" for r by (simp add: logout_le_def)
  show "logout_le r t" if "logout_le r s" "logout_le s t" for r s t
    using that unfolding logout_le_def by (cases r; cases s; cases t) auto
qed

definition identity_key :: "external_identity_row \<Rightarrow> string \<times> string" where
  "identity_key r = (ei_issuer r, ei_subject r)"

definition identity_inv :: "db \<Rightarrow> bool" where
  "identity_inv d \<longleftrightarrow> distinct (map identity_key (db_identities d))
     \<and> distinct (map ei_user_id (db_identities d)) \<and> ei_user_id ` set (db_identities d) \<subseteq> set (db_users d)
     \<and> (\<forall>r \<in> set (db_identities d). ei_issuer r = GOOGLE_ISSUER)"

definition identities_le :: "db \<Rightarrow> db \<Rightarrow> bool" where
  "identities_le d d' \<longleftrightarrow> (\<exists>rs. db_identities d' = db_identities d @ rs) \<and> set (db_users d) \<subseteq> set (db_users d')"

section \<open>The invariant and the order\<close>

definition db_inv :: "db \<Rightarrow> bool" where
  "db_inv d \<longleftrightarrow> cred_inv d \<and> browser_inv (db_browser d) \<and> distinct (map lc_id (db_logouts d)) \<and> identity_inv d"

definition db_le :: "db \<Rightarrow> db \<Rightarrow> bool" where
  "db_le d d' \<longleftrightarrow> creds_le d d' \<and> browsers.rows_le (db_browser d) (db_browser d')
     \<and> logouts.rows_le (db_logouts d) (db_logouts d') \<and> identities_le d d'"

lemma db_le_refl [simp]: "db_le d d"
  by (simp add: db_le_def identities_le_def)

lemma identities_le_trans: "identities_le d d1 \<Longrightarrow> identities_le d1 d2 \<Longrightarrow> identities_le d d2"
  unfolding identities_le_def by auto

lemma db_le_trans: "db_le d d1 \<Longrightarrow> db_le d1 d2 \<Longrightarrow> db_le d d2"
  unfolding db_le_def
  using creds_le_trans browsers.rows_trans logouts.rows_trans identities_le_trans by blast

lemma db_leD: "db_le d d' \<Longrightarrow> creds_le d d'" "db_le d d' \<Longrightarrow> browsers.rows_le (db_browser d) (db_browser d')"
  "db_le d d' \<Longrightarrow> logouts.rows_le (db_logouts d) (db_logouts d')"
  by (simp_all add: db_le_def)

lemma db_invD: "db_inv d \<Longrightarrow> cred_inv d" "db_inv d \<Longrightarrow> browser_inv (db_browser d)"
  "db_inv d \<Longrightarrow> distinct (map lc_id (db_logouts d))" "db_inv d \<Longrightarrow> identity_inv d"
  by (simp_all add: db_inv_def)

lemma db_inv_empty [simp]: "db_inv empty_db"
  using cred_inv_empty unfolding db_inv_def
  by (simp add: empty_db_def browser_inv_def keyed_def identity_inv_def)

text \<open>A sound step keeps the invariant and only moves forward.\<close>

definition sound_step :: "db \<Rightarrow> db \<Rightarrow> bool" where
  "sound_step d d' \<longleftrightarrow> (db_inv d \<longrightarrow> db_inv d' \<and> db_le d d')"

lemma sound_step_refl [simp]: "sound_step d d"
  by (simp add: sound_step_def)

lemma sound_step_trans: "sound_step d d1 \<Longrightarrow> sound_step d1 d2 \<Longrightarrow> sound_step d d2"
  unfolding sound_step_def using db_le_trans by blast

section \<open>Steps on the credential tables only\<close>

definition other_tables where
  "other_tables d = (db_users d, db_identities d, db_browser d, db_logouts d)"

lemma sound_credential_step:
  assumes "other_tables d' = other_tables d" and "cred_inv d \<Longrightarrow> cred_inv d' \<and> creds_le d d'"
  shows "sound_step d d'"
  using assms by (auto simp: sound_step_def db_inv_def db_le_def other_tables_def identity_inv_def identities_le_def)

lemma other_tables_inserts:
  "insert_session d s = Some d' \<Longrightarrow> other_tables d' = other_tables d"
  "insert_code d c = Some d' \<Longrightarrow> other_tables d' = other_tables d"
  "insert_family d f = Some d' \<Longrightarrow> other_tables d' = other_tables d"
  "insert_member d m = Some d' \<Longrightarrow> other_tables d' = other_tables d"
  by (auto simp: other_tables_def insert_defs split: if_splits)

lemma other_tables_writes [simp]:
  "other_tables (revoke_families P now d) = other_tables d"
  "other_tables (revoke_session sid now d) = other_tables d"
  "other_tables (consume_code cid now d) = other_tables d"
  "other_tables (consume_member mid now sid d) = other_tables d"
  "other_tables (end_session sid now now' d) = other_tables d"
  by (simp_all add: other_tables_def revoke_families_def revoke_session_def consume_code_def
      consume_member_def end_session_def)

lemma other_tables_redeem:
  "redeem_code L e now d code session = Some (rt, d') \<Longrightarrow> other_tables d' = other_tables d"
  using redeem_codeD [of L e now d code session rt d']
  by (auto dest!: other_tables_inserts(3,4) split: if_splits)

lemma other_tables_exchange:
  "other_tables (snd (exchange_code_bound L B e d0 d raw client_id redirect_uri resource verifier registry)) = other_tables d"
proof -
  obtain out d' where run: "exchange_code_bound L B e d0 d raw client_id redirect_uri resource verifier registry = (out, d')"
    by fastforce
  from exchange_cases [OF run] show ?thesis unfolding run snd_conv
    by (auto dest: other_tables_redeem)
qed

lemma other_tables_rotate:
  "other_tables (snd (rotate_refresh_bound L B e d0 d raw client_id resource registry)) = other_tables d"
proof -
  obtain out d' where run: "rotate_refresh_bound L B e d0 d raw client_id resource registry = (out, d')" by fastforce
  from rotation_cases [OF run] show ?thesis unfolding run snd_conv
    by (auto dest!: rotate_memberD dest: other_tables_inserts(4))
qed

lemma other_tables_insert_code_tx:
  "insert_authorization_code_tx L B e k t d sid grant nonce upstream secs = Some (raw, d') \<Longrightarrow>
     other_tables d' = other_tables d"
  by (auto dest!: insert_authorization_code_txD dest: other_tables_inserts(2))

lemma other_tables_credential: "other_tables (run_credential L B r dq d0 d) = other_tables d"
proof (cases r)
  case (CreateSession e user lifetime)
  then show ?thesis
    by (auto simp: create_provider_session_def Let_def split: sum.splits option.splits dest: other_tables_inserts(1))
next
  case (IssueCode e session grant lifetime)
  obtain out d' where run: "issue_authorization_code L B e d session grant lifetime = (out, d')" by fastforce
  from issue_cases [OF run] IssueCode run show ?thesis by (auto dest: other_tables_insert_code_tx)
next
  case (ExchangeCode now0 e raw client_id redirect_uri resource verifier scopes reg)
  then show ?thesis
    using exchange_request_snd [of L B now0 e dq d0 d raw client_id redirect_uri resource verifier scopes reg]
      other_tables_exchange by auto
next
  case (RotateRefresh e raw client_id resource scopes reg)
  then show ?thesis
    using rotate_request_snd [of L B e dq d0 d raw client_id resource scopes reg] other_tables_rotate by auto
next
  case (RevokeRefresh e raw client_id)
  then show ?thesis by (auto simp: revoke_refresh_def split: option.splits)
qed (simp_all add: exchange_code_def other_tables_exchange rotate_refresh_def other_tables_rotate logout_end_session)

lemma sound_credential:
  assumes "db_inv d" "db_le dq d" "db_le d0 d"
  shows "sound_step d (run_credential L B r dq d0 d)"
  using sound_credential_step [OF other_tables_credential] run_credential_safe assms
  by (simp add: db_leD db_invD)

section \<open>Steps on the browser table\<close>

lemma same_creds_browser: "same_creds d (d\<lparr>db_browser := rows\<rparr>)"
  by (simp add: same_creds_def)

lemma sound_browser_rows:
  assumes "browser_inv (db_browser d) \<Longrightarrow> browser_inv rows \<and> browsers.rows_le (db_browser d) rows"
  shows "sound_step d (d\<lparr>db_browser := rows\<rparr>)"
  using assms cred_inv_same [OF same_creds_browser] same_creds_le [OF same_creds_browser]
  by (auto simp: sound_step_def db_inv_def db_le_def identity_inv_def identities_le_def)

lemma sound_insert_browser:
  assumes "insert_browser d r = Some d'"
  shows "sound_step d d'"
proof -
  have "d' = d\<lparr>db_browser := db_browser d @ [r]\<rparr>"
    using assms by (auto simp: insert_browser_def split: if_splits)
  with browser_inv_insert [OF assms] sound_browser_rows [of d "db_browser d @ [r]"] show ?thesis by simp
qed

text \<open>One row moves to a next stage; its claim hash is kept, dropped, or new to the table.\<close>

lemma sound_set_browser:
  assumes "r \<in> set (db_browser d)" "ba_id r = bid"
    and "stage_step (ba_stage r) (ba_stage (f r))" "browser_fixed (f r) = browser_fixed r"
    and "ba_claim_hash (f r) \<in> {None, ba_claim_hash r} \<or> ba_claim_hash (f r) \<notin> ba_claim_hash ` set (db_browser d)"
  shows "sound_step d (set_browser bid f d)"
  unfolding set_browser_def
proof (rule sound_browser_rows)
  assume inv: "browser_inv (db_browser d)"
  have only: "q = r" if "q \<in> set (db_browser d)" "ba_id q = bid" for q
    using browser_inv_same_row [OF inv that(1) assms(1)] that(2) assms(2) by simp
  have le: "browser_le q (f q)" if "q \<in> set (db_browser d)" "ba_id q = bid" for q
    using only [OF that] browser_le_step assms(3,4) by blast
  have hash: "ba_claim_hash (f q) \<in> {None, ba_claim_hash q}
      \<or> (ba_claim_hash (f q) \<notin> ba_claim_hash ` set (db_browser d) \<and> (\<forall>p \<in> set (db_browser d). ba_id p = bid \<longrightarrow> ba_id p = ba_id q))"
    if "q \<in> set (db_browser d)" "ba_id q = bid" for q
    using assms(2,5) unfolding only [OF that] by metis
  show "browser_inv (update_where (\<lambda>r. ba_id r = bid) f (db_browser d))
      \<and> browsers.rows_le (db_browser d) (update_where (\<lambda>r. ba_id r = bid) f (db_browser d))"
    using browser_inv_update [OF inv le hash] by blast
qed

section \<open>Identities\<close>

lemma same_creds_identity: "same_creds d (d\<lparr>db_users := us, db_identities := is, db_profiles := ps\<rparr>)"
  by (simp add: same_creds_def)

lemma identity_user_Some:
  "identity_user d issuer subject = Some uid \<Longrightarrow>
     \<exists>r \<in> set (db_identities d). identity_key r = (issuer, subject) \<and> ei_user_id r = uid"
  unfolding identity_user_def identity_key_def by (auto dest: find_Some_set)

lemma identity_user_None:
  "identity_user d issuer subject = None \<longleftrightarrow> (issuer, subject) \<notin> identity_key ` set (db_identities d)"
  unfolding identity_user_def identity_key_def by (auto simp: find_None_iff)

lemma identity_user_known:
  assumes "identity_inv d" "r \<in> set (db_identities d)" "identity_key r = (issuer, subject)"
  shows "identity_user d issuer subject = Some (ei_user_id r)"
proof -
  have "find (\<lambda>q. identity_key q = identity_key r) (db_identities d) = Some r"
    using assms by (intro find_unique_key) (simp_all add: identity_inv_def)
  then show ?thesis using assms(3) by (simp add: identity_user_def identity_key_def)
qed

lemma find_or_insert_identityD:
  assumes "find_or_insert_identity d fresh issuer subject = Some (uid, d')"
  shows "(identity_user d issuer subject = Some uid \<and> d' = d)
    \<or> (identity_user d issuer subject = None \<and> uid = fresh \<and> fresh \<notin> set (db_users d)
       \<and> issuer = GOOGLE_ISSUER \<and> d' = d\<lparr>db_users := db_users d @ [fresh], db_identities := db_identities d
             @ [\<lparr>ei_issuer = issuer, ei_subject = subject, ei_user_id = fresh\<rparr>]\<rparr>)"
  using assms unfolding find_or_insert_identity_def
  by (auto simp: insert_user_def insert_identity_def split: option.splits if_splits bind_splits)

lemma sound_find_or_insert:
  assumes "find_or_insert_identity d fresh issuer subject = Some (uid, d')"
  shows "sound_step d d'"
proof -
  from find_or_insert_identityD [OF assms] consider "d' = d"
    | "identity_user d issuer subject = None" "fresh \<notin> set (db_users d)" "issuer = GOOGLE_ISSUER"
      "d' = d\<lparr>db_users := db_users d @ [fresh], db_identities := db_identities d
             @ [\<lparr>ei_issuer = issuer, ei_subject = subject, ei_user_id = fresh\<rparr>]\<rparr>" by metis
  then show ?thesis
  proof cases
    case 2
    have "(issuer, subject) \<notin> identity_key ` set (db_identities d)"
      using 2(1) identity_user_None by blast
    moreover have same: "same_creds d d'" by (simp add: 2(4) same_creds_def)
    ultimately show ?thesis
      using cred_inv_same [OF same] same_creds_le [OF same] 2(2,3)
      unfolding sound_step_def db_inv_def db_le_def
      by (auto simp: 2(4) identity_inv_def identities_le_def identity_key_def)
  qed simp
qed

lemma sound_profile: "sound_step d (upsert_profile d uid profile now)"
proof -
  have same: "same_creds d (upsert_profile d uid profile now)"
    by (simp add: same_creds_def upsert_profile_def Let_def)
  show ?thesis
    using cred_inv_same [OF same] same_creds_le [OF same]
    unfolding sound_step_def db_inv_def db_le_def
    by (auto simp: upsert_profile_def Let_def identity_inv_def identities_le_def)
qed

lemma sound_upsert:
  assumes "upsert_verified_google_identity_tx d fresh identity now = Some (uid, d')"
  shows "sound_step d d'"
  using assms sound_find_or_insert sound_profile sound_step_trans
  unfolding upsert_verified_google_identity_tx_def by (fastforce split: option.splits)

lemma find_update_where_const:
  "k \<in> key ` set rows \<Longrightarrow> key row = k \<Longrightarrow>
     find (\<lambda>r. key r = k) (update_where (\<lambda>r. key r = k) (\<lambda>_. row) rows) = Some row"
  by (induction rows) auto

lemma find_snoc: "find P xs = None \<Longrightarrow> find P (xs @ [y]) = (if P y then Some y else None)"
  by (induction xs) (auto split: if_splits)

lemma upsert_users:
  assumes "upsert_verified_google_identity_tx d fresh identity now = Some (uid, d')" "db_inv d"
  shows "identity_user d' GOOGLE_ISSUER (vgi_subject identity) = Some uid"
    "find_profile d' uid = Some (vgi_profile identity)"
proof -
  from assms(1) obtain d1 where ins: "find_or_insert_identity d fresh GOOGLE_ISSUER (vgi_subject identity) = Some (uid, d1)"
    and d': "d' = upsert_profile d1 uid (vgi_profile identity) now"
    unfolding upsert_verified_google_identity_tx_def by (auto split: option.splits)
  have same: "db_identities d' = db_identities d1" by (simp add: d' upsert_profile_def Let_def)
  from sound_find_or_insert [OF ins] assms(2) have inv1: "identity_inv d1"
    by (auto simp: sound_step_def db_inv_def)
  from find_or_insert_identityD [OF ins] have "identity_user d1 GOOGLE_ISSUER (vgi_subject identity) = Some uid"
  proof (elim disjE conjE)
    assume "d1 = d\<lparr>db_users := db_users d @ [fresh], db_identities := db_identities d
             @ [\<lparr>ei_issuer = GOOGLE_ISSUER, ei_subject = vgi_subject identity, ei_user_id = fresh\<rparr>]\<rparr>" and "uid = fresh"
    let ?r = "\<lparr>ei_issuer = GOOGLE_ISSUER, ei_subject = vgi_subject identity, ei_user_id = fresh\<rparr>"
    have "?r \<in> set (db_identities d1)" by (simp add: \<open>d1 = _\<close>)
    from identity_user_known [OF inv1 this, of GOOGLE_ISSUER "vgi_subject identity"] \<open>uid = fresh\<close>
    show ?thesis by (simp add: identity_key_def)
  qed simp
  then show "identity_user d' GOOGLE_ISSUER (vgi_subject identity) = Some uid"
    by (simp add: identity_user_def same)
  show "find_profile d' uid = Some (vgi_profile identity)"
  proof (cases "uid \<in> upr_user_id ` set (db_profiles d1)")
    case True
    then show ?thesis
      using find_update_where_const [of uid upr_user_id "db_profiles d1"
          "\<lparr>upr_user_id = uid, upr_profile = vgi_profile identity, upr_updated_at = now\<rparr>"]
      by (simp add: d' upsert_profile_def Let_def find_profile_def)
  next
    case False
    then have "find (\<lambda>r. upr_user_id r = uid) (db_profiles d1) = None" by (auto simp: find_None_iff)
    with False show ?thesis by (auto simp: d' upsert_profile_def Let_def find_profile_def find_snoc)
  qed
qed

section \<open>Logout challenges\<close>

lemma sound_insert_logout:
  assumes "insert_logout d r = Some d'"
  shows "sound_step d d'"
proof -
  from assms have d': "d' = d\<lparr>db_logouts := db_logouts d @ [r]\<rparr>" and new: "lc_id r \<notin> lc_id ` set (db_logouts d)"
    by (auto simp: insert_logout_def split: if_splits)
  have same: "same_creds d d'" by (simp add: d' same_creds_def)
  show ?thesis
    using cred_inv_same [OF same] same_creds_le [OF same] new unfolding sound_step_def db_inv_def db_le_def
    by (auto simp: d' identity_inv_def identities_le_def)
qed

lemma sound_consume_challenge:
  assumes "r \<in> set (db_logouts d)" "lc_id r = cid" "lc_consumed_at r = None"
  shows "sound_step d (consume_challenge cid now d)"
  unfolding sound_step_def
proof
  assume inv: "db_inv d"
  have same: "same_creds d (consume_challenge cid now d)" by (simp add: same_creds_def consume_challenge_def)
  have "q = r" if "q \<in> set (db_logouts d)" "lc_id q = cid" for q
    using distinct_key_eq [OF db_invD(3) [OF inv] that(1) assms(1)] that(2) assms(2) by simp
  then have "logouts.rows_le (db_logouts d) (update_where (\<lambda>c. lc_id c = cid)
      (\<lambda>c. c\<lparr>lc_consumed_at := Some now\<rparr>) (db_logouts d))"
    using assms(3) by (intro logouts.rows_update) (auto simp: logout_le_def)
  then show "db_inv (consume_challenge cid now d) \<and> db_le d (consume_challenge cid now d)"
    using inv cred_inv_same [OF same] same_creds_le [OF same] unfolding db_inv_def db_le_def
    by (auto simp: consume_challenge_def map_update_where identity_inv_def identities_le_def)
qed

lemma sound_end_session: "sound_step d (end_session sid now now' d)"
  by (rule sound_credential_step) (simp_all add: cred_inv_end_session creds_le_end_session)

lemma finish_inner_cases:
  assumes "finish_inner L e d session challenge reg hint = (out, d')"
  shows "((\<forall>x. out \<noteq> Inr (Some x)) \<and> d' = d)
    \<or> (\<exists>s row. session_by_id d (pv_id session) = Some s \<and> row \<in> set (db_logouts d) \<and> lc_id row = lch_id challenge
        \<and> lc_session_id row = pv_id session \<and> lc_csrf_hash row = hash L (lch_csrf challenge)
        \<and> ps_revoked_at s = None \<and> env_clock e 0 < ps_expires_at s
        \<and> lc_consumed_at row = None \<and> env_clock e 0 < lc_expires_at row
        \<and> (lc_client_id row = [] \<or> valid_post_logout_redirect reg (lc_client_id row) (lc_redirect_uri row))
        \<and> is_none_or hint (\<lambda>h. \<not> hint_malformed (env_clock e 0) row h \<and> \<not> hint_unusable reg session s row h)
        \<and> out = Inr (Some \<lparr>lo_redirect_uri = lc_redirect_uri row, lo_state = lc_downstream_state row\<rparr>)
        \<and> d' = end_session (pv_id session) (env_clock e 0) (env_clock e 0)
                 (consume_challenge (lch_id challenge) (env_clock e 0) d))"
  (is "?fail \<or> ?done")
proof (cases "?fail")
  case False
  note run = assms [unfolded finish_inner_def]
  obtain s where s: "session_by_id d (pv_id session) = Some s"
    using run False by (cases "session_by_id d (pv_id session)") auto
  note run = run [unfolded s option.case]
  let ?find = "find (\<lambda>c. lc_id c = lch_id challenge \<and> lc_session_id c = pv_id session
                     \<and> lc_csrf_hash c = hash L (lch_csrf challenge)) (db_logouts d)"
  obtain row where row: "?find = Some row" using run False by (cases ?find) auto
  note run = run [unfolded row option.case Let_def]
  from find_Some_set [OF row] have r: "row \<in> set (db_logouts d)" "lc_id row = lch_id challenge"
    "lc_session_id row = pv_id session" "lc_csrf_hash row = hash L (lch_csrf challenge)" by auto
  show ?thesis
    using run False s r
    by (intro disjI2 exI [of _ s] exI [of _ row])
      (cases hint, auto split: if_splits simp: not_le end_session_def)
qed simp

lemma sound_finish_inner: "sound_step d (snd (finish_inner L e d session challenge reg hint))"
proof -
  obtain out d' where run: "finish_inner L e d session challenge reg hint = (out, d')" by fastforce
  from finish_inner_cases [OF run] show ?thesis unfolding run snd_conv
    using sound_step_trans [OF sound_consume_challenge sound_end_session] by auto
qed

lemma sound_logout_insert: "sound_step d (snd (logout_insert L e d session client_id redirect state))"
  using sound_insert_logout by (auto simp: logout_insert_def Let_def split: option.splits)

lemma sound_logout_ops:
  "sound_step d (snd (begin_logout L e d session client_id redirect state reg))"
  "sound_step d (snd (begin_local L e d session local_uri))"
  "sound_step d (snd (finish L e d session challenge reg))"
  "sound_step d (snd (finish_hint L e d session challenge reg claims))"
  using sound_finish_inner [of d L e session challenge reg None]
  by (simp_all add: begin_logout_def begin_local_def sound_logout_insert finish_def finish_hint_def
      sound_finish_inner case_prod_beta)

section \<open>Browser authorizations\<close>

lemma sound_checked:
  "(\<And>v. m = Inr v \<Longrightarrow> sound_step d (snd (f v))) \<Longrightarrow> sound_step d (snd (checked m d f))"
  by (cases m) auto

lemma sound_insert_or:
  "(\<And>d'. m = Some d' \<Longrightarrow> sound_step d (snd (f d'))) \<Longrightarrow> sound_step d (snd (insert_or m d f))"
  by (cases m) auto

lemma sound_begin_google:
  "sound_step d (snd (begin_google_with_pre_authorization L B e d pending downstream nonce allow))"
  unfolding begin_google_with_pre_authorization_def Let_def
  by (intro sound_checked sound_insert_or) (auto dest: sound_insert_browser)

lemma sound_begin_authenticated:
  "sound_step d (snd (begin_authenticated_with_pre_authorization L B e d session pending downstream nonce allow))"
  unfolding begin_authenticated_with_pre_authorization_def Let_def
  by (intro sound_checked sound_insert_or) (auto dest: sound_insert_browser)

lemma sound_start_google: "sound_step d (snd (start_google L e d transaction_id state binding))"
proof (cases "find (\<lambda>r. ba_id r = transaction_id \<and> ba_upstream_state_hash r = Some (hash L state)
                 \<and> ba_browser_binding_hash r = Some (hash L binding) \<and> ba_stage r = AwaitingStart
                 \<and> env_clock e 0 < ba_expires_at r) (db_browser d)")
  case None
  then show ?thesis by (simp add: start_google_def)
next
  case (Some row)
  then have "row \<in> set (db_browser d)" "ba_stage row = AwaitingStart" by (auto dest: find_Some_set)
  then have "sound_step d (set_browser (ba_id row) (\<lambda>r. r\<lparr>ba_stage := AwaitingGoogle\<rparr>) d)"
    by (intro sound_set_browser [of row]) (auto simp: browser_fixed_def intro: stage_step.intros)
  with Some show ?thesis by (auto simp: start_google_def Let_def split: option.splits)
qed

lemma sound_cancel_google: "sound_step d (snd (cancel_google_bound L B e d transaction_id state binding registry))"
  unfolding cancel_google_bound_def
proof (intro sound_checked)
  fix row u w
  assume "ok_or BrInvalid (find (\<lambda>r. ba_id r = transaction_id \<and> ba_upstream_state_hash r = Some (hash L state)
                 \<and> ba_browser_binding_hash r = Some (hash L binding) \<and> ba_stage r = AwaitingStart
                 \<and> env_clock e 0 < ba_expires_at r) (db_browser d)) = Inr row"
  then have "row \<in> set (db_browser d)" "ba_stage row = AwaitingStart" "ba_id row = transaction_id"
    by (auto dest: find_Some_set)
  then show "sound_step d (snd (Inr \<lparr>dn_redirect_uri = ba_redirect_uri row, dn_downstream_state = ba_downstream_state row\<rparr>,
      set_browser transaction_id (\<lambda>r. r\<lparr>ba_stage := Denied, ba_upstream_verifier := None, ba_upstream_nonce := None\<rparr>) d))"
    unfolding snd_conv
    by (intro sound_set_browser [of row]) (auto simp: browser_fixed_def intro: stage_step.intros)
qed

lemma sound_claim_callback: "sound_step d (snd (claim_callback L e d state binding))"
proof (cases "find (\<lambda>r. ba_upstream_state_hash r = Some (hash L state)
                 \<and> ba_browser_binding_hash r = Some (hash L binding) \<and> ba_stage r = AwaitingGoogle) (db_browser d)")
  case None
  then show ?thesis by (simp add: claim_callback_def)
next
  case (Some row)
  then have row: "row \<in> set (db_browser d)" "ba_stage row = AwaitingGoogle" by (auto dest: find_Some_set)
  let ?h = "Some (hash L (random_credential L e 0))"
  have "sound_step d (set_browser (ba_id row) (\<lambda>r. r\<lparr>ba_stage := Expired, ba_upstream_verifier := None\<rparr>) d)"
    using row by (intro sound_set_browser [of row]) (auto simp: browser_fixed_def intro: stage_step.intros)
  moreover have "sound_step d (set_browser (ba_id row) (\<lambda>r. r\<lparr>ba_stage := CallbackClaimed,
      ba_claim_hash := ?h, ba_upstream_verifier := None\<rparr>) d)" if "?h \<notin> ba_claim_hash ` set (db_browser d)"
    using row that by (intro sound_set_browser [of row]) (auto simp: browser_fixed_def intro: stage_step.intros)
  ultimately show ?thesis
    using Some by (auto simp: claim_callback_def Let_def split: option.splits)
qed

lemma claimed_rowD:
  "claimed_row L d claim = Some row \<Longrightarrow>
     row \<in> set (db_browser d) \<and> ba_claim_hash row = Some (hash L claim) \<and> ba_stage row = CallbackClaimed"
  unfolding claimed_row_def by (auto dest: find_Some_set)

lemma sound_fail_callback: "sound_step d (snd (fail_callback L d claim))"
  unfolding fail_callback_def snd_conv
proof (rule sound_browser_rows)
  assume inv: "browser_inv (db_browser d)"
  show "browser_inv (update_where (claimed L claim) (\<lambda>r. r\<lparr>ba_stage := Failed\<rparr>) (db_browser d))
      \<and> browsers.rows_le (db_browser d) (update_where (claimed L claim) (\<lambda>r. r\<lparr>ba_stage := Failed\<rparr>) (db_browser d))"
    by (intro conjI browser_inv_update [OF inv] browsers.rows_update browser_le_step)
      (auto simp: claimed_def browser_fixed_def intro: stage_step.intros)
qed

lemma sound_deny_callback: "sound_step d (snd (deny_callback L B e d claim reg))"
  unfolding deny_callback_def
proof (intro sound_checked)
  fix row assume "ok_or BrInvalid (claimed_row L d claim) = Inr row"
  then have row: "row \<in> set (db_browser d)" "ba_claim_hash row = Some (hash L claim)" "ba_stage row = CallbackClaimed"
    by (auto dest: claimed_rowD)
  let ?P = "\<lambda>r. ba_claim_hash r = Some (hash L claim)"
  let ?f = "\<lambda>r. r\<lparr>ba_stage := Denied, ba_claim_hash := None\<rparr>"
  have "sound_step d (d\<lparr>db_browser := update_where ?P ?f (db_browser d)\<rparr>)"
  proof (rule sound_browser_rows)
    assume inv: "browser_inv (db_browser d)"
    have "q = row" if "q \<in> set (db_browser d)" "?P q" for q
      using browser_inv_same_row [OF inv that(1) row(1), of "hash L claim"] that(2) row(2) by simp
    then have "browser_le q (?f q)" if "q \<in> set (db_browser d)" "?P q" for q
      using that row(3) by (intro browser_le_step) (auto simp: browser_fixed_def intro: stage_step.intros)
    then show "browser_inv (update_where ?P ?f (db_browser d)) \<and> browsers.rows_le (db_browser d) (update_where ?P ?f (db_browser d))"
      by (intro conjI browser_inv_update [OF inv] browsers.rows_update) auto
  qed
  then show "sound_step d (snd (if ba_expires_at row \<le> env_clock e 0 then (Inl BrInvalid, d)
     else checked (revalidate L B e 0 reg row) d (\<lambda>_. checked (revalidate L B e 2 reg row) d (\<lambda>_.
            (Inr \<lparr>dn_redirect_uri = ba_redirect_uri row, dn_downstream_state = ba_downstream_state row\<rparr>,
             d\<lparr>db_browser := update_where ?P ?f (db_browser d)\<rparr>)))))"
    by (auto simp: checked_def split: sum.splits)
qed

lemma stage_loginD:
  assumes "stage_login L e d identity secs = Some (session, d2)"
  shows "\<exists>uid d1 row. upsert_verified_google_identity_tx d (env_uuid e 1) identity (env_clock e 0) = Some (uid, d1)
    \<and> insert_session d1 row = Some d2 \<and> ps_id row = pv_id session \<and> ps_token_hash row = hash L (pv_raw session)
    \<and> ps_user_id row = uid \<and> ps_revoked_at row = None \<and> ps_auth_time row = env_clock e 0
    \<and> ps_expires_at row = env_clock e 0 + seconds (int secs) \<and> pv_expires_at session = ps_expires_at row
    \<and> ps_upstream_auth_time row = upstream_time L identity"
  using assms unfolding stage_login_def Let_def
  by (auto split: bind_splits) (intro exI conjI, assumption, simp_all)

lemma stage_login_sound:
  assumes "stage_login L e d identity secs = Some (session, d2)"
  shows "sound_step d d2" "db_browser d2 = db_browser d"
proof -
  from stage_loginD [OF assms] obtain uid d1 row where
    up: "upsert_verified_google_identity_tx d (env_uuid e 1) identity (env_clock e 0) = Some (uid, d1)"
    and ins: "insert_session d1 row = Some d2" by blast
  have "sound_step d1 d2"
    using sound_credential_step [OF other_tables_inserts(1) [OF ins]]
      cred_inv_insert_session [OF ins] creds_le_inserts(1) [OF ins] by blast
  with sound_upsert [OF up] sound_step_trans show "sound_step d d2" by blast
  have "db_browser d1 = db_browser d"
    using up unfolding upsert_verified_google_identity_tx_def
    by (auto dest!: find_or_insert_identityD simp: upsert_profile_def Let_def split: option.splits)
  then show "db_browser d2 = db_browser d"
    using other_tables_inserts(1) [OF ins] by (simp add: other_tables_def)
qed

lemma sound_complete_callback:
  "sound_step d (snd (complete_callback_bound L B e d claim identity lifetime registry))"
  unfolding complete_callback_bound_def
proof (intro sound_checked)
  fix secs row
  assume "ok_or BrInvalid (claimed_row L d claim) = Inr row"
  then have row: "row \<in> set (db_browser d)" "ba_stage row = CallbackClaimed" by (auto dest: claimed_rowD)
  have expired: "sound_step d (set_browser (ba_id row) (\<lambda>r. r\<lparr>ba_stage := Expired\<rparr>) d)"
    using row by (intro sound_set_browser [of row]) (auto simp: browser_fixed_def intro: stage_step.intros)
  have finished: "sound_step d (set_browser (ba_id row) (\<lambda>r. r\<lparr>ba_stage := AwaitingConsent, ba_session_id := sid,
      ba_csrf_hash := h, ba_claim_hash := None\<rparr>) d1)"
    if "stage_login L e d identity secs = Some (session, d1)" for session d1 sid h
  proof (rule sound_step_trans [OF stage_login_sound(1) [OF that]])
    show "sound_step d1 (set_browser (ba_id row) (\<lambda>r. r\<lparr>ba_stage := AwaitingConsent, ba_session_id := sid,
      ba_csrf_hash := h, ba_claim_hash := None\<rparr>) d1)"
      using row stage_login_sound(2) [OF that]
      by (intro sound_set_browser [of row]) (auto simp: browser_fixed_def intro: stage_step.intros)
  qed
  show "sound_step d (snd (case stage_login L e d identity secs of None \<Rightarrow> (Inl BrDatabase, d)
      | Some (session, d1) \<Rightarrow>
        if ba_expires_at row \<le> env_clock e 1
        then (Inl BrInvalid, set_browser (ba_id row) (\<lambda>r. r\<lparr>ba_stage := Expired\<rparr>) d)
        else checked (validate_optional_registry L B e 4 registry row) d (\<lambda>_.
        let csrf = random_credential L e 1 in
        if rows_affected (\<lambda>r. ba_id r = ba_id row \<and> ba_stage r = CallbackClaimed) (db_browser d1) \<noteq> 1
        then (Inl BrInvalid, d)
        else checked (validate_optional_registry L B e 6 registry row) d (\<lambda>_.
          (Inr \<lparr>lgc_session = session, lgc_consent = \<lparr>ch_transaction_id = ba_id row, ch_csrf = csrf\<rparr>\<rparr>,
           set_browser (ba_id row) (\<lambda>r. r\<lparr>ba_stage := AwaitingConsent, ba_session_id := Some (pv_id session),
             ba_csrf_hash := Some (hash L csrf), ba_claim_hash := None\<rparr>) d1)))))"
    using expired finished by (auto simp: checked_def Let_def split: option.splits sum.splits)
qed

lemma lock_consentD:
  "lock_consent L d bid sid csrf = Inr row \<Longrightarrow> row \<in> set (db_browser d) \<and> ba_id row = bid
     \<and> ba_session_id row = Some sid \<and> ba_csrf_hash row = Some (hash L csrf) \<and> ba_stage row = AwaitingConsent"
  unfolding lock_consent_def by (auto dest: find_Some_set)

lemma sound_with_consent:
  assumes "\<And>s row. lock_session d (pv_id session) = Inr s \<Longrightarrow> row \<in> set (db_browser d)
      \<Longrightarrow> ba_id row = ch_transaction_id handle \<Longrightarrow> ba_stage row = AwaitingConsent \<Longrightarrow> sound_step d (snd (f s row))"
  shows "sound_step d (snd (with_consent L e d session handle f))"
  unfolding with_consent_def by (intro sound_checked) (auto dest: lock_consentD intro: assms)

lemma sound_consent_row:
  assumes "row \<in> set (db_browser d)" "ba_id row = bid" "ba_stage row = AwaitingConsent"
    and "s \<in> {Approved, Denied}"
  shows "sound_step d (set_browser bid (\<lambda>r. r\<lparr>ba_stage := s, ba_csrf_hash := None\<rparr>) d)"
  using assms by (intro sound_set_browser [of row]) (auto simp: browser_fixed_def intro: stage_step.intros)

lemma sound_mark_approved:
  assumes "insert_authorization_code_tx L B e k t d sid grant nonce upstream secs = Some (raw, d')"
    and "row \<in> set (db_browser d)" "ba_id row = bid" "ba_stage row = AwaitingConsent"
  shows "sound_step d (mark_approved bid d')"
proof -
  have "sound_step d d'"
    using sound_credential_step [OF other_tables_insert_code_tx [OF assms(1)]]
      insert_authorization_code_tx_safe [OF assms(1)] by blast
  moreover have "db_browser d' = db_browser d"
    using other_tables_insert_code_tx [OF assms(1)] by (simp add: other_tables_def)
  ultimately show ?thesis
    using sound_consent_row [of row d' bid Approved] assms(2-4) sound_step_trans
    unfolding mark_approved_def by auto
qed

lemma sound_approve: "sound_step d (snd (approve L B e d session handle reg))"
  unfolding approve_def
  by (intro sound_with_consent sound_checked)
    (auto simp: checked_def split: option.splits sum.splits intro: sound_mark_approved)

lemma sound_approve_pre: "sound_step d (snd (approve_pre_authorized L B e d session handle reg))"
  unfolding approve_pre_authorized_def
  by (intro sound_with_consent sound_checked)
    (auto simp: checked_def split: option.splits sum.splits intro: sound_mark_approved)

lemma sound_consent_view: "sound_step d (snd (consent_view L B e d session handle reg))"
  unfolding consent_view_def by (intro sound_with_consent sound_checked) simp

lemma sound_deny: "sound_step d (snd (deny_bound L B e d session handle registry))"
  unfolding deny_bound_def
  by (intro sound_with_consent sound_checked) (auto intro: sound_consent_row)

end
