(* ===== verification/System.thy ===== *)
theory System
  imports System_Invariant
begin

text \<open>
  The whole store as one transactional system: every operation of the credential, logout,
  browser and identity modules as a request, and the histories their interleavings produce.
\<close>

datatype browser_request =
    BeginGoogle env pending_authorization_grant "string option" "string option" bool
  | StartGoogle env uuid string string
  | CancelGoogle env uuid string string "client_registry option"
  | BeginAuthenticated env provider_session pending_authorization_grant "string option" "string option" bool
  | ClaimCallback env string string
  | FailCallback string
  | DenyCallback env string client_registry
  | CompleteCallback env string verified_google_identity duration "client_registry option"
  | Approve env provider_session consent_handle client_registry
  | ApprovePreAuthorized env provider_session consent_handle client_registry
  | ConsentView env provider_session consent_handle client_registry
  | Deny env provider_session consent_handle "client_registry option"

datatype logout_request =
    BeginLogout env provider_session string string "string option" client_registry
  | BeginLocal env provider_session string
  | Finish env provider_session logout_challenge client_registry
  | FinishHint env provider_session logout_challenge client_registry id_claims

datatype identity_request =
    FindOrCreate env external_identity
  | FindOrCreateGoogle env verified_google_identity

datatype request =
    CredentialRequest credential_request
  | BrowserRequest browser_request
  | LogoutRequest logout_request
  | IdentityRequest identity_request

fun run_browser :: "libs \<Rightarrow> binding_codec \<Rightarrow> browser_request \<Rightarrow> db \<Rightarrow> db" where
  "run_browser L B (BeginGoogle e p s n a) d = snd (begin_google_with_pre_authorization L B e d p s n a)"
| "run_browser L B (StartGoogle e i s b) d = snd (start_google L e d i s b)"
| "run_browser L B (CancelGoogle e i s b r) d = snd (cancel_google_bound L B e d i s b r)"
| "run_browser L B (BeginAuthenticated e v p s n a) d = snd (begin_authenticated_with_pre_authorization L B e d v p s n a)"
| "run_browser L B (ClaimCallback e s b) d = snd (claim_callback L e d s b)"
| "run_browser L B (FailCallback c) d = snd (fail_callback L d c)"
| "run_browser L B (DenyCallback e c r) d = snd (deny_callback L B e d c r)"
| "run_browser L B (CompleteCallback e c i t r) d = snd (complete_callback_bound L B e d c i t r)"
| "run_browser L B (Approve e v h r) d = snd (approve L B e d v h r)"
| "run_browser L B (ApprovePreAuthorized e v h r) d = snd (approve_pre_authorized L B e d v h r)"
| "run_browser L B (ConsentView e v h r) d = snd (consent_view L B e d v h r)"
| "run_browser L B (Deny e v h r) d = snd (deny_bound L B e d v h r)"

fun run_logout :: "libs \<Rightarrow> logout_request \<Rightarrow> db \<Rightarrow> db" where
  "run_logout L (BeginLogout e v c u s r) d = snd (begin_logout L e d v c u s r)"
| "run_logout L (BeginLocal e v u) d = snd (begin_local L e d v u)"
| "run_logout L (Finish e v c r) d = snd (finish L e d v c r)"
| "run_logout L (FinishHint e v c r h) d = snd (finish_hint L e d v c r h)"

fun run_identity :: "libs \<Rightarrow> identity_request \<Rightarrow> db \<Rightarrow> db" where
  "run_identity L (FindOrCreate e i) d = snd (find_or_create_external_identity e d i)"
| "run_identity L (FindOrCreateGoogle e i) d = snd (find_or_create_verified_google_identity L e d i)"

fun run_request :: "libs \<Rightarrow> binding_codec \<Rightarrow> request \<Rightarrow> transaction" where
  "run_request L B (CredentialRequest r) dq d0 d = run_credential L B r dq d0 d"
| "run_request L B (BrowserRequest r) dq d0 d = run_browser L B r d"
| "run_request L B (LogoutRequest r) dq d0 d = run_logout L r d"
| "run_request L B (IdentityRequest r) dq d0 d = run_identity L r d"

lemma sound_browser_request: "sound_step d (run_browser L B r d)"
  by (cases r) (simp_all add: sound_begin_google sound_start_google sound_cancel_google
      sound_begin_authenticated sound_claim_callback sound_fail_callback sound_deny_callback
      sound_complete_callback sound_approve sound_approve_pre sound_consent_view sound_deny)

lemma sound_logout_request: "sound_step d (run_logout L r d)"
  by (cases r) (simp_all add: sound_logout_ops)

lemma sound_identity_request: "sound_step d (run_identity L r d)"
  using sound_find_or_insert sound_upsert
  by (cases r) (auto simp: find_or_create_external_identity_def find_or_create_verified_google_identity_def
      split: option.splits)

lemma sound_request:
  assumes "db_inv d" "db_le dq d" "db_le d0 d"
  shows "sound_step d (run_request L B r dq d0 d)"
  by (cases r) (simp_all add: sound_credential [OF assms] sound_browser_request sound_logout_request
      sound_identity_request)

interpretation whole: transactional db_inv db_le "run_request L B" for L B
proof
  show "db_le d d" for d by simp
  show "db_le d d2" if "db_le d d1" "db_le d1 d2" for d d1 d2 using db_le_trans that .
  show "db_inv (run_request L B i dq d0 d)" "db_le d (run_request L B i dq d0 d)"
    if "db_inv d" "db_le dq d" "db_le d0 d" for L B d dq d0 i
    using sound_request [OF that] that(1) by (simp_all add: sound_step_def)
qed

text \<open>C19: Whatever operations of the four modules commit, in whatever order and with whatever
  stale snapshots, every state of the history satisfies the invariant of the database, and
  every later state extends every earlier one: no credential, browser authorization, logout
  challenge or identity disappears or changes what it was bound to, consumption and
  revocation are never undone, and browser authorizations follow the stage machine.\<close>

theorem every_history_is_sound:
  assumes "committed db_inv (range (run_request L B)) (g @ d # h)" and "d' \<in> set (g @ [d])"
  shows "db_inv d \<and> db_inv d' \<and> db_le d d'"
  using whole.history_inv [OF assms(1)] whole.history_grows [OF assms] assms(2) by auto

definition sc_create :: request where
  "sc_create = CredentialRequest (CreateSession (env_at (seconds 1000) 40) sc_user (from_secs 3600))"

theorem every_history_is_sound_witness:
  "db_inv (run_request ref_libs ref_codec sc_create sc_db0 sc_db0 sc_db0)
   \<and> db_le sc_db0 (run_request ref_libs ref_codec sc_create sc_db0 sc_db0 sc_db0)"
proof -
  have "db_inv sc_db0"
    by (simp add: db_inv_def sc_db0_def empty_db_def cred_inv_def sessions_wf_def codes_wf_def families_wf_def
        members_wf_def browser_inv_def keyed_def identity_inv_def)
  from committed_step [OF committed_start [of db_inv, OF this], of "run_request ref_libs ref_codec sc_create" _ sc_db0 sc_db0]
  have "committed db_inv (range (run_request ref_libs ref_codec))
      ([run_request ref_libs ref_codec sc_create sc_db0 sc_db0 sc_db0] @ sc_db0 # [])" by simp
  from every_history_is_sound [OF this] show ?thesis by simp
qed

end
