(* ===== verification/Browser_Properties.thy ===== *)
theory Browser_Properties
  imports System
begin

text \<open>
  What the browser flow and logout guarantee: callbacks are claimed once, consent is decided
  once, codes are issued for exactly the reviewed request, pre-authorization needs both the
  recorded choice and the current policy, policy errors roll back, and a logout challenge is
  spent once.
\<close>

section \<open>Outcomes of checked transactions\<close>

lemma checked_Inr_iff:
  "checked m d f = (Inr r, d') \<longleftrightarrow> (\<exists>v. m = Inr v \<and> f v = (Inr r, d'))"
  by (cases m) auto

lemma if_Inl_pair_iff: "(if P then (Inl err, d) else m) = (Inr r, d') \<longleftrightarrow> \<not> P \<and> m = (Inr r, d')"
  by simp

lemma case_None_pair_iff:
  "(case m of None \<Rightarrow> (Inl err, d) | Some (a, b) \<Rightarrow> f a b) = (Inr r, d') \<longleftrightarrow>
     (\<exists>a b. m = Some (a, b) \<and> f a b = (Inr r, d'))"
  by (auto split: option.splits)

lemmas outcome_iffs = checked_Inr_iff if_Inl_pair_iff case_None_pair_iff

lemma insert_or_Inr_iff:
  "insert_or m d f = (Inr r, d') \<longleftrightarrow> (\<exists>d1. m = Some d1 \<and> f d1 = (Inr r, d'))"
  by (cases m) auto

lemma browser_ensure_fresh_Inr:
  "browser_ensure_fresh now s x = Inr u \<longleftrightarrow> ps_revoked_at s = None \<and> now < ps_expires_at s \<and> is_none_or x (\<lambda>t. now < t)"
  by (cases x) (auto simp: browser_ensure_fresh_def)

lemma with_consent_Inr:
  assumes "with_consent L e d session handle f = (Inr r, d')"
  shows "\<exists>s row. session_by_id d (pv_id session) = Some s \<and> row \<in> set (db_browser d)
    \<and> ba_id row = ch_transaction_id handle \<and> ba_session_id row = Some (pv_id session)
    \<and> ba_csrf_hash row = Some (hash L (ch_csrf handle)) \<and> ba_stage row = AwaitingConsent
    \<and> ps_revoked_at s = None \<and> env_clock e 0 < ps_expires_at s \<and> env_clock e 0 < ba_expires_at row
    \<and> f s row = (Inr r, d')"
  using assms unfolding with_consent_def checked_Inr_iff lock_session_def browser_ensure_fresh_Inr
  by (auto dest!: lock_consentD)

text \<open>Nothing is decided twice: a row that left \<open>AwaitingConsent\<close> refuses every consent call.\<close>

lemma with_consent_decided:
  assumes "browser_inv (db_browser d)" "row \<in> set (db_browser d)" "ba_id row = ch_transaction_id handle"
    and "ba_stage row \<noteq> AwaitingConsent"
  shows "\<not> is_ok (fst (with_consent L e d session handle f))"
proof
  assume "is_ok (fst (with_consent L e d session handle f))"
  then obtain r d' where "with_consent L e d session handle f = (Inr r, d')"
    by (metis is_ok_iff prod.collapse)
  from with_consent_Inr [OF this] obtain q where q: "q \<in> set (db_browser d)"
    "ba_id q = ch_transaction_id handle" "ba_stage q = AwaitingConsent" by auto
  from browser_inv_same_row [OF assms(1,2) q(1)] q assms(3,4) show False by simp
qed

lemma row_later:
  assumes "db_le d d2" "row \<in> set (db_browser d)"
  shows "\<exists>row2 \<in> set (db_browser d2). browser_le row row2"
  using browsers.rows_member [OF db_leD(2) [OF assms(1)] assms(2)] .

lemma decided_later:
  assumes "row \<in> set (db_browser d)" "stage_rank (ba_stage row) = 4" "ba_id row = ch_transaction_id handle"
    and "db_le d d2" "db_inv d2"
  shows "\<not> is_ok (fst (with_consent L e d2 session handle f))"
proof -
  from row_later [OF assms(4,1)] obtain row2 where r2: "row2 \<in> set (db_browser d2)" "browser_le row row2" by blast
  then have "4 \<le> stage_rank (ba_stage row2)" using browser_leD [OF r2(2)] assms(2) by auto
  then have "ba_stage row2 \<noteq> AwaitingConsent" by auto
  moreover have "ba_id row2 = ch_transaction_id handle" using browser_leD [OF r2(2)] assms(3) by simp
  ultimately show ?thesis using with_consent_decided [OF db_invD(2) [OF assms(5)] r2(1)] by blast
qed

section \<open>Consent\<close>

lemma set_browser_member:
  "row \<in> set (db_browser d) \<Longrightarrow> ba_id row = bid \<Longrightarrow> f row \<in> set (db_browser (set_browser bid f d))"
  by (auto simp: set_browser_def set_update_where)

lemma set_browser_decided:
  assumes "row \<in> set (db_browser d)" "ba_id row = bid" "s = Approved \<or> s = Denied"
  shows "\<exists>q \<in> set (db_browser (set_browser bid (\<lambda>r. r\<lparr>ba_stage := s, ba_csrf_hash := None\<rparr>) d)).
     ba_id q = bid \<and> stage_rank (ba_stage q) = 4"
  using set_browser_member [OF assms(1,2), of "\<lambda>r. r\<lparr>ba_stage := s, ba_csrf_hash := None\<rparr>"] assms(2,3)
  by (intro bexI [of _ "row\<lparr>ba_stage := s, ba_csrf_hash := None\<rparr>"]) auto

lemma approve_Inr:
  assumes "approve L B e d session handle reg = (Inr out, d')"
  shows "\<exists>s row pending grant current d1. session_by_id d (pv_id session) = Some s
    \<and> row \<in> set (db_browser d) \<and> ba_id row = ch_transaction_id handle \<and> ba_session_id row = Some (pv_id session)
    \<and> ba_csrf_hash row = Some (hash L (ch_csrf handle)) \<and> ba_stage row = AwaitingConsent
    \<and> ps_revoked_at s = None \<and> env_clock e 0 < ps_expires_at s \<and> env_clock e 0 < ba_expires_at row
    \<and> revalidate L B e 0 reg row = Inr pending \<and> revalidate L B e 3 reg row = Inr current
    \<and> approve_grant (env_instant e 2) pending True = Inr grant
    \<and> insert_authorization_code_tx L B e 0 (env_clock e 1) d (pv_id session) grant (ba_oidc_nonce row)
        (ps_upstream_auth_time s) 60 = Some (co_code out, d1)
    \<and> d' = mark_approved (ch_transaction_id handle) d1
    \<and> co_redirect_uri out = ba_redirect_uri row \<and> co_downstream_state out = ba_downstream_state row"
proof -
  from with_consent_Inr [OF assms [unfolded approve_def]] obtain s row where
    row: "session_by_id d (pv_id session) = Some s" "row \<in> set (db_browser d)"
      "ba_id row = ch_transaction_id handle" "ba_session_id row = Some (pv_id session)"
      "ba_csrf_hash row = Some (hash L (ch_csrf handle))" "ba_stage row = AwaitingConsent"
      "ps_revoked_at s = None" "env_clock e 0 < ps_expires_at s" "env_clock e 0 < ba_expires_at row"
    and rest: "checked (revalidate L B e 0 reg row) d (\<lambda>pending.
     checked (map_err policy_error (approve_grant (env_instant e 2) pending True)) d (\<lambda>grant.
     (case insert_authorization_code_tx L B e 0 (env_clock e 1) d (pv_id session) grant (ba_oidc_nonce row)
             (ps_upstream_auth_time s) 60 of
        None \<Rightarrow> (Inl BrDatabase, d)
      | Some (code, d') \<Rightarrow>
        checked (revalidate L B e 3 reg row) d (\<lambda>_.
          (Inr \<lparr>co_code = code, co_redirect_uri = ba_redirect_uri row,
                co_downstream_state = ba_downstream_state row\<rparr>,
           mark_approved (ch_transaction_id handle) d'))))) = (Inr out, d')" by blast
  from rest obtain pending grant code d1 current where
    "revalidate L B e 0 reg row = Inr pending" "revalidate L B e 3 reg row = Inr current"
    "approve_grant (env_instant e 2) pending True = Inr grant"
    "insert_authorization_code_tx L B e 0 (env_clock e 1) d (pv_id session) grant (ba_oidc_nonce row)
        (ps_upstream_auth_time s) 60 = Some (code, d1)"
    "d' = mark_approved (ch_transaction_id handle) d1"
    "out = \<lparr>co_code = code, co_redirect_uri = ba_redirect_uri row, co_downstream_state = ba_downstream_state row\<rparr>"
    unfolding checked_Inr_iff by (auto simp: checked_Inr_iff split: option.splits)
  with row show ?thesis
    by (intro exI [of _ s] exI [of _ row] exI [of _ pending] exI [of _ grant] exI [of _ current] exI [of _ d1]) simp
qed

text \<open>The grant an approval issues is the stored request, revalidated.\<close>

lemma approved_grant:
  assumes "registry_wf reg" and "revalidate L B e k reg row = Inr pending"
    and "approve_grant now pending True = Inr grant"
  shows "vg_client_id grant = ba_client_id row \<and> vg_redirect_uri grant = ba_redirect_uri row
    \<and> set (vg_scopes grant) = set (ba_scopes row) \<and> vg_resource grant = ba_resource row
    \<and> vg_code_challenge grant = ba_code_challenge row
    \<and> vg_issue_refresh_token grant = (''offline_access'' \<in> set (ba_scopes row))
    \<and> trusted_redirect L reg (ba_client_id row) (ba_redirect_uri row)
    \<and> is_some_and (client_of reg (ba_client_id row)) (\<lambda>c. set (ba_scopes row) \<subseteq> fpc_scopes c)"
proof -
  from assms(2) have p: "validate_pending_parts L (env_instant e (k + 1)) reg (ba_client_id row) (ba_redirect_uri row)
       ''code'' ''S256'' (ba_code_challenge row) (ba_scopes row) (Some (ba_resource row)) = Inr pending"
    by (auto simp: revalidate_def and_then_Inr_iff)
  from validate_pending_parts_wf [OF assms(1) p] assms(3) show ?thesis
    by (auto simp: approve_grant_def and_then_Inr_iff Let_def grant_conditions_def)
qed

text \<open>C6: Consent issues a code for exactly the request the user reviewed: approval succeeds only
  for a live session, an unexpired browser authorization of that session awaiting consent and
  the matching CSRF secret, under a policy that accepts the stored request before and after
  the writes; the one code it adds carries the stored client, redirect, scopes, resource,
  challenge and nonce, lives at most 60 seconds, and is refreshable exactly when
  \<open>offline_access\<close> was requested; the authorization is then spent.\<close>

theorem approve_issues_reviewed_request:
  assumes "registry_wf reg" and "approve L B e d session handle reg = (Inr out, d')"
  shows "\<exists>s row code. session_by_id d (pv_id session) = Some s \<and> ps_revoked_at s = None \<and> env_clock e 0 < ps_expires_at s
    \<and> row \<in> set (db_browser d) \<and> ba_id row = ch_transaction_id handle \<and> ba_session_id row = Some (pv_id session)
    \<and> ba_csrf_hash row = Some (hash L (ch_csrf handle)) \<and> ba_stage row = AwaitingConsent
    \<and> env_clock e 0 < ba_expires_at row
    \<and> is_ok (revalidate L B e 0 reg row) \<and> is_ok (revalidate L B e 3 reg row)
    \<and> db_codes d' = db_codes d @ [code] \<and> ac_code_hash code = hash L (co_code out)
    \<and> ac_session_id code = pv_id session \<and> ac_client_id code = ba_client_id row
    \<and> ac_redirect_uri code = ba_redirect_uri row \<and> set (ac_scopes code) = set (ba_scopes row)
    \<and> ac_resource code = ba_resource row \<and> ac_code_challenge code = ba_code_challenge row
    \<and> ac_oidc_nonce code = ba_oidc_nonce row \<and> ac_consumed_at code = None
    \<and> ac_issue_refresh_token code = (''offline_access'' \<in> set (ba_scopes row))
    \<and> ac_expires_at code \<le> env_clock e 1 + seconds 60 \<and> ac_expires_at code \<le> ps_expires_at s
    \<and> co_redirect_uri out = ba_redirect_uri row \<and> co_downstream_state out = ba_downstream_state row
    \<and> row\<lparr>ba_stage := Approved, ba_csrf_hash := None\<rparr> \<in> set (db_browser d')"
proof -
  from approve_Inr [OF assms(2)] obtain s row pending grant current d1 where
    a: "session_by_id d (pv_id session) = Some s" "row \<in> set (db_browser d)"
      "ba_id row = ch_transaction_id handle" "ba_session_id row = Some (pv_id session)"
      "ba_csrf_hash row = Some (hash L (ch_csrf handle))" "ba_stage row = AwaitingConsent"
      "ps_revoked_at s = None" "env_clock e 0 < ps_expires_at s" "env_clock e 0 < ba_expires_at row"
      "revalidate L B e 0 reg row = Inr pending" "revalidate L B e 3 reg row = Inr current"
      "approve_grant (env_instant e 2) pending True = Inr grant"
    and ins: "insert_authorization_code_tx L B e 0 (env_clock e 1) d (pv_id session) grant (ba_oidc_nonce row)
        (ps_upstream_auth_time s) 60 = Some (co_code out, d1)"
    and d': "d' = mark_approved (ch_transaction_id handle) d1"
    and out: "co_redirect_uri out = ba_redirect_uri row" "co_downstream_state out = ba_downstream_state row" by blast
  from insert_authorization_code_txD [OF ins] obtain code where
    code: "ac_code_hash code = hash L (co_code out)" "ac_session_id code = pv_id session"
      "ac_client_id code = vg_client_id grant" "ac_redirect_uri code = vg_redirect_uri grant"
      "ac_scopes code = vg_scopes grant" "ac_resource code = vg_resource grant"
      "ac_code_challenge code = vg_code_challenge grant" "ac_issue_refresh_token code = vg_issue_refresh_token grant"
      "ac_consumed_at code = None" "ac_expires_at code \<le> env_clock e 1 + seconds (int 60)"
      "\<forall>s. session_by_id d (pv_id session) = Some s \<longrightarrow> ac_expires_at code \<le> ps_expires_at s"
      "ac_oidc_nonce code = ba_oidc_nonce row" "db_codes d1 = db_codes d @ [code]" by blast
  note g = approved_grant [OF assms(1) a(10,12)]
  have "db_codes d' = db_codes d @ [code]" by (simp add: d' mark_approved_def set_browser_def code(13))
  moreover have "row\<lparr>ba_stage := Approved, ba_csrf_hash := None\<rparr> \<in> set (db_browser d')"
    using set_browser_member [of row d1 "ch_transaction_id handle" "\<lambda>r. r\<lparr>ba_stage := Approved, ba_csrf_hash := None\<rparr>"]
      a(2,3) other_tables_insert_code_tx [OF ins]
    by (simp add: d' mark_approved_def other_tables_def)
  ultimately show ?thesis
    using a code g out by (intro exI [of _ s] exI [of _ row] exI [of _ code]) simp
qed

text \<open>An authorization that has been approved or denied.\<close>

definition decided :: "db \<Rightarrow> uuid \<Rightarrow> bool" where
  "decided d tid \<longleftrightarrow> (\<exists>row \<in> set (db_browser d). ba_id row = tid \<and> stage_rank (ba_stage row) = 4)"

lemma approve_decides:
  assumes "approve L B e d session handle reg = (Inr out, d1)"
  shows "decided d1 (ch_transaction_id handle)"
proof -
  from approve_Inr [OF assms] obtain row grant and s :: provider_session_row and d0 where row: "row \<in> set (db_browser d)"
    "ba_id row = ch_transaction_id handle" and ins: "insert_authorization_code_tx L B e 0 (env_clock e 1) d
      (pv_id session) grant (ba_oidc_nonce row) (ps_upstream_auth_time s) 60 = Some (co_code out, d0)"
    and d1: "d1 = mark_approved (ch_transaction_id handle) d0" by blast
  have "row \<in> set (db_browser d0)"
    using other_tables_insert_code_tx [OF ins] row(1) by (simp add: other_tables_def)
  from set_browser_decided [OF this row(2)] show ?thesis unfolding decided_def d1 mark_approved_def by simp
qed

lemma pre_approve_decides:
  assumes "approve_pre_authorized L B e d session handle reg = (Inr (Some out), d1)"
  shows "decided d1 (ch_transaction_id handle)"
proof -
  from with_consent_Inr [OF assms [unfolded approve_pre_authorized_def]] obtain s row where
    row: "row \<in> set (db_browser d)" "ba_id row = ch_transaction_id handle"
    and rest: "checked (revalidate L B e 0 reg row) d (\<lambda>pending.
   if \<not> ba_allow_pre_authorization row \<or> \<not> pre_authorizes reg pending then (Inr None, d)
   else checked (map_err policy_error (approve_grant (env_instant e 2) pending True)) d (\<lambda>grant.
   (case insert_authorization_code_tx L B e 0 (env_clock e 1) d (pv_id session) grant (ba_oidc_nonce row)
           (ps_upstream_auth_time s) 60 of
      None \<Rightarrow> (Inl BrDatabase, d)
    | Some (code, d') \<Rightarrow>
      checked (revalidate L B e 3 reg row) d (\<lambda>current.
      if \<not> pre_authorizes reg current then (Inl BrPolicyChanged, d)
      else checked (browser_ensure_fresh (env_clock e 2) s (Some (ba_expires_at row))) d (\<lambda>_.
        (Inr (Some \<lparr>co_code = code, co_redirect_uri = ba_redirect_uri row,
                    co_downstream_state = ba_downstream_state row\<rparr>),
         mark_approved (ch_transaction_id handle) d')))))) = (Inr (Some out), d1)" by blast
  then obtain grant code d0 where ins: "insert_authorization_code_tx L B e 0 (env_clock e 1) d
      (pv_id session) grant (ba_oidc_nonce row) (ps_upstream_auth_time s) 60 = Some (code, d0)"
    and d1: "d1 = mark_approved (ch_transaction_id handle) d0"
    unfolding checked_Inr_iff by (auto simp: checked_Inr_iff split: option.splits if_splits)
  have "row \<in> set (db_browser d0)"
    using other_tables_insert_code_tx [OF ins] row(1) by (simp add: other_tables_def)
  from set_browser_decided [OF this row(2)] show ?thesis unfolding decided_def d1 mark_approved_def by simp
qed

lemma deny_decides:
  assumes "deny_bound L B e d session handle registry = (Inr out, d1)"
  shows "decided d1 (ch_transaction_id handle)"
proof -
  from with_consent_Inr [OF assms [unfolded deny_bound_def]] obtain row where
    row: "row \<in> set (db_browser d)" "ba_id row = ch_transaction_id handle"
    and d1: "d1 = set_browser (ch_transaction_id handle) (\<lambda>r. r\<lparr>ba_stage := Denied, ba_csrf_hash := None\<rparr>) d"
    by (auto simp: checked_Inr_iff)
  from set_browser_decided [OF row] show ?thesis unfolding decided_def d1 by simp
qed

lemma with_consent_after_decision:
  assumes "decided d1 (ch_transaction_id handle)" "db_le d1 d2" "db_inv d2"
  shows "\<not> is_ok (fst (with_consent L e d2 session handle f))"
  using assms decided_later unfolding decided_def by blast

text \<open>Consent is decided once.  After an approval, a pre-authorized approval or a denial, every
  later consent operation on that authorization (approval, pre-authorized approval, denial,
  or showing the page) is refused, with any session, CSRF secret and registry.\<close>

theorem consent_decided_once:
  assumes "(\<exists>out. approve L B e d session handle reg = (Inr out, d1))
      \<or> (\<exists>out. approve_pre_authorized L B e d session handle reg = (Inr (Some out), d1))
      \<or> (\<exists>out. deny_bound L B e d session handle registry = (Inr out, d1))"
    and "db_le d1 d2" and "db_inv d2" and "ch_transaction_id handle' = ch_transaction_id handle"
  shows "\<not> is_ok (fst (approve L B e' d2 session' handle' reg'))
    \<and> \<not> is_ok (fst (approve_pre_authorized L B e' d2 session' handle' reg'))
    \<and> \<not> is_ok (fst (deny_bound L B e' d2 session' handle' registry'))
    \<and> \<not> is_ok (fst (consent_view L B e' d2 session' handle' reg'))"
proof -
  have dead: "\<not> is_ok (fst (with_consent L e' d2 session' handle' f))" for f :: "provider_session_row \<Rightarrow> browser_row \<Rightarrow> (browser_error + 'c) \<times> db"
    using with_consent_after_decision [OF _ assms(2,3)] approve_decides pre_approve_decides deny_decides assms(1,4)
    by metis
  show ?thesis
    unfolding approve_def approve_pre_authorized_def deny_bound_def consent_view_def by (intro conjI dead)
qed

section \<open>Pre-authorization\<close>

text \<open>C21: Consent is skipped only with the operator's policy and the transaction's own record
  together: a pre-authorized approval produces a code only if the browser authorization
  recorded the choice when it began and the registry pre-authorizes the revalidated request,
  and otherwise it answers \<open>None\<close> and leaves the database as it was, so the interactive page
  remains possible; it never answers with a code for a dynamic client.\<close>

theorem pre_authorization_needs_both:
  assumes "registry_wf reg" and "approve_pre_authorized L B e d session handle reg = (Inr outcome, d')"
  shows "case outcome of None \<Rightarrow> d' = d
    | Some out \<Rightarrow> (\<exists>row pending client. row \<in> set (db_browser d) \<and> ba_id row = ch_transaction_id handle
        \<and> ba_stage row = AwaitingConsent \<and> ba_csrf_hash row = Some (hash L (ch_csrf handle))
        \<and> ba_allow_pre_authorization row \<and> revalidate L B e 0 reg row = Inr pending \<and> pre_authorizes reg pending
        \<and> reg_dynamic reg = None \<and> client_of reg (ba_client_id row) = Some client
        \<and> fpc_authorization_flow client = GooglePreauthorized
        \<and> ba_resource row \<in> fpc_resources client \<and> set (ba_scopes row) \<subseteq> fpc_scopes client
        \<and> (\<exists>r \<in> set (fpc_redirects client). rr_kind r = AppClaimedHttps \<and> rr_uri r = ba_redirect_uri row)
        \<and> co_redirect_uri out = ba_redirect_uri row)"
proof -
  from with_consent_Inr [OF assms(2) [unfolded approve_pre_authorized_def]] obtain s row where
    row: "row \<in> set (db_browser d)" "ba_id row = ch_transaction_id handle" "ba_stage row = AwaitingConsent"
      "ba_csrf_hash row = Some (hash L (ch_csrf handle))"
    and rest: "checked (revalidate L B e 0 reg row) d (\<lambda>pending.
     if \<not> ba_allow_pre_authorization row \<or> \<not> pre_authorizes reg pending then (Inr None, d)
     else checked (map_err policy_error (approve_grant (env_instant e 2) pending True)) d (\<lambda>grant.
     (case insert_authorization_code_tx L B e 0 (env_clock e 1) d (pv_id session) grant (ba_oidc_nonce row)
             (ps_upstream_auth_time s) 60 of
        None \<Rightarrow> (Inl BrDatabase, d)
      | Some (code, d') \<Rightarrow>
        checked (revalidate L B e 3 reg row) d (\<lambda>current.
        if \<not> pre_authorizes reg current then (Inl BrPolicyChanged, d)
        else checked (browser_ensure_fresh (env_clock e 2) s (Some (ba_expires_at row))) d (\<lambda>_.
          (Inr (Some \<lparr>co_code = code, co_redirect_uri = ba_redirect_uri row,
                      co_downstream_state = ba_downstream_state row\<rparr>),
           mark_approved (ch_transaction_id handle) d')))))) = (Inr outcome, d')" by blast
  from rest obtain pending where pending: "revalidate L B e 0 reg row = Inr pending"
    by (auto simp: checked_Inr_iff)
  show ?thesis
  proof (cases outcome)
    case None
    with rest pending show ?thesis by (auto simp: checked_def split: sum.splits option.splits if_splits)
  next
    case (Some out)
    with rest pending have both: "ba_allow_pre_authorization row" "pre_authorizes reg pending"
      "co_redirect_uri out = ba_redirect_uri row"
      by (auto simp: checked_def split: sum.splits option.splits if_splits)
    from pending have p: "validate_pending_parts L (env_instant e 1) reg (ba_client_id row) (ba_redirect_uri row)
       ''code'' ''S256'' (ba_code_challenge row) (ba_scopes row) (Some (ba_resource row)) = Inr pending"
      by (auto simp: revalidate_def and_then_Inr_iff)
    from validate_pending_parts_wf [OF assms(1) p] have "pg_client_id pending = ba_client_id row"
      "pg_redirect_uri pending = ba_redirect_uri row" "set (pg_scopes pending) = set (ba_scopes row)"
      "pg_resource pending = ba_resource row" by auto
    with both(2) obtain client where "reg_dynamic reg = None" "client_of reg (ba_client_id row) = Some client"
        "fpc_authorization_flow client = GooglePreauthorized"
        "ba_resource row \<in> fpc_resources client" "set (ba_scopes row) \<subseteq> fpc_scopes client"
        "\<exists>r \<in> set (fpc_redirects client). rr_kind r = AppClaimedHttps \<and> rr_uri r = ba_redirect_uri row"
      by (auto simp: pre_authorizes_def is_some_and_iff)
    with Some row pending both show ?thesis by auto
  qed
qed

section \<open>The callback\<close>

lemma claim_callback_Inr:
  assumes "claim_callback L e d state binding = (Inr (claim, verifier, nonce), d')"
  shows "\<exists>row. row \<in> set (db_browser d) \<and> ba_upstream_state_hash row = Some (hash L state)
    \<and> ba_browser_binding_hash row = Some (hash L binding) \<and> ba_stage row = AwaitingGoogle
    \<and> ba_upstream_verifier row = Some verifier \<and> ba_upstream_nonce row = Some nonce
    \<and> env_clock e 0 < ba_expires_at row \<and> claim = random_credential L e 0
    \<and> d' = set_browser (ba_id row) (\<lambda>r. r\<lparr>ba_stage := CallbackClaimed,
                     ba_claim_hash := Some (hash L claim), ba_upstream_verifier := None\<rparr>) d"
  using assms by (auto simp: claim_callback_def Let_def dest!: find_Some_set split: option.splits if_splits)

text \<open>A Google callback is claimed at most once: after a claim for a state value, no later claim
  for that state succeeds, whatever browser binding it presents, so the upstream verifier is
  handed out once.\<close>

theorem callback_claimed_once:
  assumes "db_inv d" and "claim_callback L e d state binding = (Inr (claim, verifier, nonce), d1)"
    and "db_le d1 d2" and "db_inv d2"
  shows "\<not> is_ok (fst (claim_callback L e' d2 state binding'))"
proof
  assume "is_ok (fst (claim_callback L e' d2 state binding'))"
  then obtain claim' verifier' nonce' d3 where
    "claim_callback L e' d2 state binding' = (Inr (claim', verifier', nonce'), d3)"
    by (metis is_ok_iff prod.collapse)
  from claim_callback_Inr [OF this] obtain row2 where
    row2: "row2 \<in> set (db_browser d2)" "ba_upstream_state_hash row2 = Some (hash L state)" "ba_stage row2 = AwaitingGoogle"
    by blast
  from claim_callback_Inr [OF assms(2)] obtain row where
    row: "row \<in> set (db_browser d)" "ba_upstream_state_hash row = Some (hash L state)"
    and d1: "d1 = set_browser (ba_id row) (\<lambda>r. r\<lparr>ba_stage := CallbackClaimed,
                     ba_claim_hash := Some (hash L claim), ba_upstream_verifier := None\<rparr>) d" by blast
  let ?row = "row\<lparr>ba_stage := CallbackClaimed, ba_claim_hash := Some (hash L claim), ba_upstream_verifier := None\<rparr>"
  have "?row \<in> set (db_browser d1)"
    unfolding d1 by (rule set_browser_member [OF row(1) refl, of "\<lambda>r. r\<lparr>ba_stage := CallbackClaimed,
        ba_claim_hash := Some (hash L claim), ba_upstream_verifier := None\<rparr>"])
  from row_later [OF assms(3) this] obtain later where
    later: "later \<in> set (db_browser d2)" "browser_le ?row later" by blast
  have "ba_upstream_state_hash later = Some (hash L state)" "2 \<le> stage_rank (ba_stage later)"
    using browser_leD [OF later(2)] row(2) by auto
  with browser_inv_same_row [OF db_invD(2) [OF assms(4)] later(1) row2(1), of _ "hash L state"] row2(2,3)
  show False by simp
qed

text \<open>C22: Completing a login binds the new session to the Google identity that was verified: on
  success the database has one more session, unrevoked, of the given lifetime, belonging to
  the one user of that Google subject, whose profile is the verified one; the browser
  authorization awaits consent under that session and its new CSRF secret, and the claim is
  used up.  On any error the database is as before, except that an authorization found
  expired is marked so; no session or identity is left behind.\<close>

theorem complete_callback_exact:
  assumes "db_inv d" and "complete_callback_bound L B e d claim identity lifetime registry = (out, d')"
  shows "case out of
      Inl err \<Rightarrow> d' = d \<or> (\<exists>row. claimed_row L d claim = Some row
          \<and> d' = set_browser (ba_id row) (\<lambda>r. r\<lparr>ba_stage := Expired\<rparr>) d)
    | Inr login \<Rightarrow> (\<exists>row secs s uid. claimed_row L d claim = Some row
        \<and> browser_bounded_seconds lifetime (30 * 24 * 60 * 60) = Inr secs
        \<and> is_ok (validate_optional_registry L B e 0 registry row)
        \<and> is_ok (validate_optional_registry L B e 6 registry row)
        \<and> env_clock e 1 < ba_expires_at row
        \<and> db_sessions d' = db_sessions d @ [s] \<and> ps_id s = pv_id (lgc_session login)
        \<and> ps_token_hash s = hash L (pv_raw (lgc_session login)) \<and> ps_revoked_at s = None
        \<and> ps_user_id s = uid \<and> ps_expires_at s = ps_auth_time s + seconds (int secs)
        \<and> identity_user d' GOOGLE_ISSUER (vgi_subject identity) = Some uid
        \<and> find_profile d' uid = Some (vgi_profile identity)
        \<and> row\<lparr>ba_stage := AwaitingConsent, ba_session_id := Some (ps_id s),
              ba_csrf_hash := Some (hash L (ch_csrf (lgc_consent login))), ba_claim_hash := None\<rparr> \<in> set (db_browser d')
        \<and> ch_transaction_id (lgc_consent login) = ba_id row)"
proof (cases out)
  case (Inl err)
  with assms(2) show ?thesis
    unfolding complete_callback_bound_def
    by (auto simp: checked_def Let_def split: sum.splits option.splits if_splits)
next
  case (Inr login)
  from assms(2) [unfolded Inr] obtain secs row session d1 where
    row: "claimed_row L d claim = Some row" and secs: "browser_bounded_seconds lifetime (30 * 24 * 60 * 60) = Inr secs"
    and pol: "is_ok (validate_optional_registry L B e 0 registry row)" "is_ok (validate_optional_registry L B e 6 registry row)"
    and stage: "stage_login L e d identity secs = Some (session, d1)" and time: "env_clock e 1 < ba_expires_at row"
    and login: "lgc_session login = session" "ch_transaction_id (lgc_consent login) = ba_id row"
    and d': "d' = set_browser (ba_id row) (\<lambda>r. r\<lparr>ba_stage := AwaitingConsent, ba_session_id := Some (pv_id session),
             ba_csrf_hash := Some (hash L (ch_csrf (lgc_consent login))), ba_claim_hash := None\<rparr>) d1"
    unfolding complete_callback_bound_def Let_def outcome_iffs
    by (auto simp: is_ok_iff not_le)
  from stage_loginD [OF stage] obtain uid d0 s where
    up: "upsert_verified_google_identity_tx d (env_uuid e 1) identity (env_clock e 0) = Some (uid, d0)"
    and ins: "insert_session d0 s = Some d1"
    and s: "ps_id s = pv_id session" "ps_token_hash s = hash L (pv_raw session)" "ps_user_id s = uid"
      "ps_revoked_at s = None" "ps_expires_at s = ps_auth_time s + seconds (int secs)" by auto
  have d1: "d1 = d0\<lparr>db_sessions := db_sessions d0 @ [s]\<rparr>"
    using ins by (auto simp: insert_session_def split: if_splits)
  have "db_sessions d0 = db_sessions d"
    using up unfolding upsert_verified_google_identity_tx_def
    by (auto dest!: find_or_insert_identityD simp: upsert_profile_def Let_def split: option.splits)
  then have "db_sessions d' = db_sessions d @ [s]" by (simp add: d' d1 set_browser_def)
  moreover have "identity_user d' GOOGLE_ISSUER (vgi_subject identity) = Some uid"
    "find_profile d' uid = Some (vgi_profile identity)"
    using upsert_users [OF up assms(1)] by (simp_all add: d' d1 set_browser_def identity_user_def find_profile_def)
  moreover have "row\<lparr>ba_stage := AwaitingConsent, ba_session_id := Some (ps_id s),
              ba_csrf_hash := Some (hash L (ch_csrf (lgc_consent login))), ba_claim_hash := None\<rparr> \<in> set (db_browser d')"
    using set_browser_member [of row d1 "ba_id row" "\<lambda>r. r\<lparr>ba_stage := AwaitingConsent, ba_session_id := Some (pv_id session),
             ba_csrf_hash := Some (hash L (ch_csrf (lgc_consent login))), ba_claim_hash := None\<rparr>"]
      stage_login_sound(2) [OF stage] claimed_rowD [OF row] by (simp add: d' s(1))
  ultimately show ?thesis
    using row secs pol time login s Inr
    by (auto intro!: exI [of _ row] exI [of _ secs] exI [of _ s] exI [of _ uid])
qed

text \<open>C30: A refused step leaves no trace: when a client's policy changed, its metadata lease ran
  out, or anything else refuses the operation, beginning, cancelling, denying and approving
  leave the database exactly as it was.\<close>

theorem refused_browser_steps_roll_back:
  "(is_ok (fst (begin_google_with_pre_authorization L B e d pending state nonce allow))
      \<or> snd (begin_google_with_pre_authorization L B e d pending state nonce allow) = d)
   \<and> (is_ok (fst (begin_authenticated_with_pre_authorization L B e d session pending state nonce allow))
      \<or> snd (begin_authenticated_with_pre_authorization L B e d session pending state nonce allow) = d)
   \<and> (is_ok (fst (cancel_google_bound L B e d tid st binding registry))
      \<or> snd (cancel_google_bound L B e d tid st binding registry) = d)
   \<and> (is_ok (fst (deny_callback L B e d claim reg)) \<or> snd (deny_callback L B e d claim reg) = d)
   \<and> (is_ok (fst (approve L B e d session handle reg)) \<or> snd (approve L B e d session handle reg) = d)
   \<and> (is_ok (fst (approve_pre_authorized L B e d session handle reg))
      \<or> snd (approve_pre_authorized L B e d session handle reg) = d)
   \<and> (is_ok (fst (deny_bound L B e d session handle registry)) \<or> snd (deny_bound L B e d session handle registry) = d)"
proof -
  have c: "is_ok (fst (checked m d f)) \<or> snd (checked m d f) = d"
    if "\<And>v. m = Inr v \<Longrightarrow> is_ok (fst (f v)) \<or> snd (f v) = d" for m :: "'z + 'y" and f :: "'y \<Rightarrow> ('z + 'x) \<times> db"
    using that by (cases m) auto
  have i: "is_ok (fst (insert_or m d f)) \<or> snd (insert_or m d f) = d"
    if "\<And>v. m = Some v \<Longrightarrow> is_ok (fst (f v)) \<or> snd (f v) = d" for m and f :: "db \<Rightarrow> (browser_error + 'x) \<times> db"
    using that by (cases m) auto
  show ?thesis
    unfolding begin_google_with_pre_authorization_def begin_authenticated_with_pre_authorization_def
      cancel_google_bound_def deny_callback_def approve_def approve_pre_authorized_def deny_bound_def
      with_consent_def Let_def
    by (intro conjI c i) (auto simp: checked_def split: sum.splits option.splits)
qed

end
