(* ===== verification/Session_Properties.thy ===== *)
theory Session_Properties
  imports Browser_Properties
begin

text \<open>
  Logout challenges, identities, and the concrete browser history the witnesses of the two
  property theories use.
\<close>

section \<open>Logout challenges\<close>

lemma challenge_later:
  assumes "db_le d d2" "row \<in> set (db_logouts d)" "lc_consumed_at row \<noteq> None"
  shows "row \<in> set (db_logouts d2)"
  using logouts.rows_member [OF db_leD(3) [OF assms(1)] assms(2)] assms(3) by (auto simp: logout_le_def)

text \<open>A logout challenge is spent once, and spending it ends the session: after a completed
  logout no later completion with the same challenge succeeds, the session is revoked and
  every refresh family under it is revoked in every later state; the challenge belonged to the
  session, matched the CSRF secret, was unspent and unexpired, and the browser is sent to its
  stored redirect, still registered for the challenge's client unless the logout was local.\<close>

theorem logout_challenge_spent_once:
  assumes "db_inv d" and "finish_inner L e d session challenge reg hint = (Inr (Some out), d1)"
    and "db_le d1 d2" and "db_inv d2"
  shows "(\<forall>e' session' challenge' reg' hint' x. lch_id challenge' = lch_id challenge \<longrightarrow>
       fst (finish_inner L e' d2 session' challenge' reg' hint') \<noteq> Inr (Some x))
    \<and> (\<exists>row \<in> set (db_logouts d). lc_id row = lch_id challenge \<and> lc_session_id row = pv_id session
        \<and> lc_csrf_hash row = hash L (lch_csrf challenge) \<and> lc_consumed_at row = None \<and> env_clock e 0 < lc_expires_at row
        \<and> lo_redirect_uri out = lc_redirect_uri row \<and> lo_state out = lc_downstream_state row
        \<and> (lc_client_id row = [] \<or> valid_post_logout_redirect reg (lc_client_id row) (lo_redirect_uri out)))
    \<and> (\<forall>s. session_by_id d2 (pv_id session) = Some s \<longrightarrow> ps_revoked_at s \<noteq> None)
    \<and> (\<forall>f \<in> set (db_families d2). rf_session_id f = pv_id session \<longrightarrow> rf_revoked_at f \<noteq> None)"
proof -
  from finish_inner_cases [OF assms(2)] obtain s row where
    s: "session_by_id d (pv_id session) = Some s" and row: "row \<in> set (db_logouts d)" "lc_id row = lch_id challenge"
      "lc_client_id row = [] \<or> valid_post_logout_redirect reg (lc_client_id row) (lc_redirect_uri row)"
      "lc_session_id row = pv_id session" "lc_csrf_hash row = hash L (lch_csrf challenge)"
      "lc_consumed_at row = None" "env_clock e 0 < lc_expires_at row"
    and out: "lo_redirect_uri out = lc_redirect_uri row" "lo_state out = lc_downstream_state row"
    and d1: "d1 = end_session (pv_id session) (env_clock e 0) (env_clock e 0)
                 (consume_challenge (lch_id challenge) (env_clock e 0) d)" by auto
  let ?row = "row\<lparr>lc_consumed_at := Some (env_clock e 0)\<rparr>" and ?d0 = "consume_challenge (lch_id challenge) (env_clock e 0) d"
  have "?row \<in> set (db_logouts d1)"
    using row(1,2) by (auto simp: d1 end_session_def revoke_families_def revoke_session_def consume_challenge_def set_update_where)
  from challenge_later [OF assms(3) this] have spent: "?row \<in> set (db_logouts d2)" by simp
  have once: "fst (finish_inner L e' d2 session' challenge' reg' hint') \<noteq> Inr (Some x)"
    if "lch_id challenge' = lch_id challenge" for e' session' challenge' reg' hint' x
  proof
    assume "fst (finish_inner L e' d2 session' challenge' reg' hint') = Inr (Some x)"
    then obtain d3 where "finish_inner L e' d2 session' challenge' reg' hint' = (Inr (Some x), d3)"
      by (metis prod.collapse)
    from finish_inner_cases [OF this] obtain q where
      "q \<in> set (db_logouts d2)" "lc_id q = lch_id challenge'" "lc_consumed_at q = None" by auto
    with distinct_key_eq [OF db_invD(3) [OF assms(4)] spent, of q] that row(2) show False by auto
  qed
  have same: "same_creds d ?d0" by (simp add: same_creds_def consume_challenge_def)
  have "cred_inv ?d0" using cred_inv_same [OF same] db_invD(1) [OF assms(1)] by simp
  moreover have "session_by_id ?d0 (pv_id session) = Some s"
    using s by (simp add: session_by_id_def consume_challenge_def)
  ultimately obtain s1 where "session_by_id d1 (pv_id session) = Some s1" "ps_revoked_at s1 \<noteq> None"
    unfolding d1 using end_session_revokes by blast
  from session_revoked_later [OF this db_leD(1) [OF assms(3)] db_invD(1) [OF assms(4)]]
  have dead: "ps_revoked_at s2 \<noteq> None" if "session_by_id d2 (pv_id session) = Some s2" for s2 using that .
  have fams: "rf_revoked_at f \<noteq> None" if f: "f \<in> set (db_families d2)" "rf_session_id f = pv_id session" for f
  proof -
    from db_invD(1) [OF assms(4)] f(1) obtain s2 where s2: "s2 \<in> set (db_sessions d2)" "under_session f s2"
      unfolding cred_inv_def families_wf_def by blast
    from by_key_SomeI(1) [OF db_invD(1) [OF assms(4)] s2(1)] s2(2) f(2) dead [of s2]
    show ?thesis by (simp add: under_session_def)
  qed
  show ?thesis using once dead fams row out by (intro conjI bexI [of _ row]) auto
qed

text \<open>Skipping the logout page needs an identity token of this very session: a hint completes
  the logout only if its audience is the challenge's client, that client's registration allows
  identity-token logout, its subject is the session's user, its \<open>sid\<close> the session, and it was
  issued after the login and not in the future (30 seconds of skew either way); a hint that
  does not complete the logout changes nothing.\<close>

theorem id_token_hint_exact:
  assumes "finish_hint L e d session challenge reg hint = (out, d')"
  shows "(\<forall>x. out = Inr (Some x) \<longrightarrow> (\<exists>s row. session_by_id d (pv_id session) = Some s \<and> row \<in> set (db_logouts d)
        \<and> lc_id row = lch_id challenge \<and> lc_csrf_hash row = hash L (lch_csrf challenge)
        \<and> idc_aud hint = lc_client_id row \<and> allows_id_token_logout reg (lc_client_id row)
        \<and> idc_sub hint = ps_user_id s \<and> idc_sid hint = Some (pv_id session)
        \<and> timestamp (ps_auth_time s) - 30 \<le> idc_iat hint \<and> idc_iat hint \<le> timestamp (env_clock e 0) + 30
        \<and> idc_iat hint < idc_exp hint))
    \<and> ((\<forall>x. out \<noteq> Inr (Some x)) \<longrightarrow> d' = d)"
  using finish_inner_cases [OF assms [unfolded finish_hint_def]]
  by (auto simp: hint_malformed_def hint_unusable_def not_le not_less CLOCK_SKEW_SECONDS_def)

section \<open>Identities\<close>

lemma identity_user_later:
  assumes "identity_user d issuer subject = Some uid" "db_le d d2" "db_inv d2"
  shows "identity_user d2 issuer subject = Some uid"
proof -
  from identity_user_Some [OF assms(1)] obtain r where
    r: "r \<in> set (db_identities d)" "identity_key r = (issuer, subject)" "ei_user_id r = uid" by blast
  have "r \<in> set (db_identities d2)" using r(1) assms(2) by (auto simp: db_le_def identities_le_def)
  from identity_user_known [OF db_invD(4) [OF assms(3)] this r(2)] r(3) show ?thesis by simp
qed

text \<open>A Google subject is one user for ever: two logins, at any two moments of any history,
  end in the same local user exactly when they carry the same Google subject, and the later
  login leaves that user's profile as Google last verified it.\<close>

theorem google_subject_is_one_user:
  assumes "db_inv d" and "find_or_create_verified_google_identity L e d identity = (Inr user, d1)"
    and "db_le d1 d2" and "db_inv d2"
    and "find_or_create_verified_google_identity L e' d2 identity' = (Inr user', d3)"
  shows "(au_id user' = au_id user \<longleftrightarrow> vgi_subject identity' = vgi_subject identity)
    \<and> find_profile d3 (au_id user') = Some (vgi_profile identity')"
proof -
  from assms(2) have up: "upsert_verified_google_identity_tx d (env_uuid e 0) identity (env_clock e 0) = Some (au_id user, d1)"
    by (auto simp: find_or_create_verified_google_identity_def split: option.splits)
  from assms(5) have up': "upsert_verified_google_identity_tx d2 (env_uuid e' 0) identity' (env_clock e' 0) = Some (au_id user', d3)"
    by (auto simp: find_or_create_verified_google_identity_def split: option.splits)
  have first: "identity_user d1 GOOGLE_ISSUER (vgi_subject identity) = Some (au_id user)"
    by (rule upsert_users(1) [OF up assms(1)])
  note later = upsert_users [OF up' assms(4)]
  from sound_upsert [OF up'] assms(4) have d3: "db_le d2 d3" "db_inv d3" by (auto simp: sound_step_def)
  from identity_user_later [OF first db_le_trans [OF assms(3) d3(1)] d3(2)]
  have old: "identity_user d3 GOOGLE_ISSUER (vgi_subject identity) = Some (au_id user)" .
  have "vgi_subject identity' = vgi_subject identity" if "au_id user' = au_id user"
  proof -
    from identity_user_Some [OF old] identity_user_Some [OF later(1)] obtain r r' where
      r: "r \<in> set (db_identities d3)" "identity_key r = (GOOGLE_ISSUER, vgi_subject identity)" "ei_user_id r = au_id user"
        "r' \<in> set (db_identities d3)" "identity_key r' = (GOOGLE_ISSUER, vgi_subject identity')" "ei_user_id r' = au_id user'"
      by blast
    have "r' = r"
      using d3(2) that r by (intro distinct_key_eq [of ei_user_id "db_identities d3"]) (auto simp: db_inv_def identity_inv_def)
    with r show ?thesis by simp
  qed
  then show ?thesis using old later by auto
qed

section \<open>A browser history\<close>

lemma run_ok: "is_ok (fst p) \<Longrightarrow> p = (Inr (projr (fst p)), snd p)"
  by (cases p; cases "fst p") auto

lemma sc_db0_db_inv [simp]: "db_inv sc_db0"
  by (simp add: db_inv_def sc_db0_def empty_db_def cred_inv_def sessions_wf_def codes_wf_def families_wf_def
      members_wf_def browser_inv_def keyed_def identity_inv_def)

definition bw_consent where
  "bw_consent = begin_authenticated_with_pre_authorization ref_libs ref_codec (env_at (seconds 1002) 45) sc_db1
     sc_session ref_pending (Some ''s'') (Some ''n'') True"

definition bw_handle :: consent_handle where
  "bw_handle = \<lparr>ch_transaction_id = 45, ch_csrf = sc_secret 45\<rparr>"

definition bw_approve where
  "bw_approve = approve ref_libs ref_codec (env_at (seconds 1003) 46) (snd bw_consent) sc_session bw_handle ref_registry"

lemma bw_approve_ok: "is_ok (fst bw_approve)"
  by code_simp

lemma sc_db1_db_inv [simp]: "db_inv sc_db1"
proof -
  have "sound_step sc_db0 sc_db1"
    using sound_credential [of sc_db0 sc_db0 sc_db0 ref_libs ref_codec
        "CreateSession (env_at (seconds 1000) 40) sc_user (from_secs 3600)"] sc_open by simp
  then show ?thesis by (simp add: sound_step_def)
qed

lemma bw_inv [simp]: "db_inv (snd bw_consent)" "db_inv (snd bw_approve)"
proof -
  show c: "db_inv (snd bw_consent)"
    using sound_begin_authenticated sc_db1_db_inv unfolding bw_consent_def sound_step_def by blast
  show "db_inv (snd bw_approve)"
    using sound_approve c unfolding bw_approve_def sound_step_def by blast
qed

lemma bw_approve_run: "approve ref_libs ref_codec (env_at (seconds 1003) 46) (snd bw_consent) sc_session bw_handle
    ref_registry = (Inr (projr (fst bw_approve)), snd bw_approve)"
  using run_ok [OF bw_approve_ok] by (simp add: bw_approve_def)

theorem approve_issues_reviewed_request_witness:
  "\<exists>code. db_codes (snd bw_approve) = db_codes (snd bw_consent) @ [code]
     \<and> ac_code_hash code = hash ref_libs (co_code (projr (fst bw_approve)))"
  using approve_issues_reviewed_request [OF ref_registry_wf bw_approve_run] by blast

theorem consent_decided_once_witness:
  "\<not> is_ok (fst (deny_bound ref_libs ref_codec (env_at (seconds 1004) 47) (snd bw_approve) sc_session bw_handle None))"
proof -
  have "(\<exists>out. approve ref_libs ref_codec (env_at (seconds 1003) 46) (snd bw_consent) sc_session bw_handle
      ref_registry = (Inr out, snd bw_approve))" using bw_approve_run by blast
  from consent_decided_once [OF disjI1 [OF this] db_le_refl bw_inv(2) refl] show ?thesis by blast
qed

theorem pre_authorization_needs_both_witness:
  "approve_pre_authorized ref_libs ref_codec (env_at (seconds 1003) 46) (snd bw_consent) sc_session bw_handle ref_registry
   = (Inr None, snd bw_consent)"
proof -
  let ?run = "approve_pre_authorized ref_libs ref_codec (env_at (seconds 1003) 46) (snd bw_consent) sc_session bw_handle ref_registry"
  have "fst ?run = Inr None" by code_simp
  then have run: "?run = (Inr None, snd ?run)" by (simp add: prod_eq_iff)
  from pre_authorization_needs_both [OF ref_registry_wf run] run show ?thesis by simp
qed

definition bw_begin where
  "bw_begin = begin_google_with_pre_authorization ref_libs ref_codec (env_at (seconds 900) 110) sc_db0
     ref_pending (Some ''s'') (Some ''n'') False"

definition bw_start where
  "bw_start = start_google ref_libs (env_at (seconds 901) 120) (snd bw_begin) 110 (sc_secret 110) (sc_secret 111)"

definition bw_claim where
  "bw_claim = claim_callback ref_libs (env_at (seconds 902) 130) (snd bw_start) (sc_secret 110) (sc_secret 111)"

definition bw_identity :: verified_google_identity where
  "bw_identity = \<lparr>vgi_subject = ''sub'', vgi_profile = \<lparr>up_name = Some ''N'', up_given_name = None,
     up_family_name = None, up_picture = None, up_verified_email = None\<rparr>, vgi_auth_time = None\<rparr>"

definition bw_login where
  "bw_login = complete_callback_bound ref_libs ref_codec (env_at (seconds 903) 140) (snd bw_claim) (sc_secret 130)
     bw_identity (from_secs 3600) (Some ref_registry)"

lemma bw_google_inv [simp]: "db_inv (snd bw_begin)" "db_inv (snd bw_start)" "db_inv (snd bw_claim)"
proof -
  show b: "db_inv (snd bw_begin)"
    using sound_begin_google sc_db0_db_inv unfolding bw_begin_def sound_step_def by blast
  show s: "db_inv (snd bw_start)" using sound_start_google b unfolding bw_start_def sound_step_def by blast
  show "db_inv (snd bw_claim)" using sound_claim_callback s unfolding bw_claim_def sound_step_def by blast
qed

theorem callback_claimed_once_witness:
  "\<not> is_ok (fst (claim_callback ref_libs (env_at (seconds 905) 150) (snd bw_claim) (sc_secret 110) (sc_secret 111)))"
proof -
  have "is_ok (fst bw_claim)" by code_simp
  then obtain c v n where "claim_callback ref_libs (env_at (seconds 902) 130) (snd bw_start) (sc_secret 110) (sc_secret 111)
      = (Inr (c, v, n), snd bw_claim)" unfolding bw_claim_def by (metis is_ok_iff prod.collapse)
  from callback_claimed_once [OF bw_google_inv(2) this db_le_refl bw_google_inv(3)] show ?thesis .
qed

theorem complete_callback_exact_witness:
  "\<exists>uid. identity_user (snd bw_login) GOOGLE_ISSUER ''sub'' = Some uid
     \<and> find_profile (snd bw_login) uid = Some (vgi_profile bw_identity)"
proof -
  have "is_ok (fst bw_login)" by code_simp
  then have run: "complete_callback_bound ref_libs ref_codec (env_at (seconds 903) 140) (snd bw_claim) (sc_secret 130)
     bw_identity (from_secs 3600) (Some ref_registry) = (Inr (projr (fst bw_login)), snd bw_login)"
    using run_ok unfolding bw_login_def by blast
  have "vgi_subject bw_identity = ''sub''" by (simp add: bw_identity_def)
  with complete_callback_exact [OF bw_google_inv(3) run] show ?thesis by auto
qed

section \<open>A logout history\<close>

definition lg_begin where
  "lg_begin = begin_logout ref_libs (env_at (seconds 1100) 80) sc_db1 sc_session ''app'' ''https://app.shocker.cl/bye''
     (Some ''st'') ref_registry"

definition lg_challenge :: logout_challenge where
  "lg_challenge = submitted 80 (sc_secret 80)"

definition lg_hint :: id_claims where
  "lg_hint = \<lparr>idc_sid = Some 40, idc_iss = ''https://auth.shocker.cl/'', idc_sub = 1, idc_aud = ''app'',
     idc_exp = 1310, idc_iat = 1010, idc_nonce = None, idc_auth_time = None\<rparr>"

definition lg_finish where
  "lg_finish = finish_inner ref_libs (env_at (seconds 1110) 81) (snd lg_begin) sc_session lg_challenge ref_registry (Some lg_hint)"

definition lg_outcome :: logout_outcome where
  "lg_outcome = \<lparr>lo_redirect_uri = ''https://app.shocker.cl/bye'', lo_state = Some ''st''\<rparr>"

lemma lg_finish_run: "finish_inner ref_libs (env_at (seconds 1110) 81) (snd lg_begin) sc_session lg_challenge
    ref_registry (Some lg_hint) = (Inr (Some lg_outcome), snd lg_finish)"
proof -
  have "fst lg_finish = Inr (Some lg_outcome)" by code_simp
  then show ?thesis by (simp add: lg_finish_def prod_eq_iff)
qed

lemma lg_inv [simp]: "db_inv (snd lg_begin)" "db_inv (snd lg_finish)"
proof -
  show b: "db_inv (snd lg_begin)"
    using sound_logout_ops(1) sc_db1_db_inv unfolding lg_begin_def sound_step_def by blast
  show "db_inv (snd lg_finish)" using sound_finish_inner b unfolding lg_finish_def sound_step_def by blast
qed

theorem logout_challenge_spent_once_witness:
  "fst (finish_inner ref_libs (env_at (seconds 1120) 82) (snd lg_finish) sc_session lg_challenge ref_registry None)
     \<noteq> Inr (Some lg_outcome)
   \<and> (\<exists>s. session_by_id (snd lg_finish) 40 = Some s \<and> ps_revoked_at s \<noteq> None)"
proof -
  have "pv_id sc_session = 40" by (simp add: sc_session_def)
  moreover have "session_by_id (snd lg_finish) 40 \<noteq> None" by code_simp
  ultimately show ?thesis
    using logout_challenge_spent_once [OF lg_inv(1) lg_finish_run db_le_refl lg_inv(2)] by auto
qed

theorem id_token_hint_exact_witness:
  "\<exists>s. session_by_id (snd lg_begin) 40 = Some s \<and> idc_sub lg_hint = ps_user_id s"
proof -
  have run: "finish_hint ref_libs (env_at (seconds 1110) 81) (snd lg_begin) sc_session lg_challenge ref_registry lg_hint
    = (Inr (Some lg_outcome), snd lg_finish)" by (simp add: finish_hint_def lg_finish_run)
  have "pv_id sc_session = 40" by (simp add: sc_session_def)
  with id_token_hint_exact [OF run] show ?thesis by auto
qed

definition id_first where
  "id_first = find_or_create_verified_google_identity ref_libs (env_at (seconds 1) 7) sc_db0 bw_identity"

definition id_second where
  "id_second = find_or_create_verified_google_identity ref_libs (env_at (seconds 2) 8) (snd id_first)
     (bw_identity\<lparr>vgi_profile := (vgi_profile bw_identity)\<lparr>up_name := Some ''M''\<rparr>\<rparr>)"

theorem google_subject_is_one_user_witness:
  "au_id (projr (fst id_second)) = au_id (projr (fst id_first))"
proof -
  have "is_ok (fst id_first)" "is_ok (fst id_second)" by code_simp+
  then have runs: "find_or_create_verified_google_identity ref_libs (env_at (seconds 1) 7) sc_db0 bw_identity
      = (Inr (projr (fst id_first)), snd id_first)"
    "find_or_create_verified_google_identity ref_libs (env_at (seconds 2) 8) (snd id_first)
     (bw_identity\<lparr>vgi_profile := (vgi_profile bw_identity)\<lparr>up_name := Some ''M''\<rparr>\<rparr>)
      = (Inr (projr (fst id_second)), snd id_second)"
    using run_ok unfolding id_first_def id_second_def by blast+
  have "sound_step sc_db0 (snd id_first)"
    using sound_identity_request [of sc_db0 ref_libs "FindOrCreateGoogle (env_at (seconds 1) 7) bw_identity"]
    by (simp add: id_first_def)
  then have "db_inv (snd id_first)" by (simp add: sound_step_def)
  from google_subject_is_one_user [OF sc_db0_db_inv runs(1) db_le_refl this runs(2)] show ?thesis by simp
qed

end
