(* ===== verification/Upstream.thy ===== *)
theory Upstream
  imports Keys
begin

text \<open>
  HTTP responses the program receives from other servers, as its HTTP client presents them,
  and the reading of a bounded body that \<open>src/src/google.rs\<close> and \<open>src/src/cimd.rs\<close> share.
  The network is a parameter of the operations: a function from the request to the response,
  with \<open>None\<close> for a transport error.  Header values are raw bytes in the order they came;
  the decoding of a value to text belongs to the client library and is a parameter too.
\<close>

record http_response =
  hr_status :: nat
  hr_headers :: "(string \<times> string) list"
  hr_content_length :: "nat option"
  hr_chunks :: "string option list"

definition STATUS_OK :: nat where "STATUS_OK = 200"

text \<open>\<open>HeaderMap::get\<close> gives the first value of a name, \<open>get_all\<close> every one.\<close>

definition header_values :: "http_response \<Rightarrow> string \<Rightarrow> string list" where
  "header_values r name = map snd (filter (\<lambda>h. fst h = name) (hr_headers r))"

definition header_value :: "http_response \<Rightarrow> string \<Rightarrow> string option" where
  "header_value r name = map_of (hr_headers r) name"

text \<open>
  The loop over the chunks of a body: \<open>failed\<close> is the error of a chunk that does not arrive,
  \<open>oversized\<close> that of a body longer than \<open>maximum\<close>.
\<close>

fun collect_chunks :: "'e \<Rightarrow> 'e \<Rightarrow> nat \<Rightarrow> string option list \<Rightarrow> string \<Rightarrow> 'e + string" where
  "collect_chunks failed oversized maximum [] body = Inr body"
| "collect_chunks failed oversized maximum (None # chunks) body = Inl failed"
| "collect_chunks failed oversized maximum (Some chunk # chunks) body =
     (if maximum < length body + length chunk then Inl oversized
      else collect_chunks failed oversized maximum chunks (body @ chunk))"

lemma collect_chunks_Inr_iff:
  "collect_chunks failed oversized maximum chunks body = Inr out \<longleftrightarrow>
     None \<notin> set chunks \<and> out = body @ concat (map the chunks) \<and> (chunks = [] \<or> length out \<le> maximum)"
proof (induction chunks arbitrary: body)
  case (Cons chunk chunks)
  show ?case
  proof (cases chunk)
    case (Some data)
    then show ?thesis using Cons.IH [of "body @ data"] by (cases "chunks = []") auto
  qed simp
qed auto

text \<open>\<open>Option<Vec<_>>\<close> of a sequence of options: all of them, or none.\<close>

definition all_some :: "'a option list \<Rightarrow> 'a list option" where
  "all_some xs = (if None \<in> set xs then None else Some (map the xs))"

end
