(* ===== verification/Google.thy ===== *)
theory Google
  imports Upstream Database
begin

text \<open>
  \<open>src/src/google.rs\<close>: the adapter to Google as the upstream identity provider.  It builds the
  authorization URL, exchanges the upstream code, verifies the identity token under a cached
  key set, and turns validated claims into a \<open>VerifiedGoogleIdentity\<close>.

  Parameters: the network (\<open>gn_post\<close>, \<open>gn_get\<close>), JSON and JWT decoding, RSA key construction
  and the process environment.  An operation's readings of the monotonic clock are
  \<open>env_instant\<close> values in order; whether the \<open>k\<close>-th attempt to take a request permit succeeds
  is \<open>gn_permit k\<close>, because the permits are shared with concurrent requests.
\<close>

section \<open>Data\<close>

definition AUTHORIZE_ENDPOINT :: string where "AUTHORIZE_ENDPOINT = ''https://accounts.google.com/o/oauth2/v2/auth''"
definition TOKEN_ENDPOINT :: string where "TOKEN_ENDPOINT = ''https://oauth2.googleapis.com/token''"
definition JWKS_ENDPOINT :: string where "JWKS_ENDPOINT = ''https://www.googleapis.com/oauth2/v3/certs''"
definition MAX_TOKEN_RESPONSE :: nat where "MAX_TOKEN_RESPONSE = 64 * 1024"
definition MAX_JWKS_RESPONSE :: nat where "MAX_JWKS_RESPONSE = 256 * 1024"
definition MAX_KEYS :: nat where "MAX_KEYS = 32"
definition MAX_CACHE_AGE :: nat where "MAX_CACHE_AGE = 3600"
definition CLOCK_SKEW :: int where "CLOCK_SKEW = 30"

text \<open>Durations on the monotonic clock are nanoseconds.\<close>

definition instant_secs :: "nat \<Rightarrow> nat" where "instant_secs n = n * 1000000000"
definition UNKNOWN_KID_BACKOFF :: nat where "UNKNOWN_KID_BACKOFF = instant_secs 5"

datatype google_error =
    InvalidConfiguration | SecretUnavailable | InvalidAuthorizationInput | TokenExchange
  | KeysUnavailable | InvalidIdentityToken

record google_endpoints =
  ge_authorize :: string
  ge_token :: string
  ge_jwks :: string

record google_adapter =
  ga_client_id :: string
  ga_client_secret_env :: string
  ga_callback :: string
  ga_endpoints :: google_endpoints

record key_cache =
  kc_keys :: "(string \<times> decoding_key) list"
  kc_fresh_until :: nat
  kc_last_attempt :: "nat option"

datatype audience = One string | Many "string list"

datatype bool_claim = Bool bool | Text string

record google_claims =
  gc_iss :: string
  gc_sub :: string
  gc_aud :: audience
  gc_azp :: "string option"
  gc_exp :: int
  gc_iat :: int
  gc_nbf :: "int option"
  gc_nonce :: string
  gc_auth_time :: "int option"
  gc_name :: "string option"
  gc_given_name :: "string option"
  gc_family_name :: "string option"
  gc_picture :: "string option"
  gc_email :: "string option"
  gc_email_verified :: "bool_claim option"

record google_jwk =
  gk_kty :: string
  gk_kid :: string
  gk_n :: string
  gk_e :: string
  gk_alg :: "string option"
  gk_use :: "string option"
  gk_key_ops :: "string list option"

section \<open>Parameters\<close>

record google_net =
  gn_post :: "string \<Rightarrow> (string \<times> string) list \<Rightarrow> http_response option"
  gn_get :: "string \<Rightarrow> http_response option"
  gn_permit :: "nat \<Rightarrow> bool"
  gn_header_text :: "string \<Rightarrow> string option"
  gn_client_built :: bool
  gn_var :: "string \<Rightarrow> string option"
  gn_system_secs :: "nat option"
  gn_append_pairs :: "url \<Rightarrow> (string \<times> string) list \<Rightarrow> url"
  gn_token_response :: "string \<Rightarrow> string option"
  gn_jwks :: "string \<Rightarrow> google_jwk list option"
  gn_rsa_new :: "nat \<Rightarrow> nat \<Rightarrow> rsa_public_key option"
  gn_from_components :: "string \<Rightarrow> string \<Rightarrow> decoding_key option"
  gn_decode_header :: "string \<Rightarrow> jwt_header option"
  gn_decode_claims :: "string \<Rightarrow> decoding_key \<Rightarrow> validation \<Rightarrow> google_claims option"

section \<open>Input checks\<close>

definition valid_opaque :: "string \<Rightarrow> bool" where
  "valid_opaque v \<longleftrightarrow> v \<noteq> [] \<and> length v \<le> 512 \<and> list_all is_ascii_graphic v"

definition valid_pkce_verifier :: "string \<Rightarrow> bool" where
  "valid_pkce_verifier v \<longleftrightarrow> 43 \<le> length v \<and> length v \<le> 128
     \<and> list_all (\<lambda>b. is_ascii_alphanumeric b \<or> b = CHR ''-'' \<or> b = CHR ''.'' \<or> b = CHR ''_'' \<or> b = CHR ''~'') v"

definition valid_s256_challenge :: "libs \<Rightarrow> string \<Rightarrow> bool" where
  "valid_s256_challenge L v \<longleftrightarrow> length v = 43
     \<and> is_some_and (b64_decode L v) (\<lambda>bytes. length bytes = 32 \<and> b64_encode L bytes = v)"

definition google_unsupported_crit :: "libs \<Rightarrow> string \<Rightarrow> bool" where
  "google_unsupported_crit L token = (case b64_decode L (hd (split_on (CHR ''.'') token)) of
     None \<Rightarrow> True
   | Some bytes \<Rightarrow> (case json_parse L bytes of
       None \<Rightarrow> True
     | Some v \<Rightarrow> is_some_and (json_get ''crit'' v) (\<lambda>crit. is_none_or (as_array crit) (\<lambda>items. items \<noteq> []))))"

section \<open>Construction and the authorization URL\<close>

fun loopback_host :: "url_host option \<Rightarrow> bool" where
  "loopback_host (Some (Ipv4 (a, _, _, _))) = (a = 127)"
| "loopback_host (Some (Ipv6 s)) = (s = ipv6_localhost)"
| "loopback_host _ = False"

definition google_key_cache :: "nat \<Rightarrow> key_cache" where
  "google_key_cache now = \<lparr>kc_keys = [], kc_fresh_until = now, kc_last_attempt = None\<rparr>"

definition new_google :: "libs \<Rightarrow> google_net \<Rightarrow> env \<Rightarrow> string \<Rightarrow> string \<Rightarrow> url
    \<Rightarrow> google_error + (google_adapter \<times> key_cache)" where
  "new_google L N e client_id client_secret_env issuer =
     (let loopback_http = (url_scheme issuer = ''http'' \<and> loopback_host (url_host_of issuer)) in
      if client_id = [] \<or> client_secret_env = [] \<or> url_path issuer \<noteq> ''/'' \<or> url_username issuer \<noteq> []
         \<or> url_password issuer \<noteq> None \<or> url_query issuer \<noteq> None \<or> url_fragment issuer \<noteq> None
         \<or> url_host_of issuer = None \<or> (url_scheme issuer \<noteq> ''https'' \<and> \<not> loopback_http)
      then Inl InvalidConfiguration
      else and_then (ok_or InvalidConfiguration (url_join L issuer ''federation/google/callback'')) (\<lambda>callback.
        if \<not> gn_client_built N then Inl InvalidConfiguration
        else Inr (\<lparr>ga_client_id = client_id, ga_client_secret_env = client_secret_env,
                   ga_callback = url_as_str callback,
                   ga_endpoints = \<lparr>ge_authorize = AUTHORIZE_ENDPOINT, ge_token = TOKEN_ENDPOINT,
                                   ge_jwks = JWKS_ENDPOINT\<rparr>\<rparr>,
                  google_key_cache (env_instant e 0))))"

definition authorization_pairs :: "google_adapter \<Rightarrow> string \<Rightarrow> string \<Rightarrow> string \<Rightarrow> bool \<Rightarrow> (string \<times> string) list" where
  "authorization_pairs G state nonce challenge select_account =
     [(''client_id'', ga_client_id G), (''redirect_uri'', ga_callback G), (''response_type'', ''code''),
      (''scope'', ''openid profile email''), (''state'', state), (''nonce'', nonce),
      (''code_challenge'', challenge), (''code_challenge_method'', ''S256''), (''access_type'', ''online'')]
     @ (if select_account then [(''prompt'', ''select_account'')] else [])"

definition authorization_url ::
  "libs \<Rightarrow> google_net \<Rightarrow> google_adapter \<Rightarrow> string \<Rightarrow> string \<Rightarrow> string \<Rightarrow> bool \<Rightarrow> google_error + url" where
  "authorization_url L N G state nonce challenge select_account =
     (if \<not> valid_opaque state \<or> \<not> valid_opaque nonce \<or> \<not> valid_s256_challenge L challenge
      then Inl InvalidAuthorizationInput
      else and_then (ok_or InvalidConfiguration (url_parse L (ge_authorize (ga_endpoints G)))) (\<lambda>u.
        Inr (gn_append_pairs N u (authorization_pairs G state nonce challenge select_account))))"

definition secret :: "google_net \<Rightarrow> google_adapter \<Rightarrow> google_error + string" where
  "secret N G = (case gn_var N (ga_client_secret_env G) of
     Some v \<Rightarrow> if v \<noteq> [] then Inr v else Inl SecretUnavailable
   | None \<Rightarrow> Inl SecretUnavailable)"

section \<open>Responses\<close>

definition bounded_body :: "http_response \<Rightarrow> nat \<Rightarrow> unit + string" where
  "bounded_body r maximum =
     (if is_some_and (hr_content_length r) (\<lambda>n. maximum < n) then Inl ()
      else collect_chunks () () maximum (hr_chunks r) [])"

fun find_map :: "('a \<Rightarrow> 'b option) \<Rightarrow> 'a list \<Rightarrow> 'b option" where
  "find_map f [] = None"
| "find_map f (x # xs) = (case f x of None \<Rightarrow> find_map f xs | Some y \<Rightarrow> Some y)"

definition header_text :: "google_net \<Rightarrow> http_response \<Rightarrow> string \<Rightarrow> string option" where
  "header_text N r name = Option.bind (header_value r name) (gn_header_text N)"

definition cache_freshness :: "google_net \<Rightarrow> http_response \<Rightarrow> nat" where
  "cache_freshness N r =
     (let directives = (case header_text N r ''cache-control'' of None \<Rightarrow> [] | Some v \<Rightarrow> v);
          parts = map (\<lambda>v. to_ascii_lowercase (trim v)) (split_on (CHR '','') directives) in
      if list_ex (\<lambda>v. v = ''no-cache'' \<or> v = ''no-store'') parts then 0
      else
        let max_age = min (case find_map (\<lambda>v. Option.bind (strip_prefix ''max-age='' v) (parse_uint u64_max)) parts of
                             None \<Rightarrow> 0 | Some n \<Rightarrow> n) MAX_CACHE_AGE;
            age = (case Option.bind (header_text N r ''age'') (parse_uint u64_max) of None \<Rightarrow> 0 | Some n \<Rightarrow> n)
        in max_age - age)"

section \<open>Signing keys\<close>

definition jwk_refused :: "google_jwk \<Rightarrow> bool" where
  "jwk_refused k \<longleftrightarrow> gk_kty k \<noteq> ''RSA'' \<or> gk_kid k = [] \<or> 128 < length (gk_kid k)
     \<or> is_some_and (gk_alg k) (\<lambda>v. v \<noteq> ''RS256'') \<or> is_some_and (gk_use k) (\<lambda>v. v \<noteq> ''sig'')
     \<or> is_some_and (gk_key_ops k) (\<lambda>ops. ops = [] \<or> list_ex (\<lambda>op. op \<noteq> ''verify'') ops)"

text \<open>\<open>HashMap::insert\<close> reports a key that was there; the call that reports it refuses the set.\<close>

fun parse_jwks ::
  "libs \<Rightarrow> google_net \<Rightarrow> google_jwk list \<Rightarrow> (string \<times> decoding_key) list
    \<Rightarrow> google_error + (string \<times> decoding_key) list" where
  "parse_jwks L N [] keys = Inr keys"
| "parse_jwks L N (k # ks) keys =
     (if jwk_refused k then Inl KeysUnavailable
      else and_then (ok_or KeysUnavailable (b64_decode L (gk_n k))) (\<lambda>n.
           and_then (ok_or KeysUnavailable (b64_decode L (gk_e k))) (\<lambda>x.
             if \<not> (256 \<le> length n \<and> length n \<le> 1024) \<or> x = [] \<or> 8 < length x then Inl KeysUnavailable
             else and_then (ok_or KeysUnavailable (gn_rsa_new N (of_bytes_be n) (of_bytes_be x))) (\<lambda>rsa.
               if \<not> (2048 \<le> bit_length (rsa_n rsa) \<and> bit_length (rsa_n rsa) \<le> 8192) then Inl KeysUnavailable
               else and_then (ok_or KeysUnavailable (gn_from_components N (gk_n k) (gk_e k))) (\<lambda>dk.
                 if map_of keys (gk_kid k) \<noteq> None then Inl KeysUnavailable
                 else parse_jwks L N ks ((gk_kid k, dk) # keys))))))"

definition fetch_keys ::
  "libs \<Rightarrow> google_net \<Rightarrow> google_adapter \<Rightarrow> nat \<Rightarrow> google_error + ((string \<times> decoding_key) list \<times> nat)" where
  "fetch_keys L N G permit =
     (if \<not> gn_permit N permit then Inl KeysUnavailable
      else and_then (ok_or KeysUnavailable (gn_get N (ge_jwks (ga_endpoints G)))) (\<lambda>response.
        if hr_status response \<noteq> STATUS_OK then Inl KeysUnavailable
        else and_then (map_err (\<lambda>_. KeysUnavailable) (bounded_body response MAX_JWKS_RESPONSE)) (\<lambda>body.
             and_then (ok_or KeysUnavailable (gn_jwks N body)) (\<lambda>jwks.
               if jwks = [] \<or> MAX_KEYS < length jwks then Inl KeysUnavailable
               else map_ok (\<lambda>keys. (keys, cache_freshness N response)) (parse_jwks L N jwks [])))))"

text \<open>The cache stays locked for the whole call, so the calls of one adapter are in sequence.\<close>

definition key ::
  "libs \<Rightarrow> google_net \<Rightarrow> env \<Rightarrow> google_adapter \<Rightarrow> nat \<Rightarrow> key_cache \<Rightarrow> string
    \<Rightarrow> (google_error + decoding_key) \<times> key_cache" where
  "key L N e G permit cache kid =
     (let now = env_instant e 0 in
      if now < kc_fresh_until cache \<and> map_of (kc_keys cache) kid \<noteq> None
      then (Inr (the (map_of (kc_keys cache) kid)), cache)
      else if is_some_and (kc_last_attempt cache) (\<lambda>attempt. now - attempt < UNKNOWN_KID_BACKOFF)
      then (Inl KeysUnavailable, cache)
      else let cache = cache\<lparr>kc_last_attempt := Some now\<rparr> in
        (case fetch_keys L N G permit of
           Inl err \<Rightarrow> (Inl err, cache)
         | Inr (keys, freshness) \<Rightarrow>
             (ok_or KeysUnavailable (map_of keys kid),
              cache\<lparr>kc_keys := keys, kc_fresh_until := env_instant e 1 + instant_secs freshness\<rparr>)))"

section \<open>Claims\<close>

definition i64_max :: int where "i64_max = 9223372036854775807"

text \<open>The value of an \<open>i64\<close> operation that wraps, and of \<open>saturating_add\<close> of a non-negative number.\<close>

definition wrap_i64 :: "int \<Rightarrow> int" where
  "wrap_i64 n = (n + (i64_max + 1)) mod (2 * (i64_max + 1)) - (i64_max + 1)"

definition saturating_add_i64 :: "int \<Rightarrow> int \<Rightarrow> int" where
  "saturating_add_i64 a b = min i64_max (a + b)"

definition unix_now :: "google_net \<Rightarrow> int" where
  "unix_now N = wrap_i64 (int (case gn_system_secs N of None \<Rightarrow> 0 | Some s \<Rightarrow> s))"

fun is_true :: "bool_claim \<Rightarrow> bool" where
  "is_true (Bool b) = b"
| "is_true (Text v) = (v = ''true'')"

definition bad_claims :: "google_claims \<Rightarrow> string \<Rightarrow> int \<Rightarrow> bool" where
  "bad_claims c nonce now \<longleftrightarrow>
     (gc_iss c \<noteq> ''accounts.google.com'' \<and> gc_iss c \<noteq> ''https://accounts.google.com'')
     \<or> gc_sub c = [] \<or> 255 < length (gc_sub c) \<or> \<not> list_all is_ascii (gc_sub c)
     \<or> gc_nonce c \<noteq> nonce
     \<or> saturating_add_i64 (gc_exp c) CLOCK_SKEW < now
     \<or> gc_iat c < 0 \<or> wrap_i64 (now + CLOCK_SKEW) < gc_iat c
     \<or> is_some_and (gc_nbf c) (\<lambda>v. wrap_i64 (now + CLOCK_SKEW) < v)
     \<or> is_some_and (gc_auth_time c) (\<lambda>v. v < 0 \<or> wrap_i64 (now + CLOCK_SKEW) < v)"

definition audience_check :: "audience \<Rightarrow> string \<Rightarrow> bool \<times> bool" where
  "audience_check aud client_id = (case aud of
     One v \<Rightarrow> (v = client_id, False)
   | Many v \<Rightarrow> (list_ex (\<lambda>a. a = client_id) v, 1 < length v))"

definition verified_email_of :: "google_claims \<Rightarrow> string option" where
  "verified_email_of c =
     (if is_some_and (gc_email_verified c) is_true
      then (case gc_email c of Some v \<Rightarrow> if v \<noteq> [] then Some v else None | None \<Rightarrow> None)
      else None)"

definition validate_claims ::
  "google_claims \<Rightarrow> string \<Rightarrow> string \<Rightarrow> int \<Rightarrow> google_error + verified_google_identity" where
  "validate_claims c client_id nonce now =
     (if bad_claims c nonce now then Inl InvalidIdentityToken
      else let (aud_ok, multiple) = audience_check (gc_aud c) client_id in
        if \<not> aud_ok \<or> is_some_and (gc_azp c) (\<lambda>v. v \<noteq> client_id)
           \<or> (multiple \<and> gc_azp c \<noteq> Some client_id)
        then Inl InvalidIdentityToken
        else Inr \<lparr>vgi_subject = gc_sub c,
                  vgi_profile = \<lparr>up_name = gc_name c, up_given_name = gc_given_name c,
                    up_family_name = gc_family_name c, up_picture = gc_picture c,
                    up_verified_email = verified_email_of c\<rparr>,
                  vgi_auth_time = gc_auth_time c\<rparr>)"

section \<open>Verification and exchange\<close>

definition google_validation :: validation where
  "google_validation = (new_validation RS256)\<lparr>va_validate_exp := False, va_validate_aud := False,
     va_validate_nbf := True, va_leeway := nat CLOCK_SKEW, va_required := []\<rparr>"

definition verify_id_token ::
  "libs \<Rightarrow> google_net \<Rightarrow> env \<Rightarrow> google_adapter \<Rightarrow> nat \<Rightarrow> key_cache \<Rightarrow> string \<Rightarrow> string
    \<Rightarrow> (google_error + verified_google_identity) \<times> key_cache" where
  "verify_id_token L N e G permit cache token expected_nonce =
     (if MAX_TOKEN_RESPONSE < length token \<or> \<not> valid_opaque expected_nonce
      then (Inl InvalidIdentityToken, cache)
      else (case gn_decode_header N token of
          None \<Rightarrow> (Inl InvalidIdentityToken, cache)
        | Some header \<Rightarrow>
          if jh_alg header \<noteq> RS256 \<or> google_unsupported_crit L token
             \<or> is_some_and (jh_typ header) (\<lambda>v. v \<noteq> ''JWT'')
          then (Inl InvalidIdentityToken, cache)
          else (case jh_kid header of
              None \<Rightarrow> (Inl InvalidIdentityToken, cache)
            | Some kid \<Rightarrow>
              if kid = [] \<or> 128 < length kid then (Inl InvalidIdentityToken, cache)
              else (case key L N e G permit cache kid of
                  (Inl err, cache') \<Rightarrow> (Inl err, cache')
                | (Inr dk, cache') \<Rightarrow>
                    (and_then (ok_or InvalidIdentityToken (gn_decode_claims N token dk google_validation)) (\<lambda>claims.
                       validate_claims claims (ga_client_id G) expected_nonce (unix_now N)), cache')))))"

definition token_form :: "google_adapter \<Rightarrow> string \<Rightarrow> string \<Rightarrow> string \<Rightarrow> (string \<times> string) list" where
  "token_form G code client_secret verifier =
     [(''code'', code), (''client_id'', ga_client_id G), (''client_secret'', client_secret),
      (''redirect_uri'', ga_callback G), (''grant_type'', ''authorization_code''), (''code_verifier'', verifier)]"

definition google_exchange_code ::
  "libs \<Rightarrow> google_net \<Rightarrow> env \<Rightarrow> google_adapter \<Rightarrow> key_cache \<Rightarrow> string \<Rightarrow> string \<Rightarrow> string
    \<Rightarrow> (google_error + verified_google_identity) \<times> key_cache" where
  "google_exchange_code L N e G cache code verifier expected_nonce =
     (if \<not> valid_opaque code \<or> \<not> valid_pkce_verifier verifier \<or> \<not> valid_opaque expected_nonce
      then (Inl InvalidAuthorizationInput, cache)
      else (case and_then (secret N G) (\<lambda>client_secret.
               if \<not> gn_permit N 0 then Inl TokenExchange
               else and_then (ok_or TokenExchange
                      (gn_post N (ge_token (ga_endpoints G)) (token_form G code client_secret verifier))) (\<lambda>response.
                 if hr_status response \<noteq> STATUS_OK then Inl TokenExchange
                 else and_then (map_err (\<lambda>_. TokenExchange) (bounded_body response MAX_TOKEN_RESPONSE)) (\<lambda>body.
                   ok_or TokenExchange (gn_token_response N body)))) of
             Inl err \<Rightarrow> (Inl err, cache)
           | Inr id_token \<Rightarrow> verify_id_token L N e G 1 cache id_token expected_nonce))"

end
