(* ===== verification/Token_Properties.thy ===== *)
theory Token_Properties
  imports Tokens Reference_Libs
begin

text \<open>
  What \<open>keys.rs\<close> and \<open>tokens.rs\<close> guarantee: the published key set is well-formed, access tokens
  and identity tokens are never taken for each other, and issued tokens say what the grant
  allows for five minutes.
\<close>

section \<open>Numbers as bytes\<close>

lemma bit_length_ge: "k < bit_length n \<longleftrightarrow> 2 ^ k \<le> n"
proof (induction k arbitrary: n)
  case 0
  then show ?case by (simp add: bit_length.simps [of n])
next
  case (Suc k)
  have "Suc k < bit_length n \<longleftrightarrow> n \<noteq> 0 \<and> k < bit_length (n div 2)"
    by (simp add: bit_length.simps [of n])
  also have "\<dots> \<longleftrightarrow> n \<noteq> 0 \<and> 2 ^ Suc k \<le> n" using Suc.IH [of "n div 2"] by (auto simp: less_eq_div_iff_mult_less_eq mult.commute)
  also have "\<dots> \<longleftrightarrow> 2 ^ Suc k \<le> n" by (metis le_zero_eq power_not_zero zero_neq_numeral)
  finally show ?case .
qed

lemma of_bytes_be_snoc [simp]: "of_bytes_be (s @ [c]) = 256 * of_bytes_be s + byte c"
  by simp

lemma of_bytes_be_pos: "of_bytes_be (bytes_be_pos n) = n"
proof (induction n rule: less_induct)
  case (less n)
  show ?case
  proof (cases "n = 0")
    case True
    then show ?thesis by (simp add: bytes_be_pos.simps)
  next
    case False
    then have "of_bytes_be (bytes_be_pos (n div 256)) = n div 256" by (intro less.IH) simp
    then show ?thesis
      using False by (simp add: bytes_be_pos.simps [of n] del: of_bytes_be.simps)
  qed
qed

lemma of_to_bytes_be: "of_bytes_be (to_bytes_be n) = n"
  using of_bytes_be_pos [of n] by (auto simp: to_bytes_be_def)

lemma to_bytes_be_inject [simp]: "to_bytes_be m = to_bytes_be n \<longleftrightarrow> m = n"
  using of_to_bytes_be by metis

section \<open>The key set\<close>

text \<open>One key as it is loaded: the contents of its file, the key in it and its verifier.\<close>

record loaded_key =
  lk_kid :: string
  lk_pem :: string
  lk_key :: rsa_public_key
  lk_verifier :: decoding_key

definition lk_material :: "loaded_key \<Rightarrow> string \<times> string" where
  "lk_material x = (to_bytes_be (rsa_n (lk_key x)), to_bytes_be (rsa_e (lk_key x)))"

text \<open>The accumulators after \<open>add_public\<close> was called for the keys \<open>xs\<close>, in this order.\<close>

definition accumulates :: "libs \<Rightarrow> crypto \<Rightarrow> loaded_key list \<Rightarrow> key_set \<Rightarrow> bool" where
  "accumulates L C xs ks \<longleftrightarrow> ks = \<lparr>ks_seen = rev (map lk_kid xs), ks_material = rev (map lk_material xs),
       ks_decoding = rev (map (\<lambda>x. (lk_kid x, lk_verifier x)) xs), ks_jwks = map (\<lambda>x. jwk_of L (lk_kid x) (lk_key x)) xs\<rparr>
     \<and> distinct (map lk_kid xs) \<and> distinct (map lk_material xs)
     \<and> (\<forall>x \<in> set xs. 2 ^ 2047 \<le> rsa_n (lk_key x) \<and> cr_decoding_key C (lk_pem x) = Some (lk_verifier x))"

lemma accumulates_empty [simp]: "accumulates L C [] empty_key_set"
  by (simp add: accumulates_def empty_key_set_def)

lemma validate_size_Inr [simp]: "validate_size n = Inr u \<longleftrightarrow> 2048 \<le> n"
  by (auto simp: validate_size_def)

lemma rsa_size: "2048 \<le> bit_length n \<longleftrightarrow> 2 ^ 2047 \<le> n"
  using bit_length_ge [of 2047 n] by linarith

lemma add_public_accumulates:
  assumes "add_public L C kid key pem ks = Inr ks'" and "accumulates L C xs ks"
  shows "\<exists>dk. accumulates L C (xs @ [\<lparr>lk_kid = kid, lk_pem = pem, lk_key = key, lk_verifier = dk\<rparr>]) ks'"
  using assms
  by (auto simp: add_public_def Let_def and_then_Inr_iff accumulates_def rsa_size lk_material_def)

text \<open>A key was loaded for an entry of the manifest: from the entry's file, under the entry's \<open>kid\<close>.\<close>

definition loaded_for :: "crypto \<Rightarrow> files \<Rightarrow> string \<Rightarrow> string \<times> string \<Rightarrow> loaded_key \<Rightarrow> bool" where
  "loaded_for C F base entry x \<longleftrightarrow> lk_kid x = fst entry \<and> check_kid (fst entry) = Inr ()
     \<and> fl_read F (fl_join F base (snd entry)) = Some (lk_pem x) \<and> parse_public C (lk_pem x) = Inr (lk_key x)"

lemma add_entries_accumulates:
  assumes "add_entries L C F base entries ks = Inr ks'" and "accumulates L C xs ks"
  shows "\<exists>ys. accumulates L C (xs @ ys) ks'
    \<and> list_all2 (loaded_for C F base) (map (\<lambda>e. (pk_kid e, pk_public_key e)) entries) ys"
  using assms
proof (induction entries arbitrary: ks xs)
  case (Cons a entries)
  then obtain ks1 pem key where a: "check_kid (pk_kid a) = Inr ()" "fl_read F (fl_join F base (pk_public_key a)) = Some pem"
    "parse_public C pem = Inr key" "add_public L C (pk_kid a) key pem ks = Inr ks1"
    "add_entries L C F base entries ks1 = Inr ks'"
    by (auto simp: and_then_Inr_iff)
  from add_public_accumulates [OF a(4) Cons.prems(2)] obtain dk where
    one: "accumulates L C (xs @ [\<lparr>lk_kid = pk_kid a, lk_pem = pem, lk_key = key, lk_verifier = dk\<rparr>]) ks1" by blast
  from Cons.IH [OF a(5) one] obtain ys where
    "accumulates L C (xs @ \<lparr>lk_kid = pk_kid a, lk_pem = pem, lk_key = key, lk_verifier = dk\<rparr> # ys) ks'"
    "list_all2 (loaded_for C F base) (map (\<lambda>e. (pk_kid e, pk_public_key e)) entries) ys" by auto
  moreover have "loaded_for C F base (pk_kid a, pk_public_key a) \<lparr>lk_kid = pk_kid a, lk_pem = pem, lk_key = key, lk_verifier = dk\<rparr>"
    using a by (simp add: loaded_for_def)
  ultimately show ?case
    by (intro exI [of _ "\<lparr>lk_kid = pk_kid a, lk_pem = pem, lk_key = key, lk_verifier = dk\<rparr> # ys"]) simp
qed (intro exI [of _ "[]"], simp)

text \<open>The entries of a manifest in the order of publication: \<open>kid\<close> and public key file.\<close>

definition manifest_entries :: "manifest \<Rightarrow> (string \<times> string) list" where
  "manifest_entries mf = (ak_kid (mf_active mf), ak_public_key (mf_active mf))
     # map (\<lambda>e. (pk_kid e, pk_public_key e)) (mf_previous mf @ mf_next mf)"

definition manifest_base :: "files \<Rightarrow> string \<Rightarrow> string" where
  "manifest_base F path = (case fl_parent F path of Some p \<Rightarrow> p | None \<Rightarrow> ''.'')"

text \<open>The signing key: read from a regular file closed to group and others, and the other half of
  the public key in the active entry's file.\<close>

definition signs_with :: "crypto \<Rightarrow> files \<Rightarrow> string \<Rightarrow> active_key \<Rightarrow> string \<Rightarrow> bool" where
  "signs_with C F base active pem \<longleftrightarrow> (\<exists>m secret public.
     fl_open F (fl_join F base (ak_private_key active)) = Some (Some m, Some pem) \<and> md_is_file m \<and> md_mode m mod 64 = 0
     \<and> parse_private C pem = Inr secret \<and> 2 ^ 2047 \<le> rsa_n (rsa_public_part secret)
     \<and> fl_read F (fl_join F base (ak_public_key active)) = Some public
     \<and> parse_public C public = Inr (rsa_public_part secret))"

lemma load_key_set_facts:
  assumes "load_key_set L C F path = Inr (mf, private_pem, ks)"
  shows "\<exists>contents xs. fl_read_to_string F path = Some contents \<and> cr_manifest C contents = Some mf \<and> accumulates L C xs ks
    \<and> list_all2 (loaded_for C F (manifest_base F path)) (manifest_entries mf) xs
    \<and> signs_with C F (manifest_base F path) (mf_active mf) private_pem"
proof -
  let ?base = "manifest_base F path" and ?active = "mf_active mf"
  from assms obtain contents sk public_pem ks0 where contents: "fl_read_to_string F path = Some contents" "cr_manifest C contents = Some mf"
    and kid: "check_kid (ak_kid ?active) = Inr ()"
    and read: "read_private_key F (fl_join F ?base (ak_private_key ?active)) = Inr private_pem"
    and priv: "parse_private C private_pem = Inr sk" "2048 \<le> bit_length (rsa_n (rsa_public_part sk))"
    and pub: "fl_read F (fl_join F ?base (ak_public_key ?active)) = Some public_pem"
      "parse_public C public_pem = Inr (rsa_public_part sk)"
    and add: "add_public L C (ak_kid ?active) (rsa_public_part sk) public_pem empty_key_set = Inr ks0"
    and rest: "add_entries L C F ?base (mf_previous mf @ mf_next mf) ks0 = Inr ks"
    unfolding load_key_set_def Let_def manifest_base_def by (auto simp: and_then_Inr_iff)
  from add_public_accumulates [OF add accumulates_empty] obtain dk where
    "accumulates L C [\<lparr>lk_kid = ak_kid ?active, lk_pem = public_pem, lk_key = rsa_public_part sk, lk_verifier = dk\<rparr>] ks0" by auto
  from add_entries_accumulates [OF rest this] obtain ys where
    "accumulates L C (\<lparr>lk_kid = ak_kid ?active, lk_pem = public_pem, lk_key = rsa_public_part sk, lk_verifier = dk\<rparr> # ys) ks"
    "list_all2 (loaded_for C F ?base) (map (\<lambda>e. (pk_kid e, pk_public_key e)) (mf_previous mf @ mf_next mf)) ys" by auto
  moreover from read obtain m where "fl_open F (fl_join F ?base (ak_private_key ?active)) = Some (Some m, Some private_pem)"
    "md_is_file m" "md_mode m mod 64 = 0"
    by (auto simp: read_private_key_def check_private_permissions_def and_then_Inr_iff split: option.splits if_splits)
  then have "signs_with C F ?base ?active private_pem" using priv pub by (auto simp: signs_with_def rsa_size)
  moreover have "loaded_for C F ?base (ak_kid ?active, ak_public_key ?active)
      \<lparr>lk_kid = ak_kid ?active, lk_pem = public_pem, lk_key = rsa_public_part sk, lk_verifier = dk\<rparr>"
    using kid pub by (simp add: loaded_for_def)
  ultimately show ?thesis using contents
    by (intro exI [of _ contents] exI [of _ "\<lparr>lk_kid = ak_kid ?active, lk_pem = public_pem, lk_key = rsa_public_part sk, lk_verifier = dk\<rparr> # ys"])
      (simp add: manifest_entries_def)
qed

text \<open>An entry is published by a JWK: the entry's file holds a key of at least 2048 bits, the JWK is
  an RS256 signature key of the entry's \<open>kid\<close> with that modulus and exponent, and what verifies
  the tokens of this \<open>kid\<close> is made from the same file.\<close>

definition rsa_number :: "libs \<Rightarrow> string \<Rightarrow> nat option" where
  "rsa_number L contents = map_option of_bytes_be (b64_decode L contents)"

definition published ::
  "libs \<Rightarrow> crypto \<Rightarrow> files \<Rightarrow> string \<Rightarrow> signing_keys \<Rightarrow> string \<times> string \<Rightarrow> jwk \<Rightarrow> bool" where
  "published L C F base keys entry j \<longleftrightarrow> (\<exists>pem key. fl_read F (fl_join F base (snd entry)) = Some pem
     \<and> parse_public C pem = Inr key \<and> 2 ^ 2047 \<le> rsa_n key
     \<and> rsa_number L (jwk_n j) = Some (rsa_n key) \<and> rsa_number L (jwk_e j) = Some (rsa_e key)
     \<and> jwk_kid j = fst entry \<and> jwk_kty j = ''RSA'' \<and> jwk_use j = ''sig'' \<and> jwk_alg j = ''RS256''
     \<and> check_kid (fst entry) = Inr () \<and> cr_decoding_key C pem \<noteq> None
     \<and> map_of (sk_decoding keys) (fst entry) = cr_decoding_key C pem)"

lemma loaded_published:
  assumes "base64_laws L" and "accumulates L C xs ks" and "sk_decoding keys = ks_decoding ks"
    and "list_all2 (loaded_for C F base) entries xs"
  shows "list_all2 (published L C F base keys) entries (ks_jwks ks)"
proof -
  have parts: "ks_jwks ks = map (\<lambda>x. jwk_of L (lk_kid x) (lk_key x)) xs"
      "ks_decoding ks = rev (map (\<lambda>x. (lk_kid x, lk_verifier x)) xs)" "distinct (map lk_kid xs)"
    and each: "\<And>x. x \<in> set xs \<Longrightarrow> 2 ^ 2047 \<le> rsa_n (lk_key x) \<and> cr_decoding_key C (lk_pem x) = Some (lk_verifier x)"
    using assms(2) by (simp_all add: accumulates_def)
  have "map_of (ks_decoding ks) (lk_kid x) = Some (lk_verifier x)" if "x \<in> set xs" for x
    unfolding parts(2) using that parts(3) by (intro map_of_is_SomeI) (auto simp: rev_map comp_def simp flip: rev_map)
  note verifier = this
  have "published L C F base keys entry (jwk_of L (lk_kid x) (lk_key x))"
    if "x \<in> set xs" "loaded_for C F base entry x" for entry x
    using that(2) each [OF that(1)] verifier [OF that(1)] assms(1,3)
    by (auto simp: published_def loaded_for_def jwk_of_def rsa_number_def base64_laws_def of_to_bytes_be simp del: of_bytes_be.simps)
  with assms(4) show ?thesis
    unfolding parts(1) list_all2_map2 by (auto elim: list.rel_mono_strong)
qed

text \<open>C24: Loading the signing keys publishes exactly what the manifest at the given path names: the JWKS
  lists the active key first, then the previous and the next ones in manifest order, each taken
  from the file its entry names, with at least 2048 bits and a well-formed \<open>kid\<close> under which the
  same file's key verifies tokens; no \<open>kid\<close> and no key occurs twice, and no other \<open>kid\<close> verifies.
  Tokens are signed with the private key of the manifest's active entry, read from a regular file closed to group and
  others, and it is the other half of the first published key.\<close>

theorem load_publishes_key_set:
  assumes "base64_laws L" and "load_keys L C F path = Inr keys"
  shows "\<exists>contents mf jwks pem. fl_read_to_string F path = Some contents \<and> cr_manifest C contents = Some mf
    \<and> sk_jwks_json keys = jwks_json jwks \<and> sk_active_kid keys = ak_kid (mf_active mf)
    \<and> list_all2 (published L C F (manifest_base F path) keys) (manifest_entries mf) jwks
    \<and> distinct (map jwk_kid jwks) \<and> distinct (map (\<lambda>j. (jwk_n j, jwk_e j)) jwks)
    \<and> (\<forall>kid. map_of (sk_decoding keys) kid \<noteq> None \<longleftrightarrow> kid \<in> set (map jwk_kid jwks))
    \<and> signs_with C F (manifest_base F path) (mf_active mf) pem \<and> cr_encoding_key C pem = Some (sk_encoding keys)"
proof -
  from assms(2) obtain mf pem ks where load: "load_key_set L C F path = Inr (mf, pem, ks)"
    and keys: "sk_active_kid keys = ak_kid (mf_active mf)" "cr_encoding_key C pem = Some (sk_encoding keys)"
      "sk_decoding keys = ks_decoding ks" "sk_jwks_json keys = jwks_json (ks_jwks ks)"
    by (auto simp: load_keys_def and_then_Inr_iff)
  from load_key_set_facts [OF load] obtain contents xs where
    contents: "fl_read_to_string F path = Some contents" "cr_manifest C contents = Some mf" and acc: "accumulates L C xs ks"
    and loaded: "list_all2 (loaded_for C F (manifest_base F path)) (manifest_entries mf) xs"
    and signs: "signs_with C F (manifest_base F path) (mf_active mf) pem" by blast
  have parts: "ks_jwks ks = map (\<lambda>x. jwk_of L (lk_kid x) (lk_key x)) xs"
      "ks_decoding ks = rev (map (\<lambda>x. (lk_kid x, lk_verifier x)) xs)" and fresh: "distinct (map lk_kid xs)" "distinct (map lk_material xs)"
    using acc by (simp_all add: accumulates_def)
  have inj: "b64_encode L x = b64_encode L y \<longleftrightarrow> x = y" for x y using assms(1) by (metis base64_laws_def option.inject)
  have kids: "map jwk_kid (ks_jwks ks) = map lk_kid xs" by (simp add: parts(1) jwk_of_def)
  have "distinct (map (\<lambda>j. (jwk_n j, jwk_e j)) (ks_jwks ks))"
    using fresh(2) by (simp add: parts(1) distinct_map inj_on_def jwk_of_def inj lk_material_def)
  moreover have "map_of (sk_decoding keys) kid \<noteq> None \<longleftrightarrow> kid \<in> set (map jwk_kid (ks_jwks ks))" for kid
    by (simp add: kids keys(3) parts(2) map_of_eq_None_iff image_image)
  ultimately show ?thesis
    using contents keys signs fresh(1) kids loaded_published [OF assms(1) acc keys(3) loaded]
    by (intro exI [of _ contents] exI [of _ mf] exI [of _ "ks_jwks ks"] exI [of _ pem]) simp
qed

section \<open>Kinds of tokens\<close>

lemma token_key_Inr:
  "token_key L C keys token typ message = Inr key \<Longrightarrow>
     \<exists>h kid. cr_decode_header C token = Some h \<and> jh_alg h = RS256 \<and> jh_typ h = Some typ
       \<and> \<not> has_unsupported_crit L token \<and> jh_kid h = Some kid \<and> map_of (sk_decoding keys) kid = Some key"
  by (auto simp: token_key_def and_then_Inr_iff)

text \<open>C10: Tokens are accepted only for what they are: a token that verifies as an access token has
  type \<open>at+jwt\<close>, one accepted as a logout hint has type \<open>JWT\<close>, so no token is ever accepted as
  both; both are RS256, name a published key and carry no critical header extension, and a
  hint additionally has an audience, expires after it was issued, and was not issued more
  than 30 seconds in the future.\<close>

theorem token_kinds_are_disjoint:
  "(\<forall>a. verify L C now keys token issuer audience = Inr a \<longrightarrow>
      (\<exists>h kid. cr_decode_header C token = Some h \<and> jh_alg h = RS256 \<and> jh_typ h = Some ''at+jwt''
        \<and> jh_kid h = Some kid \<and> map_of (sk_decoding keys) kid \<noteq> None \<and> \<not> has_unsupported_crit L token))
   \<and> (\<forall>c. verify_id_logout L C now keys token issuer = Inr c \<longrightarrow>
      (\<exists>h kid. cr_decode_header C token = Some h \<and> jh_alg h = RS256 \<and> jh_typ h = Some ''JWT''
        \<and> jh_kid h = Some kid \<and> map_of (sk_decoding keys) kid \<noteq> None \<and> \<not> has_unsupported_crit L token)
      \<and> idc_aud c \<noteq> [] \<and> idc_iat c < idc_exp c \<and> idc_iat c \<le> timestamp now + 30)
   \<and> \<not> (is_ok (verify L C now keys token issuer audience) \<and> is_ok (verify_id_logout L C now' keys token issuer'))"
proof (intro conjI allI impI)
  fix a assume "verify L C now keys token issuer audience = Inr a"
  then obtain key where "token_key L C keys token ''at+jwt'' ''token algorithm or type is invalid'' = Inr key"
    by (auto simp: verify_def and_then_Inr_iff)
  from token_key_Inr [OF this] show "\<exists>h kid. cr_decode_header C token = Some h \<and> jh_alg h = RS256
      \<and> jh_typ h = Some ''at+jwt'' \<and> jh_kid h = Some kid \<and> map_of (sk_decoding keys) kid \<noteq> None
      \<and> \<not> has_unsupported_crit L token" by blast
next
  fix c assume c: "verify_id_logout L C now keys token issuer = Inr c"
  then obtain key where "token_key L C keys token ''JWT'' ''logout hint algorithm or type is invalid'' = Inr key"
    by (auto simp: verify_id_logout_def and_then_Inr_iff Let_def)
  from token_key_Inr [OF this] show "\<exists>h kid. cr_decode_header C token = Some h \<and> jh_alg h = RS256
      \<and> jh_typ h = Some ''JWT'' \<and> jh_kid h = Some kid \<and> map_of (sk_decoding keys) kid \<noteq> None
      \<and> \<not> has_unsupported_crit L token" by blast
  from c show "idc_aud c \<noteq> []" "idc_iat c < idc_exp c" "idc_iat c \<le> timestamp now + 30"
    by (auto simp: verify_id_logout_def and_then_Inr_iff Let_def CLOCK_SKEW_SECONDS_def split: if_splits)
next
  have a: "\<exists>h. cr_decode_header C token = Some h \<and> jh_typ h = Some ''at+jwt''"
    if "is_ok (verify L C now keys token issuer audience)"
    using that by (auto simp: is_ok_iff verify_def and_then_Inr_iff dest!: token_key_Inr)
  have b: "\<exists>h. cr_decode_header C token = Some h \<and> jh_typ h = Some ''JWT''"
    if "is_ok (verify_id_logout L C now' keys token issuer')"
    using that by (auto simp: is_ok_iff verify_id_logout_def and_then_Inr_iff Let_def dest!: token_key_Inr)
  show "\<not> (is_ok (verify L C now keys token issuer audience) \<and> is_ok (verify_id_logout L C now' keys token issuer'))"
    using a b by fastforce
qed

section \<open>Issuing\<close>

text \<open>C23: An issued token says what the grant allows: the access token names the grant's user,
  client and scopes, is for the granted resource, and for userinfo too exactly when \<open>openid\<close>
  was granted, lives 300 seconds, and the response's refresh token is the grant's; an
  identity token comes exactly with an initial exchange of an \<open>openid\<close> grant, bound to the
  client, the session, the nonce and the upstream login time.\<close>

theorem issue_says_what_the_grant_allows:
  assumes "issue L C e keys issuer userinfo exchange initial = Inr response"
  shows "\<exists>access ident. cr_encode_access C (sign_header keys ''at+jwt'') access (sk_encoding keys) = Some (tr_access_token response)
    \<and> at_iss access = issuer \<and> at_sub access = ex_user_id exchange \<and> at_client_id access = ex_client_id exchange
    \<and> at_scope access = join_with '' '' (ex_scopes exchange) \<and> tr_scope response = at_scope access
    \<and> hd (at_aud access) = ex_resource exchange
    \<and> set (at_aud access) = {ex_resource exchange} \<union> (if ''openid'' \<in> set (ex_scopes exchange) then {userinfo} else {})
    \<and> distinct (at_aud access)
    \<and> at_exp access = at_iat access + 300 \<and> at_iat access = timestamp (env_clock e 0) \<and> tr_expires_in response = 300
    \<and> tr_refresh_token response = ex_refresh_token exchange
    \<and> (tr_id_token response \<noteq> None \<longleftrightarrow> initial \<and> ''openid'' \<in> set (ex_scopes exchange))
    \<and> (\<forall>t. tr_id_token response = Some t \<longrightarrow>
         cr_encode_id C (sign_header keys ''JWT'') ident (sk_encoding keys) = Some t
         \<and> idc_aud ident = ex_client_id exchange \<and> idc_sid ident = Some (ex_session_id exchange)
         \<and> idc_sub ident = ex_user_id exchange \<and> idc_nonce ident = ex_oidc_nonce exchange
         \<and> idc_auth_time ident = map_option timestamp (ex_upstream_auth_time exchange)
         \<and> idc_exp ident = idc_iat ident + 300 \<and> idc_iat ident = timestamp (env_clock e 0))"
  using assms
  by (intro exI [of _ "access_claims_of e L issuer userinfo exchange"] exI [of _ "id_claims_of e issuer exchange"])
    (auto simp: issue_def sign_def sign_id_def and_then_Inr_iff map_ok_Inr_iff access_claims_of_def id_claims_of_def
      token_audiences_def split: if_splits)

section \<open>Concrete keys\<close>

definition ref_key :: "nat \<Rightarrow> rsa_public_key" where
  "ref_key k = \<lparr>rsa_n = 2 ^ 2047 + k, rsa_e = 65537\<rparr>"

definition ref_manifest :: manifest where
  "ref_manifest = \<lparr>mf_active = \<lparr>ak_kid = ''k1'', ak_private_key = ''sk1'', ak_public_key = ''pk1''\<rparr>,
     mf_previous = [\<lparr>pk_kid = ''k0'', pk_public_key = ''pk0''\<rparr>], mf_next = []\<rparr>"

definition ref_crypto :: crypto where
  "ref_crypto = \<lparr>cr_utf8 = Some, cr_private_pkcs8 = (\<lambda>s. Some \<lparr>rsa_public_part = ref_key 1\<rparr>),
     cr_private_pkcs1 = (\<lambda>s. None),
     cr_public_spki = (\<lambda>s. Some (ref_key (if s = ''pk1'' then 1 else 0))), cr_public_pkcs1 = (\<lambda>s. None),
     cr_encoding_key = Some, cr_decoding_key = Some, cr_manifest = (\<lambda>s. Some ref_manifest),
     cr_decode_header = (\<lambda>t. Some \<lparr>jh_alg = RS256, jh_typ = Some ''at+jwt'', jh_kid = Some ''k1''\<rparr>),
     cr_encode_access = (\<lambda>h c k. Some ''access''), cr_encode_id = (\<lambda>h c k. Some ''identity''),
     cr_decode_access = (\<lambda>t k v now. None), cr_decode_id = (\<lambda>t k v now. None)\<rparr>"

definition ref_files :: files where
  "ref_files = \<lparr>fl_read = Some, fl_read_to_string = Some,
     fl_open = (\<lambda>p. Some (Some \<lparr>md_is_file = True, md_mode = 384\<rparr>, Some p)),
     fl_parent = (\<lambda>p. None), fl_join = (\<lambda>b p. p)\<rparr>"

lemma bit_length_big: "2 ^ 2047 \<le> n \<Longrightarrow> 2048 \<le> bit_length n"
  using bit_length_ge [of 2047 n] by linarith

lemma ref_keys_loaded: "\<exists>keys. load_keys ref_libs ref_crypto ref_files ''m'' = Inr keys"
proof -
  have size: "validate_size (bit_length (rsa_n (ref_key k))) = Inr ()" for k
    using bit_length_big [of "2 ^ 2047 + k"] by (simp add: ref_key_def validate_size_def)
  have distinct: "rsa_n (ref_key 0) \<noteq> rsa_n (ref_key (Suc 0))" by (simp add: ref_key_def)
  have kids: "check_kid ''k1'' = Inr () \<and> check_kid ''k0'' = Inr ()" by code_simp
  show ?thesis
    using size distinct kids
    by (simp add: load_keys_def load_key_set_def ref_crypto_def ref_files_def ref_manifest_def read_private_key_def
        check_private_permissions_def parse_private_def
        parse_public_def add_public_def empty_key_set_def validate_size_def not_less Let_def)
qed

theorem load_publishes_key_set_witness:
  "\<exists>keys jwks. load_keys ref_libs ref_crypto ref_files ''m'' = Inr keys \<and> sk_jwks_json keys = jwks_json jwks
     \<and> map jwk_kid jwks = [''k1'', ''k0''] \<and> map (\<lambda>j. rsa_number ref_libs (jwk_n j)) jwks = [Some (2 ^ 2047 + 1), Some (2 ^ 2047)]"
proof -
  from ref_keys_loaded obtain keys where keys: "load_keys ref_libs ref_crypto ref_files ''m'' = Inr keys" by blast
  have entries: "manifest_entries ref_manifest = [(''k1'', ''pk1''), (''k0'', ''pk0'')]"
    by (simp add: manifest_entries_def ref_manifest_def)
  from load_publishes_key_set [OF ref_libs_base64 keys] obtain mf jwks where jwks: "cr_manifest ref_crypto ''m'' = Some mf"
    "sk_jwks_json keys = jwks_json jwks" "list_all2 (published ref_libs ref_crypto ref_files (manifest_base ref_files ''m'') keys) (manifest_entries mf) jwks"
    by (auto simp: ref_files_def)
  have "list_all2 (published ref_libs ref_crypto ref_files (manifest_base ref_files ''m'') keys) [(''k1'', ''pk1''), (''k0'', ''pk0'')] jwks"
    using jwks(1,3) entries by (simp add: ref_crypto_def)
  then obtain j1 j0 where j: "jwks = [j1, j0]" "published ref_libs ref_crypto ref_files (manifest_base ref_files ''m'') keys (''k1'', ''pk1'') j1"
    "published ref_libs ref_crypto ref_files (manifest_base ref_files ''m'') keys (''k0'', ''pk0'') j0"
    by (auto simp: list_all2_Cons1)
  have "jwk_kid j1 = ''k1'' \<and> rsa_number ref_libs (jwk_n j1) = Some (2 ^ 2047 + 1)"
    "jwk_kid j0 = ''k0'' \<and> rsa_number ref_libs (jwk_n j0) = Some (2 ^ 2047)"
    using j(2,3) by (auto simp: published_def ref_files_def ref_crypto_def parse_public_def ref_key_def simp del: of_bytes_be.simps)
  with keys jwks(2) j(1) show ?thesis by (intro exI [of _ keys] exI [of _ jwks]) simp
qed

definition ref_exchange :: exchange_result where
  "ref_exchange = \<lparr>ex_session_id = 40, ex_user_id = 1, ex_client_id = ''app'', ex_scopes = [''openid''],
     ex_resource = ''https://api.shocker.cl/r'', ex_refresh_token = None, ex_oidc_nonce = Some ''n'',
     ex_upstream_auth_time = None\<rparr>"

definition ref_keys :: signing_keys where
  "ref_keys = \<lparr>sk_active_kid = ''k1'', sk_encoding = ''e'', sk_decoding = [(''k1'', ''d'')], sk_jwks_json = []\<rparr>"

theorem issue_says_what_the_grant_allows_witness:
  "\<exists>response (access :: access_claims). issue ref_libs ref_crypto ref_env ref_keys ''i'' ''u'' ref_exchange True = Inr response
     \<and> set (at_aud access) = {''https://api.shocker.cl/r'', ''u''} \<and> at_exp access = at_iat access + 300
     \<and> tr_id_token response \<noteq> None"
proof -
  have "is_ok (issue ref_libs ref_crypto ref_env ref_keys ''i'' ''u'' ref_exchange True)"
    by (simp add: issue_def sign_def sign_id_def ref_crypto_def)
  then obtain response where r: "issue ref_libs ref_crypto ref_env ref_keys ''i'' ''u'' ref_exchange True = Inr response"
    unfolding is_ok_iff by (elim exE) (rule that; assumption)
  have openid: "''openid'' \<in> set (ex_scopes ref_exchange)" and res: "ex_resource ref_exchange = ''https://api.shocker.cl/r''"
    by (simp_all add: ref_exchange_def)
  have "\<exists>access :: access_claims. set (at_aud access) = {ex_resource ref_exchange}
        \<union> (if ''openid'' \<in> set (ex_scopes ref_exchange) then {''u''} else {})
      \<and> at_exp access = at_iat access + 300
      \<and> (tr_id_token response \<noteq> None \<longleftrightarrow> True \<and> ''openid'' \<in> set (ex_scopes ref_exchange))"
    using issue_says_what_the_grant_allows [OF r] by (elim exE conjE) (intro exI conjI; assumption)
  then obtain access :: access_claims where
    "set (at_aud access) = {ex_resource ref_exchange} \<union> (if ''openid'' \<in> set (ex_scopes ref_exchange) then {''u''} else {})"
    "at_exp access = at_iat access + 300"
    "tr_id_token response \<noteq> None \<longleftrightarrow> True \<and> ''openid'' \<in> set (ex_scopes ref_exchange)"
    by (elim exE conjE) (rule that; assumption)
  then have "set (at_aud access) = {''https://api.shocker.cl/r'', ''u''} \<and> at_exp access = at_iat access + 300
     \<and> tr_id_token response \<noteq> None"
    unfolding res if_P [OF openid] by (simp only: openid simp_thms Un_insert_left Un_empty_left)
  with r have "issue ref_libs ref_crypto ref_env ref_keys ''i'' ''u'' ref_exchange True = Inr response
     \<and> set (at_aud access) = {''https://api.shocker.cl/r'', ''u''} \<and> at_exp access = at_iat access + 300
     \<and> tr_id_token response \<noteq> None" by (rule conjI)
  then show ?thesis by (intro exI) assumption
qed

theorem token_kinds_are_disjoint_witness:
  "\<not> is_ok (verify_id_logout ref_libs ref_crypto 0 ref_keys ''t'' ''i'')"
proof
  assume "is_ok (verify_id_logout ref_libs ref_crypto 0 ref_keys ''t'' ''i'')"
  then obtain c where "verify_id_logout ref_libs ref_crypto 0 ref_keys ''t'' ''i'' = Inr c" by (auto simp: is_ok_iff)
  with token_kinds_are_disjoint [of ref_libs ref_crypto 0 ref_keys "''t''" "''i''" "[]" 0 "''i''"]
  show False by (auto simp: ref_crypto_def)
qed

end
