(* ===== verification/Google_Properties.thy ===== *)
theory Google_Properties
  imports Google Token_Properties
begin

text \<open>
  What the Google adapter guarantees: which identity tokens become a verified identity, where
  the key that verified one came from, and how often the signing keys are fetched.
\<close>

section \<open>Claims\<close>

definition sane_clock :: "int \<Rightarrow> bool" where
  "sane_clock now \<longleftrightarrow> 0 \<le> now \<and> now + CLOCK_SKEW \<le> i64_max"

lemma wrap_i64_id: "- (i64_max + 1) \<le> n \<Longrightarrow> n \<le> i64_max \<Longrightarrow> wrap_i64 n = n"
  by (simp add: wrap_i64_def i64_max_def)

lemma sane_clockD:
  assumes "sane_clock now"
  shows "wrap_i64 (now + CLOCK_SKEW) = now + CLOCK_SKEW" "saturating_add_i64 t CLOCK_SKEW < now \<longleftrightarrow> t + CLOCK_SKEW < now"
proof -
  show "wrap_i64 (now + CLOCK_SKEW) = now + CLOCK_SKEW"
    using assms by (intro wrap_i64_id) (auto simp: sane_clock_def CLOCK_SKEW_def i64_max_def)
  show "saturating_add_i64 t CLOCK_SKEW < now \<longleftrightarrow> t + CLOCK_SKEW < now"
    using assms by (auto simp: sane_clock_def saturating_add_i64_def CLOCK_SKEW_def)
qed

text \<open>The specification of an acceptable set of claims.\<close>

definition claims_for :: "google_claims \<Rightarrow> string \<Rightarrow> string \<Rightarrow> int \<Rightarrow> bool" where
  "claims_for c client_id nonce now \<longleftrightarrow>
     gc_iss c \<in> {''accounts.google.com'', ''https://accounts.google.com''}
     \<and> 1 \<le> length (gc_sub c) \<and> length (gc_sub c) \<le> 255 \<and> (\<forall>b \<in> set (gc_sub c). is_ascii b)
     \<and> gc_nonce c = nonce
     \<and> now \<le> gc_exp c + 30 \<and> 0 \<le> gc_iat c \<and> gc_iat c \<le> now + 30
     \<and> (\<forall>t. gc_nbf c = Some t \<longrightarrow> t \<le> now + 30)
     \<and> (\<forall>t. gc_auth_time c = Some t \<longrightarrow> 0 \<le> t \<and> t \<le> now + 30)
     \<and> (gc_azp c = None \<or> gc_azp c = Some client_id)
     \<and> (case gc_aud c of One a \<Rightarrow> a = client_id
        | Many as \<Rightarrow> client_id \<in> set as \<and> (length as \<le> 1 \<or> gc_azp c = Some client_id))"

lemma bad_claims_iff:
  assumes "sane_clock now"
  shows "\<not> bad_claims c nonce now \<longleftrightarrow>
     gc_iss c \<in> {''accounts.google.com'', ''https://accounts.google.com''}
     \<and> 1 \<le> length (gc_sub c) \<and> length (gc_sub c) \<le> 255 \<and> (\<forall>b \<in> set (gc_sub c). is_ascii b)
     \<and> gc_nonce c = nonce
     \<and> now \<le> gc_exp c + 30 \<and> 0 \<le> gc_iat c \<and> gc_iat c \<le> now + 30
     \<and> (\<forall>t. gc_nbf c = Some t \<longrightarrow> t \<le> now + 30)
     \<and> (\<forall>t. gc_auth_time c = Some t \<longrightarrow> 0 \<le> t \<and> t \<le> now + 30)"
  using sane_clockD [OF assms]
  by (cases "gc_nbf c"; cases "gc_auth_time c")
    (auto simp: bad_claims_def list_all_iff CLOCK_SKEW_def Suc_le_eq not_less)

lemma validate_claims_Inr_iff:
  assumes "sane_clock now"
  shows "validate_claims c client_id nonce now = Inr v \<longleftrightarrow>
     claims_for c client_id nonce now
     \<and> v = \<lparr>vgi_subject = gc_sub c,
            vgi_profile = \<lparr>up_name = gc_name c, up_given_name = gc_given_name c, up_family_name = gc_family_name c,
              up_picture = gc_picture c, up_verified_email = verified_email_of c\<rparr>,
            vgi_auth_time = gc_auth_time c\<rparr>"
  using bad_claims_iff [OF assms, of c nonce]
  by (cases "gc_aud c"; cases "gc_azp c")
    (auto simp: validate_claims_def claims_for_def audience_check_def list_ex_iff not_less)

lemma verified_email_of_Some_iff:
  "verified_email_of c = Some v \<longleftrightarrow>
     gc_email c = Some v \<and> v \<noteq> [] \<and> (\<exists>b. gc_email_verified c = Some b \<and> is_true b)"
  by (cases "gc_email c"; cases "gc_email_verified c") (auto simp: verified_email_of_def)

section \<open>The key set\<close>

definition kid_ok :: "string \<times> decoding_key \<Rightarrow> bool" where
  "kid_ok p \<longleftrightarrow> fst p \<noteq> [] \<and> length (fst p) \<le> 128"

definition usable_keys :: "(string \<times> decoding_key) list \<Rightarrow> bool" where
  "usable_keys keys \<longleftrightarrow> length keys \<le> 32 \<and> distinct (map fst keys)
     \<and> list_all kid_ok keys"

text \<open>The entry of the document a decoding key was made from.\<close>

definition jwk_yields :: "libs \<Rightarrow> google_net \<Rightarrow> google_jwk \<Rightarrow> string \<Rightarrow> decoding_key \<Rightarrow> bool" where
  "jwk_yields L N k kid dk \<longleftrightarrow> gk_kid k = kid \<and> gk_kty k = ''RSA''
     \<and> gn_from_components N (gk_n k) (gk_e k) = Some dk
     \<and> (\<exists>n x rsa. b64_decode L (gk_n k) = Some n \<and> b64_decode L (gk_e k) = Some x
          \<and> gn_rsa_new N (of_bytes_be n) (of_bytes_be x) = Some rsa
          \<and> 2048 \<le> bit_length (rsa_n rsa) \<and> bit_length (rsa_n rsa) \<le> 8192)"

lemma parse_jwks_Inr:
  assumes "parse_jwks L N ks keys0 = Inr keys" and "distinct (map fst keys0)" and "list_all kid_ok keys0"
  shows "length keys = length keys0 + length ks \<and> distinct (map fst keys) \<and> list_all kid_ok keys
    \<and> (\<forall>p \<in> set keys. p \<in> set keys0 \<or> (\<exists>k \<in> set ks. jwk_yields L N k (fst p) (snd p)))"
  using assms
proof (induction ks arbitrary: keys0)
  case (Cons k ks)
  from Cons.prems(1) obtain n x rsa dk where step:
    "\<not> jwk_refused k" "b64_decode L (gk_n k) = Some n" "b64_decode L (gk_e k) = Some x"
    "gn_rsa_new N (of_bytes_be n) (of_bytes_be x) = Some rsa"
    "2048 \<le> bit_length (rsa_n rsa)" "bit_length (rsa_n rsa) \<le> 8192"
    "gn_from_components N (gk_n k) (gk_e k) = Some dk" "map_of keys0 (gk_kid k) = None"
    and rest: "parse_jwks L N ks ((gk_kid k, dk) # keys0) = Inr keys"
    by (auto simp: and_then_Inr_iff simp del: of_bytes_be.simps split: if_splits)
  have kid: "kid_ok (gk_kid k, dk)" "gk_kty k = ''RSA''"
    using step(1) by (auto simp: jwk_refused_def kid_ok_def)
  with step have new: "jwk_yields L N k (gk_kid k) dk" unfolding jwk_yields_def by blast
  have "distinct (map fst ((gk_kid k, dk) # keys0))" "list_all kid_ok ((gk_kid k, dk) # keys0)"
    using step(8) Cons.prems(2,3) kid by (auto simp: map_of_eq_None_iff)
  from Cons.IH [OF rest this] new show ?case by auto
qed simp

lemma cache_freshness_le: "cache_freshness N r \<le> 3600"
  by (auto simp: cache_freshness_def Let_def MAX_CACHE_AGE_def)

lemma fetch_keys_Inr:
  assumes "fetch_keys L N G permit = Inr (keys, freshness)"
  shows "usable_keys keys \<and> keys \<noteq> [] \<and> freshness \<le> 3600
    \<and> (\<exists>response body jwks. gn_get N (ge_jwks (ga_endpoints G)) = Some response \<and> hr_status response = 200
         \<and> bounded_body response (256 * 1024) = Inr body \<and> gn_jwks N body = Some jwks
         \<and> (\<forall>p \<in> set keys. \<exists>k \<in> set jwks. jwk_yields L N k (fst p) (snd p)))"
proof -
  from assms obtain response body jwks where r: "gn_get N (ge_jwks (ga_endpoints G)) = Some response"
    "hr_status response = 200" "bounded_body response (256 * 1024) = Inr body" "gn_jwks N body = Some jwks"
    "jwks \<noteq> []" "length jwks \<le> 32" "parse_jwks L N jwks [] = Inr keys" "freshness = cache_freshness N response"
    by (auto simp: fetch_keys_def and_then_Inr_iff map_ok_Inr_iff STATUS_OK_def MAX_JWKS_RESPONSE_def MAX_KEYS_def
        not_less split: if_splits)
  from parse_jwks_Inr [OF r(7)] r show ?thesis
    using cache_freshness_le [of N response] by (auto simp: usable_keys_def)
qed

text \<open>The four ways of answering: from the fresh cache, refusing inside the back-off, fetching.\<close>

lemma key_cases:
  assumes "key L N e G permit cache kid = (out, cache')"
  obtains
    (hit) dk where "env_instant e 0 < kc_fresh_until cache" "map_of (kc_keys cache) kid = Some dk"
      "out = Inr dk" "cache' = cache"
  | (throttled) attempt where "kc_last_attempt cache = Some attempt"
      "env_instant e 0 - attempt < UNKNOWN_KID_BACKOFF" "out = Inl KeysUnavailable" "cache' = cache"
      "\<not> (env_instant e 0 < kc_fresh_until cache \<and> map_of (kc_keys cache) kid \<noteq> None)"
  | (failed) err where "\<forall>attempt. kc_last_attempt cache = Some attempt \<longrightarrow> attempt + UNKNOWN_KID_BACKOFF \<le> env_instant e 0"
      "kc_last_attempt cache \<noteq> Some (env_instant e 0)" "fetch_keys L N G permit = Inl err" "out = Inl err"
      "cache' = cache\<lparr>kc_last_attempt := Some (env_instant e 0)\<rparr>"
  | (fetched) keys freshness where "\<forall>attempt. kc_last_attempt cache = Some attempt \<longrightarrow> attempt + UNKNOWN_KID_BACKOFF \<le> env_instant e 0"
      "kc_last_attempt cache \<noteq> Some (env_instant e 0)" "fetch_keys L N G permit = Inr (keys, freshness)" "out = ok_or KeysUnavailable (map_of keys kid)"
      "cache' = \<lparr>kc_keys = keys, kc_fresh_until = env_instant e 1 + instant_secs freshness,
                 kc_last_attempt = Some (env_instant e 0)\<rparr>"
proof (cases "env_instant e 0 < kc_fresh_until cache \<and> map_of (kc_keys cache) kid \<noteq> None")
  case True
  then obtain dk where "map_of (kc_keys cache) kid = Some dk" by auto
  with True assms show ?thesis by (intro hit [of dk]) (simp_all add: key_def)
next
  case False
  note run = assms [unfolded key_def Let_def if_not_P [OF False]]
  show ?thesis
  proof (cases "is_some_and (kc_last_attempt cache) (\<lambda>attempt. env_instant e 0 - attempt < UNKNOWN_KID_BACKOFF)")
    case True
    then obtain attempt where "kc_last_attempt cache = Some attempt" "env_instant e 0 - attempt < UNKNOWN_KID_BACKOFF"
      by (auto simp: is_some_and_iff)
    with run False show ?thesis by (intro throttled) simp_all
  next
    case wait: False
    then have gap: "\<forall>attempt. kc_last_attempt cache = Some attempt \<longrightarrow> attempt + UNKNOWN_KID_BACKOFF \<le> env_instant e 0"
      by (auto simp: UNKNOWN_KID_BACKOFF_def instant_secs_def)
    then have "kc_last_attempt cache \<noteq> Some (env_instant e 0)"
      by (auto simp: UNKNOWN_KID_BACKOFF_def instant_secs_def)
    note gap = gap this
    note run = run [unfolded if_not_P [OF wait]]
    show ?thesis
    proof (cases "fetch_keys L N G permit")
      case (Inl err)
      with run gap show ?thesis by (intro failed [of err]) simp_all
    next
      case (Inr r)
      obtain keys freshness where "r = (keys, freshness)" by (cases r)
      with Inr run gap show ?thesis by (intro fetched [of keys freshness]) (cases cache, auto)
    qed
  qed
qed

section \<open>Histories of key lookups\<close>

text \<open>
  A lookup is made with the network and clock of its moment.  \<open>run_keys\<close> is the cache after a
  sequence of them and \<open>fetch_instants\<close> the instants at which one of them went to the network.
\<close>

type_synonym key_call = "google_net \<times> env \<times> nat \<times> string"

fun after_key :: "libs \<Rightarrow> google_adapter \<Rightarrow> key_cache \<Rightarrow> key_call \<Rightarrow> key_cache" where
  "after_key L G cache (N, e, permit, kid) = snd (key L N e G permit cache kid)"

fun run_keys :: "libs \<Rightarrow> google_adapter \<Rightarrow> key_cache \<Rightarrow> key_call list \<Rightarrow> key_cache" where
  "run_keys L G cache [] = cache"
| "run_keys L G cache (c # cs) = run_keys L G (after_key L G cache c) cs"

definition attempt_of :: "key_cache \<Rightarrow> key_cache \<Rightarrow> nat list" where
  "attempt_of cache cache' = (if kc_last_attempt cache' = kc_last_attempt cache then []
     else case kc_last_attempt cache' of None \<Rightarrow> [] | Some t \<Rightarrow> [t])"

fun fetch_instants :: "libs \<Rightarrow> google_adapter \<Rightarrow> key_cache \<Rightarrow> key_call list \<Rightarrow> nat list" where
  "fetch_instants L G cache [] = []"
| "fetch_instants L G cache (c # cs) =
     attempt_of cache (after_key L G cache c) @ fetch_instants L G (after_key L G cache c) cs"

lemma after_key_cases:
  "(attempt_of cache (after_key L G cache c) = [] \<and> after_key L G cache c = cache)
   \<or> (\<exists>t. attempt_of cache (after_key L G cache c) = [t] \<and> kc_last_attempt (after_key L G cache c) = Some t
        \<and> (\<forall>t0. kc_last_attempt cache = Some t0 \<longrightarrow> t0 + UNKNOWN_KID_BACKOFF \<le> t))"
proof -
  obtain N e permit kid where c: "c = (N, e, permit, kid)" by (metis prod_cases4)
  obtain out cache' where run: "key L N e G permit cache kid = (out, cache')" by (cases "key L N e G permit cache kid")
  then have after: "after_key L G cache c = cache'" by (simp add: c)
  from run show ?thesis
    by (cases rule: key_cases) (use after in \<open>auto simp: attempt_of_def\<close>)
qed

lemma fetch_instants_gap:
  "sorted_wrt (\<lambda>s t. s + UNKNOWN_KID_BACKOFF \<le> t) (fetch_instants L G cache calls)
   \<and> (\<forall>t0 t. kc_last_attempt cache = Some t0 \<and> t \<in> set (fetch_instants L G cache calls) \<longrightarrow> t0 + UNKNOWN_KID_BACKOFF \<le> t)"
proof (induction calls arbitrary: cache)
  case (Cons c cs)
  let ?next = "after_key L G cache c"
  from after_key_cases [of cache L G c] show ?case
  proof (elim disjE conjE exE)
    assume "attempt_of cache ?next = []" "?next = cache"
    with Cons.IH [of ?next] show ?thesis by simp
  next
    fix t
    assume t: "attempt_of cache ?next = [t]" "kc_last_attempt ?next = Some t"
      "\<forall>t0. kc_last_attempt cache = Some t0 \<longrightarrow> t0 + UNKNOWN_KID_BACKOFF \<le> t"
    have later: "t + UNKNOWN_KID_BACKOFF \<le> u" if "u \<in> set (fetch_instants L G ?next cs)" for u
      using Cons.IH [of ?next] t(2) that by blast
    have "t0 + UNKNOWN_KID_BACKOFF \<le> u" if "kc_last_attempt cache = Some t0" "u \<in> set (t # fetch_instants L G ?next cs)" for t0 u
      using t(3) that later [of u] by auto
    with Cons.IH [of ?next] later show ?thesis by (simp add: t(1))
  qed
qed simp

text \<open>Key fetching is throttled: in any sequence of lookups, whatever kids an attacker names and
  whether fetches succeed or fail, two attempts to fetch Google's keys are at least five seconds
  apart, and a lookup that makes no attempt does not depend on the network at all.\<close>

theorem key_fetches_throttled:
  "sorted_wrt (\<lambda>s t. s + instant_secs 5 \<le> t) (fetch_instants L G cache calls)
   \<and> (attempt_of cache (after_key L G cache (N, e, permit, kid)) = [] \<longrightarrow>
      key L N' e G permit' cache kid = key L N e G permit cache kid)"
proof (intro conjI impI)
  show "sorted_wrt (\<lambda>s t. s + instant_secs 5 \<le> t) (fetch_instants L G cache calls)"
    using fetch_instants_gap [of L G cache calls] by (simp add: UNKNOWN_KID_BACKOFF_def)
next
  obtain out cache' where run: "key L N e G permit cache kid = (out, cache')" by (cases "key L N e G permit cache kid")
  assume "attempt_of cache (after_key L G cache (N, e, permit, kid)) = []"
  with run have none: "attempt_of cache cache' = []" by simp
  from run have "key L N' e G permit' cache kid = (out, cache')"
    by (cases rule: key_cases) (use none in \<open>auto simp: key_def Let_def attempt_of_def split: if_splits\<close>)
  with run show "key L N' e G permit' cache kid = key L N e G permit cache kid" by simp
qed

definition cache_from :: "libs \<Rightarrow> google_adapter \<Rightarrow> key_call list \<Rightarrow> key_cache \<Rightarrow> bool" where
  "cache_from L G calls cache \<longleftrightarrow> kc_keys cache = []
     \<or> (\<exists>(N, e, permit, kid) \<in> set calls. \<exists>freshness. fetch_keys L N G permit = Inr (kc_keys cache, freshness)
          \<and> kc_fresh_until cache = env_instant e 1 + instant_secs freshness)"

lemma cache_from_step:
  assumes "cache_from L G calls cache"
  shows "cache_from L G (calls @ [c]) (after_key L G cache c)"
proof -
  obtain N e permit kid where c: "c = (N, e, permit, kid)" by (metis prod_cases4)
  obtain out cache' where run: "key L N e G permit cache kid = (out, cache')" by (cases "key L N e G permit cache kid")
  then have after: "after_key L G cache c = cache'" by (simp add: c)
  from run show ?thesis
    by (cases rule: key_cases) (use after assms in \<open>auto simp: cache_from_def c\<close>)
qed

lemma cache_from_run: "cache_from L G before cache \<Longrightarrow> cache_from L G (before @ calls) (run_keys L G cache calls)"
proof (induction calls arbitrary: before cache)
  case (Cons c cs)
  from Cons.IH [OF cache_from_step [OF Cons.prems, of c]] show ?case by simp
qed simp

text \<open>Keys expire: whatever lookups came before, a key handed out for a kid was in a key set fetched
  from Google by one of the lookups, at most 32 keys with distinct kids, and that fetch is this
  very one or the set is still within the freshness its response allowed, an hour at most.\<close>

theorem key_handed_out_is_fresh:
  assumes "fst (key L N e G permit (run_keys L G (google_key_cache t0) calls) kid) = Inr dk"
  shows "\<exists>(N', e', permit', kid') \<in> set (calls @ [(N, e, permit, kid)]). \<exists>keys freshness.
      fetch_keys L N' G permit' = Inr (keys, freshness) \<and> map_of keys kid = Some dk
      \<and> usable_keys keys \<and> freshness \<le> 3600
      \<and> ((N', e', permit', kid') = (N, e, permit, kid) \<or> env_instant e 0 < env_instant e' 1 + instant_secs freshness)"
proof -
  let ?cache = "run_keys L G (google_key_cache t0) calls"
  have "cache_from L G [] (google_key_cache t0)" by (simp add: cache_from_def google_key_cache_def)
  from cache_from_run [OF this, of calls] have old: "cache_from L G calls ?cache" by simp
  obtain out cache' where run: "key L N e G permit ?cache kid = (out, cache')"
    by (cases "key L N e G permit ?cache kid")
  with assms have out: "out = Inr dk" by simp
  from run show ?thesis
  proof (cases rule: key_cases)
    case (hit dk')
    then have "kc_keys ?cache \<noteq> []" by auto
    with old obtain N' e' permit' kid' freshness where src: "(N', e', permit', kid') \<in> set calls"
      "fetch_keys L N' G permit' = Inr (kc_keys ?cache, freshness)"
      "kc_fresh_until ?cache = env_instant e' 1 + instant_secs freshness" by (auto simp: cache_from_def)
    with hit out fetch_keys_Inr [OF src(2)] show ?thesis
      by (intro bexI [of _ "(N', e', permit', kid')"]) auto
  next
    case (fetched keys freshness)
    with out fetch_keys_Inr [OF fetched(3)] show ?thesis
      by (intro bexI [of _ "(N, e, permit, kid)"]) auto
  qed (use out in auto)
qed

section \<open>The upstream login\<close>

lemma verify_id_token_Inr:
  assumes "verify_id_token L N e G permit cache token nonce = (Inr v, cache')"
  obtains header kid dk claims where "length token \<le> MAX_TOKEN_RESPONSE" "gn_decode_header N token = Some header"
    "jh_alg header = RS256" "\<not> google_unsupported_crit L token" "jh_typ header \<in> {None, Some ''JWT''}"
    "jh_kid header = Some kid" "kid \<noteq> []" "length kid \<le> 128" "key L N e G permit cache kid = (Inr dk, cache')"
    "gn_decode_claims N token dk google_validation = Some claims"
    "validate_claims claims (ga_client_id G) nonce (unix_now N) = Inr v"
proof -
  note run = assms [unfolded verify_id_token_def]
  obtain header where h: "gn_decode_header N token = Some header" "length token \<le> MAX_TOKEN_RESPONSE"
    using run by (cases "gn_decode_header N token") (auto split: if_splits)
  obtain kid where kid: "jh_kid header = Some kid" "jh_alg header = RS256" "\<not> google_unsupported_crit L token"
    "\<not> is_some_and (jh_typ header) (\<lambda>v. v \<noteq> ''JWT'')" "kid \<noteq> []" "length kid \<le> 128"
    using run h by (cases "jh_kid header") (auto split: if_splits)
  obtain k cache1 where k: "key L N e G permit cache kid = (k, cache1)" by (cases "key L N e G permit cache kid")
  obtain dk where dk: "k = Inr dk" "cache1 = cache'"
    using run h kid k by (cases k) (auto split: if_splits)
  have "and_then (ok_or InvalidIdentityToken (gn_decode_claims N token dk google_validation)) (\<lambda>claims.
      validate_claims claims (ga_client_id G) nonce (unix_now N)) = Inr v"
    using run h kid k dk by (auto split: if_splits)
  then obtain claims where "gn_decode_claims N token dk google_validation = Some claims"
    "validate_claims claims (ga_client_id G) nonce (unix_now N) = Inr v" by (auto simp: and_then_Inr_iff)
  moreover have "jh_typ header \<in> {None, Some ''JWT''}"
    using kid(4) by (cases "jh_typ header") simp_all
  ultimately show ?thesis using h kid k dk by (intro that) simp_all
qed

text \<open>C27: A login is believed only if Google said so to this client, for this transaction and now: the
  upstream code was redeemed at the token endpoint with the client's secret, the fixed callback
  and the transaction's verifier; the identity token it returned is an RS256 JWT without
  critical extensions, decodes under a key handed out by the key cache, names Google as issuer
  and this client as audience (and as authorized party whenever there are several audiences),
  carries the transaction's nonce and holds at the present time with 30 seconds of skew; the
  identity has its subject, and an e-mail address exactly if Google says it is verified.\<close>

theorem upstream_login_sound:
  assumes "sane_clock (unix_now N)"
    and "google_exchange_code L N e G cache code verifier nonce = (Inr v, cache')"
  shows "\<exists>client_secret response body token header kid dk claims.
      gn_var N (ga_client_secret_env G) = Some client_secret \<and> client_secret \<noteq> [] \<and> valid_pkce_verifier verifier
      \<and> gn_post N (ge_token (ga_endpoints G)) (token_form G code client_secret verifier) = Some response
      \<and> hr_status response = 200 \<and> bounded_body response (64 * 1024) = Inr body
      \<and> gn_token_response N body = Some token \<and> gn_decode_header N token = Some header
      \<and> jh_alg header = RS256 \<and> jh_typ header \<in> {None, Some ''JWT''} \<and> \<not> google_unsupported_crit L token
      \<and> jh_kid header = Some kid \<and> key L N e G 1 cache kid = (Inr dk, cache')
      \<and> gn_decode_claims N token dk google_validation = Some claims
      \<and> claims_for claims (ga_client_id G) nonce (unix_now N)
      \<and> vgi_subject v = gc_sub claims \<and> vgi_auth_time v = gc_auth_time claims
      \<and> (\<forall>m. up_verified_email (vgi_profile v) = Some m \<longleftrightarrow>
           gc_email claims = Some m \<and> m \<noteq> [] \<and> (\<exists>b. gc_email_verified claims = Some b \<and> is_true b))"
proof -
  from assms(2) obtain client_secret response body token where post:
    "valid_pkce_verifier verifier" "secret N G = Inr client_secret"
    "gn_post N (ge_token (ga_endpoints G)) (token_form G code client_secret verifier) = Some response"
    "hr_status response = 200" "bounded_body response (64 * 1024) = Inr body" "gn_token_response N body = Some token"
    and verify: "verify_id_token L N e G 1 cache token nonce = (Inr v, cache')"
    by (auto simp: google_exchange_code_def and_then_Inr_iff STATUS_OK_def MAX_TOKEN_RESPONSE_def
        split: if_splits sum.splits)
  have "gn_var N (ga_client_secret_env G) = Some client_secret \<and> client_secret \<noteq> []"
    using post(2) by (auto simp: secret_def split: option.splits if_splits)
  note found = this
  obtain header kid dk claims where "length token \<le> MAX_TOKEN_RESPONSE" and id:
    "gn_decode_header N token = Some header" "jh_alg header = RS256" "\<not> google_unsupported_crit L token"
    "jh_typ header \<in> {None, Some ''JWT''}" "jh_kid header = Some kid" and "kid \<noteq> []" "length kid \<le> 128" and used:
    "key L N e G 1 cache kid = (Inr dk, cache')" "gn_decode_claims N token dk google_validation = Some claims"
    and valid: "validate_claims claims (ga_client_id G) nonce (unix_now N) = Inr v"
    by (rule verify_id_token_Inr [OF verify])
  from validate_claims_Inr_iff [OF assms(1)] valid
  have who: "claims_for claims (ga_client_id G) nonce (unix_now N)" "vgi_subject v = gc_sub claims"
    "vgi_auth_time v = gc_auth_time claims" "up_verified_email (vgi_profile v) = verified_email_of claims" by auto
  have mail: "\<forall>m. up_verified_email (vgi_profile v) = Some m \<longleftrightarrow> gc_email claims = Some m \<and> m \<noteq> []
      \<and> (\<exists>b. gc_email_verified claims = Some b \<and> is_true b)"
    by (simp only: who(4) verified_email_of_Some_iff) simp
  show ?thesis
    by (rule exI [of _ client_secret], rule exI [of _ response], rule exI [of _ body], rule exI [of _ token],
        rule exI [of _ header], rule exI [of _ kid], rule exI [of _ dk], rule exI [of _ claims], intro conjI)
      (rule found [THEN conjunct1] found [THEN conjunct2] post id used who(1-3) mail)+
qed

section \<open>A concrete login\<close>

definition gw_libs :: libs where
  "gw_libs = ref_libs\<lparr>b64_decode := Some, json_parse := \<lambda>s. Some JNull\<rparr>"

definition gw_adapter :: google_adapter where
  "gw_adapter = \<lparr>ga_client_id = ''c'', ga_client_secret_env = ''SECRET'', ga_callback = ''cb'',
     ga_endpoints = \<lparr>ge_authorize = ''a'', ge_token = ''t'', ge_jwks = ''j''\<rparr>\<rparr>"

definition gw_response :: http_response where
  "gw_response = \<lparr>hr_status = 200, hr_headers = [(''cache-control'', ''public, max-age=600'')],
     hr_content_length = None, hr_chunks = [Some ''x'']\<rparr>"

definition gw_claims :: google_claims where
  "gw_claims = \<lparr>gc_iss = ''accounts.google.com'', gc_sub = ''s'', gc_aud = Many [''c''], gc_azp = None, gc_exp = 1000,
     gc_iat = 900, gc_nbf = None, gc_nonce = ''n'', gc_auth_time = None, gc_name = None, gc_given_name = None,
     gc_family_name = None, gc_picture = None, gc_email = Some ''m'', gc_email_verified = Some (Text ''true'')\<rparr>"

definition gw_jwk :: google_jwk where
  "gw_jwk = \<lparr>gk_kty = ''RSA'', gk_kid = ''k'', gk_n = replicate 256 (CHR ''n''), gk_e = ''e'', gk_alg = None,
     gk_use = Some ''sig'', gk_key_ops = None\<rparr>"

definition gw_net :: google_net where
  "gw_net = \<lparr>gn_post = \<lambda>u f. Some gw_response, gn_get = \<lambda>u. Some gw_response, gn_permit = \<lambda>k. True,
     gn_header_text = Some, gn_client_built = True, gn_var = \<lambda>v. Some ''pw'', gn_system_secs = Some 950,
     gn_append_pairs = \<lambda>u ps. u, gn_token_response = \<lambda>b. Some ''h.p.s'', gn_jwks = \<lambda>b. Some [gw_jwk],
     gn_rsa_new = \<lambda>n x. Some (ref_key 0), gn_from_components = \<lambda>n x. Some ''dk'',
     gn_decode_header = \<lambda>t. Some \<lparr>jh_alg = RS256, jh_typ = None, jh_kid = Some ''k''\<rparr>,
     gn_decode_claims = \<lambda>t k v. Some gw_claims\<rparr>"

definition gw_env :: "nat \<Rightarrow> env" where
  "gw_env t = ref_env\<lparr>env_instant := \<lambda>_. instant_secs t\<rparr>"

lemma gw_fetch: "fetch_keys gw_libs gw_net gw_adapter p = Inr ([(''k'', ''dk'')], 600)"
proof -
  have bits: "2048 \<le> bit_length (rsa_n (ref_key 0))" "bit_length (rsa_n (ref_key 0)) \<le> 8192"
    using bit_length_big [of "2 ^ 2047"] bit_length_ge [of 8192 "2 ^ 2047"] by (simp_all add: ref_key_def not_less [symmetric])
  have "parse_jwks gw_libs gw_net [gw_jwk] [] = Inr [(''k'', ''dk'')]"
    using bits by (simp add: gw_libs_def gw_net_def gw_jwk_def jwk_refused_def del: of_bytes_be.simps)
  moreover have "cache_freshness gw_net gw_response = 600"
  proof -
    have parts: "map (\<lambda>v. to_ascii_lowercase (trim v)) (split_on (CHR '','') ''public, max-age=600'') = [''public'', ''max-age=600'']"
      by code_simp
    have number: "parse_uint u64_max ''600'' = Some 600" "strip_prefix ''max-age='' ''public'' = None"
      "strip_prefix ''max-age='' ''max-age=600'' = Some ''600''"
      by (simp_all add: parse_uint_def digits_value_def digit_value_def is_ascii_digit_def strip_prefix_def)
    have "header_text gw_net gw_response ''cache-control'' = Some ''public, max-age=600''"
      "header_text gw_net gw_response ''age'' = None"
      by (simp_all add: header_text_def header_value_def gw_response_def gw_net_def)
    then show ?thesis by (simp only: cache_freshness_def option.case Let_def parts) (simp add: number MAX_CACHE_AGE_def)
  qed
  moreover have "bounded_body gw_response MAX_JWKS_RESPONSE = Inr ''x''" by code_simp
  ultimately show ?thesis
    by (simp add: fetch_keys_def gw_net_def gw_adapter_def STATUS_OK_def MAX_KEYS_def) (simp add: gw_response_def)
qed

definition gw_call :: "nat \<Rightarrow> key_call" where
  "gw_call t = (gw_net, gw_env t, 0, ''k'')"

lemma gw_key: "key gw_libs gw_net (gw_env t) gw_adapter p (google_key_cache 0) ''k''
    = (Inr ''dk'', \<lparr>kc_keys = [(''k'', ''dk'')], kc_fresh_until = instant_secs t + instant_secs 600,
                    kc_last_attempt = Some (instant_secs t)\<rparr>)"
  by (simp add: key_def google_key_cache_def gw_fetch gw_env_def ref_env_def Let_def)

theorem key_fetches_throttled_witness:
  "fetch_instants gw_libs gw_adapter (google_key_cache 0) [gw_call 7, gw_call 8] = [instant_secs 7]
   \<and> key gw_libs (gw_net\<lparr>gn_get := \<lambda>u. None\<rparr>) (gw_env 8) gw_adapter 1 (after_key gw_libs gw_adapter (google_key_cache 0) (gw_call 7)) ''k''
     = key gw_libs gw_net (gw_env 8) gw_adapter 0 (after_key gw_libs gw_adapter (google_key_cache 0) (gw_call 7)) ''k''"
proof -
  let ?cache = "after_key gw_libs gw_adapter (google_key_cache 0) (gw_call 7)"
  have cache: "?cache = \<lparr>kc_keys = [(''k'', ''dk'')], kc_fresh_until = instant_secs 7 + instant_secs 600,
                    kc_last_attempt = Some (instant_secs 7)\<rparr>" by (simp add: gw_call_def gw_key)
  have "key gw_libs gw_net (gw_env 8) gw_adapter 0 ?cache ''k'' = (Inr ''dk'', ?cache)"
    unfolding cache by (simp add: key_def gw_env_def instant_secs_def)
  then have same: "after_key gw_libs gw_adapter ?cache (gw_net, gw_env 8, 0, ''k'') = ?cache" by simp
  then have none: "attempt_of ?cache (after_key gw_libs gw_adapter ?cache (gw_net, gw_env 8, 0, ''k'')) = []"
    by (simp add: attempt_of_def)
  have first: "attempt_of (google_key_cache 0) ?cache = [instant_secs 7]"
    unfolding cache by (simp add: attempt_of_def google_key_cache_def)
  have "fetch_instants gw_libs gw_adapter (google_key_cache 0) [gw_call 7, gw_call 8] = [instant_secs 7]"
    unfolding fetch_instants.simps first by (simp only: gw_call_def [of 8] none append_Nil2)
  with key_fetches_throttled [THEN conjunct2, rule_format, OF none] show ?thesis by blast
qed

theorem key_handed_out_is_fresh_witness:
  "\<exists>keys freshness. fetch_keys gw_libs gw_net gw_adapter 0 = Inr (keys, freshness) \<and> usable_keys keys \<and> freshness \<le> 3600"
proof -
  have "fst (key gw_libs gw_net (gw_env 5) gw_adapter 0 (run_keys gw_libs gw_adapter (google_key_cache 0) []) ''k'') = Inr ''dk''"
    by (simp add: gw_key)
  from key_handed_out_is_fresh [OF this] show ?thesis by auto
qed

theorem upstream_login_sound_witness:
  "\<exists>v cache' claims. google_exchange_code gw_libs gw_net (gw_env 5) gw_adapter (google_key_cache 0) ''code''
       (replicate 43 (CHR ''v'')) ''n'' = (Inr v, cache') \<and> claims_for claims ''c'' ''n'' 950 \<and> vgi_subject v = gc_sub claims"
proof -
  have now: "unix_now gw_net = 950" by (simp add: unix_now_def gw_net_def wrap_i64_def i64_max_def)
  have sane: "sane_clock (unix_now gw_net)" by (simp add: now sane_clock_def CLOCK_SKEW_def i64_max_def)
  have inputs: "valid_opaque ''code''" "valid_opaque ''n''" "valid_pkce_verifier (replicate 43 (CHR ''v''))"
    "bounded_body gw_response MAX_TOKEN_RESPONSE = Inr ''x''" "hr_status gw_response = STATUS_OK"
    "\<not> google_unsupported_crit gw_libs ''h.p.s''" "\<not> MAX_TOKEN_RESPONSE < length ''h.p.s''" by code_simp+
  have "\<not> bad_claims gw_claims ''n'' 950"
    by (simp add: bad_claims_def gw_claims_def saturating_add_i64_def wrap_i64_def i64_max_def CLOCK_SKEW_def is_ascii_def)
  then have "is_ok (validate_claims gw_claims ''c'' ''n'' 950)"
    by (simp add: validate_claims_def) (simp add: gw_claims_def audience_check_def)
  then obtain v where v: "validate_claims gw_claims ''c'' ''n'' 950 = Inr v" by (auto simp: is_ok_iff)
  have net: "gn_post gw_net = (\<lambda>u f. Some gw_response)" "gn_permit gw_net = (\<lambda>k. True)" "gn_var gw_net = (\<lambda>v. Some ''pw'')"
    "gn_token_response gw_net = (\<lambda>b. Some ''h.p.s'')" "gn_decode_claims gw_net = (\<lambda>t k v. Some gw_claims)"
    "gn_decode_header gw_net = (\<lambda>t. Some \<lparr>jh_alg = RS256, jh_typ = None, jh_kid = Some ''k''\<rparr>)"
    and client: "ga_client_id gw_adapter = ''c''" by (simp_all add: gw_net_def gw_adapter_def)
  have verified: "verify_id_token gw_libs gw_net (gw_env 5) gw_adapter 1 (google_key_cache 0) ''h.p.s'' ''n''
      = (Inr v, snd (key gw_libs gw_net (gw_env 5) gw_adapter 1 (google_key_cache 0) ''k''))"
    unfolding verify_id_token_def if_not_P [OF inputs(7)] net client now gw_key
    using inputs(2,6,7) v by (simp add: gw_key)
  have "secret gw_net gw_adapter = Inr ''pw''" by (simp add: secret_def net)
  then have run: "google_exchange_code gw_libs gw_net (gw_env 5) gw_adapter (google_key_cache 0) ''code''
       (replicate 43 (CHR ''v'')) ''n'' = (Inr v, snd (key gw_libs gw_net (gw_env 5) gw_adapter 1 (google_key_cache 0) ''k''))"
    using inputs verified by (simp add: google_exchange_code_def net)
  from upstream_login_sound [OF sane run] have "\<exists>claims. claims_for claims ''c'' ''n'' 950 \<and> vgi_subject v = gc_sub claims"
    unfolding now client by blast
  with run show ?thesis by blast
qed

end
