(* ===== verification/Effects.thy ===== *)
theory Effects
  imports Prelude
begin

text \<open>
  Runs that touch the outside, with the trace of what they did: the metadata exchange and the start of
  the program.
\<close>

section \<open>Effects\<close>

text \<open>A run that touches the outside: the effects it had, in order, and its outcome.  \<open>attempt\<close> is an effect
  with its outcome, and what follows unless it failed: an awaited call under \<open>?\<close>.\<close>

type_synonym ('ev, 'e, 'a) attempt = "'ev list \<times> ('e + 'a)"

definition attempt :: "'ev \<Rightarrow> 'e + 'a \<Rightarrow> ('a \<Rightarrow> ('ev, 'e, 'b) attempt) \<Rightarrow> ('ev, 'e, 'b) attempt" where
  "attempt ev outcome rest = (case outcome of
     Inl err \<Rightarrow> ([ev], Inl err)
   | Inr v \<Rightarrow> apfst (Cons ev) (rest v))"

lemma snd_attempt: "snd (attempt ev outcome rest) = and_then outcome (\<lambda>v. snd (rest v))"
  by (cases outcome) (simp_all add: attempt_def)

end
