(* ===== verification/Cimd_Fetch.thy ===== *)
theory Cimd_Fetch
  imports Cimd Upstream Effects
begin

text \<open>
  \<open>src/src/cimd.rs\<close>, the fetcher: resolution, the pinned transport, the checks on the response,
  and the shared state (cache, flights, permits) that concurrent calls of \<open>fetch_leased\<close> see.

  A call of \<open>fetch_leased\<close> is three steps on that state, because other calls run while it waits
  for the network: \<open>start_fetch\<close> up to the registration of the flight, \<open>fetch_document\<close> (no
  state), and \<open>finish_fetch\<close>, which publishes the snapshot and drops the flight and the permit.
  A call that fails or is cancelled drops them by \<open>drop_flight\<close>.  \<open>fetch_leased\<close> composes the
  steps for a call that runs alone.  Locks are never poisoned: no step panics.
\<close>

section \<open>The transport\<close>

type_synonym socket_addr = "ip_addr \<times> nat"

record response_document =
  rd_status :: nat
  rd_content_type :: "string option"
  rd_cache_control :: "string list option"
  rd_age :: nat
  rd_body :: string

text \<open>The network: name resolution, an HTTP exchange pinned to given addresses (the peer that
  answered and its response), header decoding, and whether the deadline passed first
  and how many effects had begun by then.\<close>

record cimd_net =
  fn_resolve :: "string \<Rightarrow> nat \<Rightarrow> socket_addr list option"
  fn_client_built :: bool
  fn_get :: "url \<Rightarrow> string \<Rightarrow> socket_addr list \<Rightarrow> (socket_addr option \<times> http_response) option"
  fn_header_text :: "string \<Rightarrow> string option"
  fn_timed_out :: bool
  fn_begun :: nat
  fn_first_key :: "(string \<times> leased_client_metadata) list \<Rightarrow> string option"

fun response_age :: "(string \<Rightarrow> string option) \<Rightarrow> string list \<Rightarrow> nat \<Rightarrow> nat option" where
  "response_age text [] oldest = Some oldest"
| "response_age text (v # vs) oldest = (case Option.bind (text v) (parse_uint u64_max) of
     None \<Rightarrow> None | Some age \<Rightarrow> response_age text vs (max oldest age))"

text \<open>What a fetch does to the network, in order: a lookup of a name, and a request for a URL over a
  connection to one of the given addresses.\<close>

datatype net_effect = NetResolve string nat | NetConnect url string "socket_addr list"

definition read_response ::
  "cimd_net \<Rightarrow> socket_addr list \<Rightarrow> socket_addr option \<times> http_response \<Rightarrow> cimd_error + response_document" where
  "read_response N addrs answer = (case answer of (peer, response) \<Rightarrow>
     if \<not> is_some_and peer (\<lambda>p. p \<in> set addrs) then Inl UnsafeDestination
     else if is_some_and (hr_content_length response) (\<lambda>n. MAX_DOCUMENT_BYTES < n) then Inl InvalidDocument
     else let content_type = Option.bind (header_value response ''content-type'') (fn_header_text N);
              cache_control = all_some (map (fn_header_text N) (header_values response ''cache-control''));
              age = (case response_age (fn_header_text N) (header_values response ''age'') 0 of
                       None \<Rightarrow> u64_max | Some age \<Rightarrow> age)
          in and_then (collect_chunks FetchFailed InvalidDocument MAX_DOCUMENT_BYTES (hr_chunks response) []) (\<lambda>body.
               Inr \<lparr>rd_status = hr_status response, rd_content_type = content_type,
                    rd_cache_control = cache_control, rd_age = age, rd_body = body\<rparr>))"

definition transport_fetch ::
  "cimd_net \<Rightarrow> url \<Rightarrow> string \<Rightarrow> socket_addr list \<Rightarrow> (net_effect, cimd_error, response_document) attempt" where
  "transport_fetch N u host addrs =
     (if \<not> fn_client_built N then ([], Inl FetchFailed)
      else attempt (NetConnect u host addrs) (ok_or FetchFailed (fn_get N u host addrs))
        (\<lambda>answer. ([], read_response N addrs answer)))"

section \<open>One exchange\<close>

definition unsafe_addresses :: "socket_addr list \<Rightarrow> nat \<Rightarrow> bool" where
  "unsafe_addresses addrs port \<longleftrightarrow> addrs = [] \<or> 32 < length addrs
     \<or> list_ex (\<lambda>(ip, p). p \<noteq> port \<or> \<not> public_ip ip) addrs"

definition json_mime :: "string \<Rightarrow> bool" where
  "json_mime content_type =
     (let mime = to_ascii_lowercase (trim (hd (split_on (CHR '';'') content_type))) in
      mime = ''application/json'' \<or> (starts_with mime ''application/'' \<and> ends_with mime ''+json''))"

definition check_response ::
  "libs \<Rightarrow> string \<Rightarrow> response_document \<Rightarrow> cimd_error + (client_metadata_document \<times> nat option)" where
  "check_response L client_id response =
     (if rd_status response \<noteq> STATUS_OK then Inl FetchFailed
      else and_then (ok_or InvalidDocument (rd_content_type response)) (\<lambda>content_type.
        if \<not> json_mime content_type then Inl InvalidDocument
        else if MAX_DOCUMENT_BYTES < length (rd_body response) then Inl InvalidDocument
        else and_then (validate_document L client_id (rd_body response)) (\<lambda>document.
          Inr (document, cache_ttl (rd_cache_control response) (rd_age response)))))"

definition exchange_document ::
  "libs \<Rightarrow> cimd_net \<Rightarrow> string \<Rightarrow> url \<times> string \<times> nat
    \<Rightarrow> (net_effect, cimd_error, client_metadata_document \<times> nat option) attempt" where
  "exchange_document L N client_id target = (case target of (u, host, port) \<Rightarrow>
     attempt (NetResolve host port) (ok_or FetchFailed (fn_resolve N host port)) (\<lambda>addrs.
       if unsafe_addresses addrs port then ([], Inl UnsafeDestination)
       else apsnd (\<lambda>response. and_then response (check_response L client_id)) (transport_fetch N u host addrs)))"

text \<open>\<open>tokio::time::timeout\<close> drops the exchange when the deadline passes: it fails, and had only the
  effects it had begun by then, the first \<open>fn_begun\<close>.\<close>

definition timed_exchange ::
  "libs \<Rightarrow> cimd_net \<Rightarrow> string \<Rightarrow> url \<times> string \<times> nat
    \<Rightarrow> (net_effect, cimd_error, client_metadata_document \<times> nat option) attempt" where
  "timed_exchange L N client_id target = (case exchange_document L N client_id target of (effects, out) \<Rightarrow>
     if fn_timed_out N then (take (fn_begun N) effects, Inl FetchFailed) else (effects, out))"

definition fetch_document ::
  "libs \<Rightarrow> cimd_net \<Rightarrow> string \<Rightarrow> url \<times> string \<times> nat \<Rightarrow> cimd_error + (client_metadata_document \<times> nat option)" where
  "fetch_document L N client_id target = snd (timed_exchange L N client_id target)"

lemma fetch_document_outcome:
  "fetch_document L N client_id (u, host, port) =
     (if fn_timed_out N then Inl FetchFailed
      else and_then (ok_or FetchFailed (fn_resolve N host port)) (\<lambda>addrs.
        if unsafe_addresses addrs port then Inl UnsafeDestination
        else and_then (snd (transport_fetch N u host addrs)) (check_response L client_id)))"
proof -
  have "snd (exchange_document L N client_id (u, host, port)) = and_then (ok_or FetchFailed (fn_resolve N host port)) (\<lambda>addrs.
      if unsafe_addresses addrs port then Inl UnsafeDestination
      else and_then (snd (transport_fetch N u host addrs)) (check_response L client_id))"
    by (cases "fn_resolve N host port") (simp_all add: exchange_document_def attempt_def)
  then show ?thesis
    by (cases "exchange_document L N client_id (u, host, port)") (simp add: fetch_document_def timed_exchange_def)
qed

section \<open>The shared state\<close>

record fetcher =
  fe_cache :: "(string \<times> leased_client_metadata) list"
  fe_in_flight :: "string list"
  fe_permits :: nat

definition new_fetcher :: fetcher where
  "new_fetcher = \<lparr>fe_cache = [], fe_in_flight = [], fe_permits = 8\<rparr>"

datatype started = Hit leased_client_metadata | Flying "url \<times> string \<times> nat"

definition cached :: "nat \<Rightarrow> fetcher \<Rightarrow> string \<Rightarrow> leased_client_metadata option" where
  "cached now st client_id = (case map_of (fe_cache st) client_id of
     Some snapshot \<Rightarrow> if is_fresh now snapshot then Some snapshot else None
   | None \<Rightarrow> None)"

definition start_fetch :: "libs \<Rightarrow> nat \<Rightarrow> fetcher \<Rightarrow> string \<Rightarrow> (cimd_error + started) \<times> fetcher" where
  "start_fetch L now st client_id = (case validate_client_id L client_id of
     Inl err \<Rightarrow> (Inl err, st)
   | Inr target \<Rightarrow>
     (case cached now st client_id of
        Some snapshot \<Rightarrow> (Inr (Hit snapshot), st)
      | None \<Rightarrow>
          if fe_permits st = 0 \<or> client_id \<in> set (fe_in_flight st) then (Inl Busy, st)
          else (Inr (Flying target),
                st\<lparr>fe_in_flight := client_id # fe_in_flight st, fe_permits := fe_permits st - 1\<rparr>)))"

definition drop_flight :: "string \<Rightarrow> fetcher \<Rightarrow> fetcher" where
  "drop_flight client_id st =
     st\<lparr>fe_in_flight := removeAll client_id (fe_in_flight st), fe_permits := fe_permits st + 1\<rparr>"

definition lease_nanos :: "nat \<Rightarrow> nat" where "lease_nanos n = n * 1000000000"

definition snapshot_of :: "nat \<Rightarrow> client_metadata_document \<Rightarrow> nat option \<Rightarrow> leased_client_metadata" where
  "snapshot_of now document ttl = \<lparr>lease_document = document,
     lease_valid_until = now + lease_nanos (case ttl of None \<Rightarrow> NON_CACHEABLE_LEASE | Some t \<Rightarrow> t)\<rparr>"

text \<open>\<open>HashMap::insert\<close> replaces the value of a key; which key comes first in a map is not
  specified, so the key that is evicted is a parameter.\<close>

definition evict ::
  "cimd_net \<Rightarrow> (string \<times> leased_client_metadata) list \<Rightarrow> (string \<times> leased_client_metadata) list" where
  "evict N cache =
     (if MAX_CACHE_ENTRIES \<le> length cache
      then (case fn_first_key N cache of None \<Rightarrow> cache | Some victim \<Rightarrow> filter (\<lambda>(k, s). k \<noteq> victim) cache)
      else cache)"

definition cache_insert ::
  "cimd_net \<Rightarrow> nat \<Rightarrow> string \<Rightarrow> leased_client_metadata \<Rightarrow> (string \<times> leased_client_metadata) list
    \<Rightarrow> (string \<times> leased_client_metadata) list" where
  "cache_insert N now client_id snapshot cache =
     (client_id, snapshot) # filter (\<lambda>(k, s). k \<noteq> client_id) (evict N (filter (\<lambda>(k, s). is_fresh now s) cache))"

definition finish_fetch ::
  "cimd_net \<Rightarrow> nat \<Rightarrow> nat \<Rightarrow> fetcher \<Rightarrow> string \<Rightarrow> client_metadata_document \<Rightarrow> nat option
    \<Rightarrow> leased_client_metadata \<times> fetcher" where
  "finish_fetch N now now' st client_id document ttl =
     (let snapshot = snapshot_of now document ttl;
          st' = (if ttl \<noteq> None then st\<lparr>fe_cache := cache_insert N now' client_id snapshot (fe_cache st)\<rparr> else st)
      in (snapshot, drop_flight client_id st'))"

definition fetch_leased_effects ::
  "libs \<Rightarrow> cimd_net \<Rightarrow> env \<Rightarrow> fetcher \<Rightarrow> string \<Rightarrow> net_effect list \<times> (cimd_error + leased_client_metadata) \<times> fetcher" where
  "fetch_leased_effects L N e st client_id = (case start_fetch L (env_instant e 0) st client_id of
     (Inl err, st1) \<Rightarrow> ([], Inl err, st1)
   | (Inr (Hit snapshot), st1) \<Rightarrow> ([], Inr snapshot, st1)
   | (Inr (Flying target), st1) \<Rightarrow>
       (case timed_exchange L N client_id target of
          (effects, Inl err) \<Rightarrow> (effects, Inl err, drop_flight client_id st1)
        | (effects, Inr (document, ttl)) \<Rightarrow>
            (case finish_fetch N (env_instant e 1) (env_instant e 2) st1 client_id document ttl of
               (snapshot, st2) \<Rightarrow> (effects, Inr snapshot, st2))))"

text \<open>What the callers of \<open>fetch_leased\<close> see of it.\<close>

definition fetch_leased ::
  "libs \<Rightarrow> cimd_net \<Rightarrow> env \<Rightarrow> fetcher \<Rightarrow> string \<Rightarrow> (cimd_error + leased_client_metadata) \<times> fetcher" where
  "fetch_leased L N e st client_id = snd (fetch_leased_effects L N e st client_id)"

lemma fetch_leased_outcomes:
  "fetch_leased L N e st client_id = (case start_fetch L (env_instant e 0) st client_id of
     (Inl err, st1) \<Rightarrow> (Inl err, st1)
   | (Inr (Hit snapshot), st1) \<Rightarrow> (Inr snapshot, st1)
   | (Inr (Flying target), st1) \<Rightarrow>
       (case fetch_document L N client_id target of
          Inl err \<Rightarrow> (Inl err, drop_flight client_id st1)
        | Inr (document, ttl) \<Rightarrow>
            (case finish_fetch N (env_instant e 1) (env_instant e 2) st1 client_id document ttl of
               (snapshot, st2) \<Rightarrow> (Inr snapshot, st2))))"
  by (auto simp: fetch_leased_def fetch_leased_effects_def fetch_document_def split: prod.splits sum.splits started.splits)

definition fetch ::
  "libs \<Rightarrow> cimd_net \<Rightarrow> env \<Rightarrow> fetcher \<Rightarrow> string \<Rightarrow> (cimd_error + client_metadata_document) \<times> fetcher" where
  "fetch L N e st client_id = (case fetch_leased L N e st client_id of (out, st') \<Rightarrow> (map_ok lease_document out, st'))"

end
