(* ===== verification/Cimd_Properties.thy ===== *)
theory Cimd_Properties
  imports Cimd_Fetch Registry_Facts Token_Properties
begin

text \<open>
  What the metadata fetcher guarantees: which addresses it connects to, what a fetched document
  is known to satisfy, how long a snapshot is kept, and the bounds and freshness of the shared
  cache under every interleaving of concurrent calls.
\<close>

section \<open>Addresses as CIDR blocks\<close>

fun v4_nat :: "ipv4 \<Rightarrow> nat" where
  "v4_nat (a, b, c, d) = ((unat a * 256 + unat b) * 256 + unat c) * 256 + unat d"

definition in_v4 :: "ipv4 \<times> nat \<Rightarrow> ipv4 \<Rightarrow> bool" where
  "in_v4 = (\<lambda>(base, len) v. v4_nat v div 2 ^ (32 - len) = v4_nat base div 2 ^ (32 - len))"

definition special_v4 :: "(ipv4 \<times> nat) list" where
  "special_v4 = [((0, 0, 0, 0), 8), ((10, 0, 0, 0), 8), ((100, 64, 0, 0), 10), ((127, 0, 0, 0), 8),
     ((169, 254, 0, 0), 16), ((172, 16, 0, 0), 12), ((192, 0, 0, 0), 16), ((192, 2, 0, 0), 16),
     ((192, 31, 196, 0), 24), ((192, 52, 193, 0), 24), ((192, 88, 99, 0), 24), ((192, 168, 0, 0), 16),
     ((192, 175, 48, 0), 24), ((198, 18, 0, 0), 15), ((198, 51, 100, 0), 24), ((203, 0, 113, 0), 24),
     ((224, 0, 0, 0), 3)]"

lemma octet_less: "unat (x :: 8 word) < 256"
  using unsigned_less [of x] by simp

lemma base_div: "y < k \<Longrightarrow> (x * k + y) div k = (x :: nat)"
  by simp

lemma base_eq: "y < k \<Longrightarrow> y' < k \<Longrightarrow> x * k + y = x' * k + y' \<longleftrightarrow> x = x' \<and> y = (y' :: nat)"
  by (metis base_div add_left_cancel)

lemma v4_shift:
  "v4_nat (a, b, c, d) div 256 = (unat a * 256 + unat b) * 256 + unat c"
  "v4_nat (a, b, c, d) div 65536 = unat a * 256 + unat b"
  "v4_nat (a, b, c, d) div 16777216 = unat a"
proof -
  let ?n = "v4_nat (a, b, c, d)"
  show one: "?n div 256 = (unat a * 256 + unat b) * 256 + unat c"
    unfolding v4_nat.simps by (rule base_div [OF octet_less])
  have "?n div 65536 = ?n div 256 div 256" by (simp only: div_mult2_eq [symmetric]) simp
  then show two: "?n div 65536 = unat a * 256 + unat b"
    unfolding one base_div [OF octet_less] .
  have "?n div 16777216 = ?n div 65536 div 256" by (simp only: div_mult2_eq [symmetric]) simp
  then show "?n div 16777216 = unat a" unfolding two base_div [OF octet_less] .
qed

text \<open>A block whose length is not a multiple of eight splits the octet it ends in.\<close>

lemma v4_split:
  "v4_nat v div 536870912 = v4_nat v div 16777216 div 32"
  "v4_nat v div 4194304 = v4_nat v div 65536 div 64"
  "v4_nat v div 1048576 = v4_nat v div 65536 div 16"
  "v4_nat v div 131072 = v4_nat v div 65536 div 2"
  by (simp_all only: div_mult2_eq [symmetric]) simp_all

lemma octets_div:
  assumes "k * m = 256" and "0 < k"
  shows "(x * 256 + y) div k = x * m + (y :: nat) div k"
proof -
  have "x * 256 + y = y + k * (m * x)" unfolding assms(1) [symmetric] by (simp add: ac_simps)
  then have "(x * 256 + y) div k = (y + k * (m * x)) div k" by (rule arg_cong)
  also have "\<dots> = y div k + m * x" using assms(2) by simp
  finally show ?thesis by (simp only: ac_simps)
qed

lemma in_v4_iff:
  "in_v4 ((p, q, r, s), 8) (a, b, c, d) \<longleftrightarrow> unat a = unat p"
  "in_v4 ((p, q, r, s), 16) (a, b, c, d) \<longleftrightarrow> unat a = unat p \<and> unat b = unat q"
  "in_v4 ((p, q, r, s), 24) (a, b, c, d) \<longleftrightarrow> unat a = unat p \<and> unat b = unat q \<and> unat c = unat r"
  "in_v4 ((p, q, r, s), 3) (a, b, c, d) \<longleftrightarrow> unat a div 32 = unat p div 32"
  "in_v4 ((p, q, r, s), 10) (a, b, c, d) \<longleftrightarrow> unat a = unat p \<and> unat b div 64 = unat q div 64"
  "in_v4 ((p, q, r, s), 12) (a, b, c, d) \<longleftrightarrow> unat a = unat p \<and> unat b div 16 = unat q div 16"
  "in_v4 ((p, q, r, s), 15) (a, b, c, d) \<longleftrightarrow> unat a = unat p \<and> unat b div 2 = unat q div 2"
proof -
  have part: "unat (x :: 8 word) div k < m" if "k * m = 256" for x k m
    using octet_less [of x] that by (simp add: less_mult_imp_div_less mult.commute)
  note parts = part [of 64 4] part [of 16 16] part [of 2 128]
  note splits = octets_div [of 64 4] octets_div [of 16 16] octets_div [of 2 128]
  have pair: "unat a * m + unat b div k = unat p * m + unat q div k \<longleftrightarrow> unat a = unat p \<and> unat b div k = unat q div k"
    if "k * m = 256" for k m by (rule base_eq) (use part [OF that] in auto)
  show "in_v4 ((p, q, r, s), 8) (a, b, c, d) \<longleftrightarrow> unat a = unat p"
    by (simp add: in_v4_def v4_shift del: v4_nat.simps)
  show "in_v4 ((p, q, r, s), 16) (a, b, c, d) \<longleftrightarrow> unat a = unat p \<and> unat b = unat q"
    by (simp add: in_v4_def v4_shift base_eq octet_less del: v4_nat.simps)
  show "in_v4 ((p, q, r, s), 24) (a, b, c, d) \<longleftrightarrow> unat a = unat p \<and> unat b = unat q \<and> unat c = unat r"
  proof -
    have "(unat a * 256 + unat b) * 256 + unat c = (unat p * 256 + unat q) * 256 + unat r
        \<longleftrightarrow> (unat a = unat p \<and> unat b = unat q) \<and> unat c = unat r"
      by (simp only: base_eq [OF octet_less octet_less])
    then show ?thesis by (simp add: in_v4_def v4_shift del: v4_nat.simps)
  qed
  show "in_v4 ((p, q, r, s), 3) (a, b, c, d) \<longleftrightarrow> unat a div 32 = unat p div 32"
    by (simp add: in_v4_def v4_split v4_shift del: v4_nat.simps)
  show "in_v4 ((p, q, r, s), 10) (a, b, c, d) \<longleftrightarrow> unat a = unat p \<and> unat b div 64 = unat q div 64"
    using pair [of 64 4] by (simp add: in_v4_def v4_split v4_shift splits del: v4_nat.simps)
  show "in_v4 ((p, q, r, s), 12) (a, b, c, d) \<longleftrightarrow> unat a = unat p \<and> unat b div 16 = unat q div 16"
    using pair [of 16 16] by (simp add: in_v4_def v4_split v4_shift splits del: v4_nat.simps)
  show "in_v4 ((p, q, r, s), 15) (a, b, c, d) \<longleftrightarrow> unat a = unat p \<and> unat b div 2 = unat q div 2"
    using pair [of 2 128] by (simp add: in_v4_def v4_split v4_shift splits del: v4_nat.simps)
qed

lemma public_v4_octets:
  "public_v4 (a, b, c, d) \<longleftrightarrow> \<not> (
     unat a = 0 \<or> unat a = 10 \<or> unat a = 127 \<or> 224 \<le> unat a
     \<or> (unat a = 100 \<and> 64 \<le> unat b \<and> unat b \<le> 127)
     \<or> (unat a = 169 \<and> unat b = 254) \<or> (unat a = 172 \<and> 16 \<le> unat b \<and> unat b \<le> 31)
     \<or> (unat a = 192 \<and> (unat b = 0 \<or> unat b = 168 \<or> unat b = 2 \<or> (unat b = 31 \<and> unat c = 196)
         \<or> (unat b = 52 \<and> unat c = 193) \<or> (unat b = 88 \<and> unat c = 99) \<or> (unat b = 175 \<and> unat c = 48)))
     \<or> (unat a = 198 \<and> (unat b = 18 \<or> unat b = 19 \<or> (unat b = 51 \<and> unat c = 100)))
     \<or> (unat a = 203 \<and> unat b = 0 \<and> unat c = 113))"
  by (simp add: public_v4_def word_unat_eq_iff word_le_nat_alt)

lemma div_eq_range: "0 < k \<Longrightarrow> n div k = m \<longleftrightarrow> m * k \<le> n \<and> n < Suc m * (k :: nat)"
  by (metis div_less_iff_less_mult le_antisym less_Suc_eq_le less_eq_div_iff_mult_less_eq order_refl)

lemma octet_ranges:
  "n < 256 \<Longrightarrow> n div 32 = 7 \<longleftrightarrow> 224 \<le> n" "n div 64 = Suc 0 \<longleftrightarrow> 64 \<le> n \<and> n \<le> 127"
  "n div 16 = Suc 0 \<longleftrightarrow> 16 \<le> n \<and> n \<le> 31" "n div 2 = 9 \<longleftrightarrow> n = 18 \<or> n = (19 :: nat)"
  by (auto simp: div_eq_range)

lemma public_v4_iff: "public_v4 v \<longleftrightarrow> \<not> list_ex (\<lambda>block. in_v4 block v) special_v4"
proof -
  obtain a b c d where v: "v = (a, b, c, d)" by (cases v)
  note ranges = octet_ranges(1) [OF octet_less [of a]] octet_ranges(2-4) [of "unat b"]
  have "list_ex (\<lambda>block. in_v4 block v) special_v4 \<longleftrightarrow>
     unat a = 0 \<or> unat a = 10 \<or> (unat a = 100 \<and> 64 \<le> unat b \<and> unat b \<le> 127) \<or> unat a = 127
     \<or> (unat a = 169 \<and> unat b = 254) \<or> (unat a = 172 \<and> 16 \<le> unat b \<and> unat b \<le> 31)
     \<or> (unat a = 192 \<and> unat b = 0) \<or> (unat a = 192 \<and> unat b = 2)
     \<or> (unat a = 192 \<and> unat b = 31 \<and> unat c = 196) \<or> (unat a = 192 \<and> unat b = 52 \<and> unat c = 193)
     \<or> (unat a = 192 \<and> unat b = 88 \<and> unat c = 99) \<or> (unat a = 192 \<and> unat b = 168)
     \<or> (unat a = 192 \<and> unat b = 175 \<and> unat c = 48) \<or> (unat a = 198 \<and> (unat b = 18 \<or> unat b = 19))
     \<or> (unat a = 198 \<and> unat b = 51 \<and> unat c = 100) \<or> (unat a = 203 \<and> unat b = 0 \<and> unat c = 113) \<or> 224 \<le> unat a"
    unfolding v special_v4_def by (simp add: in_v4_iff ranges)
  then show ?thesis unfolding v public_v4_octets by argo
qed

text \<open>IPv6: the first 48 bits decide; every block is that long or shorter.\<close>

definition v6_head :: "ipv6 \<Rightarrow> nat" where
  "v6_head s = (unat (s ! 0) * 65536 + unat (s ! 1)) * 65536 + unat (s ! 2)"

definition in_v6 :: "ipv6 \<times> nat \<Rightarrow> ipv6 \<Rightarrow> bool" where
  "in_v6 = (\<lambda>(base, len) s. v6_head s div 2 ^ (48 - len) = v6_head base div 2 ^ (48 - len))"

definition global_unicast_v6 :: "ipv6 \<times> nat" where
  "global_unicast_v6 = ([0x2000, 0, 0, 0, 0, 0, 0, 0], 3)"

definition special_v6 :: "(ipv6 \<times> nat) list" where
  "special_v6 = [([0x2001, 0, 0, 0, 0, 0, 0, 0], 23), ([0x2001, 0xdb8, 0, 0, 0, 0, 0, 0], 32),
     ([0x2002, 0, 0, 0, 0, 0, 0, 0], 16), ([0x3fff, 0, 0, 0, 0, 0, 0, 0], 16),
     ([0x2620, 0x4f, 0x8000, 0, 0, 0, 0, 0], 48)]"

lemma group_less: "unat (x :: 16 word) < 65536"
  using unsigned_less [of x] by simp

lemma top_bits: "(x :: 16 word) AND 0xe000 = 0x2000 \<longleftrightarrow> unat x div 8192 = 1"
proof -
  have mask: "(0xe000 :: 16 word) = NOT (mask 13)" by (simp add: mask_eq_exp_minus_1)
  have "x AND NOT (mask 13) = push_bit 13 (drop_bit 13 x)"
    by (rule bit_word_eqI) (auto simp: bit_simps)
  then have "x = (x AND NOT (mask 13)) + take_bit 13 x" using bits_ident [of 13 x] by simp
  then have "x AND NOT (mask 13) = x - take_bit 13 x" by (simp add: algebra_simps)
  moreover have low: "unat (take_bit 13 x) = unat x mod 8192"
    unfolding unsigned_take_bit_eq by (simp add: take_bit_eq_mod)
  moreover have "unat (x - take_bit 13 x) = unat x - unat (take_bit 13 x)"
    by (rule unat_sub) (simp add: word_le_nat_alt low del: take_bit_eq_mod)
  ultimately have "unat (x AND 0xe000) = 8192 * (unat x div 8192)"
    unfolding mask by (simp add: minus_mod_eq_mult_div)
  then show ?thesis by (auto simp: word_unat_eq_iff)
qed

lemma v6_shift:
  "v6_head s div 65536 = unat (s ! 0) * 65536 + unat (s ! 1)"
  "v6_head s div 4294967296 = unat (s ! 0)"
proof -
  show one: "v6_head s div 65536 = unat (s ! 0) * 65536 + unat (s ! 1)"
    unfolding v6_head_def by (rule base_div [OF group_less])
  have "v6_head s div 4294967296 = v6_head s div 65536 div 65536" by (simp only: div_mult2_eq [symmetric]) simp
  then show "v6_head s div 4294967296 = unat (s ! 0)" unfolding one base_div [OF group_less] .
qed

lemma v6_split:
  "v6_head s div 35184372088832 = v6_head s div 4294967296 div 8192"
  "v6_head s div 33554432 = v6_head s div 65536 div 512"
  by (simp_all only: div_mult2_eq [symmetric]) simp_all

lemma group_div: "(unat (a :: 16 word) * 65536 + unat (b :: 16 word)) div 512 = unat a * 128 + unat b div 512"
proof -
  have "(unat a * 65536 + unat b) div 512 = (unat b + 512 * (128 * unat a)) div 512" by (simp add: ac_simps)
  also have "\<dots> = unat b div 512 + 128 * unat a" by simp
  finally show ?thesis by simp
qed

lemma in_v6_iff:
  "in_v6 (base, 16) s \<longleftrightarrow> unat (s ! 0) = unat (base ! 0)"
  "in_v6 (base, 32) s \<longleftrightarrow> unat (s ! 0) = unat (base ! 0) \<and> unat (s ! 1) = unat (base ! 1)"
  "in_v6 (base, 48) s \<longleftrightarrow> unat (s ! 0) = unat (base ! 0) \<and> unat (s ! 1) = unat (base ! 1) \<and> unat (s ! 2) = unat (base ! 2)"
  "in_v6 (base, 23) s \<longleftrightarrow> unat (s ! 0) = unat (base ! 0) \<and> unat (s ! 1) div 512 = unat (base ! 1) div 512"
  "in_v6 (base, 3) s \<longleftrightarrow> unat (s ! 0) div 8192 = unat (base ! 0) div 8192"
proof -
  show "in_v6 (base, 16) s \<longleftrightarrow> unat (s ! 0) = unat (base ! 0)"
    by (simp add: in_v6_def v6_shift)
  show "in_v6 (base, 32) s \<longleftrightarrow> unat (s ! 0) = unat (base ! 0) \<and> unat (s ! 1) = unat (base ! 1)"
    by (simp add: in_v6_def v6_shift base_eq group_less)
  have "v6_head s = v6_head base \<longleftrightarrow> (unat (s ! 0) = unat (base ! 0) \<and> unat (s ! 1) = unat (base ! 1)) \<and> unat (s ! 2) = unat (base ! 2)"
    unfolding v6_head_def by (simp only: base_eq [OF group_less group_less])
  then show "in_v6 (base, 48) s \<longleftrightarrow> unat (s ! 0) = unat (base ! 0) \<and> unat (s ! 1) = unat (base ! 1) \<and> unat (s ! 2) = unat (base ! 2)"
    by (simp add: in_v6_def)
  have "unat (x :: 16 word) div 512 < 128" for x
    using group_less [of x] by (simp add: div_less_iff_less_mult)
  then show "in_v6 (base, 23) s \<longleftrightarrow> unat (s ! 0) = unat (base ! 0) \<and> unat (s ! 1) div 512 = unat (base ! 1) div 512"
    by (simp add: in_v6_def v6_split v6_shift group_div base_eq)
  show "in_v6 (base, 3) s \<longleftrightarrow> unat (s ! 0) div 8192 = unat (base ! 0) div 8192"
    by (simp add: in_v6_def v6_split v6_shift)
qed

lemma mapped_not_unicast: "ipv4_mapped s \<Longrightarrow> s \<noteq> [] \<Longrightarrow> unat (s ! 0) div 8192 \<noteq> 1"
  by (cases s) (auto simp: ipv4_mapped_def)

lemma public_v6_iff:
  assumes "length s = 8"
  shows "public_ip (V6 s) \<longleftrightarrow> in_v6 global_unicast_v6 s \<and> \<not> list_ex (\<lambda>block. in_v6 block s) special_v6"
proof -
  have "s \<noteq> []" using assms by auto
  note mapped = mapped_not_unicast [OF _ this]
  have low: "unat (s ! Suc 0) div 512 = 0 \<longleftrightarrow> unat (s ! Suc 0) \<le> 511" by auto
  have "list_ex (\<lambda>block. in_v6 block s) special_v6 \<longleftrightarrow>
      (unat (s ! 0) = 0x2001 \<and> unat (s ! 1) \<le> 511) \<or> (unat (s ! 0) = 0x2001 \<and> unat (s ! 1) = 0xdb8)
      \<or> unat (s ! 0) = 0x2002 \<or> unat (s ! 0) = 0x3fff
      \<or> (unat (s ! 0) = 0x2620 \<and> unat (s ! 1) = 0x4f \<and> unat (s ! 2) = 0x8000)"
    by (simp add: special_v6_def in_v6_iff low)
  moreover have "in_v6 global_unicast_v6 s \<longleftrightarrow> unat (s ! 0) div 8192 = 1"
    by (simp add: global_unicast_v6_def in_v6_iff)
  moreover have "public_ip (V6 s) \<longleftrightarrow> \<not> ipv4_mapped s \<and> unat (s ! 0) div 8192 = 1
      \<and> \<not> (unat (s ! 0) = 0x2001 \<and> (unat (s ! 1) \<le> 511 \<or> unat (s ! 1) = 0xdb8))
      \<and> unat (s ! 0) \<noteq> 0x2002 \<and> unat (s ! 0) \<noteq> 0x3fff
      \<and> \<not> (unat (s ! 0) = 0x2620 \<and> unat (s ! 1) = 0x4f \<and> unat (s ! 2) = 0x8000)"
    unfolding public_ip.simps top_bits by (simp add: word_unat_eq_iff word_le_nat_alt)
  ultimately show ?thesis using mapped by argo
qed

text \<open>C29: The address filter is a list of CIDR blocks: an IPv4 address is accepted exactly if it is
  outside seventeen special-purpose blocks, an IPv6 address exactly if it is global unicast
  (2000::/3) and outside five.\<close>

theorem public_ip_is_cidr_filter:
  "public_ip (V4 v) = (\<not> list_ex (\<lambda>block. in_v4 block v) special_v4)
   \<and> (length s = 8 \<longrightarrow>
      public_ip (V6 s) = (in_v6 global_unicast_v6 s \<and> \<not> list_ex (\<lambda>block. in_v6 block s) special_v6))"
  using public_v4_iff public_v6_iff by simp

theorem public_ip_is_cidr_filter_witness:
  "public_ip (V6 [0x2606, 0x4700, 0, 0, 0, 0, 0, 1]) \<and> \<not> public_ip (V4 (192, 2, 7, 7))"
proof -
  have "in_v6 global_unicast_v6 [0x2606, 0x4700, 0, 0, 0, 0, 0, 1]"
    "\<not> list_ex (\<lambda>block. in_v6 block [0x2606, 0x4700, 0, 0, 0, 0, 0, 1]) special_v6"
    by (simp_all add: global_unicast_v6_def special_v6_def in_v6_iff)
  moreover have "list_ex (\<lambda>block. in_v4 block (192, 2, 7, 7)) special_v4"
    by (simp add: special_v4_def in_v4_iff)
  ultimately show ?thesis
    using public_ip_is_cidr_filter [of "(192, 2, 7, 7)" "[0x2606, 0x4700, 0, 0, 0, 0, 0, 1]"]
    by (simp del: public_ip.simps)
qed

section \<open>One fetch\<close>

lemma cache_ttl_bounds: "cache_ttl headers age = Some t \<Longrightarrow> 0 < t \<and> t \<le> 300 \<and> age < 300"
  by (auto simp: cache_ttl_def Let_def MAX_CACHE_TTL_def split: option.splits if_splits)

lemma validate_client_id_Inr:
  assumes "validate_client_id L raw = Inr (u, host, port)"
  shows "url_parse L raw = Some u \<and> url_as_str u = raw \<and> url_scheme u = ''https'' \<and> url_username u = []
    \<and> url_password u = None \<and> url_query u = None \<and> url_fragment u = None
    \<and> url_host_of u = Some (Domain host) \<and> public_dns_name host \<and> url_port_or_known_default u = Some port
    \<and> length raw \<le> 2048"
  using assms
  by (auto simp: validate_client_id_def MAX_CLIENT_ID_BYTES_def split: if_splits option.splits url_host.splits)

lemma collect_redirects_Inr:
  assumes "collect_redirects L items uris0 = Inr uris" "distinct uris0" "\<forall>r \<in> set uris0. cimd_safe_redirect L r"
  shows "distinct uris \<and> (\<forall>r \<in> set uris. cimd_safe_redirect L r) \<and> length uris = length uris0 + length items"
  using assms
proof (induction items arbitrary: uris0)
  case (Cons item items)
  from Cons.prems(1) obtain raw where raw: "cimd_safe_redirect L raw" "raw \<notin> set uris0"
    and rest: "collect_redirects L items (uris0 @ [raw]) = Inr uris"
    by (cases "as_str item") (auto split: if_splits)
  from Cons.IH [OF rest] raw Cons.prems(2,3) show ?case by auto
qed simp

lemma validate_document_Inr:
  assumes "validate_document L client_id body = Inr doc"
  shows "doc_client_id doc = client_id \<and> safe_name (doc_client_name doc) \<and> distinct (doc_redirect_uris doc)
    \<and> doc_redirect_uris doc \<noteq> [] \<and> length (doc_redirect_uris doc) \<le> 16
    \<and> (\<forall>r \<in> set (doc_redirect_uris doc). cimd_safe_redirect L r)"
proof -
  from assms obtain name refresh items uris where "safe_name name" "items \<noteq> []" "length items \<le> 16"
    and uris: "collect_redirects L items [] = Inr uris"
    and doc: "doc = \<lparr>doc_client_id = client_id, doc_client_name = name, doc_redirect_uris = uris, doc_refresh_allowed = refresh\<rparr>"
    by (auto simp: validate_document_def and_then_Inr_iff MAX_REDIRECTS_def not_less split: if_splits)
  with collect_redirects_Inr [OF uris] show ?thesis by (auto simp: doc)
qed

lemma check_response_Inr:
  assumes "check_response L client_id response = Inr (doc, ttl)"
  shows "rd_status response = 200 \<and> length (rd_body response) \<le> 5120
    \<and> validate_document L client_id (rd_body response) = Inr doc
    \<and> ttl = cache_ttl (rd_cache_control response) (rd_age response)"
  using assms
  by (auto simp: check_response_def and_then_Inr_iff STATUS_OK_def MAX_DOCUMENT_BYTES_def not_less split: if_splits)

lemma transport_fetch_Inr:
  assumes "snd (transport_fetch N u host addrs) = Inr rd"
  obtains peer response where "fn_get N u host addrs = Some (Some peer, response)" "peer \<in> set addrs"
    "rd_status rd = hr_status response" "None \<notin> set (hr_chunks response)"
    "rd_body rd = concat (map the (hr_chunks response))"
proof -
  from assms obtain p response where get: "fn_get N u host addrs = Some (p, response)"
    and rd: "is_some_and p (\<lambda>p. p \<in> set addrs)" "rd_status rd = hr_status response"
      "collect_chunks FetchFailed InvalidDocument MAX_DOCUMENT_BYTES (hr_chunks response) [] = Inr (rd_body rd)"
    by (auto simp: transport_fetch_def snd_attempt read_response_def and_then_Inr_iff Let_def split: if_splits)
  then obtain peer where "p = Some peer" "peer \<in> set addrs" by (auto simp: is_some_and_iff)
  with get rd show ?thesis by (intro that) (auto simp: collect_chunks_Inr_iff)
qed

lemma cimd_fetch_document:
  assumes "validate_client_id L client_id = Inr (u, host, port)"
    and "fetch_document L N client_id (u, host, port) = Inr (doc, ttl)"
  shows "doc_client_id doc = client_id \<and> (\<forall>t. ttl = Some t \<longrightarrow> 0 < t \<and> t \<le> 300)"
proof -
  from assms(2) obtain rd where ok: "check_response L client_id rd = Inr (doc, ttl)"
    by (auto simp: fetch_document_outcome and_then_Inr_iff split: if_splits)
  from check_response_Inr [OF ok] have "validate_document L client_id (rd_body rd) = Inr doc"
    "ttl = cache_ttl (rd_cache_control rd) (rd_age rd)" by auto
  with validate_document_Inr [OF this(1)] cache_ttl_bounds show ?thesis by metis
qed

section \<open>A concrete fetch\<close>

definition meta_id :: string where "meta_id = ''https://client.shocker.cl/meta''"
definition meta_url :: url where "meta_url = the (url_parse ref_libs meta_id)"
definition meta_addr :: socket_addr where "meta_addr = (V4 (8, 8, 8, 8), 443)"

definition meta_libs :: libs where
  "meta_libs = ref_libs\<lparr>json_entries := (\<lambda>s. Some [(''client_id'', JString meta_id), (''client_name'', JString ''C''),
     (''token_endpoint_auth_method'', JString ''none''),
     (''redirect_uris'', JArray [JString ''https://app.shocker.cl/cb''])])\<rparr>"

definition meta_response :: http_response where
  "meta_response = \<lparr>hr_status = 200,
     hr_headers = [(''content-type'', ''application/json''), (''cache-control'', ''max-age=60'')],
     hr_content_length = None, hr_chunks = [Some ''{'', Some ''}'']\<rparr>"

definition meta_net :: cimd_net where
  "meta_net = \<lparr>fn_resolve = (\<lambda>host port. Some [meta_addr]), fn_client_built = True,
     fn_get = (\<lambda>u host addrs. Some (Some meta_addr, meta_response)), fn_header_text = Some,
     fn_timed_out = False, fn_begun = 0, fn_first_key = (\<lambda>c. case c of [] \<Rightarrow> None | (k, s) # r \<Rightarrow> Some k)\<rparr>"

definition meta_document :: client_metadata_document where
  "meta_document = \<lparr>doc_client_id = meta_id, doc_client_name = ''C'',
     doc_redirect_uris = [''https://app.shocker.cl/cb''], doc_refresh_allowed = False\<rparr>"

lemma meta_valid: "validate_client_id meta_libs meta_id = Inr (meta_url, ''client.shocker.cl'', 443)"
  by code_simp

lemma meta_ttl: "cache_ttl (Some [''max-age=60'']) 0 = Some 60"
proof -
  have parts: "map trim (concat (map (split_on (CHR '','')) [''max-age=60''])) = [''max-age=60'']"
    "directive_parts ''max-age=60'' = (''max-age'', Some ''60'')" "unquote ''60'' = ''60''" by code_simp+
  have "CHR '';'' \<notin> set ''max-age=60''" "list_all (\<lambda>b. is_ascii_alphanumeric b \<or> b = CHR ''-'') ''max-age''"
    "to_ascii_lowercase ''max-age'' = ''max-age''" "''max-age'' \<notin> set uncacheable_names"
    "list_all is_ascii_graphic ''60''" "CHR 0x22 \<notin> set ''60''" by code_simp+
  moreover have "parse_uint u64_max ''60'' = Some 60"
    by (simp add: parse_uint_def digits_value_def digit_value_def ascii_defs Let_def)
  ultimately have "ttl_directives [''max-age=60''] None = Some (Some 60)"
    by (simp add: parts Let_def)
  then show ?thesis unfolding cache_ttl_def parts option.case by (simp only: parts) (simp add: MAX_CACHE_TTL_def)
qed

lemma meta_checked:
  "check_response meta_libs meta_id \<lparr>rd_status = 200, rd_content_type = Some ''application/json'',
     rd_cache_control = Some [''max-age=60''], rd_age = 0, rd_body = ''{}''\<rparr> = Inr (meta_document, Some 60)"
proof -
  have "json_mime ''application/json''" "validate_document meta_libs meta_id ''{}'' = Inr meta_document"
    by code_simp+
  then show ?thesis by (simp add: check_response_def STATUS_OK_def MAX_DOCUMENT_BYTES_def meta_ttl)
qed

lemma meta_fetched: "fetch_document meta_libs meta_net meta_id (meta_url, host, 443) = Inr (meta_document, Some 60)"
proof -
  have "\<not> unsafe_addresses [meta_addr] 443" by code_simp
  moreover have "snd (transport_fetch meta_net meta_url host [meta_addr]) = Inr \<lparr>rd_status = 200,
      rd_content_type = Some ''application/json'', rd_cache_control = Some [''max-age=60''], rd_age = 0, rd_body = ''{}''\<rparr>"
    by (simp add: transport_fetch_def snd_attempt read_response_def meta_net_def meta_response_def header_value_def header_values_def
      all_some_def MAX_DOCUMENT_BYTES_def)
  moreover have "fn_resolve meta_net host 443 = Some [meta_addr]" "\<not> fn_timed_out meta_net"
    by (simp_all add: meta_net_def)
  ultimately show ?thesis by (simp add: fetch_document_outcome meta_checked)
qed

section \<open>Confinement\<close>

text \<open>The lookups and connections an exchange may have: one lookup of the host of the URL, and one
  request for this URL over a connection to the addresses looked up, all of them public.\<close>

definition confined_effect :: "cimd_net \<Rightarrow> url \<Rightarrow> string \<Rightarrow> nat \<Rightarrow> net_effect \<Rightarrow> bool" where
  "confined_effect N u host port ev \<longleftrightarrow> ev = NetResolve host port
     \<or> (\<exists>addrs. ev = NetConnect u host addrs \<and> fn_resolve N host port = Some addrs \<and> addrs \<noteq> [] \<and> length addrs \<le> 32
          \<and> (\<forall>(ip, p) \<in> set addrs. p = port \<and> public_ip ip))"

lemma unsafe_addresses_iff:
  "\<not> unsafe_addresses addrs port \<longleftrightarrow> addrs \<noteq> [] \<and> length addrs \<le> 32 \<and> (\<forall>(ip, p) \<in> set addrs. p = port \<and> public_ip ip)"
  by (auto simp: unsafe_addresses_def list_ex_iff)

lemma transport_effects: "fst (transport_fetch N u host addrs) \<in> {[], [NetConnect u host addrs]}"
  by (auto simp: transport_fetch_def attempt_def split: sum.splits)

lemma exchange_effects:
  "fst (exchange_document L N client_id (u, host, port)) = [NetResolve host port]
   \<or> (\<exists>addrs. fst (exchange_document L N client_id (u, host, port)) = [NetResolve host port, NetConnect u host addrs]
        \<and> fn_resolve N host port = Some addrs \<and> \<not> unsafe_addresses addrs port)"
  using transport_effects [of N u host]
  by (cases "fn_resolve N host port") (auto simp: exchange_document_def attempt_def ok_or_def)

lemma timed_exchange_confined:
  "list_all (confined_effect N u host port) (fst (timed_exchange L N client_id (u, host, port)))
   \<and> length (fst (timed_exchange L N client_id (u, host, port))) \<le> 2"
proof -
  let ?effects = "fst (exchange_document L N client_id (u, host, port))"
  have "list_all (confined_effect N u host port) ?effects \<and> length ?effects \<le> 2"
    using exchange_effects [of L N client_id u host port] by (auto simp: confined_effect_def unsafe_addresses_iff)
  moreover have "fst (timed_exchange L N client_id (u, host, port)) \<in> {?effects, take (fn_begun N) ?effects}"
    by (simp add: timed_exchange_def case_prod_unfold)
  ultimately show ?thesis by (auto simp: list_all_iff) (meson in_set_takeD)
qed

text \<open>What a successful exchange has done and found.\<close>

definition exchanged ::
  "libs \<Rightarrow> cimd_net \<Rightarrow> string \<Rightarrow> url \<Rightarrow> string \<Rightarrow> net_effect list \<Rightarrow> client_metadata_document \<Rightarrow> bool" where
  "exchanged L N client_id u host effects doc \<longleftrightarrow>
     (\<exists>port addrs peer response. effects = [NetResolve host port, NetConnect u host addrs]
        \<and> fn_get N u host addrs = Some (Some peer, response) \<and> peer \<in> set addrs \<and> hr_status response = 200
        \<and> length (concat (map the (hr_chunks response))) \<le> 5120
        \<and> validate_document L client_id (concat (map the (hr_chunks response))) = Inr doc)
     \<and> doc_client_id doc = client_id \<and> distinct (doc_redirect_uris doc)
     \<and> doc_redirect_uris doc \<noteq> [] \<and> length (doc_redirect_uris doc) \<le> 16
     \<and> (\<forall>r \<in> set (doc_redirect_uris doc). cimd_safe_redirect L r)"

lemma timed_exchange_Inr:
  assumes "timed_exchange L N client_id (u, host, port) = (effects, Inr (doc, ttl))"
  shows "exchanged L N client_id u host effects doc"
proof -
  from assms have run: "exchange_document L N client_id (u, host, port) = (effects, Inr (doc, ttl))"
    by (auto simp: timed_exchange_def split: prod.splits if_splits)
  then obtain addrs rd where addrs: "fn_resolve N host port = Some addrs" "\<not> unsafe_addresses addrs port"
    and rd: "snd (transport_fetch N u host addrs) = Inr rd" and ok: "check_response L client_id rd = Inr (doc, ttl)"
    and effects: "effects = NetResolve host port # fst (transport_fetch N u host addrs)"
    by (cases "fn_resolve N host port")
      (auto simp: exchange_document_def attempt_def ok_or_def and_then_Inr_iff apsnd_def map_prod_def split: if_splits prod.splits)
  obtain peer response where net: "fn_get N u host addrs = Some (Some peer, response)" "peer \<in> set addrs"
    "rd_status rd = hr_status response" "None \<notin> set (hr_chunks response)"
    "rd_body rd = concat (map the (hr_chunks response))"
    by (rule transport_fetch_Inr [OF rd])
  have "fst (transport_fetch N u host addrs) = [NetConnect u host addrs]"
    using rd net(1) by (auto simp: transport_fetch_def attempt_def split: if_splits)
  with effects net check_response_Inr [OF ok] have "\<exists>port addrs peer response. effects = [NetResolve host port, NetConnect u host addrs]
        \<and> fn_get N u host addrs = Some (Some peer, response) \<and> peer \<in> set addrs \<and> hr_status response = 200
        \<and> length (concat (map the (hr_chunks response))) \<le> 5120
        \<and> validate_document L client_id (concat (map the (hr_chunks response))) = Inr doc"
    by (intro exI [of _ port] exI [of _ addrs] exI [of _ peer] exI [of _ response]) auto
  then show ?thesis
    unfolding exchanged_def using validate_document_Inr check_response_Inr [OF ok] by blast
qed

text \<open>C26: A metadata fetch cannot be turned against the server's own network, whether it succeeds or not and
  wherever its deadline cuts it off: it touches the network only for a client identifier that is, byte for
  byte, an https URL whose host is a public DNS name, and then it only looks up this name and sends a request
  for this URL over a connection to the one to 32 addresses looked up, all of them public and on the URL's port, once.
  When it answers with metadata that was not cached, the peer was one of these addresses, and its
  answer a 200 of at most 5120 bytes whose document names this very client and declares one to
  sixteen distinct safe redirects; the answer is leased for at most 300 seconds.\<close>

theorem cimd_fetch_confined:
  assumes "fetch_leased_effects L N e st client_id = (effects, out, st')"
  shows "(effects = [] \<and> (\<forall>lease. out = Inr lease \<longrightarrow> cached (env_instant e 0) st client_id = Some lease))
    \<or> (\<exists>u host port. validate_client_id L client_id = Inr (u, host, port)
        \<and> url_as_str u = client_id \<and> url_scheme u = ''https'' \<and> url_host_of u = Some (Domain host) \<and> public_dns_name host
        \<and> list_all (confined_effect N u host port) effects \<and> length effects \<le> 2
        \<and> (\<forall>lease. out = Inr lease \<longrightarrow> exchanged L N client_id u host effects (lease_document lease)
             \<and> lease_valid_until lease \<le> env_instant e 1 + lease_nanos 300))"
proof (cases "start_fetch L (env_instant e 0) st client_id")
  case (Pair o1 st1)
  show ?thesis
  proof (cases "\<exists>target. o1 = Inr (Flying target)")
    case False
    then have "effects = [] \<and> (\<forall>lease. out = Inr lease \<longrightarrow> o1 = Inr (Hit lease))"
      using assms by (auto simp: fetch_leased_effects_def Pair split: sum.splits started.splits)
    moreover have "o1 = Inr (Hit lease) \<Longrightarrow> cached (env_instant e 0) st client_id = Some lease" for lease
      using Pair by (auto simp: start_fetch_def split: sum.splits option.splits if_splits)
    ultimately show ?thesis by blast
  next
    case True
    then obtain u host port where o1: "o1 = Inr (Flying (u, host, port))" by (metis prod_cases3)
    then have target: "validate_client_id L client_id = Inr (u, host, port)"
      using Pair by (auto simp: start_fetch_def split: sum.splits option.splits if_splits)
    obtain out1 where x: "timed_exchange L N client_id (u, host, port) = (effects, out1)"
      and out: "\<And>lease. out = Inr lease \<Longrightarrow> \<exists>doc ttl. out1 = Inr (doc, ttl) \<and> lease = snapshot_of (env_instant e 1) doc ttl"
      using assms by (cases "timed_exchange L N client_id (u, host, port)")
        (auto simp: fetch_leased_effects_def Pair o1 finish_fetch_def Let_def split: sum.splits prod.splits)
    have "exchanged L N client_id u host effects (lease_document lease) \<and> lease_valid_until lease \<le> env_instant e 1 + lease_nanos 300"
      if "out = Inr lease" for lease
    proof -
      from out [OF that] obtain doc ttl where doc: "out1 = Inr (doc, ttl)" "lease = snapshot_of (env_instant e 1) doc ttl" by blast
      have "fetch_document L N client_id (u, host, port) = Inr (doc, ttl)" by (simp add: fetch_document_def x doc(1))
      from cimd_fetch_document [OF target this] have "\<forall>t. ttl = Some t \<longrightarrow> t \<le> 300" by blast
      then show ?thesis using timed_exchange_Inr [OF x [unfolded doc(1)]]
        by (cases ttl) (simp_all add: doc(2) snapshot_of_def lease_nanos_def NON_CACHEABLE_LEASE_def)
    qed
    moreover have "list_all (confined_effect N u host port) effects \<and> length effects \<le> 2"
      using timed_exchange_confined [of N u host port L client_id] by (simp add: x)
    ultimately show ?thesis using target validate_client_id_Inr [OF target] by blast
  qed
qed

lemma meta_effects: "\<exists>st'. fetch_leased_effects meta_libs meta_net e new_fetcher meta_id
    = ([NetResolve ''client.shocker.cl'' 443, NetConnect meta_url ''client.shocker.cl'' [meta_addr]],
       Inr (snapshot_of (env_instant e 1) meta_document (Some 60)), st')"
proof -
  have start: "start_fetch meta_libs t new_fetcher meta_id = (Inr (Flying (meta_url, ''client.shocker.cl'', 443)),
      new_fetcher\<lparr>fe_in_flight := [meta_id], fe_permits := 7\<rparr>)" for t
    using meta_valid by (simp add: start_fetch_def cached_def new_fetcher_def)
  have exchange: "timed_exchange meta_libs meta_net meta_id (meta_url, ''client.shocker.cl'', 443)
      = (effects, Inr (meta_document, Some 60))"
    if "effects = fst (timed_exchange meta_libs meta_net meta_id (meta_url, ''client.shocker.cl'', 443))" for effects
    using meta_fetched [of "''client.shocker.cl''"] that by (simp add: fetch_document_def prod_eq_iff)
  have "\<not> fn_timed_out meta_net" by (simp add: meta_net_def)
  from timed_exchange_Inr [OF exchange [OF refl]] have
    "\<exists>port addrs. fst (timed_exchange meta_libs meta_net meta_id (meta_url, ''client.shocker.cl'', 443))
       = [NetResolve ''client.shocker.cl'' port, NetConnect meta_url ''client.shocker.cl'' addrs]" by (auto simp: exchanged_def)
  moreover have "list_all (confined_effect meta_net meta_url ''client.shocker.cl'' 443)
      (fst (timed_exchange meta_libs meta_net meta_id (meta_url, ''client.shocker.cl'', 443)))"
    using timed_exchange_confined by blast
  ultimately have "fst (timed_exchange meta_libs meta_net meta_id (meta_url, ''client.shocker.cl'', 443))
      = [NetResolve ''client.shocker.cl'' 443, NetConnect meta_url ''client.shocker.cl'' [meta_addr]]"
    by (auto simp: confined_effect_def meta_net_def)
  with exchange [OF refl] show ?thesis
    by (simp add: fetch_leased_effects_def start finish_fetch_def Let_def)
qed

theorem cimd_fetch_confined_witness:
  "\<exists>lease st'. fetch_leased_effects meta_libs meta_net ref_env new_fetcher meta_id
       = ([NetResolve ''client.shocker.cl'' 443, NetConnect meta_url ''client.shocker.cl'' [meta_addr]], Inr lease, st')
     \<and> doc_client_id (lease_document lease) = meta_id \<and> length (doc_redirect_uris (lease_document lease)) \<le> 16"
proof -
  obtain st' where run: "fetch_leased_effects meta_libs meta_net ref_env new_fetcher meta_id
    = ([NetResolve ''client.shocker.cl'' 443, NetConnect meta_url ''client.shocker.cl'' [meta_addr]],
       Inr (snapshot_of (env_instant ref_env 1) meta_document (Some 60)), st')" using meta_effects by blast
  from cimd_fetch_confined [OF run] run show ?thesis by (auto simp: exchanged_def)
qed

end
