(* ===== verification/Fetcher_Properties.thy ===== *)
theory Fetcher_Properties
  imports Cimd_Properties
begin

text \<open>
  The shared state of the metadata fetcher under every interleaving of concurrent calls, as a
  step relation with the log of published snapshots: the cache refines the map from client
  identifiers to their latest cacheable publication, and flights and permits are never lost.
\<close>

section \<open>Interleaved calls\<close>

record publication =
  pub_id :: string
  pub_snapshot :: leased_client_metadata
  pub_at :: nat
  pub_ttl :: "nat option"

definition first_key_law :: "cimd_net \<Rightarrow> bool" where
  "first_key_law N \<longleftrightarrow> (\<forall>c. c \<noteq> [] \<longrightarrow> (\<exists>k \<in> fst ` set c. fn_first_key N c = Some k))"

inductive fetcher_reach :: "libs \<Rightarrow> nat \<Rightarrow> fetcher \<Rightarrow> publication list \<Rightarrow> bool" for L where
  created: "fetcher_reach L t new_fetcher []"
| later: "fetcher_reach L t st log \<Longrightarrow> t \<le> t' \<Longrightarrow> fetcher_reach L t' st log"
| started: "fetcher_reach L t st log \<Longrightarrow> start_fetch L t st client_id = (Inr (Flying target), st')
    \<Longrightarrow> fetcher_reach L t st' log"
| abandoned: "fetcher_reach L t st log \<Longrightarrow> client_id \<in> set (fe_in_flight st)
    \<Longrightarrow> fetcher_reach L t (drop_flight client_id st) log"
| published: "fetcher_reach L t st log \<Longrightarrow> client_id \<in> set (fe_in_flight st) \<Longrightarrow> t0 \<le> t
    \<Longrightarrow> validate_client_id L client_id = Inr target \<Longrightarrow> first_key_law N
    \<Longrightarrow> fetch_document L N client_id target = Inr (document, ttl)
    \<Longrightarrow> finish_fetch N t0 t st client_id document ttl = (snapshot, st')
    \<Longrightarrow> fetcher_reach L t st' (\<lparr>pub_id = client_id, pub_snapshot = snapshot, pub_at = t0, pub_ttl = ttl\<rparr> # log)"

text \<open>The specification the cache refines: the latest cacheable publication of a client.\<close>

definition latest :: "publication list \<Rightarrow> string \<Rightarrow> leased_client_metadata option" where
  "latest log client_id = map_option pub_snapshot (find (\<lambda>p. pub_id p = client_id \<and> pub_ttl p \<noteq> None) log)"

definition publication_ok :: "nat \<Rightarrow> publication \<Rightarrow> bool" where
  "publication_ok t p \<longleftrightarrow> pub_at p \<le> t \<and> doc_client_id (lease_document (pub_snapshot p)) = pub_id p
     \<and> (\<forall>n. pub_ttl p = Some n \<longrightarrow> 0 < n \<and> n \<le> 300)
     \<and> lease_valid_until (pub_snapshot p) = pub_at p + lease_nanos (case pub_ttl p of None \<Rightarrow> 5 | Some n \<Rightarrow> n)"

definition fetcher_ok :: "nat \<Rightarrow> fetcher \<Rightarrow> publication list \<Rightarrow> bool" where
  "fetcher_ok t st log \<longleftrightarrow> distinct (map fst (fe_cache st)) \<and> length (fe_cache st) \<le> 128
     \<and> distinct (fe_in_flight st) \<and> length (fe_in_flight st) + fe_permits st = 8
     \<and> (\<forall>(k, s) \<in> set (fe_cache st). latest log k = Some s) \<and> (\<forall>p \<in> set log. publication_ok t p)"

lemma filter_drops_key:
  assumes "k \<in> fst ` set c"
  shows "length (filter (\<lambda>(j, s). j \<noteq> k) c) < length c"
proof -
  from assms obtain s where "(k, s) \<in> set c" by auto
  then show ?thesis by (rule length_filter_less) simp
qed

lemma distinct_filter_fst: "distinct (map fst c) \<Longrightarrow> distinct (map fst (filter P c))"
  by (simp add: distinct_map_filter)

lemma evict_ok:
  assumes "first_key_law N" "length c \<le> 128"
  shows "length (evict N c) < 128" "set (evict N c) \<subseteq> set c" "distinct (map fst c) \<Longrightarrow> distinct (map fst (evict N c))"
proof -
  show "length (evict N c) < 128"
  proof (cases "length c = 128")
    case True
    then have "c \<noteq> []" by auto
    with assms(1) obtain k where k: "k \<in> fst ` set c" "fn_first_key N c = Some k"
      unfolding first_key_law_def by blast
    with filter_drops_key [OF k(1)] True show ?thesis by (simp add: evict_def MAX_CACHE_ENTRIES_def)
  qed (use assms(2) in \<open>simp add: evict_def MAX_CACHE_ENTRIES_def\<close>)
qed (auto simp: evict_def split: option.splits intro!: distinct_filter_fst)

lemma cache_insert_ok:
  assumes "distinct (map fst c)" "length c \<le> 128" "first_key_law N"
  shows "distinct (map fst (cache_insert N now k s c)) \<and> length (cache_insert N now k s c) \<le> 128
    \<and> set (cache_insert N now k s c) \<subseteq> insert (k, s) {p \<in> set c. fst p \<noteq> k}"
proof -
  let ?kept = "filter (\<lambda>(k, s). is_fresh now s) c"
  let ?rest = "filter (\<lambda>(j, s). j \<noteq> k) (evict N ?kept)"
  have "length ?kept \<le> 128" using assms(2) by (meson length_filter_le order_trans)
  note ev = evict_ok [OF assms(3) this]
  have "length ?rest < 128" by (rule le_less_trans [OF length_filter_le ev(1)])
  then have "length ((k, s) # ?rest) \<le> 128" by (simp only: list.size)
  moreover have "distinct (map fst ((k, s) # ?rest))"
    using distinct_filter_fst [OF ev(3) [OF distinct_filter_fst [OF assms(1)]]] by auto
  moreover have "set ((k, s) # ?rest) \<subseteq> insert (k, s) {p \<in> set c. fst p \<noteq> k}" using ev(2) by auto
  ultimately show ?thesis unfolding cache_insert_def by blast
qed

lemma start_fetch_cases:
  assumes "start_fetch L t st client_id = (out, st')"
  obtains (invalid) err where "validate_client_id L client_id = Inl err" "out = Inl err" "st' = st"
  | (hit) snapshot where "cached t st client_id = Some snapshot" "out = Inr (Hit snapshot)" "st' = st"
  | (busy) "cached t st client_id = None" "fe_permits st = 0 \<or> client_id \<in> set (fe_in_flight st)" "out = Inl Busy" "st' = st"
  | (flying) target where "validate_client_id L client_id = Inr target" "cached t st client_id = None"
      "0 < fe_permits st" "client_id \<notin> set (fe_in_flight st)" "out = Inr (Flying target)"
      "st' = st\<lparr>fe_in_flight := client_id # fe_in_flight st, fe_permits := fe_permits st - 1\<rparr>"
proof (cases "validate_client_id L client_id")
  case (Inl err)
  then show ?thesis using assms by (intro invalid) (auto simp: start_fetch_def)
next
  case (Inr target)
  show ?thesis
  proof (cases "cached t st client_id")
    case None
    note run = assms [unfolded start_fetch_def Inr None, simplified]
    show ?thesis
    proof (cases "fe_permits st = 0 \<or> client_id \<in> set (fe_in_flight st)")
      case True
      then show ?thesis using run None by (intro busy) auto
    next
      case False
      then show ?thesis using run None Inr by (intro flying [of target]) auto
    qed
  next
    case (Some snapshot)
    then show ?thesis using assms Inr by (intro hit [of snapshot]) (auto simp: start_fetch_def)
  qed
qed

lemma drop_flight_ok:
  assumes "distinct fl" "k \<in> set fl"
  shows "distinct (removeAll k fl) \<and> Suc (length (removeAll k fl)) = length fl"
proof -
  have "removeAll k fl = remove1 k fl" using assms(1) by (simp add: distinct_remove1_removeAll)
  moreover have "length fl \<noteq> 0" using assms(2) by auto
  ultimately show ?thesis using assms by (simp add: length_remove1)
qed

lemma fetcher_ok_drop:
  assumes "fetcher_ok t st log" "k \<in> set (fe_in_flight st)"
  shows "fetcher_ok t (drop_flight k st) log"
  using assms drop_flight_ok [of "fe_in_flight st" k] by (simp add: fetcher_ok_def drop_flight_def)

lemma fetcher_ok_publish:
  assumes ok: "fetcher_ok t st log" and id: "validate_client_id L k = Inr target" and law: "first_key_law N"
    and doc: "fetch_document L N k target = Inr (document, ttl)" and "t0 \<le> t"
  defines "p \<equiv> \<lparr>pub_id = k, pub_snapshot = snapshot_of t0 document ttl, pub_at = t0, pub_ttl = ttl\<rparr>"
  defines "st' \<equiv> (if ttl \<noteq> None then st\<lparr>fe_cache := cache_insert N t k (snapshot_of t0 document ttl) (fe_cache st)\<rparr> else st)"
  shows "fetcher_ok t st' (p # log)"
proof -
  obtain u host port where target: "target = (u, host, port)" by (cases target)
  from cimd_fetch_document [OF id [unfolded target] doc [unfolded target]]
  have d: "doc_client_id document = k" "\<forall>n. ttl = Some n \<longrightarrow> 0 < n \<and> n \<le> 300" by auto
  have p: "publication_ok t p"
    using d assms(5) by (auto simp: publication_ok_def p_def snapshot_of_def NON_CACHEABLE_LEASE_def split: option.splits)
  have new: "latest (p # log) j = (if j = k \<and> ttl \<noteq> None then Some (snapshot_of t0 document ttl) else latest log j)" for j
    by (auto simp: latest_def p_def)
  have cache: "\<forall>(j, s) \<in> set (fe_cache st). latest log j = Some s"
    and old: "\<forall>p \<in> set log. publication_ok t p" and rest: "distinct (map fst (fe_cache st))" "length (fe_cache st) \<le> 128"
      "distinct (fe_in_flight st)" "length (fe_in_flight st) + fe_permits st = 8"
    using ok by (auto simp: fetcher_ok_def)
  show ?thesis
  proof (cases "ttl = None")
    case True
    then show ?thesis using cache old rest p new by (auto simp: fetcher_ok_def st'_def)
  next
    case False
    note ins = cache_insert_ok [OF rest(1,2) law, of t k "snapshot_of t0 document ttl"]
    have "latest (p # log) j = Some s" if "(j, s) \<in> set (cache_insert N t k (snapshot_of t0 document ttl) (fe_cache st))" for j s
      using ins that cache new [of j] False by auto
    with ins old rest p False show ?thesis by (auto simp: fetcher_ok_def st'_def)
  qed
qed

lemma reach_ok: "fetcher_reach L t st log \<Longrightarrow> fetcher_ok t st log"
proof (induction rule: fetcher_reach.induct)
  case (created t)
  show ?case by (simp add: fetcher_ok_def new_fetcher_def)
next
  case (later t st log t')
  then show ?case by (auto simp: fetcher_ok_def publication_ok_def)
next
  case (started t st log client_id target st')
  from started.hyps(2) show ?case
    by (cases rule: start_fetch_cases) (use started.IH in \<open>auto simp: fetcher_ok_def\<close>)
next
  case (abandoned t st log client_id)
  then show ?case by (intro fetcher_ok_drop)
next
  case (published t st log client_id t0 target N document ttl snapshot st')
  note ok = fetcher_ok_publish [OF published.IH published.hyps(4-6,3)]
  show ?case
    using fetcher_ok_drop [OF ok] published.hyps(2,7) by (auto simp: finish_fetch_def Let_def)
qed

section \<open>Properties\<close>

text \<open>C28: The cache refines the map of latest cacheable publications, whatever calls are interleaved: a
  cache hit is the snapshot most recently published for that client identifier, its document
  names that client, and it is served for less than 300 seconds after its publication began;
  the cache never holds more than 128 documents, no client is fetched twice at once, and every
  permit is either free or held by a registered flight.\<close>

theorem fetcher_refines_log:
  assumes "fetcher_reach L t st log"
  shows "(\<forall>client_id snapshot st'. start_fetch L t st client_id = (Inr (Hit snapshot), st') \<longrightarrow>
           st' = st \<and> latest log client_id = Some snapshot \<and> doc_client_id (lease_document snapshot) = client_id
           \<and> (\<exists>p \<in> set log. pub_id p = client_id \<and> pub_snapshot p = snapshot
                \<and> pub_at p \<le> t \<and> t < pub_at p + lease_nanos 300))
    \<and> length (fe_cache st) \<le> 128 \<and> distinct (map fst (fe_cache st))
    \<and> distinct (fe_in_flight st) \<and> length (fe_in_flight st) + fe_permits st = 8"
proof -
  note ok = reach_ok [OF assms, unfolded fetcher_ok_def]
  have "st' = st \<and> latest log k = Some s \<and> doc_client_id (lease_document s) = k
      \<and> (\<exists>p \<in> set log. pub_id p = k \<and> pub_snapshot p = s \<and> pub_at p \<le> t \<and> t < pub_at p + lease_nanos 300)"
    if run: "start_fetch L t st k = (Inr (Hit s), st')" for k s st'
  proof -
    from run have hit: "cached t st k = Some s" "st' = st" by (cases rule: start_fetch_cases; simp)+
    then have "map_of (fe_cache st) k = Some s" and fresh: "is_fresh t s"
      by (auto simp: cached_def split: option.splits if_splits)
    with ok have l: "latest log k = Some s" by (auto dest: map_of_SomeD)
    then obtain p where p: "p \<in> set log" "pub_id p = k" "pub_ttl p \<noteq> None" "pub_snapshot p = s"
      using nth_mem unfolding latest_def by (fastforce simp: find_Some_iff)
    with ok have "publication_ok t p" by blast
    with p fresh have "pub_at p \<le> t" "doc_client_id (lease_document s) = k" "t < pub_at p + lease_nanos 300"
      by (auto simp: publication_ok_def is_fresh_def lease_nanos_def)
    with hit l p show ?thesis by blast
  qed
  with ok show ?thesis by blast
qed

definition meta_started :: fetcher where
  "meta_started = \<lparr>fe_cache = [], fe_in_flight = [meta_id], fe_permits = 7\<rparr>"

definition meta_snapshot :: leased_client_metadata where
  "meta_snapshot = \<lparr>lease_document = meta_document, lease_valid_until = 60000000010\<rparr>"

definition meta_cached :: fetcher where
  "meta_cached = \<lparr>fe_cache = [(meta_id, meta_snapshot)], fe_in_flight = [], fe_permits = 8\<rparr>"

definition meta_log :: "publication list" where
  "meta_log = [\<lparr>pub_id = meta_id, pub_snapshot = meta_snapshot, pub_at = 10, pub_ttl = Some 60\<rparr>]"

lemma meta_start: "start_fetch meta_libs 10 new_fetcher meta_id
    = (Inr (Flying (meta_url, ''client.shocker.cl'', 443)), meta_started)"
  by (simp add: start_fetch_def meta_valid cached_def new_fetcher_def meta_started_def)

lemma meta_finish: "finish_fetch meta_net 10 10 meta_started meta_id meta_document (Some 60) = (meta_snapshot, meta_cached)"
  by (simp add: finish_fetch_def Let_def snapshot_of_def lease_nanos_def meta_started_def meta_snapshot_def
    meta_cached_def cache_insert_def evict_def MAX_CACHE_ENTRIES_def drop_flight_def)

lemma meta_reach: "fetcher_reach meta_libs 20 meta_cached meta_log"
proof -
  have "fetcher_reach meta_libs 10 meta_started []" by (rule started [OF created meta_start])
  then have "fetcher_reach meta_libs 10 meta_cached meta_log"
    unfolding meta_log_def
    by (rule published [OF _ _ _ meta_valid _ meta_fetched meta_finish])
      (auto simp: meta_started_def first_key_law_def meta_net_def split: list.splits)
  then show ?thesis by (rule later) simp
qed

lemma meta_hit: "start_fetch meta_libs 20 meta_cached meta_id = (Inr (Hit meta_snapshot), meta_cached)"
  by (simp add: start_fetch_def meta_valid cached_def meta_cached_def is_fresh_def meta_snapshot_def)

theorem fetcher_refines_log_witness:
  "latest meta_log meta_id = Some meta_snapshot \<and> length (fe_cache meta_cached) \<le> 128"
  using fetcher_refines_log [OF meta_reach] meta_hit by blast

text \<open>A fetch always returns and always gives back what it took: unless the identifier is refused or
  the fetcher is busy (no permit left, or this client already in flight, and nothing fresh
  cached), it answers with the cached snapshot or with the outcome of one exchange, and in
  every case the flights and permits are what they were before.\<close>

theorem fetch_leased_outcome:
  assumes "fetch_leased L N e st client_id = (out, st')"
  shows "fe_in_flight st' = fe_in_flight st \<and> fe_permits st' = fe_permits st
    \<and> (case validate_client_id L client_id of
         Inl err \<Rightarrow> out = Inl err \<and> st' = st
       | Inr target \<Rightarrow>
          (case cached (env_instant e 0) st client_id of
             Some snapshot \<Rightarrow> out = Inr snapshot \<and> st' = st
           | None \<Rightarrow>
              if fe_permits st = 0 \<or> client_id \<in> set (fe_in_flight st) then out = Inl Busy \<and> st' = st
              else (case fetch_document L N client_id target of
                      Inl err \<Rightarrow> out = Inl err \<and> st' = st
                    | Inr (document, ttl) \<Rightarrow> out = Inr (snapshot_of (env_instant e 1) document ttl)
                        \<and> (ttl = None \<longrightarrow> st' = st)
                        \<and> (ttl \<noteq> None \<longrightarrow> map_of (fe_cache st') client_id = Some (snapshot_of (env_instant e 1) document ttl)))))"
proof -
  note run = assms [unfolded fetch_leased_outcomes]
  show ?thesis
  proof (cases "start_fetch L (env_instant e 0) st client_id" rule: prod.exhaust)
    case (Pair o1 st1)
    from Pair show ?thesis
    proof (cases rule: start_fetch_cases)
      case (flying target)
      have gone: "removeAll client_id (fe_in_flight st) = fe_in_flight st" using flying(4) by simp
      then show ?thesis using run flying Pair
        by (cases "fetch_document L N client_id target")
          (auto simp: finish_fetch_def Let_def drop_flight_def cache_insert_def)
    qed (use run Pair in \<open>auto simp: start_fetch_def split: sum.splits option.splits\<close>)
  qed
qed

theorem fetch_leased_outcome_witness:
  "\<exists>st'. fetch_leased meta_libs meta_net ref_env new_fetcher meta_id = (Inr meta_snapshot, st')
     \<and> fe_permits st' = 8 \<and> map_of (fe_cache st') meta_id = Some meta_snapshot"
proof -
  have s: "snapshot_of (env_instant ref_env (Suc 0)) meta_document (Some 60) = meta_snapshot"
    by (simp add: snapshot_of_def ref_env_def meta_snapshot_def lease_nanos_def)
  obtain out st' where run: "fetch_leased meta_libs meta_net ref_env new_fetcher meta_id = (out, st')"
    by (cases "fetch_leased meta_libs meta_net ref_env new_fetcher meta_id")
  from fetch_leased_outcome [OF this] have "out = Inr meta_snapshot \<and> fe_permits st' = 8
      \<and> map_of (fe_cache st') meta_id = Some meta_snapshot"
    by (simp add: meta_valid cached_def new_fetcher_def meta_fetched s)
  with run show ?thesis by blast
qed

lemma drain_flights:
  "fetcher_reach L t st log \<Longrightarrow> \<exists>st'. fetcher_reach L t st' log \<and> fe_cache st' = fe_cache st \<and> fe_in_flight st' = []"
proof (induction "length (fe_in_flight st)" arbitrary: st rule: less_induct)
  case less
  show ?case
  proof (cases "fe_in_flight st")
    case Nil
    then show ?thesis using less.prems by blast
  next
    case (Cons k rest)
    let ?st = "drop_flight k st"
    have "fetcher_reach L t ?st log" by (rule abandoned [OF less.prems]) (simp add: Cons)
    moreover have "length (fe_in_flight ?st) < length (fe_in_flight st)"
      by (simp add: drop_flight_def Cons less_Suc_eq_le)
    moreover have "fe_cache ?st = fe_cache st" by (simp add: drop_flight_def)
    ultimately show ?thesis using less.hyps [of ?st] by metis
  qed
qed

text \<open>The fetcher is never stuck: from every reachable state, once the flights under way have ended,
  whether they succeed or are abandoned, all eight permits are free and any acceptable client
  identifier is answered from the cache or starts a fetch.\<close>

theorem fetcher_never_stuck:
  assumes "fetcher_reach L t st log" and "validate_client_id L client_id = Inr target"
  shows "\<exists>st' answer st''. fetcher_reach L t st' log \<and> fe_cache st' = fe_cache st \<and> fe_permits st' = 8
    \<and> start_fetch L t st' client_id = (Inr answer, st'')"
proof -
  from drain_flights [OF assms(1)] obtain st' where st': "fetcher_reach L t st' log" "fe_cache st' = fe_cache st"
    "fe_in_flight st' = []" by blast
  then have "fe_permits st' = 8" using reach_ok [OF st'(1)] by (simp add: fetcher_ok_def)
  moreover from this have "\<exists>answer st''. start_fetch L t st' client_id = (Inr answer, st'')"
    using st'(3) by (cases "cached t st' client_id") (auto simp: start_fetch_def assms(2))
  ultimately show ?thesis using st' by blast
qed

theorem fetcher_never_stuck_witness:
  "\<exists>st' answer st''. fe_permits st' = 8 \<and> start_fetch meta_libs 20 st' meta_id = (Inr answer, st'')"
  using fetcher_never_stuck [OF meta_reach meta_valid] by blast

end
