(* ===== verification/Http.thy ===== *)
theory Http
  imports Registry
begin

text \<open>
  \<open>src/src/web.rs\<close>, the shared parts of the handlers: form and query parsing, cookies, origins and
  bearer tokens on the way in; redirects, pages, security headers and CORS on the way out.

  A header map is the list of its fields in order, names in lower case.  A response is what the
  code hands to the framework: status, headers and a body that is text or a JSON value still to
  be printed.  The \<open>http\<close> and \<open>axum\<close> crates are parameters (\<open>http_libs\<close>): which text is a
  legal header value, the text of a received value, the response of \<open>Redirect::to\<close>, and the
  answer to a body over the limit.
\<close>

section \<open>Messages\<close>

type_synonym header_map = "(string \<times> string) list"
type_synonym form = "(string \<times> string) list"

datatype body = NoBody | TextBody string | JsonBody json

record response =
  rs_status :: nat
  rs_headers :: header_map
  rs_body :: body

record http_libs =
  hl_header_ok :: "string \<Rightarrow> bool"
  hl_to_str :: "string \<Rightarrow> string option"
  hl_redirect :: "string \<Rightarrow> response"
  hl_body_rejection :: response

definition header_get :: "string \<Rightarrow> header_map \<Rightarrow> string option" where
  "header_get name h = map_of h name"

definition header_get_all :: "string \<Rightarrow> header_map \<Rightarrow> string list" where
  "header_get_all name h = map snd (filter (\<lambda>kv. fst kv = name) h)"

definition header_insert :: "string \<Rightarrow> string \<Rightarrow> header_map \<Rightarrow> header_map" where
  "header_insert name v h = filter (\<lambda>kv. fst kv \<noteq> name) h @ [(name, v)]"

definition header_append :: "string \<Rightarrow> string \<Rightarrow> header_map \<Rightarrow> header_map" where
  "header_append name v h = h @ [(name, v)]"

text \<open>\<open>Redirect::to\<close> answers 303 with the location, or with an error when it is not a legal value;
  neither that error nor a refused body carries one of the headers the code sets itself.\<close>

definition code_headers :: "string list" where
  "code_headers = [''location'', ''set-cookie'', ''content-security-policy'', ''access-control-allow-origin'']"

definition framework_laws :: "http_libs \<Rightarrow> bool" where
  "framework_laws H \<longleftrightarrow>
     (\<forall>u. hl_header_ok H u \<longrightarrow> hl_redirect H u = \<lparr>rs_status = 303, rs_headers = [(''location'', u)], rs_body = NoBody\<rparr>)
     \<and> (\<forall>u. \<not> hl_header_ok H u \<longrightarrow> (\<forall>n \<in> set code_headers. header_get n (rs_headers (hl_redirect H u)) = None))
     \<and> (\<forall>n \<in> set code_headers. header_get n (rs_headers (hl_body_rejection H)) = None)"

definition with_headers :: "(header_map \<Rightarrow> header_map) \<Rightarrow> response \<Rightarrow> response" where
  "with_headers f r = r\<lparr>rs_headers := f (rs_headers r)\<rparr>"

definition status_response :: "nat \<Rightarrow> response" where
  "status_response code = \<lparr>rs_status = code, rs_headers = [], rs_body = NoBody\<rparr>"

definition html_response :: "nat \<Rightarrow> string \<Rightarrow> response" where
  "html_response code text =
     \<lparr>rs_status = code, rs_headers = [(''content-type'', ''text/html; charset=utf-8'')], rs_body = TextBody text\<rparr>"

section \<open>Forms\<close>

text \<open>\<open>str::from_utf8\<close>: the well-formed byte sequences of the Unicode standard.\<close>

definition cont_byte :: "nat \<Rightarrow> bool" where "cont_byte b \<longleftrightarrow> 0x80 \<le> b \<and> b \<le> 0xBF"

fun valid_utf8 :: "nat list \<Rightarrow> bool" where
  "valid_utf8 [] = True"
| "valid_utf8 (b # bs) =
     (if b < 0x80 then valid_utf8 bs
      else if 0xC2 \<le> b \<and> b \<le> 0xDF then (case bs of c # r \<Rightarrow> cont_byte c \<and> valid_utf8 r | _ \<Rightarrow> False)
      else if 0xE0 \<le> b \<and> b \<le> 0xEF then
        (case bs of c # c' # r \<Rightarrow> (if b = 0xE0 then 0xA0 \<le> c else 0x80 \<le> c) \<and> (if b = 0xED then c \<le> 0x9F else c \<le> 0xBF)
           \<and> cont_byte c' \<and> valid_utf8 r | _ \<Rightarrow> False)
      else if 0xF0 \<le> b \<and> b \<le> 0xF4 then
        (case bs of c # c' # c'' # r \<Rightarrow> (if b = 0xF0 then 0x90 \<le> c else 0x80 \<le> c) \<and> (if b = 0xF4 then c \<le> 0x8F else c \<le> 0xBF)
           \<and> cont_byte c' \<and> cont_byte c'' \<and> valid_utf8 r | _ \<Rightarrow> False)
      else False)"

definition from_utf8 :: "string \<Rightarrow> string option" where
  "from_utf8 bytes = (if valid_utf8 (map of_char bytes) then Some bytes else None)"

text \<open>The loop of \<open>valid_percent\<close>, with its index.\<close>

function percent_loop :: "string \<Rightarrow> nat \<Rightarrow> bool" where
  "percent_loop b i =
     (if i < length b then
        if b ! i = CHR ''%''
           \<and> (length b \<le> i + 2 \<or> \<not> is_ascii_hexdigit (b ! (i + 1)) \<or> \<not> is_ascii_hexdigit (b ! (i + 2)))
        then False
        else percent_loop b (i + (if b ! i = CHR ''%'' then 3 else 1))
      else True)"
  by pat_completeness auto
termination by (relation "measure (\<lambda>(b, i). length b - i)") auto

declare percent_loop.simps [simp del]

definition valid_percent :: "string \<Rightarrow> bool" where
  "valid_percent raw = percent_loop raw 0"

definition pairs :: "libs \<Rightarrow> string \<Rightarrow> nat \<Rightarrow> unit + form" where
  "pairs L raw maximum =
     (if maximum < length raw \<or> \<not> valid_percent raw then Inl ()
      else let v = form_parse L raw in
        if 32 < length v \<or> list_ex (\<lambda>(k, x). 128 < length k \<or> 2048 < length x) v then Inl () else Inr v)"

definition pairs_bytes :: "libs \<Rightarrow> string \<Rightarrow> nat \<Rightarrow> unit + form" where
  "pairs_bytes L body maximum = and_then (ok_or () (from_utf8 body)) (\<lambda>raw. pairs L raw maximum)"

definition valid_scope :: "string \<Rightarrow> bool" where
  "valid_scope scope \<longleftrightarrow> scope \<noteq> []
     \<and> list_all (\<lambda>b. b = CHR ''!'' \<or> (byte (CHR ''#'') \<le> byte b \<and> byte b \<le> byte (CHR ''[''))
          \<or> (byte (CHR '']'') \<le> byte b \<and> byte b \<le> byte (CHR ''~''))) scope"

definition one :: "form \<Rightarrow> string \<Rightarrow> string option" where
  "one q name = (case map snd (filter (\<lambda>kv. fst kv = name) q) of [f] \<Rightarrow> Some f | _ \<Rightarrow> None)"

definition required :: "form \<Rightarrow> string \<Rightarrow> string + string" where
  "required q name = (case one q name of
     Some v \<Rightarrow> if v \<noteq> [] then Inr v else Inl ''invalid_request''
   | None \<Rightarrow> Inl ''invalid_request'')"

definition optional :: "form \<Rightarrow> string \<Rightarrow> string + string option" where
  "optional q name =
     (if 1 < length (filter (\<lambda>kv. fst kv = name) q) then Inl ''invalid_request'' else Inr (one q name))"

section \<open>Cookies, origins and tokens\<close>

text \<open>The loops of \<open>cookie\<close>: \<open>None\<close> is the early return, \<open>Some found\<close> the value so far.\<close>

fun cookie_parts :: "string \<Rightarrow> string list \<Rightarrow> string option \<Rightarrow> string option option" where
  "cookie_parts name [] found = Some found"
| "cookie_parts name (part # parts) found = (case split_once (CHR ''='') (trim part) of
     None \<Rightarrow> None
   | Some (k, v) \<Rightarrow>
       if k = name then (if found \<noteq> None \<or> 512 < length v then None else cookie_parts name parts (Some v))
       else cookie_parts name parts found)"

fun cookie_values :: "http_libs \<Rightarrow> string \<Rightarrow> string list \<Rightarrow> string option \<Rightarrow> string option option" where
  "cookie_values H name [] found = Some found"
| "cookie_values H name (v # vs) found = (case hl_to_str H v of
     None \<Rightarrow> None
   | Some text \<Rightarrow> if 4096 < length text then None
       else (case cookie_parts name (take 32 (split_on (CHR '';'') text)) found of
               None \<Rightarrow> None | Some found' \<Rightarrow> cookie_values H name vs found'))"

definition cookie :: "http_libs \<Rightarrow> header_map \<Rightarrow> string \<Rightarrow> string option" where
  "cookie H h name = (case cookie_values H name (header_get_all ''cookie'' h) None of None \<Rightarrow> None | Some found \<Rightarrow> found)"

definition tx_prefix :: "bool \<Rightarrow> string" where
  "tx_prefix secure = (if secure then ''__Host-eri_tx_'' else ''eri_tx_'')"

definition cookie_pairs :: "http_libs \<Rightarrow> header_map \<Rightarrow> (string \<times> string) list" where
  "cookie_pairs H h = List.map_filter (\<lambda>p. split_once (CHR ''='') (trim p))
     (concat (map (split_on (CHR '';'')) (List.map_filter (hl_to_str H) (header_get_all ''cookie'' h))))"

definition is_tx_name :: "libs \<Rightarrow> bool \<Rightarrow> string \<Rightarrow> bool" where
  "is_tx_name L secure k = is_some_and (strip_prefix (tx_prefix secure) k) (\<lambda>i. uuid_parse L i \<noteq> None)"

definition transaction_cookies :: "libs \<Rightarrow> http_libs \<Rightarrow> header_map \<Rightarrow> bool \<Rightarrow> (string \<times> string) list" where
  "transaction_cookies L H h secure =
     (let values = filter (\<lambda>(k, v). is_tx_name L secure k \<and> length v \<le> 512) (cookie_pairs H h)
      in if 4 < length values \<or> card (set (map fst values)) \<noteq> length values then [] else values)"

definition transaction_cookie_count :: "libs \<Rightarrow> http_libs \<Rightarrow> header_map \<Rightarrow> bool \<Rightarrow> nat" where
  "transaction_cookie_count L H h secure = length (filter (\<lambda>kv. is_tx_name L secure (fst kv)) (cookie_pairs H h))"

definition tx_cookie :: "libs \<Rightarrow> uuid \<Rightarrow> bool \<Rightarrow> string" where
  "tx_cookie L tid secure = tx_prefix secure @ uuid_show L tid"

definition session_cookie :: "bool \<Rightarrow> string" where
  "session_cookie secure = (if secure then ''__Host-eri_session'' else ''eri_dev_session'')"

definition secure_attribute :: "bool \<Rightarrow> string" where
  "secure_attribute secure = (if secure then ''; Secure'' else [])"

definition cleared_cookie :: "string \<Rightarrow> bool \<Rightarrow> string" where
  "cleared_cookie name secure = name @ ''=; Path=/; HttpOnly; SameSite=Lax; Max-Age=0'' @ secure_attribute secure"

definition clear_transaction_cookie :: "response \<Rightarrow> string option \<Rightarrow> bool \<Rightarrow> response" where
  "clear_transaction_cookie r name secure = (case name of None \<Rightarrow> r
     | Some n \<Rightarrow> with_headers (header_append ''set-cookie'' (cleared_cookie n secure)) r)"

abbreviation nul_origin :: string where "nul_origin \<equiv> [CHR 0x00]"

definition origin :: "http_libs \<Rightarrow> header_map \<Rightarrow> string option" where
  "origin H h = (case header_get_all ''origin'' h of
     [] \<Rightarrow> None
   | [first] \<Rightarrow> (case hl_to_str H first of Some v \<Rightarrow> Some v | None \<Rightarrow> Some nul_origin)
   | _ \<Rightarrow> Some nul_origin)"

definition same_origin :: "http_libs \<Rightarrow> header_map \<Rightarrow> string \<Rightarrow> bool" where
  "same_origin H h issuer = is_none_or (origin H h) (\<lambda>v. v = issuer)"

definition bearer :: "http_libs \<Rightarrow> header_map \<Rightarrow> form \<Rightarrow> string option" where
  "bearer H h f =
     (let a = Option.bind (Option.bind (header_get ''authorization'' h) (hl_to_str H)) (strip_prefix ''Bearer '');
          b = one f ''access_token''
      in case (a, b) of (Some v, None) \<Rightarrow> Some v | (None, Some v) \<Rightarrow> Some v | _ \<Rightarrow> None)"

section \<open>Headers of responses\<close>

abbreviation apostrophe :: string where "apostrophe \<equiv> [CHR 0x27]"

definition csp_with :: "string \<Rightarrow> string" where
  "csp_with sources = ''default-src 'none'; style-src 'self'; form-action 'self'' @ apostrophe @ sources
     @ ''; frame-ancestors 'none'; base-uri 'none'' @ apostrophe"

definition insert_unless_present :: "string \<Rightarrow> string \<Rightarrow> header_map \<Rightarrow> header_map" where
  "insert_unless_present name v h = (if header_get name h = None then header_insert name v h else h)"

definition sensitive_headers :: "header_map \<Rightarrow> header_map" where
  "sensitive_headers h =
     insert_unless_present ''content-security-policy'' (csp_with [])
       (header_insert ''x-frame-options'' ''DENY''
         (header_insert ''x-content-type-options'' ''nosniff''
           (insert_unless_present ''referrer-policy'' ''no-referrer''
             (header_insert ''pragma'' ''no-cache''
               (header_insert ''cache-control'' ''no-store'' h)))))"

definition sensitive :: "response \<Rightarrow> response" where
  "sensitive r = with_headers sensitive_headers r"

definition public_security :: "header_map \<Rightarrow> header_map" where
  "public_security h =
     header_insert ''x-content-type-options'' ''nosniff'' (header_insert ''access-control-allow-origin'' ''*'' h)"

definition cors :: "http_libs \<Rightarrow> string \<Rightarrow> header_map \<Rightarrow> header_map" where
  "cors H o' h =
     (if hl_header_ok H o' then
        header_insert ''access-control-allow-headers'' ''authorization, content-type''
          (header_insert ''access-control-allow-methods'' ''GET, POST, OPTIONS''
            (header_insert ''vary'' ''Origin'' (header_insert ''access-control-allow-origin'' o' h)))
      else h)"

definition cors_for :: "http_libs \<Rightarrow> header_map \<Rightarrow> response \<Rightarrow> response" where
  "cors_for H h r = (case origin H h of None \<Rightarrow> r | Some o' \<Rightarrow> with_headers (cors H o') r)"

section \<open>JSON answers\<close>

definition json_sensitive_status :: "nat \<Rightarrow> json \<Rightarrow> response" where
  "json_sensitive_status code v = with_headers sensitive_headers
     \<lparr>rs_status = code, rs_headers = [(''content-type'', ''application/json'')], rs_body = JsonBody v\<rparr>"

definition json_sensitive :: "json \<Rightarrow> response" where
  "json_sensitive v = json_sensitive_status 200 v"

definition public_json :: "body \<Rightarrow> response" where
  "public_json b = with_headers public_security
     \<lparr>rs_status = 200, rs_headers = [(''content-type'', ''application/json''), (''cache-control'', ''public, max-age=300'')],
      rs_body = b\<rparr>"

definition json_public :: "json \<Rightarrow> response" where
  "json_public v = public_json (JsonBody v)"

definition json_error :: "string \<Rightarrow> json" where
  "json_error code = JObject [(''error'', JString code)]"

definition token_error :: "string \<Rightarrow> response" where
  "token_error c = json_sensitive_status 400 (json_error c)"

definition bearer_error :: response where
  \<open>bearer_error = with_headers (header_insert ''www-authenticate'' ''Bearer error="invalid_token"'')
     (json_sensitive_status 401 (json_error ''invalid_token''))\<close>

section \<open>Redirects\<close>

definition present_items :: "(string \<times> string option) list \<Rightarrow> (string \<times> string) list" where
  "present_items items = List.map_filter (\<lambda>(k, v). map_option (Pair k) v) items"

definition redirect_url :: "libs \<Rightarrow> string \<Rightarrow> (string \<times> string option) list \<Rightarrow> string" where
  "redirect_url L base items =
     (let q = form_serialize L (present_items items) in
      if q = [] then base else base @ (if CHR ''?'' \<in> set base then ''&'' else ''?'') @ q)"

definition redirect_params :: "libs \<Rightarrow> http_libs \<Rightarrow> string \<Rightarrow> (string \<times> string option) list \<Rightarrow> response" where
  "redirect_params L H base items = hl_redirect H (redirect_url L base items)"

definition oauth_redirect :: "libs \<Rightarrow> http_libs \<Rightarrow> string \<Rightarrow> string option \<Rightarrow> string \<Rightarrow> string \<Rightarrow> response" where
  "oauth_redirect L H base state issuer code = sensitive (redirect_params L H base
     [(''error'', Some code), (''state'', state), (''iss'', Some issuer)])"

definition code_redirect :: "libs \<Rightarrow> http_libs \<Rightarrow> string \<Rightarrow> string option \<Rightarrow> string \<Rightarrow> string \<Rightarrow> response" where
  "code_redirect L H base state issuer code = sensitive (redirect_params L H base
     [(''code'', Some code), (''state'', state), (''iss'', Some issuer)])"

section \<open>Pages\<close>

definition replace_char :: "char \<Rightarrow> string \<Rightarrow> string \<Rightarrow> string" where
  "replace_char c r s = concat (map (\<lambda>x. if x = c then r else [x]) s)"

definition escape :: "string \<Rightarrow> string" where
  "escape v = replace_char (CHR 0x27) ''&#39;'' (replace_char (CHR 0x22) ''&quot;''
     (replace_char (CHR ''>'') ''&gt;'' (replace_char (CHR ''<'') ''&lt;'' (replace_char (CHR ''&'') ''&amp;'' v))))"

abbreviation middot :: string where "middot \<equiv> [CHR 0xC2, CHR 0xB7]"
abbreviation a_acute :: string where "a_acute \<equiv> [CHR 0xC3, CHR 0xA1]"
abbreviation i_acute :: string where "i_acute \<equiv> [CHR 0xC3, CHR 0xAD]"
abbreviation o_acute :: string where "o_acute \<equiv> [CHR 0xC3, CHR 0xB3]"
abbreviation quoted :: "string \<Rightarrow> string" where "quoted s \<equiv> [CHR 0x22] @ s @ [CHR 0x22]"

definition viewport :: string where
  "viewport = ''<meta charset=utf-8><meta name=viewport content='width=device-width,initial-scale=1'>''"

definition page :: "string \<Rightarrow> string \<Rightarrow> string" where
  "page title text = ''<!doctype html><html lang=es><head>'' @ viewport
     @ ''<link rel=stylesheet href=/auth.css><title>'' @ title @ '' '' @ middot @ '' Eri</title></head><body><main>''
     @ ''<div class=mark>E</div><p class=eyebrow>IDENTIDAD SHOCKER</p><h1>'' @ title @ ''</h1>'' @ text
     @ ''</main></body></html>''"

definition local_error :: "string \<Rightarrow> response" where
  "local_error m = sensitive (html_response 400
     (page ''No pudimos continuar'' (''<p>'' @ escape m @ ''</p>'')))"

definition form_action_source :: "libs \<Rightarrow> string \<Rightarrow> string option" where
  "form_action_source L redirect_uri = (case url_parse L redirect_uri of
     None \<Rightarrow> None
   | Some u \<Rightarrow>
       if url_scheme u = ''http'' \<or> url_scheme u = ''https'' then Some (url_origin u)
       else if url_scheme u \<noteq> [] \<and> list_all (\<lambda>b. is_ascii_alphanumeric b \<or> b = CHR ''+'' \<or> b = CHR ''-'' \<or> b = CHR ''.'') (url_scheme u)
       then Some (url_scheme u @ '':'') else None)"

definition policy_header :: "http_libs \<Rightarrow> string \<Rightarrow> response \<Rightarrow> response" where
  "policy_header H policy r =
     (if hl_header_ok H policy then with_headers (header_insert ''content-security-policy'' policy) r else r)"

definition strict_referrer :: "string \<Rightarrow> response" where
  "strict_referrer html = with_headers (header_insert ''referrer-policy'' ''strict-origin'') (sensitive (html_response 200 html))"

definition form_page :: "libs \<Rightarrow> http_libs \<Rightarrow> string \<Rightarrow> string \<Rightarrow> response" where
  "form_page L H html redirect_uri = (case form_action_source L redirect_uri of
     None \<Rightarrow> strict_referrer html
   | Some source \<Rightarrow> policy_header H (csp_with ('' '' @ source)) (strict_referrer html))"

definition login_page :: "libs \<Rightarrow> http_libs \<Rightarrow> string \<Rightarrow> string \<Rightarrow> string \<Rightarrow> response" where
  "login_page L H html google_uri redirect_uri =
     (case (form_action_source L google_uri, form_action_source L redirect_uri) of
        (Some google, Some client) \<Rightarrow> policy_header H (csp_with ('' '' @ google @ '' '' @ client)) (strict_referrer html)
      | _ \<Rightarrow> strict_referrer html)"

definition consent_return :: "libs \<Rightarrow> http_libs \<Rightarrow> string \<Rightarrow> (string \<times> string option) list \<Rightarrow> response" where
  \<open>consent_return L H base items =
     (if \<not> is_some_and (url_parse L base) (\<lambda>u. url_scheme u = ''http'' \<or> url_scheme u = ''https'')
      then sensitive (redirect_params L H base items)
      else let target = escape (redirect_url L base items) in
        sensitive (html_response 200 (''<!doctype html><html lang=es><head>'' @ viewport
          @ ''<meta http-equiv=refresh content="0;url='' @ target @ ''"><title>Continuar '' @ middot
          @ '' Eri</title></head><body><main><h1>Continuar</h1><p><a href="'' @ target
          @ ''">Volver a la aplicaci'' @ o_acute @ ''n</a></p></main></body></html>'')))\<close>

definition CSS :: string where
  "CSS = ''*{box-sizing:border-box}html{background:#111918;color:#f1f2e9;font-family:system-ui,sans-serif}body{margin:0;min-height:100vh;display:grid;place-items:center;padding:1.5rem}main{width:min(30rem,100%);background:#1b2926;border-top:5px solid #bde6cc;padding:2.5rem;box-shadow:0 18px 50px #0006;overflow-wrap:anywhere}.mark{display:grid;place-items:center;width:2.5rem;height:2.5rem;border-radius:50%;background:#bde6cc;color:#111918;font-weight:800}.eyebrow{font:700 .7rem ui-monospace,monospace;letter-spacing:.14em;color:#aebdb5}h1{font-size:clamp(2rem,8vw,3.4rem);line-height:.95;letter-spacing:-.05em}p{line-height:1.6}button{border:0;background:#bde6cc;color:#111918;padding:.85rem 1.2rem;font-weight:700;margin:.5rem .5rem 0 0}button.secondary{background:#aebdb5;color:#111918}button:focus-visible{outline:3px solid #f0aaa0;outline-offset:3px}@media(max-width:35rem){main{padding:1.5rem}}''"

end
