(* ===== verification/Config.thy ===== *)
theory Config
  imports Registry
begin

text \<open>
  \<open>src/src/config.rs\<close>: the configuration file, its defaults and its validation, and the
  client registry it declares.  Reading the file and decoding TOML are parameters; the default
  values that \<open>serde\<close> fills in are those of the code.  A path is its text.
\<close>

section \<open>Data\<close>

datatype mode = Development | Production

datatype configured_authorization_flow = CfgInteractive | CfgGooglePreauthorized
datatype configured_logout_flow = CfgLogoutInteractive | CfgIdTokenHint
datatype configured_redirect_kind = CfgExact | CfgNativeLoopback | CfgAppClaimedHttps

record redirect_declaration =
  rd_uri :: string
  rd_kind :: configured_redirect_kind

record client_declaration =
  cd_id :: string
  cd_display_name :: string
  cd_redirects :: "redirect_declaration list"
  cd_scopes :: "string list"
  cd_resources :: "string list"
  cd_default_resource :: "string option"
  cd_browser_origins :: "string list"
  cd_post_logout_redirects :: "string list"
  cd_authorization_flow :: configured_authorization_flow
  cd_logout_flow :: configured_logout_flow

record google_client_config =
  gcc_client_id :: string
  gcc_client_secret_env :: string

record cimd_policy_config =
  cp_scopes :: "string list"
  cp_resources :: "string list"
  cp_allow_refresh :: bool

record authorization_config =
  ac_google :: "google_client_config option"
  ac_clients :: "client_declaration list"
  ac_cimd :: "cimd_policy_config option"

record database_config =
  dc_url :: "string option"
  dc_url_env :: string
  dc_max_connections :: nat
  dc_min_connections :: nat
  dc_connect_timeout_seconds :: nat
  dc_acquire_timeout_seconds :: nat
  dc_readiness_timeout_milliseconds :: nat

record config =
  cf_mode :: mode
  cf_issuer :: url
  cf_bind :: "ip_addr \<times> nat"
  cf_database :: database_config
  cf_signing_manifest :: string
  cf_authorization :: "authorization_config option"

datatype config_error = CfRead | CfParse | CfInvalid string

definition invalid :: "string \<Rightarrow> config_error" where
  "invalid message = CfInvalid message"

section \<open>Defaults\<close>

definition default_database_env :: string where "default_database_env = ''ERI_DATABASE_URL''"
definition default_max_connections :: nat where "default_max_connections = 10"
definition default_min_connections :: nat where "default_min_connections = 1"
definition default_timeout :: nat where "default_timeout = 5"
definition default_ready_timeout :: nat where "default_ready_timeout = 500"

text \<open>The fields of a database table as the file gives them, an absent one being \<open>None\<close>.\<close>

record declared_database =
  dd_url :: "string option"
  dd_url_env :: "string option"
  dd_max_connections :: "nat option"
  dd_min_connections :: "nat option"
  dd_connect_timeout_seconds :: "nat option"
  dd_acquire_timeout_seconds :: "nat option"
  dd_readiness_timeout_milliseconds :: "nat option"

definition or_default :: "'a option \<Rightarrow> 'a \<Rightarrow> 'a" where
  "or_default v d = (case v of None \<Rightarrow> d | Some x \<Rightarrow> x)"

definition database_of_declared :: "declared_database \<Rightarrow> database_config" where
  "database_of_declared d = \<lparr>dc_url = dd_url d, dc_url_env = or_default (dd_url_env d) default_database_env,
     dc_max_connections = or_default (dd_max_connections d) default_max_connections,
     dc_min_connections = or_default (dd_min_connections d) default_min_connections,
     dc_connect_timeout_seconds = or_default (dd_connect_timeout_seconds d) default_timeout,
     dc_acquire_timeout_seconds = or_default (dd_acquire_timeout_seconds d) default_timeout,
     dc_readiness_timeout_milliseconds = or_default (dd_readiness_timeout_milliseconds d) default_ready_timeout\<rparr>"

section \<open>Addresses\<close>

fun ip_is_loopback :: "ip_addr \<Rightarrow> bool" where
  "ip_is_loopback (V4 (a, b, c, d)) = (a = 127)"
| "ip_is_loopback (V6 s) = (s = ipv6_localhost)"

fun is_loopback_url :: "url \<Rightarrow> bool" where
  "is_loopback_url u = (case url_host_of u of
     Some (Ipv4 address) \<Rightarrow> ip_is_loopback (V4 address)
   | Some (Ipv6 address) \<Rightarrow> ip_is_loopback (V6 address)
   | _ \<Rightarrow> False)"

section \<open>The declared registry\<close>

fun redirect_kind_of :: "configured_redirect_kind \<Rightarrow> redirect_kind" where
  "redirect_kind_of CfgExact = Exact"
| "redirect_kind_of CfgNativeLoopback = NativeLoopback"
| "redirect_kind_of CfgAppClaimedHttps = AppClaimedHttps"

fun authorization_flow_of :: "configured_authorization_flow \<Rightarrow> authorization_flow" where
  "authorization_flow_of CfgInteractive = Interactive"
| "authorization_flow_of CfgGooglePreauthorized = GooglePreauthorized"

fun logout_flow_of :: "configured_logout_flow \<Rightarrow> logout_flow" where
  "logout_flow_of CfgLogoutInteractive = LogoutInteractive"
| "logout_flow_of CfgIdTokenHint = IdTokenHint"

definition declared_redirects :: "libs \<Rightarrow> client_declaration \<Rightarrow> config_error + registered_redirect list" where
  "declared_redirects L c = map_err (\<lambda>_. invalid ''authorization client redirect is invalid'')
     (collect_results (map (\<lambda>r. new_registered_redirect L (rd_uri r) (redirect_kind_of (rd_kind r))) (cd_redirects c)))"

definition declared_client :: "libs \<Rightarrow> client_declaration \<Rightarrow> config_error + first_party_client" where
  "declared_client L c = and_then (declared_redirects L c) (\<lambda>redirects.
     map_err (\<lambda>_. invalid ''authorization client is invalid'')
       (map_ok (\<lambda>client. with_logout_flow client (logout_flow_of (cd_logout_flow c)))
         (with_authorization_flow L (cd_id c) (cd_display_name c) redirects (cd_scopes c) (cd_resources c)
            (cd_default_resource c) (cd_browser_origins c) (cd_post_logout_redirects c)
            (authorization_flow_of (cd_authorization_flow c)))))"

definition authorization_registry :: "libs \<Rightarrow> config \<Rightarrow> config_error + client_registry option" where
  "authorization_registry L c = (case cf_authorization c of
     None \<Rightarrow> Inr None
   | Some auth \<Rightarrow> map_ok Some
       (and_then (collect_results (map (declared_client L) (ac_clients auth))) (\<lambda>clients.
          map_err (\<lambda>_. invalid ''authorization registry is invalid'')
            (registry_with_issuer L clients (cf_issuer c)))))"

section \<open>Validation\<close>

definition policy_invalid :: config_error where
  "policy_invalid = invalid ''CIMD policy is invalid''"

definition policy_validate :: "libs \<Rightarrow> cimd_policy_config \<Rightarrow> config_error + unit" where
  "policy_validate L p =
     (if cp_scopes p = [] \<or> 64 < length (cp_scopes p) \<or> cp_resources p = [] \<or> 32 < length (cp_resources p)
         \<or> card (set (cp_scopes p)) \<noteq> length (cp_scopes p)
         \<or> card (set (cp_resources p)) \<noteq> length (cp_resources p)
         \<or> \<not> list_ex (\<lambda>s. s \<noteq> ''offline_access'') (cp_scopes p)
      then Inl policy_invalid
      else and_then (map_err (\<lambda>_. policy_invalid)
                       (new_registered_redirect L ''https://policy.example.org/callback'' Exact)) (\<lambda>redirect.
             map_err (\<lambda>_. policy_invalid) (map_ok (\<lambda>_. ())
               (new_first_party_client L ''cimd-policy'' ''CIMD policy'' [redirect] (cp_scopes p) (cp_resources p)
                  None [] []))))"

definition policy_advertised_scopes :: "cimd_policy_config \<Rightarrow> string list" where
  "policy_advertised_scopes p = filter (\<lambda>scope. cp_allow_refresh p \<or> scope \<noteq> ''offline_access'') (cp_scopes p)"

definition issuer_check :: "config \<Rightarrow> config_error + unit" where
  "issuer_check c = (let issuer = cf_issuer c in
     if url_cannot_be_a_base issuer \<or> url_host_of issuer = None then Inl (invalid ''issuer must be an absolute URL'')
     else if url_username issuer \<noteq> [] \<or> url_password issuer \<noteq> None \<or> url_query issuer \<noteq> None
       \<or> url_fragment issuer \<noteq> None then Inl (invalid ''issuer cannot contain credentials, query, or fragment'')
     else if url_path issuer \<noteq> ''/'' then Inl (invalid ''issuer path is not supported'')
     else (case cf_mode c of
         Production \<Rightarrow> if url_scheme issuer \<noteq> ''https'' then Inl (invalid ''production issuer must use HTTPS'') else Inr ()
       | Development \<Rightarrow>
           if url_scheme issuer = ''http'' \<and> \<not> is_loopback_url issuer
           then Inl (invalid ''development HTTP issuer must use a loopback IP'')
           else if url_scheme issuer \<noteq> ''http'' \<and> url_scheme issuer \<noteq> ''https''
           then Inl (invalid ''issuer must use HTTP or HTTPS'') else Inr ()))"

definition bind_check :: "config \<Rightarrow> config_error + unit" where
  "bind_check c =
     (if \<not> ip_is_loopback (fst (cf_bind c)) then Inl (invalid ''bind address must be an explicit loopback IP'')
      else if snd (cf_bind c) = 0 then Inl (invalid ''bind port must be non-zero'') else Inr ())"

definition database_check :: "database_config \<Rightarrow> config_error + unit" where
  "database_check d =
     (if dc_max_connections d = 0 \<or> dc_max_connections d < dc_min_connections d
      then Inl (invalid ''database pool bounds are invalid'')
      else if trim (dc_url_env d) = [] then Inl (invalid ''database url_env cannot be empty'') else Inr ())"

definition authorization_check :: "libs \<Rightarrow> config \<Rightarrow> config_error + unit" where
  "authorization_check L c =
     (if is_some_and (cf_authorization c) (\<lambda>auth. ac_clients auth = []
         \<or> is_none_or (ac_google auth) (\<lambda>g. trim (gcc_client_id g) = [] \<or> trim (gcc_client_secret_env g) = [])
         \<or> \<not> is_ok (authorization_registry L c))
      then Inl (invalid ''authorization configuration is invalid'')
      else (case Option.bind (cf_authorization c) ac_cimd of None \<Rightarrow> Inr () | Some policy \<Rightarrow> policy_validate L policy))"

definition config_validate :: "libs \<Rightarrow> config \<Rightarrow> config_error + unit" where
  "config_validate L c = and_then (issuer_check c) (\<lambda>_. and_then (bind_check c) (\<lambda>_.
     and_then (database_check (cf_database c)) (\<lambda>_. authorization_check L c)))"

section \<open>Loading\<close>

text \<open>\<open>Path::parent\<close> and \<open>Path::join\<close> of a relative path: empty and \<open>.\<close> components at the end are dropped.\<close>

definition drop_trailing :: "string list \<Rightarrow> string list" where
  "drop_trailing segs = rev (dropWhile (\<lambda>seg. seg = [] \<or> seg = ''.'') (rev segs))"

definition path_parent :: "string \<Rightarrow> string option" where
  "path_parent p =
     (let root = starts_with p ''/''; here = (\<not> root \<and> (p = ''.'' \<or> starts_with p ''./''));
          n = (if root \<or> here then 1 else 0); segs = drop_trailing (split_on (CHR ''/'') (drop n p))
      in if segs = [] then (if here then Some [] else None)
         else Some (take n p @ join_with ''/'' (drop_trailing (butlast segs))))"

definition path_join :: "string \<Rightarrow> string \<Rightarrow> string" where
  "path_join base relative =
     (if base = [] \<or> last base = CHR ''/'' then base @ relative else base @ ''/'' @ relative)"

definition load_config :: "libs \<Rightarrow> (string \<Rightarrow> string option) \<Rightarrow> (string \<Rightarrow> config option) \<Rightarrow> string \<Rightarrow> config_error + config" where
  "load_config L read_file toml path =
     and_then (ok_or CfRead (read_file path)) (\<lambda>text.
     and_then (ok_or CfParse (toml text)) (\<lambda>c.
       let c = (if \<not> starts_with (cf_signing_manifest c) ''/''
                then c\<lparr>cf_signing_manifest :=
                  path_join (or_default (path_parent path) ''.'') (cf_signing_manifest c)\<rparr> else c)
       in and_then (config_validate L c) (\<lambda>_. Inr c)))"

section \<open>Database settings\<close>

definition resolved_url :: "(string \<Rightarrow> string option) \<Rightarrow> database_config \<Rightarrow> config_error + string" where
  "resolved_url var d = (case var (dc_url_env d) of
     Some v \<Rightarrow> if v \<noteq> [] then Inr v
       else ok_or (invalid ''database URL is not configured'') (case dc_url d of Some v \<Rightarrow> if v \<noteq> [] then Some v else None | None \<Rightarrow> None)
   | None \<Rightarrow> ok_or (invalid ''database URL is not configured'') (case dc_url d of Some v \<Rightarrow> if v \<noteq> [] then Some v else None | None \<Rightarrow> None))"

definition from_millis :: "nat \<Rightarrow> duration" where
  "from_millis n = \<lparr>dur_secs = n div 1000, dur_subsec_nanos = n mod 1000 * 1000000\<rparr>"

definition connect_timeout :: "database_config \<Rightarrow> duration" where
  "connect_timeout d = from_secs (dc_connect_timeout_seconds d)"

definition acquire_timeout :: "database_config \<Rightarrow> duration" where
  "acquire_timeout d = from_secs (dc_acquire_timeout_seconds d)"

definition readiness_timeout :: "database_config \<Rightarrow> duration" where
  "readiness_timeout d = from_millis (dc_readiness_timeout_milliseconds d)"

end
