(* ===== verification/Provider.thy ===== *)
theory Provider
  imports Http Config Browser Cimd_Fetch Google
begin

text \<open>
  \<open>src/src/web.rs\<close>, the provider and the authorization endpoints: resolution of a client, the
  authorization request, the Google round trip and consent.

  A handler is a function of the request and of the \<open>world\<close>: the database, the metadata
  fetcher and the Google key cache, which it returns changed.  Everything else it reads is in
  \<open>io\<close>: the libraries, the readings of clocks and random numbers of its \<open>n\<close>-th store operation
  (\<open>io_env I n\<close>), the network and the clock of its \<open>n\<close>-th metadata fetch, \<open>Utc::now\<close>, and
  the database's answer to the readiness probe (\<open>io_ready\<close>).  A handler is run
  alone; the interleaving of the transactions of concurrent requests is in \<open>System\<close>.
\<close>

section \<open>State and surroundings\<close>

record provider =
  pr_registry :: client_registry
  pr_cimd_policy :: "cimd_policy_config option"
  pr_google :: google_adapter
  pr_issuer :: string
  pr_userinfo :: string
  pr_secure :: bool

record app_state =
  as_keys :: signing_keys
  as_provider :: "provider option"

record world =
  wd_db :: db
  wd_fetcher :: fetcher
  wd_key_cache :: key_cache

record io =
  io_libs :: libs
  io_codec :: binding_codec
  io_crypto :: crypto
  io_http :: http_libs
  io_env :: "nat \<Rightarrow> env"
  io_fetch :: "nat \<Rightarrow> cimd_net"
  io_fetch_env :: "nat \<Rightarrow> env"
  io_google :: google_net
  io_now :: int
  io_ready :: "int option timed"

definition run_db :: "(db \<Rightarrow> 'r \<times> db) \<Rightarrow> world \<Rightarrow> 'r \<times> world" where
  "run_db f w = (case f (wd_db w) of (r, d) \<Rightarrow> (r, w\<lparr>wd_db := d\<rparr>))"

text \<open>The answer of a handler when an operation fails: its state is kept, the error replaced.\<close>

definition or_answer ::
  "('e + 'a) \<times> world \<Rightarrow> ('e \<Rightarrow> 'r) \<Rightarrow> ('a \<Rightarrow> world \<Rightarrow> 'r \<times> world) \<Rightarrow> 'r \<times> world" where
  "or_answer m failed f = (case m of (Inl err, w) \<Rightarrow> (failed err, w) | (Inr v, w) \<Rightarrow> f v w)"

section \<open>Start\<close>

datatype start_error = StartMessage string | StartConfig config_error | StartGoogle google_error

definition trim_end_slashes :: "string \<Rightarrow> string" where
  "trim_end_slashes s = rev (dropWhile (\<lambda>c. c = CHR ''/'') (rev s))"

definition new_provider ::
  "libs \<Rightarrow> google_net \<Rightarrow> env \<Rightarrow> config \<Rightarrow> authorization_config \<Rightarrow> start_error + (provider \<times> key_cache)" where
  "new_provider L N e c auth =
     and_then (ok_or (StartMessage ''authorization provider configuration is incomplete'') (ac_google auth)) (\<lambda>google.
       if is_none_or (gn_var N (gcc_client_secret_env google)) (\<lambda>v. v = [])
       then Inl (StartMessage ''authorization provider secret is unavailable'')
       else and_then (map_err StartConfig (authorization_registry L c)) (\<lambda>reg.
            and_then (ok_or (StartMessage ''authorization configuration is invalid'') reg) (\<lambda>registry.
            and_then (map_err StartGoogle
                (new_google L N e (gcc_client_id google) (gcc_client_secret_env google) (cf_issuer c))) (\<lambda>(adapter, cache).
              let issuer = trim_end_slashes (url_as_str (cf_issuer c)) in
              Inr (\<lparr>pr_registry = registry, pr_cimd_policy = ac_cimd auth, pr_google = adapter, pr_issuer = issuer,
                     pr_userinfo = issuer @ ''/userinfo'', pr_secure = (cf_mode c = Production)\<rparr>, cache)))))"

definition new_app_state ::
  "libs \<Rightarrow> google_net \<Rightarrow> env \<Rightarrow> config \<Rightarrow> signing_keys \<Rightarrow> start_error + (app_state \<times> key_cache option)" where
  "new_app_state L N e c keys = (case cf_authorization c of
     None \<Rightarrow> Inr (\<lparr>as_keys = keys, as_provider = None\<rparr>, None)
   | Some auth \<Rightarrow> map_ok (\<lambda>(p, cache). (\<lparr>as_keys = keys, as_provider = Some p\<rparr>, Some cache)) (new_provider L N e c auth))"

section \<open>Resolving a client\<close>

definition resolve_client :: "io \<Rightarrow> provider \<Rightarrow> nat \<Rightarrow> string \<Rightarrow> world \<Rightarrow> (unit + client_registry) \<times> world" where
  "resolve_client I p k client_id w =
     (if contains_client (pr_registry p) client_id then (Inr (pr_registry p), w)
      else (case pr_cimd_policy p of
          None \<Rightarrow> (Inl (), w)
        | Some policy \<Rightarrow>
            (case fetch_leased (io_libs I) (io_fetch I k) (io_fetch_env I k) (wd_fetcher w) client_id of
               (Inl err, f) \<Rightarrow> (Inl (), w\<lparr>wd_fetcher := f\<rparr>)
             | (Inr snapshot, f) \<Rightarrow>
                 (map_err (\<lambda>_. ()) (project_cimd (io_libs I) (env_instant (io_fetch_env I k) 3) (pr_registry p) snapshot
                    (cp_scopes policy) (cp_resources policy) (cp_allow_refresh policy)), w\<lparr>wd_fetcher := f\<rparr>))))"

definition provider_advertised_scopes :: "provider \<Rightarrow> string list" where
  "provider_advertised_scopes p = sorted_list_of_set (advertised_scopes (pr_registry p)
     \<union> (case pr_cimd_policy p of None \<Rightarrow> {} | Some policy \<Rightarrow> set (policy_advertised_scopes policy)))"

text \<open>
  The loop \<open>for attempt in 0..2\<close> around a store operation: resolve the client, run the
  operation, and start over once when the metadata expired under it.
\<close>

datatype ('e, 'a) resolved = Unresolved | Refused 'e | Done 'a

definition attempt_once ::
  "io \<Rightarrow> provider \<Rightarrow> nat \<Rightarrow> string \<Rightarrow> (client_registry \<Rightarrow> db \<Rightarrow> ('e + 'a) \<times> db) \<Rightarrow> world
    \<Rightarrow> ('e, 'a) resolved \<times> world" where
  "attempt_once I p k client_id operation w = (case resolve_client I p k client_id w of
     (Inl _, w1) \<Rightarrow> (Unresolved, w1)
   | (Inr registry, w1) \<Rightarrow>
       (case run_db (operation registry) w1 of
          (Inl err, w2) \<Rightarrow> (Refused err, w2)
        | (Inr v, w2) \<Rightarrow> (Done v, w2)))"

definition with_policy ::
  "io \<Rightarrow> provider \<Rightarrow> nat \<Rightarrow> 'e \<Rightarrow> string \<Rightarrow> (nat \<Rightarrow> client_registry \<Rightarrow> db \<Rightarrow> ('e + 'a) \<times> db) \<Rightarrow> world
    \<Rightarrow> ('e, 'a) resolved \<times> world" where
  "with_policy I p k expired client_id operation w =
     (case attempt_once I p k client_id (operation k) w of
        (Refused err, w1) \<Rightarrow>
          if err = expired then attempt_once I p (Suc k) client_id (operation (Suc k)) w1 else (Refused err, w1)
      | r \<Rightarrow> r)"

definition session_from :: "io \<Rightarrow> nat \<Rightarrow> bool \<Rightarrow> header_map \<Rightarrow> world \<Rightarrow> provider_session option" where
  "session_from I k secure h w = (case cookie (io_http I) h (session_cookie secure) of
     None \<Rightarrow> None
   | Some raw \<Rightarrow> (case find_provider_session (io_libs I) (io_env I k) (wd_db w) raw of Inr s \<Rightarrow> Some s | Inl _ \<Rightarrow> None))"

section \<open>Messages to the user\<close>

definition invalid_request_text :: string where "invalid_request_text = ''Solicitud inv'' @ a_acute @ ''lida''"
definition expired_text :: string where "expired_text = ''La solicitud expir'' @ o_acute"
definition untrusted_text :: string where "untrusted_text = ''Cliente o retorno inv'' @ a_acute @ ''lido''"
definition bad_origin_text :: string where "bad_origin_text = ''Origen inv'' @ a_acute @ ''lido''"
definition bad_session_text :: string where "bad_session_text = ''Sesi'' @ o_acute @ ''n inv'' @ a_acute @ ''lida''"
definition bad_answer_text :: string where "bad_answer_text = ''Respuesta de acceso inv'' @ a_acute @ ''lida''"
definition not_verified_text :: string where "not_verified_text = ''No se pudo verificar el acceso''"
definition not_started_text :: string where "not_started_text = ''No se pudo iniciar el acceso''"

section \<open>Pages with data\<close>

definition bullet_join :: "string list \<Rightarrow> string" where
  "bullet_join scopes = join_with ('' '' @ middot @ '' '') scopes"

definition render_consent :: "libs \<Rightarrow> consent_view_data \<Rightarrow> string" where
  "render_consent L v = page ''Autorizar acceso''
     (''<p><strong>'' @ escape (cv_client_name v) @ ''</strong> solicita acceso a tu cuenta.</p><p class=account>Cuenta: <strong>''
      @ escape (cv_account v) @ ''</strong></p><p>Permisos: '' @ escape (bullet_join (cv_scopes v)) @ ''</p><p>Recurso: ''
      @ escape (cv_resource v) @ ''</p><form method=post action=/consent><input type=hidden name=transaction_id value=''
      @ quoted (uuid_show L (cv_transaction_id v)) @ ''><input type=hidden name=csrf value='' @ quoted (escape (cv_csrf v))
      @ ''><button name=action value=approve>Autorizar</button><button class=secondary name=action value=deny>Denegar</button></form>'')"

definition render_login :: "libs \<Rightarrow> string \<Rightarrow> string list \<Rightarrow> string \<Rightarrow> uuid \<Rightarrow> string \<Rightarrow> string" where
  "render_login L client_name scopes resource tid state = page (escape client_name)
     (''<p>Esta aplicaci'' @ o_acute @ ''n solicita acceso a tu cuenta.</p><p>Permisos: '' @ escape (bullet_join scopes)
      @ ''</p><p>Recurso: '' @ escape resource
      @ ''</p><form method=post action=/federation/google/start><input type=hidden name=transaction_id value=''
      @ quoted (uuid_show L tid) @ ''><input type=hidden name=state value='' @ quoted (escape state)
      @ ''><button name=action value=continue>Continuar con Google</button><button class=secondary name=action value=cancel>Cancelar</button></form>'')"

end
