(* ===== verification/Authorize.thy ===== *)
theory Authorize
  imports Provider
begin

text \<open>
  \<open>src/src/web.rs\<close>: the authorization endpoint, the Google round trip and the consent page.
\<close>

section \<open>The authorization request\<close>

record authorize_params =
  ap_client :: string
  ap_redirect :: string
  ap_response_type :: string
  ap_method :: string
  ap_challenge :: string
  ap_scopes :: "string list"
  ap_resource :: "string option"
  ap_nonce :: "string option"
  ap_downstream :: "string option"
  ap_prompt :: "string option"
  ap_max_age :: "nat option"

definition unsupported_params :: "string list" where
  "unsupported_params = [''request_uri'', ''request'', ''claims'', ''response_mode'']"

fun refuse_unsupported :: "form \<Rightarrow> string list \<Rightarrow> string + unit" where
  "refuse_unsupported q [] = Inr ()"
| "refuse_unsupported q (name # names) = and_then (optional q name) (\<lambda>v.
     if v \<noteq> None then Inl ''request_not_supported'' else refuse_unsupported q names)"

definition prompt_values :: "string list" where
  "prompt_values = [''none'', ''consent'', ''login'', ''select_account'']"

definition max_age_of :: "string option \<Rightarrow> string + nat option" where
  "max_age_of v = (case v of None \<Rightarrow> Inr None
     | Some text \<Rightarrow> (case parse_uint u64_max text of
         Some n \<Rightarrow> if n \<le> 31536000 then Inr (Some n) else Inl ''invalid_request''
       | None \<Rightarrow> Inl ''invalid_request''))"

definition authorize_params_of :: "form \<Rightarrow> string + authorize_params" where
  "authorize_params_of q =
     and_then (refuse_unsupported q unsupported_params) (\<lambda>_.
     and_then (required q ''client_id'') (\<lambda>client.
     and_then (required q ''redirect_uri'') (\<lambda>redirect.
     and_then (required q ''response_type'') (\<lambda>response_type.
     and_then (required q ''code_challenge_method'') (\<lambda>method.
     and_then (required q ''code_challenge'') (\<lambda>challenge.
     and_then (required q ''scope'') (\<lambda>scope.
     and_then (optional q ''resource'') (\<lambda>resource.
     and_then (optional q ''nonce'') (\<lambda>nonce.
     and_then (optional q ''state'') (\<lambda>downstream.
     and_then (optional q ''prompt'') (\<lambda>prompt.
       if is_some_and prompt (\<lambda>v. v \<notin> set prompt_values) then Inl ''invalid_request''
       else and_then (and_then (optional q ''max_age'') max_age_of) (\<lambda>max_age.
         Inr \<lparr>ap_client = client, ap_redirect = redirect, ap_response_type = response_type, ap_method = method,
              ap_challenge = challenge, ap_scopes = filter (\<lambda>v. v \<noteq> []) (split_on (CHR '' '') scope),
              ap_resource = resource, ap_nonce = nonce, ap_downstream = downstream, ap_prompt = prompt,
              ap_max_age = max_age\<rparr>))))))))))))"

definition request_of :: "authorize_params \<Rightarrow> authorization_request" where
  "request_of a = \<lparr>ar_client_id = ap_client a, ar_redirect_uri = ap_redirect a, ar_response_type = ap_response_type a,
     ar_code_challenge_method = ap_method a, ar_code_challenge = ap_challenge a, ar_scopes = ap_scopes a,
     ar_resource = ap_resource a\<rparr>"

section \<open>The consent page\<close>

definition consent_page ::
  "io \<Rightarrow> provider \<Rightarrow> nat \<Rightarrow> provider_session \<Rightarrow> consent_handle \<Rightarrow> world \<Rightarrow> response \<times> world" where
  "consent_page I p k session handle w = (case transaction_client_id (wd_db w) (ch_transaction_id handle) of
     Inl _ \<Rightarrow> (local_error expired_text, w)
   | Inr client \<Rightarrow>
       (case with_policy I p k BrMetadataExpired client
               (\<lambda>n registry d. consent_view (io_libs I) (io_codec I) (io_env I n) d session handle registry) w of
          (Done v, w') \<Rightarrow> (form_page (io_libs I) (io_http I) (render_consent (io_libs I) v) (cv_redirect_uri v), w')
        | (_, w') \<Rightarrow> (local_error expired_text, w')))"

section \<open>An authorization request with a session\<close>

text \<open>\<open>num_seconds\<close> of a signed duration in microseconds, rounded towards zero.\<close>

definition num_seconds :: "int \<Rightarrow> int" where
  "num_seconds n = (if 0 \<le> n then n div 1000000 else - ((- n) div 1000000))"

definition session_too_old :: "io \<Rightarrow> nat \<Rightarrow> provider_session \<Rightarrow> nat option \<Rightarrow> world \<Rightarrow> bool" where
  "session_too_old I k session max_age w = (case max_age of None \<Rightarrow> False
     | Some limit \<Rightarrow> (case session_upstream_auth_time (io_env I k) (wd_db w) session of
         Inr (Some auth_time) \<Rightarrow> int limit < num_seconds (io_now I - auth_time)
       | _ \<Rightarrow> True))"

definition authorize_with_session ::
  "io \<Rightarrow> provider \<Rightarrow> nat \<Rightarrow> client_registry \<Rightarrow> authorize_params \<Rightarrow> pending_authorization_grant \<Rightarrow> bool
    \<Rightarrow> provider_session \<Rightarrow> world \<Rightarrow> (string + response) \<times> world" where
  "authorize_with_session I p k registry a pending allow session w =
     (if session_too_old I (k + 1) session (ap_max_age a) w then (Inl ''login_required'', w)
      else if ap_prompt a = Some ''none'' \<and> \<not> allow then (Inl ''consent_required'', w)
      else or_answer (run_db (\<lambda>d. begin_authenticated_with_pre_authorization (io_libs I) (io_codec I) (io_env I (k + 2)) d
               session pending (ap_downstream a) (ap_nonce a) allow) w) (\<lambda>_. Inl ''server_error'') (\<lambda>handle w.
        if allow then
          or_answer (run_db (\<lambda>d. approve_pre_authorized (io_libs I) (io_codec I) (io_env I (k + 3)) d session handle registry) w)
            (\<lambda>_. Inl ''server_error'') (\<lambda>outcome w. (case outcome of
               Some v \<Rightarrow> (Inr (code_redirect (io_libs I) (io_http I) (co_redirect_uri v) (co_downstream_state v)
                            (pr_issuer p) (co_code v)), w)
             | None \<Rightarrow> if ap_prompt a = Some ''none'' then (Inl ''consent_required'', w)
                 else apfst Inr (consent_page I p (k + 4) session handle w)))
        else apfst Inr (consent_page I p (k + 4) session handle w)))"

section \<open>An authorization request without a session\<close>

definition binding_cookie :: "libs \<Rightarrow> browser_start \<Rightarrow> bool \<Rightarrow> string" where
  "binding_cookie L start secure = tx_cookie L (bs_transaction_id start) secure @ ''='' @ bs_browser_binding start
     @ ''; Path=/; HttpOnly; SameSite=Lax; Max-Age=600'' @ secure_attribute secure"

text \<open>\<open>upstream_challenge\<close> panics when the verifier has no challenge; a verifier that
  \<open>begin_google\<close> made always has one.\<close>

definition login_response ::
  "io \<Rightarrow> provider \<Rightarrow> client_registry \<Rightarrow> authorize_params \<Rightarrow> pending_authorization_grant \<Rightarrow> bool \<Rightarrow> browser_start
    \<Rightarrow> string + response" where
  "login_response I p registry a pending allow start =
     and_then (ok_or ''server_error'' (upstream_challenge (io_libs I) start)) (\<lambda>challenge.
     and_then (map_err (\<lambda>_. ''server_error'') (authorization_url (io_libs I) (io_google I) (pr_google p)
         (bs_upstream_state start) (bs_upstream_nonce start) challenge True)) (\<lambda>upstream.
     and_then (ok_or ''server_error'' (client_display_name registry (ap_client a))) (\<lambda>client_name.
       let r = (if allow then sensitive (hl_redirect (io_http I) (url_as_str upstream))
                else login_page (io_libs I) (io_http I)
                  (render_login (io_libs I) client_name (pg_scopes pending) (pg_resource pending)
                     (bs_transaction_id start) (bs_upstream_state start))
                  (url_as_str upstream) (pg_redirect_uri pending))
       in Inr (sensitive (with_headers (header_insert ''set-cookie'' (binding_cookie (io_libs I) start (pr_secure p))) r)))))"

definition authorize_without_session ::
  "io \<Rightarrow> provider \<Rightarrow> nat \<Rightarrow> client_registry \<Rightarrow> header_map \<Rightarrow> authorize_params \<Rightarrow> pending_authorization_grant \<Rightarrow> bool
    \<Rightarrow> world \<Rightarrow> (string + response) \<times> world" where
  "authorize_without_session I p k registry h a pending allow w =
     (if ap_prompt a = Some ''none'' \<or> ap_max_age a \<noteq> None then (Inl ''login_required'', w)
      else if 4 \<le> transaction_cookie_count (io_libs I) (io_http I) h (pr_secure p) then (Inl ''temporarily_unavailable'', w)
      else or_answer (run_db (\<lambda>d. begin_google_with_pre_authorization (io_libs I) (io_codec I) (io_env I (k + 2)) d pending
               (ap_downstream a) (ap_nonce a) allow) w) (\<lambda>_. Inl ''server_error'') (\<lambda>start w.
        if allow then
          or_answer (run_db (\<lambda>d. start_google (io_libs I) (io_env I (k + 3)) d (bs_transaction_id start)
                       (bs_upstream_state start) (bs_browser_binding start)) w) (\<lambda>_. Inl ''server_error'')
            (\<lambda>_ w. (login_response I p registry a pending allow start, w))
        else (login_response I p registry a pending allow start, w)))"

definition authorize_valid ::
  "io \<Rightarrow> provider \<Rightarrow> nat \<Rightarrow> form \<Rightarrow> header_map \<Rightarrow> client_registry \<Rightarrow> world \<Rightarrow> (string + response) \<times> world" where
  "authorize_valid I p k q h registry w = (case authorize_params_of q of
     Inl code \<Rightarrow> (Inl code, w)
   | Inr a \<Rightarrow>
       (case validate_pending (io_libs I) (env_instant (io_env I k) 0) registry (request_of a) of
          Inl _ \<Rightarrow> (Inl ''invalid_request'', w)
        | Inr pending \<Rightarrow>
            let allow = (ap_prompt a \<noteq> Some ''consent'' \<and> pre_authorizes registry pending);
                session = session_from I k (pr_secure p) h w
            in if ap_prompt a = Some ''login'' then (Inl ''login_required'', w)
               else (case session of
                   Some s \<Rightarrow> if ap_prompt a \<noteq> Some ''select_account''
                     then authorize_with_session I p k registry a pending allow s w
                     else authorize_without_session I p k registry h a pending allow w
                 | None \<Rightarrow> authorize_without_session I p k registry h a pending allow w)))"

text \<open>One pass of the loop of \<open>authorize\<close>; \<open>None\<close> asks for another.\<close>

definition authorize_pass ::
  "io \<Rightarrow> provider \<Rightarrow> nat \<Rightarrow> bool \<Rightarrow> form \<Rightarrow> header_map \<Rightarrow> string \<Rightarrow> string \<Rightarrow> world \<Rightarrow> response option \<times> world" where
  "authorize_pass I p k final q h client redirect w = (case resolve_client I p k client w of
     (Inl _, w) \<Rightarrow> (Some (local_error untrusted_text), w)
   | (Inr registry, w) \<Rightarrow>
       if \<not> trusted_redirect (io_libs I) registry client redirect then (Some (local_error untrusted_text), w)
       else (case optional q ''state'' of
           Inl _ \<Rightarrow> (Some (local_error invalid_request_text), w)
         | Inr state \<Rightarrow>
             (case authorize_valid I p k q h registry w of
                (Inr response, w) \<Rightarrow> (Some response, w)
              | (Inl code, w) \<Rightarrow>
                  if \<not> is_ok (registry_ensure_fresh (env_instant (io_env I (k + 8)) 0) registry) \<and> \<not> final then (None, w)
                  else if is_ok (registry_ensure_fresh (env_instant (io_env I (k + 8)) 1) registry)
                  then (Some (oauth_redirect (io_libs I) (io_http I) redirect state (pr_issuer p) code), w)
                  else (Some (local_error expired_text), w))))"

definition authorize :: "io \<Rightarrow> provider \<Rightarrow> string \<Rightarrow> header_map \<Rightarrow> world \<Rightarrow> response \<times> world" where
  "authorize I p raw h w = (case pairs (io_libs I) raw 8192 of
     Inl _ \<Rightarrow> (local_error invalid_request_text, w)
   | Inr q \<Rightarrow> (case (one q ''client_id'', one q ''redirect_uri'') of
       (Some client, Some redirect) \<Rightarrow>
         (case authorize_pass I p 0 False q h client redirect w of
            (Some r, w) \<Rightarrow> (r, w)
          | (None, w) \<Rightarrow>
              (case authorize_pass I p 100 True q h client redirect w of
                 (Some r, w) \<Rightarrow> (r, w)
               | (None, w) \<Rightarrow> (local_error expired_text, w)))
     | _ \<Rightarrow> (local_error invalid_request_text, w)))"

definition authorize_get :: "io \<Rightarrow> provider \<Rightarrow> string option \<Rightarrow> header_map \<Rightarrow> world \<Rightarrow> response \<times> world" where
  "authorize_get I p raw h w = authorize I p (or_default raw []) h w"

definition authorize_post :: "io \<Rightarrow> provider \<Rightarrow> header_map \<Rightarrow> string \<Rightarrow> world \<Rightarrow> response \<times> world" where
  "authorize_post I p h bytes w = authorize I p (or_default (from_utf8 bytes) []) h w"

end
