(* ===== verification/Federation.thy ===== *)
theory Federation
  imports Authorize
begin

text \<open>
  \<open>src/src/web.rs\<close>: the handlers of the Google round trip (start, cancel, callback) and of the
  consent form.
\<close>

section \<open>Starting or cancelling the Google login\<close>

definition google_cancel ::
  "io \<Rightarrow> provider \<Rightarrow> uuid \<Rightarrow> string \<Rightarrow> string \<Rightarrow> string \<Rightarrow> world \<Rightarrow> response \<times> world" where
  "google_cancel I p tid state binding name w = (case transaction_client_id (wd_db w) tid of
     Inl _ \<Rightarrow> (local_error expired_text, w)
   | Inr client \<Rightarrow>
       (case with_policy I p 0 BrMetadataExpired client
               (\<lambda>n registry d. cancel_google_with_registry (io_libs I) (io_codec I) (io_env I n) d tid state binding registry) w of
          (Done outcome, w') \<Rightarrow>
            (clear_transaction_cookie (oauth_redirect (io_libs I) (io_http I) (dn_redirect_uri outcome)
               (dn_downstream_state outcome) (pr_issuer p) ''access_denied'') (Some name) (pr_secure p), w')
        | (_, w') \<Rightarrow> (local_error expired_text, w')))"

definition google_continue :: "io \<Rightarrow> provider \<Rightarrow> uuid \<Rightarrow> string \<Rightarrow> string \<Rightarrow> world \<Rightarrow> response \<times> world" where
  "google_continue I p tid state binding w =
     or_answer (run_db (\<lambda>d. start_google (io_libs I) (io_env I 0) d tid state binding) w) (\<lambda>_. local_error expired_text)
       (\<lambda>(nonce, verifier) w. (case s256_challenge (io_libs I) verifier of
          Inl _ \<Rightarrow> (local_error invalid_request_text, w)
        | Inr challenge \<Rightarrow>
            (case authorization_url (io_libs I) (io_google I) (pr_google p) state nonce challenge True of
               Inl _ \<Rightarrow> (local_error not_started_text, w)
             | Inr u \<Rightarrow> (sensitive (hl_redirect (io_http I) (url_as_str u)), w))))"

definition start_params :: "libs \<Rightarrow> form \<Rightarrow> string + uuid \<times> string \<times> string" where
  "start_params L q =
     and_then (and_then (required q ''transaction_id'') (\<lambda>v. ok_or ''invalid_request'' (uuid_parse L v))) (\<lambda>tid.
     and_then (required q ''state'') (\<lambda>state.
     and_then (required q ''action'') (\<lambda>action. Inr (tid, state, action))))"

definition google_start :: "io \<Rightarrow> provider \<Rightarrow> header_map \<Rightarrow> string \<Rightarrow> world \<Rightarrow> response \<times> world" where
  "google_start I p h bytes w =
     (if \<not> same_origin (io_http I) h (pr_issuer p) then (local_error bad_origin_text, w)
      else (case and_then (map_err (\<lambda>_. ''invalid_request'') (pairs_bytes (io_libs I) bytes 1024)) (start_params (io_libs I)) of
          Inl _ \<Rightarrow> (local_error invalid_request_text, w)
        | Inr (tid, state, action) \<Rightarrow>
            if action \<noteq> ''continue'' \<and> action \<noteq> ''cancel'' then (local_error invalid_request_text, w)
            else let name = tx_cookie (io_libs I) tid (pr_secure p) in
              (case cookie (io_http I) h name of
                 None \<Rightarrow> (local_error expired_text, w)
               | Some binding \<Rightarrow>
                   if action = ''cancel'' then google_cancel I p tid state binding name w
                   else google_continue I p tid state binding w)))"

section \<open>The callback\<close>

record callback_params =
  cb_state :: string
  cb_code :: "string option"
  cb_error :: "string option"

definition callback_params_of :: "form \<Rightarrow> callback_params option" where
  "callback_params_of q = (case (one q ''state'', optional q ''code'', optional q ''error'') of
     (Some state, Inr code, Inr upstream_error) \<Rightarrow>
       if (code \<noteq> None) = (upstream_error \<noteq> None) then None
       else Some \<lparr>cb_state = state, cb_code = code, cb_error = upstream_error\<rparr>
   | _ \<Rightarrow> None)"

text \<open>The cookies are tried in order; the first whose claim succeeds wins.\<close>

fun claim_first ::
  "io \<Rightarrow> nat \<Rightarrow> string \<Rightarrow> (string \<times> string) list \<Rightarrow> world \<Rightarrow> (string \<times> string \<times> string \<times> string) option \<times> world" where
  "claim_first I k state [] w = (None, w)"
| "claim_first I k state ((name, binding) # cookies) w =
     (case run_db (\<lambda>d. claim_callback (io_libs I) (io_env I k) d state binding) w of
        (Inr (claim, verifier, nonce), w') \<Rightarrow> (Some (name, claim, verifier, nonce), w')
      | (Inl _, w') \<Rightarrow> claim_first I (Suc k) state cookies w')"

text \<open>Failing a claimed transaction; the result of the store operation is ignored.\<close>

definition failed_callback :: "io \<Rightarrow> provider \<Rightarrow> string \<Rightarrow> string \<Rightarrow> string \<Rightarrow> world \<Rightarrow> response \<times> world" where
  "failed_callback I p claim name message w = (case run_db (\<lambda>d. fail_callback (io_libs I) d claim) w of
     (_, w') \<Rightarrow> (clear_transaction_cookie (local_error message) (Some name) (pr_secure p), w'))"

definition denied_callback :: "io \<Rightarrow> provider \<Rightarrow> string \<Rightarrow> string \<Rightarrow> world \<Rightarrow> response \<times> world" where
  "denied_callback I p claim name w =
     (case (case callback_client_id (io_libs I) (wd_db w) claim of
              Inl _ \<Rightarrow> (Unresolved, w)
            | Inr client \<Rightarrow> with_policy I p 10 BrMetadataExpired client
                (\<lambda>n registry d. deny_callback (io_libs I) (io_codec I) (io_env I n) d claim registry) w) of
        (outcome, w') \<Rightarrow>
          (clear_transaction_cookie
            (case outcome of
               Done v \<Rightarrow> oauth_redirect (io_libs I) (io_http I) (dn_redirect_uri v) (dn_downstream_state v) (pr_issuer p) ''access_denied''
             | _ \<Rightarrow> local_error bad_answer_text) (Some name) (pr_secure p), w'))"

definition month :: duration where "month = from_secs (30 * 24 * 3600)"

definition opened_session :: "provider \<Rightarrow> login_completion \<Rightarrow> string \<Rightarrow> response \<Rightarrow> response" where
  "opened_session p completion name r = sensitive (clear_transaction_cookie
     (with_headers (header_insert ''set-cookie''
        (session_cookie (pr_secure p) @ ''='' @ pv_raw (lgc_session completion) @ ''; Path=/; HttpOnly; SameSite=Lax''
           @ secure_attribute (pr_secure p))) r) (Some name) (pr_secure p))"

definition finish_login :: "io \<Rightarrow> provider \<Rightarrow> login_completion \<Rightarrow> string \<Rightarrow> world \<Rightarrow> response \<times> world" where
  "finish_login I p completion name w =
     (let handle = lgc_consent completion; session = lgc_session completion in
      case (case transaction_client_id (wd_db w) (ch_transaction_id handle) of
              Inl _ \<Rightarrow> (Unresolved, w)
            | Inr client \<Rightarrow> with_policy I p 30 BrMetadataExpired client
                (\<lambda>n registry d. approve_pre_authorized (io_libs I) (io_codec I) (io_env I n) d session handle registry) w) of
        (Refused _, w) \<Rightarrow> (clear_transaction_cookie (local_error expired_text) (Some name) (pr_secure p), w)
      | (Done (Some v), w) \<Rightarrow>
          (opened_session p completion name (code_redirect (io_libs I) (io_http I) (co_redirect_uri v)
             (co_downstream_state v) (pr_issuer p) (co_code v)), w)
      | (_, w) \<Rightarrow> apfst (opened_session p completion name) (consent_page I p 40 session handle w))"

definition completed_callback ::
  "io \<Rightarrow> provider \<Rightarrow> string \<Rightarrow> string \<Rightarrow> verified_google_identity \<Rightarrow> world \<Rightarrow> response \<times> world" where
  "completed_callback I p claim name identity w =
     (case (case callback_client_id (io_libs I) (wd_db w) claim of
              Inl _ \<Rightarrow> (Unresolved, w)
            | Inr client \<Rightarrow> with_policy I p 20 BrMetadataExpired client
                (\<lambda>n registry d. complete_callback_with_registry (io_libs I) (io_codec I) (io_env I n) d claim identity month registry) w) of
        (Done completion, w) \<Rightarrow> finish_login I p completion name w
      | (_, w) \<Rightarrow> (clear_transaction_cookie (local_error expired_text) (Some name) (pr_secure p), w))"

definition callback_claimed ::
  "io \<Rightarrow> provider \<Rightarrow> callback_params \<Rightarrow> string \<times> string \<times> string \<times> string \<Rightarrow> world \<Rightarrow> response \<times> world" where
  "callback_claimed I p c winner w = (case winner of (name, claim, verifier, nonce) \<Rightarrow>
     (case cb_error c of
        Some e \<Rightarrow> if e \<noteq> ''access_denied'' then failed_callback I p claim name bad_answer_text w
          else denied_callback I p claim name w
      | None \<Rightarrow>
          (case google_exchange_code (io_libs I) (io_google I) (io_env I 9) (pr_google p) (wd_key_cache w)
                  (or_default (cb_code c) []) verifier nonce of
             (Inl _, cache) \<Rightarrow> failed_callback I p claim name not_verified_text (w\<lparr>wd_key_cache := cache\<rparr>)
           | (Inr identity, cache) \<Rightarrow> completed_callback I p claim name identity (w\<lparr>wd_key_cache := cache\<rparr>))))"

definition callback :: "io \<Rightarrow> provider \<Rightarrow> string option \<Rightarrow> header_map \<Rightarrow> world \<Rightarrow> response \<times> world" where
  "callback I p raw h w =
     (case Option.bind (case pairs (io_libs I) (or_default raw []) 4096 of Inr q \<Rightarrow> Some q | Inl _ \<Rightarrow> None) callback_params_of of
        None \<Rightarrow> (local_error bad_answer_text, w)
      | Some c \<Rightarrow>
          (case claim_first I 0 (cb_state c) (transaction_cookies (io_libs I) (io_http I) h (pr_secure p)) w of
             (None, w) \<Rightarrow> (local_error bad_answer_text, w)
           | (Some winner, w) \<Rightarrow> callback_claimed I p c winner w))"

section \<open>Consent\<close>

definition consent_get :: "io \<Rightarrow> provider \<Rightarrow> string option \<Rightarrow> header_map \<Rightarrow> world \<Rightarrow> response \<times> world" where
  "consent_get I p raw h w = (case pairs (io_libs I) (or_default raw []) 2048 of
     Inl _ \<Rightarrow> (local_error invalid_request_text, w)
   | Inr q \<Rightarrow> (case (Option.bind (one q ''transaction_id'') (uuid_parse (io_libs I)), one q ''csrf'') of
       (Some tid, Some csrf) \<Rightarrow>
         (case session_from I 0 (pr_secure p) h w of
            None \<Rightarrow> (local_error bad_session_text, w)
          | Some session \<Rightarrow> consent_page I p 1 session \<lparr>ch_transaction_id = tid, ch_csrf = csrf\<rparr> w)
     | _ \<Rightarrow> (local_error invalid_request_text, w)))"

text \<open>What a decision sends back to the client: where to, and with which parameters.\<close>

definition decide ::
  "io \<Rightarrow> provider \<Rightarrow> string \<Rightarrow> provider_session \<Rightarrow> consent_handle \<Rightarrow> nat \<Rightarrow> client_registry \<Rightarrow> db
    \<Rightarrow> (browser_error + string \<times> (string \<times> string option) list) \<times> db" where
  "decide I p action session handle n registry d =
     (if action = ''approve'' then
        apfst (map_ok (\<lambda>v. (co_redirect_uri v, [(''code'', Some (co_code v)), (''state'', co_downstream_state v),
            (''iss'', Some (pr_issuer p))])))
          (approve (io_libs I) (io_codec I) (io_env I n) d session handle registry)
      else
        apfst (map_ok (\<lambda>v. (dn_redirect_uri v, [(''error'', Some ''access_denied''), (''state'', dn_downstream_state v),
            (''iss'', Some (pr_issuer p))])))
          (deny_with_registry (io_libs I) (io_codec I) (io_env I n) d session handle registry))"

definition consent_decision ::
  "io \<Rightarrow> provider \<Rightarrow> string \<Rightarrow> provider_session \<Rightarrow> consent_handle \<Rightarrow> world \<Rightarrow> response \<times> world" where
  "consent_decision I p action session handle w =
     (case transaction_client_id (wd_db w) (ch_transaction_id handle) of
        Inl _ \<Rightarrow> (local_error expired_text, w)
      | Inr client \<Rightarrow>
          if action \<noteq> ''approve'' \<and> action \<noteq> ''deny'' then
            (case resolve_client I p 1 client w of
               (Inl _, w) \<Rightarrow> (local_error expired_text, w)
             | (Inr _, w) \<Rightarrow> (local_error invalid_request_text, w))
          else (case with_policy I p 1 BrMetadataExpired client (decide I p action session handle) w of
               (Done (redirect, items), w) \<Rightarrow> (consent_return (io_libs I) (io_http I) redirect items, w)
             | (_, w) \<Rightarrow> (local_error expired_text, w)))"

definition consent_post :: "io \<Rightarrow> provider \<Rightarrow> header_map \<Rightarrow> string \<Rightarrow> world \<Rightarrow> response \<times> world" where
  "consent_post I p h bytes w = (case pairs_bytes (io_libs I) bytes 4096 of
     Inl _ \<Rightarrow> (local_error invalid_request_text, w)
   | Inr q \<Rightarrow>
     (case (Option.bind (one q ''transaction_id'') (uuid_parse (io_libs I)), one q ''csrf'', one q ''action'') of
        (Some tid, Some csrf, Some action) \<Rightarrow>
          if \<not> same_origin (io_http I) h (pr_issuer p) then (local_error bad_origin_text, w)
          else (case session_from I 0 (pr_secure p) h w of
              None \<Rightarrow> (local_error bad_session_text, w)
            | Some session \<Rightarrow> consent_decision I p action session \<lparr>ch_transaction_id = tid, ch_csrf = csrf\<rparr> w)
      | _ \<Rightarrow> (local_error invalid_request_text, w)))"

end
