(* ===== verification/Endpoints.thy ===== *)
theory Endpoints
  imports Federation Logout
begin

text \<open>
  \<open>src/src/web.rs\<close>: the machine endpoints (token, userinfo, revocation, preflight) and the
  logout endpoints.
\<close>

section \<open>The token endpoint\<close>

fun show_nat :: "nat \<Rightarrow> string" where
  "show_nat n = (if n < 10 then [char_of (48 + n)] else show_nat (n div 10) @ [char_of (48 + n mod 10)])"

declare show_nat.simps [simp del]

definition optional_field :: "string \<Rightarrow> string option \<Rightarrow> (string \<times> json) list" where
  "optional_field name v = (case v of None \<Rightarrow> [] | Some x \<Rightarrow> [(name, JString x)])"

definition token_json :: "token_response \<Rightarrow> json" where
  "token_json t = JObject ([(''access_token'', JString (tr_access_token t)), (''token_type'', JString (tr_token_type t)),
     (''expires_in'', JNumber (show_nat (tr_expires_in t))), (''scope'', JString (tr_scope t))]
     @ optional_field ''refresh_token'' (tr_refresh_token t) @ optional_field ''id_token'' (tr_id_token t))"

definition client_auth_params :: "string list" where
  "client_auth_params = [''client_secret'', ''client_assertion'', ''client_assertion_type'']"

record token_params =
  tp_client :: string
  tp_resource :: "string option"
  tp_scope :: "string list option"

definition token_params_of :: "libs \<Rightarrow> http_libs \<Rightarrow> provider \<Rightarrow> header_map \<Rightarrow> form \<Rightarrow> string + token_params" where
  "token_params_of L H p h q =
     and_then (ok_or ''invalid_request'' (one q ''client_id'')) (\<lambda>client.
       if list_ex (\<lambda>name. list_ex (\<lambda>kv. fst kv = name) q) client_auth_params then Inl ''invalid_client''
       else if is_some_and (origin H h) (\<lambda>o'. \<not> valid_browser_origin (pr_registry p) client o') then Inl ''invalid_client''
       else and_then (optional q ''resource'') (\<lambda>resource.
            and_then (optional q ''scope'') (\<lambda>scope.
              Inr \<lparr>tp_client = client, tp_resource = resource, tp_scope = map_option (split_on (CHR '' '')) scope\<rparr>)))"

text \<open>The grant a request presents; an error here ends the request after the client is resolved.\<close>

datatype grant = CodeGrant string string string | RefreshGrant string

definition grant_of :: "form \<Rightarrow> string + grant" where
  "grant_of q =
     (if one q ''grant_type'' = Some ''authorization_code'' then
        (case (one q ''code'', one q ''redirect_uri'', one q ''code_verifier'') of
           (Some code, Some redirect, Some verifier) \<Rightarrow> Inr (CodeGrant code redirect verifier)
         | _ \<Rightarrow> Inl ''invalid_request'')
      else if one q ''grant_type'' = Some ''refresh_token'' then
        (case one q ''refresh_token'' of Some refresh \<Rightarrow> Inr (RefreshGrant refresh) | None \<Rightarrow> Inl ''invalid_request'')
      else Inl ''unsupported_grant_type'')"

fun redeem_grant ::
  "io \<Rightarrow> token_params \<Rightarrow> grant \<Rightarrow> nat \<Rightarrow> client_registry \<Rightarrow> db \<Rightarrow> (credential_error + exchange_result \<times> bool) \<times> db" where
  "redeem_grant I t (CodeGrant code redirect verifier) n registry d =
     apfst (map_ok (\<lambda>v. (v, True)))
       (exchange_code_request (io_libs I) (io_codec I) (env_instant (io_env I n) 9) (io_env I n) d d d code (tp_client t)
          redirect (tp_resource t) verifier (tp_scope t) registry)"
| "redeem_grant I t (RefreshGrant refresh) n registry d =
     apfst (map_ok (\<lambda>v. (v, False)))
       (rotate_refresh_request (io_libs I) (io_codec I) (io_env I n) d d d refresh (tp_client t)
          (tp_resource t) (tp_scope t) registry)"

definition token_response_of ::
  "io \<Rightarrow> signing_keys \<Rightarrow> provider \<Rightarrow> (credential_error, exchange_result \<times> bool) resolved \<Rightarrow> response" where
  "token_response_of I keys p outcome = (case outcome of
     Done (v, initial) \<Rightarrow>
       (case issue (io_libs I) (io_crypto I) (io_env I 2) keys (pr_issuer p) (pr_userinfo p) v initial of
          Inr t \<Rightarrow> json_sensitive (token_json t)
        | Inl _ \<Rightarrow> token_error ''server_error'')
   | _ \<Rightarrow> token_error ''invalid_grant'')"

definition token_endpoint ::
  "io \<Rightarrow> signing_keys \<Rightarrow> provider \<Rightarrow> header_map \<Rightarrow> string \<Rightarrow> world \<Rightarrow> response \<times> world" where
  "token_endpoint I keys p h bytes w =
     (case and_then (map_err (\<lambda>_. ''invalid_request'') (pairs_bytes (io_libs I) bytes 8192)) (\<lambda>q.
             map_ok (Pair q) (token_params_of (io_libs I) (io_http I) p h q)) of
        Inl code \<Rightarrow> (token_error code, w)
      | Inr (q, t) \<Rightarrow>
          (case grant_of q of
             Inl code \<Rightarrow>
               (case resolve_client I p 0 (tp_client t) w of
                  (Inl _, w) \<Rightarrow> (token_error ''invalid_grant'', w)
                | (Inr _, w) \<Rightarrow> (token_error code, w))
           | Inr grant \<Rightarrow>
               (case with_policy I p 0 CredMetadataExpired (tp_client t) (redeem_grant I t grant) w of
                  (Unresolved, w) \<Rightarrow> (token_error ''invalid_grant'', w)
                | (outcome, w) \<Rightarrow> (cors_for (io_http I) h (token_response_of I keys p outcome), w))))"

section \<open>Userinfo\<close>

definition profile_fields :: "string list \<Rightarrow> user_profile \<Rightarrow> (string \<times> json) list" where
  "profile_fields scopes profile =
     (if ''profile'' \<in> set scopes then optional_field ''name'' (up_name profile) @ optional_field ''given_name'' (up_given_name profile)
        @ optional_field ''family_name'' (up_family_name profile) @ optional_field ''picture'' (up_picture profile) else [])
     @ (if ''email'' \<in> set scopes then (case up_verified_email profile of None \<Rightarrow> []
          | Some v \<Rightarrow> [(''email'', JString v), (''email_verified'', JBool True)]) else [])"

definition claims_refused :: "int \<Rightarrow> access_claims \<Rightarrow> bool" where
  "claims_refused now c \<longleftrightarrow> at_exp c \<le> now - 30 \<or> now + 30 < at_iat c \<or> at_jti c = [] \<or> at_client_id c = []"

definition scopes_refused :: "string list \<Rightarrow> bool" where
  "scopes_refused scopes \<longleftrightarrow> ''openid'' \<notin> set scopes \<or> scopes = [] \<or> list_ex (\<lambda>scope. \<not> valid_scope scope) scopes"

definition userinfo_claims ::
  "io \<Rightarrow> signing_keys \<Rightarrow> provider \<Rightarrow> header_map \<Rightarrow> string \<Rightarrow> access_claims option" where
  "userinfo_claims I keys p h bytes =
     (case (if bytes = [] then Inr [] else pairs_bytes (io_libs I) bytes 4096) of
        Inl _ \<Rightarrow> None
      | Inr form \<Rightarrow> (case bearer (io_http I) h form of
          None \<Rightarrow> None
        | Some token \<Rightarrow>
            (case verify (io_libs I) (io_crypto I) (io_now I) keys token (pr_issuer p) (pr_userinfo p) of
               Inl _ \<Rightarrow> None
             | Inr claims \<Rightarrow>
                 if claims_refused (timestamp (io_now I)) claims \<or> scopes_refused (split_on (CHR '' '') (at_scope claims))
                    \<or> is_some_and (origin (io_http I) h) (\<lambda>o'. \<not> valid_browser_origin (pr_registry p) (at_client_id claims) o')
                 then None else Some claims)))"

definition userinfo_endpoint ::
  "io \<Rightarrow> signing_keys \<Rightarrow> provider \<Rightarrow> header_map \<Rightarrow> string \<Rightarrow> world \<Rightarrow> response \<times> world" where
  "userinfo_endpoint I keys p h bytes w = (case userinfo_claims I keys p h bytes of
     None \<Rightarrow> (bearer_error, w)
   | Some claims \<Rightarrow> (case find_profile (wd_db w) (at_sub claims) of
       None \<Rightarrow> (bearer_error, w)
     | Some profile \<Rightarrow>
         (cors_for (io_http I) h (json_sensitive (JObject ((''sub'', JString (uuid_show (io_libs I) (at_sub claims)))
            # profile_fields (split_on (CHR '' '') (at_scope claims)) profile))), w)))"

section \<open>Revocation and preflight\<close>

definition revoke_endpoint :: "io \<Rightarrow> provider \<Rightarrow> header_map \<Rightarrow> string \<Rightarrow> world \<Rightarrow> response \<times> world" where
  "revoke_endpoint I p h bytes w = (case pairs_bytes (io_libs I) bytes 4096 of
     Inl _ \<Rightarrow> (token_error ''invalid_request'', w)
   | Inr q \<Rightarrow> (case (one q ''client_id'', one q ''token'') of
       (Some client, Some v) \<Rightarrow>
         if is_some_and (origin (io_http I) h) (\<lambda>o'. \<not> valid_browser_origin (pr_registry p) client o')
         then (token_error ''invalid_client'', w)
         else (case run_db (\<lambda>d. revoke_refresh (io_libs I) (io_env I 0) d d v client) w of
             (Inl _, w) \<Rightarrow> (cors_for (io_http I) h (json_sensitive_status 503 (json_error ''server_error'')), w)
           | (Inr _, w) \<Rightarrow> (cors_for (io_http I) h (sensitive (status_response 200)), w))
     | _ \<Rightarrow> (token_error ''invalid_request'', w)))"

definition requested_headers_valid :: "string \<Rightarrow> bool" where
  "requested_headers_valid requested = list_all (\<lambda>v. v = [] \<or> v = ''authorization'' \<or> v = ''content-type'')
     (map (\<lambda>v. to_ascii_lowercase (trim v)) (split_on (CHR '','') requested))"

definition api_options :: "io \<Rightarrow> provider \<Rightarrow> header_map \<Rightarrow> response" where
  "api_options I p h = (case origin (io_http I) h of
     None \<Rightarrow> sensitive (status_response 400)
   | Some o' \<Rightarrow>
       let requested_method = Option.bind (header_get ''access-control-request-method'' h) (hl_to_str (io_http I));
           requested_headers = or_default (Option.bind (header_get ''access-control-request-headers'' h) (hl_to_str (io_http I))) []
       in if \<not> reviewed_browser_origin (pr_registry p) o'
             \<or> (requested_method \<noteq> Some ''GET'' \<and> requested_method \<noteq> Some ''POST'')
             \<or> \<not> requested_headers_valid requested_headers
          then sensitive (status_response 403)
          else with_headers (cors (io_http I) o') (status_response 204))"

section \<open>Logout\<close>

definition render_logout :: "libs \<Rightarrow> logout_challenge \<Rightarrow> string" where
  "render_logout L v = page (''Cerrar sesi'' @ o_acute @ ''n'')
     (''<p>Se cerrar'' @ a_acute @ '' tu sesi'' @ o_acute
      @ ''n en Eri.</p><form method=post action=/logout><input type=hidden name=challenge value=''
      @ quoted (uuid_show L (lch_id v)) @ ''><input type=hidden name=csrf value='' @ quoted (escape (lch_csrf v))
      @ ''><button>Cerrar sesi'' @ o_acute @ ''n</button></form>'')"

definition logout_response :: "io \<Rightarrow> provider \<Rightarrow> logout_outcome \<Rightarrow> response" where
  "logout_response I p v = sensitive (with_headers
     (header_append ''set-cookie'' (cleared_cookie (session_cookie (pr_secure p)) (pr_secure p)))
     (redirect_params (io_libs I) (io_http I) (lo_redirect_uri v) [(''state'', lo_state v)]))"

definition logout_params :: "string list" where
  "logout_params = [''client_id'', ''post_logout_redirect_uri'', ''state'', ''id_token_hint'']"

record logout_request_params =
  lp_client :: "string option"
  lp_redirect :: "string option"
  lp_state :: "string option"
  lp_hint :: "id_claims option"

definition logout_params_of :: "io \<Rightarrow> signing_keys \<Rightarrow> provider \<Rightarrow> form \<Rightarrow> logout_request_params option" where
  "logout_params_of I keys p q =
     (if list_ex (\<lambda>kv. fst kv \<notin> set logout_params) q then None
      else (case (optional q ''client_id'', optional q ''post_logout_redirect_uri'', optional q ''state'', optional q ''id_token_hint'') of
          (Inr client, Inr redirect, Inr state, Inr token) \<Rightarrow>
            (case (case token of None \<Rightarrow> Some None
                   | Some t \<Rightarrow> (case verify_id_logout (io_libs I) (io_crypto I) (io_now I) keys t (pr_issuer p) of
                       Inr hint \<Rightarrow> Some (Some hint) | Inl _ \<Rightarrow> None)) of
               None \<Rightarrow> None
             | Some hint \<Rightarrow>
                 if (case (client, hint) of (Some c, Some i) \<Rightarrow> c \<noteq> idc_aud i | _ \<Rightarrow> False) then None
                 else let client = (if client \<noteq> None then client else map_option idc_aud hint) in
                   if (redirect \<noteq> None \<and> client = None) \<or> (state \<noteq> None \<and> redirect = None) then None
                   else Some \<lparr>lp_client = client, lp_redirect = redirect, lp_state = state, lp_hint = hint\<rparr>)
        | _ \<Rightarrow> None))"

definition begin_challenge ::
  "io \<Rightarrow> provider \<Rightarrow> provider_session \<Rightarrow> logout_request_params \<Rightarrow> db \<Rightarrow> (credential_error + logout_challenge) \<times> db" where
  "begin_challenge I p session r d = (case (lp_client r, lp_redirect r) of
     (Some client, Some redirect) \<Rightarrow>
       begin_logout (io_libs I) (io_env I 1) d session client redirect (lp_state r) (pr_registry p)
   | _ \<Rightarrow> begin_local (io_libs I) (io_env I 1) d session (pr_issuer p))"

definition logout_confirm :: "io \<Rightarrow> logout_challenge \<Rightarrow> response" where
  "logout_confirm I challenge =
     form_page (io_libs I) (io_http I) (render_logout (io_libs I) challenge) (lch_redirect_uri challenge)"

definition logout_rp :: "io \<Rightarrow> signing_keys \<Rightarrow> provider \<Rightarrow> header_map \<Rightarrow> form \<Rightarrow> world \<Rightarrow> response \<times> world" where
  "logout_rp I keys p h q w = (case logout_params_of I keys p q of
     None \<Rightarrow> (local_error invalid_request_text, w)
   | Some r \<Rightarrow> (case session_from I 0 (pr_secure p) h w of
       None \<Rightarrow> (local_error bad_session_text, w)
     | Some session \<Rightarrow>
         or_answer (run_db (begin_challenge I p session r) w) (\<lambda>_. local_error invalid_request_text) (\<lambda>challenge w.
           (case (if lp_redirect r \<noteq> None then lp_hint r else None) of
              None \<Rightarrow> (logout_confirm I challenge, w)
            | Some hint \<Rightarrow>
                or_answer (run_db (\<lambda>d. finish_hint (io_libs I) (io_env I 2) d session challenge (pr_registry p) hint) w)
                  (\<lambda>_. local_error invalid_request_text) (\<lambda>outcome w. (case outcome of
                     Some v \<Rightarrow> (logout_response I p v, w)
                   | None \<Rightarrow> (logout_confirm I challenge, w)))))))"

definition logout_get ::
  "io \<Rightarrow> signing_keys \<Rightarrow> provider \<Rightarrow> string option \<Rightarrow> header_map \<Rightarrow> world \<Rightarrow> response \<times> world" where
  "logout_get I keys p raw h w = (case pairs (io_libs I) (or_default raw []) 4096 of
     Inl _ \<Rightarrow> (local_error invalid_request_text, w)
   | Inr q \<Rightarrow> logout_rp I keys p h q w)"

definition form_content_type :: "http_libs \<Rightarrow> header_map \<Rightarrow> bool" where
  "form_content_type H h = is_some_and (Option.bind (header_get ''content-type'' h) (hl_to_str H))
     (\<lambda>v. to_ascii_lowercase (trim (hd (split_on (CHR '';'') v))) = ''application/x-www-form-urlencoded'')"

definition logout_confirmed :: "io \<Rightarrow> provider \<Rightarrow> header_map \<Rightarrow> form \<Rightarrow> world \<Rightarrow> response \<times> world" where
  "logout_confirmed I p h q w =
     (if list_ex (\<lambda>kv. fst kv \<noteq> ''challenge'' \<and> fst kv \<noteq> ''csrf'') q then (local_error invalid_request_text, w)
      else (case (optional q ''challenge'', optional q ''csrf'') of
          (Inr (Some text), Inr (Some csrf)) \<Rightarrow>
            (case uuid_parse (io_libs I) text of
               None \<Rightarrow> (local_error invalid_request_text, w)
             | Some cid \<Rightarrow>
                 if \<not> same_origin (io_http I) h (pr_issuer p) then (local_error bad_origin_text, w)
                 else (case session_from I 0 (pr_secure p) h w of
                     None \<Rightarrow> (local_error bad_session_text, w)
                   | Some session \<Rightarrow>
                       or_answer (run_db (\<lambda>d. finish (io_libs I) (io_env I 1) d session (submitted cid csrf) (pr_registry p)) w)
                         (\<lambda>_. local_error invalid_request_text) (\<lambda>outcome w. (logout_response I p outcome, w))))
        | _ \<Rightarrow> (local_error invalid_request_text, w)))"

definition logout_post ::
  "io \<Rightarrow> signing_keys \<Rightarrow> provider \<Rightarrow> string option \<Rightarrow> header_map \<Rightarrow> string \<Rightarrow> world \<Rightarrow> response \<times> world" where
  "logout_post I keys p raw h bytes w =
     (if is_some_and raw (\<lambda>r. r \<noteq> []) \<or> \<not> form_content_type (io_http I) h then (local_error invalid_request_text, w)
      else (case pairs_bytes (io_libs I) bytes 4096 of
          Inl _ \<Rightarrow> (local_error invalid_request_text, w)
        | Inr q \<Rightarrow>
            if \<not> list_ex (\<lambda>kv. fst kv = ''challenge'' \<or> fst kv = ''csrf'') q then logout_rp I keys p h q w
            else logout_confirmed I p h q w))"

end
