(* ===== verification/Router.thy ===== *)
theory Router
  imports Endpoints
begin

text \<open>
  \<open>src/src/web.rs\<close>: the router, its fallbacks, the body limit and the security middleware.
  A \<open>get\<close> route also serves \<open>HEAD\<close>, whose answer loses its body.
\<close>

record http_request =
  rq_method :: string
  rq_path :: string
  rq_query :: "string option"
  rq_headers :: header_map
  rq_body :: string

section \<open>Endpoints without a provider\<close>

definition live :: response where "live = sensitive (status_response 204)"

definition ready :: "io \<Rightarrow> response" where
  "ready I = sensitive (status_response (if database_ready (io_ready I) then 204 else 503))"

definition jwks_endpoint :: "app_state \<Rightarrow> response" where
  "jwks_endpoint s = public_json (TextBody (sk_jwks_json (as_keys s)))"

definition css_endpoint :: response where
  "css_endpoint = with_headers public_security
     \<lparr>rs_status = 200, rs_headers = [(''content-type'', ''text/css; charset=utf-8'')], rs_body = TextBody CSS\<rparr>"

definition not_found :: response where "not_found = sensitive (status_response 404)"

section \<open>Discovery\<close>

definition signed_out :: response where
  "signed_out = sensitive (html_response 200 (page (''Sesi'' @ o_acute @ ''n cerrada'')
     (''<p>Tu sesi'' @ o_acute @ ''n de Eri se cerr'' @ o_acute @ '' correctamente.</p>'')))"

definition strings :: "string list \<Rightarrow> json" where
  "strings xs = JArray (map JString xs)"

definition metadata_of :: "provider \<Rightarrow> json" where
  "metadata_of p = (let b = pr_issuer p in JObject
     [(''issuer'', JString b), (''authorization_endpoint'', JString (b @ ''/authorize'')),
      (''token_endpoint'', JString (b @ ''/token'')), (''userinfo_endpoint'', JString (b @ ''/userinfo'')),
      (''revocation_endpoint'', JString (b @ ''/revoke'')), (''jwks_uri'', JString (b @ ''/jwks'')),
      (''response_types_supported'', strings [''code'']), (''subject_types_supported'', strings [''public'']),
      (''id_token_signing_alg_values_supported'', strings [''RS256'']),
      (''token_endpoint_auth_methods_supported'', strings [''none'']),
      (''grant_types_supported'', strings [''authorization_code'', ''refresh_token'']),
      (''code_challenge_methods_supported'', strings [''S256'']),
      (''authorization_response_iss_parameter_supported'', JBool True),
      (''request_uri_parameter_supported'', JBool False), (''request_parameter_supported'', JBool False),
      (''claims_parameter_supported'', JBool False),
      (''scopes_supported'', strings (provider_advertised_scopes p)),
      (''client_id_metadata_document_supported'', JBool (pr_cimd_policy p \<noteq> None))])"

definition discovery :: "provider \<Rightarrow> response" where
  "discovery p = json_public (metadata_of p)"

section \<open>Routes\<close>

definition is_get :: "http_request \<Rightarrow> bool" where
  "is_get rq \<longleftrightarrow> rq_method rq = ''GET'' \<or> rq_method rq = ''HEAD''"

definition is_post :: "http_request \<Rightarrow> bool" where
  "is_post rq \<longleftrightarrow> rq_method rq = ''POST''"

definition body_limit :: nat where "body_limit = 8192"

definition with_body :: "io \<Rightarrow> http_request \<Rightarrow> (string \<Rightarrow> world \<Rightarrow> response \<times> world) \<Rightarrow> world \<Rightarrow> response \<times> world" where
  "with_body I rq f w = (if body_limit < length (rq_body rq) then (hl_body_rejection (io_http I), w) else f (rq_body rq) w)"

datatype handler =
    Answer response
  | AuthorizeGet | AuthorizePost | GoogleStart | Callback | ConsentGet | ConsentPost | Token | Userinfo
  | Preflight | Revoke | LogoutGet | LogoutPost

definition base_route :: "io \<Rightarrow> app_state \<Rightarrow> http_request \<Rightarrow> handler option" where
  "base_route I s rq =
     (if is_get rq \<and> rq_path rq = ''/health/live'' then Some (Answer live)
      else if is_get rq \<and> rq_path rq = ''/health/ready'' then Some (Answer (ready I))
      else if is_get rq \<and> rq_path rq = ''/jwks'' then Some (Answer (jwks_endpoint s))
      else if is_get rq \<and> rq_path rq = ''/auth.css'' then Some (Answer css_endpoint)
      else None)"

definition api_route :: "http_request \<Rightarrow> handler option" where
  "api_route rq =
     (let options = (rq_method rq = ''OPTIONS'') in
      if rq_path rq = ''/token'' then (if is_post rq then Some Token else if options then Some Preflight else None)
      else if rq_path rq = ''/userinfo'' then
        (if is_get rq \<or> is_post rq then Some Userinfo else if options then Some Preflight else None)
      else if rq_path rq = ''/revoke'' then (if is_post rq then Some Revoke else if options then Some Preflight else None)
      else None)"

definition browser_route :: "provider \<Rightarrow> http_request \<Rightarrow> handler option" where
  "browser_route p rq =
     (if rq_path rq = ''/'' then (if is_get rq then Some (Answer signed_out) else None)
      else if rq_path rq = ''/.well-known/openid-configuration'' \<or> rq_path rq = ''/.well-known/oauth-authorization-server''
      then (if is_get rq then Some (Answer (discovery p)) else None)
      else if rq_path rq = ''/authorize'' then (if is_get rq then Some AuthorizeGet else if is_post rq then Some AuthorizePost else None)
      else if rq_path rq = ''/federation/google/start'' then (if is_post rq then Some GoogleStart else None)
      else if rq_path rq = ''/federation/google/callback'' then (if is_get rq then Some Callback else None)
      else if rq_path rq = ''/consent'' then (if is_get rq then Some ConsentGet else if is_post rq then Some ConsentPost else None)
      else if rq_path rq = ''/logout'' then (if is_get rq then Some LogoutGet else if is_post rq then Some LogoutPost else None)
      else None)"

fun run_handler :: "io \<Rightarrow> signing_keys \<Rightarrow> provider \<Rightarrow> http_request \<Rightarrow> handler \<Rightarrow> world \<Rightarrow> response \<times> world" where
  "run_handler I keys p rq (Answer r) w = (r, w)"
| "run_handler I keys p rq AuthorizeGet w = authorize_get I p (rq_query rq) (rq_headers rq) w"
| "run_handler I keys p rq AuthorizePost w = with_body I rq (authorize_post I p (rq_headers rq)) w"
| "run_handler I keys p rq GoogleStart w = with_body I rq (google_start I p (rq_headers rq)) w"
| "run_handler I keys p rq Callback w = callback I p (rq_query rq) (rq_headers rq) w"
| "run_handler I keys p rq ConsentGet w = consent_get I p (rq_query rq) (rq_headers rq) w"
| "run_handler I keys p rq ConsentPost w = with_body I rq (consent_post I p (rq_headers rq)) w"
| "run_handler I keys p rq Token w = with_body I rq (token_endpoint I keys p (rq_headers rq)) w"
| "run_handler I keys p rq Userinfo w = with_body I rq (userinfo_endpoint I keys p (rq_headers rq)) w"
| "run_handler I keys p rq Preflight w = (api_options I p (rq_headers rq), w)"
| "run_handler I keys p rq Revoke w = with_body I rq (revoke_endpoint I p (rq_headers rq)) w"
| "run_handler I keys p rq LogoutGet w = logout_get I keys p (rq_query rq) (rq_headers rq) w"
| "run_handler I keys p rq LogoutPost w = with_body I rq (logout_post I keys p (rq_query rq) (rq_headers rq)) w"

definition dispatch :: "io \<Rightarrow> app_state \<Rightarrow> http_request \<Rightarrow> world \<Rightarrow> response \<times> world" where
  "dispatch I s rq w = (case base_route I s rq of
     Some (Answer r) \<Rightarrow> (r, w)
   | _ \<Rightarrow> (case as_provider s of
       None \<Rightarrow> (not_found, w)
     | Some p \<Rightarrow> (case (api_route rq, browser_route p rq) of
         (Some endpoint, _) \<Rightarrow> run_handler I (as_keys s) p rq endpoint w
       | (None, Some endpoint) \<Rightarrow> run_handler I (as_keys s) p rq endpoint w
       | (None, None) \<Rightarrow> (not_found, w))))"

section \<open>Middleware\<close>

definition public_paths :: "string list" where
  "public_paths = [''/jwks'', ''/.well-known/openid-configuration'', ''/.well-known/oauth-authorization-server'', ''/auth.css'']"

definition security_middleware :: "string \<Rightarrow> response \<Rightarrow> response" where
  "security_middleware path r =
     with_headers (if path \<in> set public_paths then public_security else sensitive_headers) r"

definition drop_body :: "http_request \<Rightarrow> response \<Rightarrow> response" where
  "drop_body rq r = (if rq_method rq = ''HEAD'' then r\<lparr>rs_body := NoBody\<rparr> else r)"

definition serve :: "io \<Rightarrow> app_state \<Rightarrow> http_request \<Rightarrow> world \<Rightarrow> response \<times> world" where
  "serve I s rq w = apfst (\<lambda>r. drop_body rq (security_middleware (rq_path rq) r)) (dispatch I s rq w)"

end
