(* ===== verification/Http_Properties.thy ===== *)
theory Http_Properties
  imports Http Reference_Libs
begin

text \<open>
  What the shared parts of the HTTP layer guarantee: percent-encoding checks, redirect parameters
  that reach the client as they were given, and escaped text that cannot become markup.
\<close>

section \<open>Percent encoding\<close>

definition percent_ok :: "string \<Rightarrow> nat \<Rightarrow> bool" where
  "percent_ok b i \<longleftrightarrow> i + 2 < length b \<and> is_ascii_hexdigit (b ! (i + 1)) \<and> is_ascii_hexdigit (b ! (i + 2))"

lemma hexdigit_not_percent: "is_ascii_hexdigit c \<Longrightarrow> c \<noteq> CHR ''%''"
  by (auto simp: ascii_defs)

lemma all_from_step:
  "(\<forall>j. i \<le> j \<and> P j \<longrightarrow> Q j) \<longleftrightarrow> (P i \<longrightarrow> Q i) \<and> (\<forall>j. Suc i \<le> j \<and> P j \<longrightarrow> Q j)"
  for P Q :: "nat \<Rightarrow> bool"
  by (metis Suc_le_eq le_eq_less_or_eq)

lemma percent_loop_iff:
  "percent_loop b i \<longleftrightarrow> (\<forall>j. i \<le> j \<and> (j < length b \<and> b ! j = CHR ''%'') \<longrightarrow> percent_ok b j)"
proof (induction b i rule: percent_loop.induct)
  case (1 b i)
  let ?at = "\<lambda>j. j < length b \<and> b ! j = CHR ''%''"
  note step = all_from_step [of _ ?at "percent_ok b"]
  show ?case
  proof (cases "i < length b")
    case False
    then show ?thesis by (subst percent_loop.simps) auto
  next
    case inside: True
    show ?thesis
    proof (cases "b ! i = CHR ''%''")
      case False
      then have "percent_loop b i \<longleftrightarrow> percent_loop b (Suc i)" using inside by (subst percent_loop.simps) simp
      then show ?thesis using 1 inside False step [of i] by simp
    next
      case here: True
      show ?thesis
      proof (cases "percent_ok b i")
        case False
        then have "\<not> percent_loop b i"
          using inside here by (subst percent_loop.simps) (auto simp: percent_ok_def)
        then show ?thesis using False inside here by blast
      next
        case ok: True
        then have "percent_loop b i \<longleftrightarrow> percent_loop b (i + 3)"
          using inside here by (subst percent_loop.simps) (auto simp: percent_ok_def)
        moreover have "percent_loop b (i + 3) \<longleftrightarrow> (\<forall>j. i + 3 \<le> j \<and> ?at j \<longrightarrow> percent_ok b j)"
          using 1 inside here ok by (auto simp: percent_ok_def)
        moreover have "\<not> ?at (Suc i)" "\<not> ?at (Suc (Suc i))"
          using ok hexdigit_not_percent by (auto simp: percent_ok_def)
        ultimately show ?thesis
          using ok step [of i] step [of "Suc i"] step [of "Suc (Suc i)"]
          by (simp add: numeral_3_eq_3) blast
      qed
    qed
  qed
qed

text \<open>C40: The index loop over the raw bytes always ends and accepts exactly the text in which every percent
  sign is followed by two hexadecimal digits, although it skips the two digits it has seen.\<close>

theorem valid_percent_exact:
  "valid_percent raw = (\<forall>i < length raw. raw ! i = CHR ''%'' \<longrightarrow>
     i + 2 < length raw \<and> is_ascii_hexdigit (raw ! (i + 1)) \<and> is_ascii_hexdigit (raw ! (i + 2)))"
  unfolding valid_percent_def percent_loop_iff percent_ok_def by blast

theorem valid_percent_exact_witness: "valid_percent ''a%2Fb'' \<and> \<not> valid_percent ''a%2''"
proof -
  have "\<forall>i < length ''a%2Fb''. ''a%2Fb'' ! i = CHR ''%'' \<longrightarrow>
      i + 2 < length ''a%2Fb'' \<and> is_ascii_hexdigit (''a%2Fb'' ! (i + 1)) \<and> is_ascii_hexdigit (''a%2Fb'' ! (i + 2))"
    by code_simp
  moreover have "\<not> (\<forall>i < length ''a%2''. ''a%2'' ! i = CHR ''%'' \<longrightarrow>
      i + 2 < length ''a%2'' \<and> is_ascii_hexdigit (''a%2'' ! (i + 1)) \<and> is_ascii_hexdigit (''a%2'' ! (i + 2)))"
    by code_simp
  ultimately show ?thesis unfolding valid_percent_exact by blast
qed

section \<open>Escaped text\<close>

definition entity :: "char \<Rightarrow> string" where
  "entity c = (if c = CHR ''&'' then ''&amp;'' else if c = CHR ''<'' then ''&lt;'' else if c = CHR ''>'' then ''&gt;''
     else if c = CHR 0x22 then ''&quot;'' else if c = CHR 0x27 then ''&#39;'' else [c])"

text \<open>How a browser reads character references back.\<close>

definition entities :: "(string \<times> char) list" where
  "entities = [(''amp;'', CHR ''&''), (''lt;'', CHR ''<''), (''gt;'', CHR ''>''), (''quot;'', CHR 0x22), (''#39;'', CHR 0x27)]"

fun unescape_fuel :: "nat \<Rightarrow> string \<Rightarrow> string" where
  "unescape_fuel 0 s = []"
| "unescape_fuel (Suc n) [] = []"
| "unescape_fuel (Suc n) (c # s) =
     (if c = CHR ''&'' then
        (case find (\<lambda>e. starts_with s (fst e)) entities of
           Some (name, ch) \<Rightarrow> ch # unescape_fuel n (drop (length name) s)
         | None \<Rightarrow> c # unescape_fuel n s)
      else c # unescape_fuel n s)"

definition unescape :: "string \<Rightarrow> string" where
  "unescape s = unescape_fuel (Suc (length s)) s"

lemma replace_char_simps [simp]:
  "replace_char c r [] = []"
  "replace_char c r (x # s) = (if x = c then r else [x]) @ replace_char c r s"
  "replace_char c r (s @ t) = replace_char c r s @ replace_char c r t"
  by (simp_all add: replace_char_def)

lemma escape_Nil [simp]: "escape [] = []"
  by (simp add: escape_def)

lemma escape_Cons: "escape (c # s) = entity c @ escape s"
  by (auto simp: escape_def entity_def)

lemma unescape_entity:
  "unescape_fuel (Suc n) (entity c @ s) = c # unescape_fuel n s"
  by (auto simp: entity_def entities_def)

lemma unescape_escape: "length v < n \<Longrightarrow> unescape_fuel n (escape v) = v"
proof (induction v arbitrary: n)
  case Nil
  then show ?case by (cases n) auto
next
  case (Cons c v)
  then obtain m where "n = Suc m" "length v < m" by (cases n) auto
  then show ?case using Cons.IH by (simp add: escape_Cons unescape_entity)
qed

lemma length_escape: "length v \<le> length (escape v)"
  by (induction v) (auto simp: escape_Cons entity_def)

lemma escape_chars: "set (escape v) \<inter> {CHR ''<'', CHR ''>'', CHR 0x22, CHR 0x27} = {}"
  by (induction v) (auto simp: escape_Cons entity_def)

text \<open>Escaping is lossless and inert: the five sequential replacements never escape twice (reading the
  character references back gives the text itself), and no angle bracket or quote is left, so
  data in a page cannot open a tag or close an attribute.\<close>

theorem escape_round_trip:
  "unescape (escape v) = v \<and> set (escape v) \<inter> {CHR ''<'', CHR ''>'', CHR 0x22, CHR 0x27} = {}"
  using unescape_escape [of v "Suc (length (escape v))"] length_escape [of v] escape_chars [of v]
  by (simp add: unescape_def)

section \<open>Redirect parameters\<close>

text \<open>What the \<open>form_urlencoded\<close> crate documents: parsing undoes serializing, nothing else is
  written for no pairs, and pairs are separated by an ampersand.\<close>

definition form_laws :: "libs \<Rightarrow> bool" where
  "form_laws L \<longleftrightarrow> (\<forall>kvs. form_parse L (form_serialize L kvs) = kvs)
     \<and> (\<forall>kvs. form_serialize L kvs = [] \<longleftrightarrow> kvs = [])
     \<and> (\<forall>a b. form_parse L (a @ ''&'' @ b) = form_parse L a @ form_parse L b)"

definition query_of :: "string \<Rightarrow> string" where
  "query_of u = (case split_once (CHR ''?'') u of None \<Rightarrow> [] | Some (path, query) \<Rightarrow> query)"

lemma split_once_append: "split_once c s = Some (a, b) \<Longrightarrow> split_once c (s @ t) = Some (a, b @ t)"
  by (auto simp: split_once_Some_iff)

lemma split_once_None: "split_once c s = None \<longleftrightarrow> c \<notin> set s"
  by (induction s) (auto split: option.splits)

lemma split_once_first: "c \<notin> set a \<Longrightarrow> split_once c (a @ c # b) = Some (a, b)"
  by (simp add: split_once_Some_iff)

text \<open>The parameters of a redirect arrive as they were sent: the location starts with the client's
  redirect URI, unchanged, and reading its query back gives the parameters that the URI already
  had followed by exactly the present ones, in order, whatever characters the state, code or
  issuer contain.\<close>

theorem redirect_url_round_trip:
  assumes "form_laws L"
  shows "starts_with (redirect_url L base items) base
    \<and> form_parse L (query_of (redirect_url L base items)) = form_parse L (query_of base) @ present_items items"
proof (cases "present_items items = []")
  case True
  then have "redirect_url L base items = base" using assms by (simp add: redirect_url_def form_laws_def)
  then show ?thesis using True by (simp add: starts_with_iff)
next
  case False
  have empty: "form_parse L [] = []" using assms unfolding form_laws_def by metis
  let ?q = "form_serialize L (present_items items)"
  have q: "?q \<noteq> []" "form_parse L ?q = present_items items" using False assms by (auto simp: form_laws_def)
  show ?thesis
  proof (cases "split_once (CHR ''?'') base")
    case None
    then have "CHR ''?'' \<notin> set base" by (simp add: split_once_None)
    then show ?thesis using q None empty
      by (simp add: redirect_url_def Let_def query_of_def split_once_first)
  next
    case (Some ab)
    obtain a b where ab: "ab = (a, b)" by (cases ab)
    have "CHR ''?'' \<in> set base" using Some by (metis option.distinct(1) split_once_None)
    then have "redirect_url L base items = base @ ''&'' @ ?q" using q by (simp add: redirect_url_def Let_def)
    moreover have "split_once (CHR ''?'') (base @ ''&'' @ ?q) = Some (a, b @ ''&'' @ ?q)"
      using split_once_append [OF Some [unfolded ab]] .
    moreover have "form_parse L (b @ ''&'' @ ?q) = form_parse L b @ form_parse L ?q"
      using assms unfolding form_laws_def by blast
    ultimately show ?thesis using q(2) Some ab by (simp add: query_of_def)
  qed
qed

text \<open>A form encoder that satisfies the laws: every byte is written as two hexadecimal digits.\<close>

definition hex_char :: "nat \<Rightarrow> char" where
  "hex_char n = (if n < 10 then char_of (48 + n) else char_of (55 + n))"

definition hex_value :: "char \<Rightarrow> nat" where
  "hex_value c = (if byte c < 58 then byte c - 48 else byte c - 55)"

definition percent_encode :: "string \<Rightarrow> string" where
  "percent_encode s = concat (map (\<lambda>c. [CHR ''%'', hex_char (byte c div 16), hex_char (byte c mod 16)]) s)"

fun percent_decode :: "string \<Rightarrow> string" where
  "percent_decode (c # a # b # r) = char_of (16 * hex_value a + hex_value b) # percent_decode r"
| "percent_decode _ = []"

definition ref_form_pair :: "string \<times> string \<Rightarrow> string" where
  "ref_form_pair kv = percent_encode (fst kv) @ ''='' @ percent_encode (snd kv)"

definition ref_form_serialize :: "(string \<times> string) list \<Rightarrow> string" where
  "ref_form_serialize kvs = join_with ''&'' (map ref_form_pair kvs)"

definition ref_form_unpair :: "string \<Rightarrow> string \<times> string" where
  "ref_form_unpair p = (case split_once (CHR ''='') p of
     None \<Rightarrow> (percent_decode p, []) | Some (k, v) \<Rightarrow> (percent_decode k, percent_decode v))"

definition ref_form_parse :: "string \<Rightarrow> (string \<times> string) list" where
  "ref_form_parse s = map ref_form_unpair (filter (\<lambda>p. p \<noteq> []) (split_on (CHR ''&'') s))"

definition form_libs :: libs where
  "form_libs = ref_libs\<lparr>form_parse := ref_form_parse, form_serialize := ref_form_serialize\<rparr>"

lemma byte_char_of: "k < 256 \<Longrightarrow> byte (char_of k) = k"
  by (simp add: take_bit_nat_eq_self)

lemma byte_hex_char: "n < 16 \<Longrightarrow> byte (hex_char n) = (if n < 10 then 48 + n else 55 + n)"
  unfolding hex_char_def using byte_char_of [of "48 + n"] byte_char_of [of "55 + n"] by auto

lemma hex_value_char: "n < 16 \<Longrightarrow> hex_value (hex_char n) = n"
  by (simp add: hex_value_def byte_hex_char)

lemma hex_char_plain:
  assumes "n < 16"
  shows "hex_char n \<noteq> CHR ''&''" and "hex_char n \<noteq> CHR ''=''"
proof -
  have "byte (hex_char n) \<noteq> byte (CHR ''&'')" "byte (hex_char n) \<noteq> byte (CHR ''='')"
    using assms by (simp_all add: byte_hex_char)
  then show "hex_char n \<noteq> CHR ''&''" "hex_char n \<noteq> CHR ''=''" by auto
qed

lemma high_nibble: "byte c div 16 < 16"
proof -
  have "byte c < 256" by simp
  then show ?thesis by (simp add: div_less_iff_less_mult)
qed

lemma percent_decode_encode: "percent_decode (percent_encode s) = s"
proof (induction s)
  case (Cons c s)
  have "char_of (16 * (byte c div 16) + byte c mod 16) = c" by (simp add: mult_div_mod_eq)
  moreover have "hex_value (hex_char (byte c div 16)) = byte c div 16" "hex_value (hex_char (byte c mod 16)) = byte c mod 16"
    by (simp_all add: hex_value_char high_nibble)
  ultimately show ?case using Cons by (simp add: percent_encode_def)
qed (simp add: percent_encode_def)

lemma percent_encode_plain: "CHR ''&'' \<notin> set (percent_encode s)" "CHR ''='' \<notin> set (percent_encode s)"
proof (induction s)
  case (Cons c s)
  have "hex_char (byte c div 16) \<noteq> CHR ''&''" "hex_char (byte c div 16) \<noteq> CHR ''=''"
    "hex_char (byte c mod 16) \<noteq> CHR ''&''" "hex_char (byte c mod 16) \<noteq> CHR ''=''"
    using hex_char_plain [OF high_nibble] hex_char_plain [of "byte c mod 16"] by auto
  with Cons show "CHR ''&'' \<notin> set (percent_encode (c # s))" "CHR ''='' \<notin> set (percent_encode (c # s))"
    by (auto simp: percent_encode_def)
qed (simp_all add: percent_encode_def)

lemma unpair_pair: "ref_form_unpair (ref_form_pair kv) = kv"
  using split_once_first [OF percent_encode_plain(2)]
  by (simp add: ref_form_unpair_def ref_form_pair_def percent_decode_encode)

lemma split_on_append: "split_on c (a @ c # b) = split_on c a @ split_on c b"
proof (induction a)
  case (Cons x a)
  then show ?case using split_on_nonempty [of c a] by (cases "split_on c a") auto
qed simp

lemma split_on_plain: "c \<notin> set p \<Longrightarrow> split_on c p = [p]"
  by (induction p) auto

lemma split_on_join:
  "xs \<noteq> [] \<Longrightarrow> \<forall>x \<in> set xs. c \<notin> set x \<Longrightarrow> split_on c (join_with [c] xs) = xs"
proof (induction "[c]" xs rule: join_with.induct)
  case (3 x y zs)
  then show ?case using split_on_append [of c x] by (simp add: split_on_plain)
qed (simp_all add: split_on_plain)

lemma form_libs_laws: "form_laws form_libs"
proof -
  have pair: "ref_form_pair kv \<noteq> []" "CHR ''&'' \<notin> set (ref_form_pair kv)" for kv
    using percent_encode_plain(1) by (simp_all add: ref_form_pair_def)
  have "ref_form_parse (ref_form_serialize kvs) = kvs" for kvs
  proof (cases "kvs = []")
    case True
    then show ?thesis by (simp add: ref_form_parse_def ref_form_serialize_def)
  next
    case False
    then have "split_on (CHR ''&'') (ref_form_serialize kvs) = map ref_form_pair kvs"
      unfolding ref_form_serialize_def using pair(2) by (intro split_on_join) auto
    moreover have "filter (\<lambda>p. p \<noteq> []) (map ref_form_pair kvs) = map ref_form_pair kvs"
      using pair(1) by (simp add: filter_True)
    ultimately show ?thesis by (simp add: ref_form_parse_def unpair_pair comp_def)
  qed
  moreover have "ref_form_serialize kvs = [] \<longleftrightarrow> kvs = []" for kvs
    using pair(1) by (cases kvs; cases "tl kvs") (auto simp: ref_form_serialize_def)
  moreover have "ref_form_parse (a @ ''&'' @ b) = ref_form_parse a @ ref_form_parse b" for a b
    by (simp add: ref_form_parse_def split_on_append)
  ultimately show ?thesis by (simp add: form_laws_def form_libs_def)
qed

theorem redirect_url_round_trip_witness:
  "form_parse form_libs (query_of (redirect_url form_libs ''https://c/cb?a'' [(''code'', Some ''x&y''), (''state'', None), (''iss'', Some ''i'')]))
     = ref_form_parse ''a'' @ [(''code'', ''x&y''), (''iss'', ''i'')]"
proof -
  have "query_of ''https://c/cb?a'' = ''a''"
    "present_items [(''code'', Some ''x&y''), (''state'', None), (''iss'', Some ''i'')] = [(''code'', ''x&y''), (''iss'', ''i'')]"
    by code_simp+
  then show ?thesis
    using redirect_url_round_trip [OF form_libs_laws, of "''https://c/cb?a''" "[(''code'', Some ''x&y''), (''state'', None), (''iss'', Some ''i'')]"]
    by (simp add: form_libs_def)
qed

end
