(* ===== verification/Service_Headers.thy ===== *)
theory Service_Headers
  imports Router Http_Properties Registry_Facts
begin

text \<open>
  The headers of every response: caching, framing, content policy and cross-origin access, whatever
  handler built it.
\<close>

section \<open>Header maps\<close>

lemma header_get_insert [simp]:
  "header_get n (header_insert m v h) = (if n = m then Some v else header_get n h)"
proof -
  have "map_of (filter (\<lambda>kv. fst kv \<noteq> m) h) n = (if n = m then None else map_of h n)" by (induction h) auto
  then show ?thesis by (simp add: header_get_def header_insert_def map_add_def split: option.splits)
qed

lemma header_get_append [simp]:
  "header_get n (header_append m v h) = (case header_get n h of Some x \<Rightarrow> Some x | None \<Rightarrow> if n = m then Some v else None)"
  by (auto simp: header_get_def header_append_def map_add_def split: option.splits)

lemma header_get_unless [simp]:
  "header_get n (insert_unless_present m v h) =
     (if n = m then Some (case header_get m h of Some x \<Rightarrow> x | None \<Rightarrow> v) else header_get n h)"
  by (auto simp: insert_unless_present_def split: option.splits)

lemma with_headers_sel [simp]:
  "rs_headers (with_headers f r) = f (rs_headers r)" "rs_status (with_headers f r) = rs_status r"
  "rs_body (with_headers f r) = rs_body r"
  by (simp_all add: with_headers_def)

lemma header_get_literal [simp]:
  "header_get n [] = None" "header_get n ((m, v) # h) = (if n = m then Some v else header_get n h)"
  by (simp_all add: header_get_def)

lemma sensitive_header:
  "header_get n (sensitive_headers h) =
     (if n = ''content-security-policy'' then Some (case header_get n h of Some x \<Rightarrow> x | None \<Rightarrow> csp_with [])
      else if n = ''x-frame-options'' then Some ''DENY''
      else if n = ''x-content-type-options'' then Some ''nosniff''
      else if n = ''referrer-policy'' then Some (case header_get n h of Some x \<Rightarrow> x | None \<Rightarrow> ''no-referrer'')
      else if n = ''pragma'' then Some ''no-cache''
      else if n = ''cache-control'' then Some ''no-store''
      else header_get n h)"
  by (simp add: sensitive_headers_def)

section \<open>Pages and redirects\<close>

definition csp_text :: string where "csp_text = ''content-security-policy''"
definition acao_text :: string where "acao_text = ''access-control-allow-origin''"

text \<open>
  What a form on a page may be sent to: the origin of an http or https URL, or the scheme of
  a native one.  The policies of the code are the default one and those that list such sources
  for at most two URLs.
\<close>

definition csp_source :: "libs \<Rightarrow> string \<Rightarrow> string \<Rightarrow> bool" where
  "csp_source L uri source \<longleftrightarrow> (\<exists>u. url_parse L uri = Some u
     \<and> (if url_scheme u = ''http'' \<or> url_scheme u = ''https'' then source = url_origin u
        else source = url_scheme u @ '':''
          \<and> list_all (\<lambda>b. is_ascii_alphanumeric b \<or> b = CHR ''+'' \<or> b = CHR ''-'' \<or> b = CHR ''.'') (url_scheme u)))"

lemma form_action_csp_source: "form_action_source L uri = Some source \<Longrightarrow> csp_source L uri source"
  by (auto simp: form_action_source_def csp_source_def split: option.splits if_splits)

definition csp_listing :: "string list \<Rightarrow> string" where
  "csp_listing sources = csp_with (concat (map (\<lambda>s. CHR '' '' # s) sources))"

definition own_policy :: "libs \<Rightarrow> (string \<Rightarrow> bool) \<Rightarrow> string \<Rightarrow> bool" where
  "own_policy L T v \<longleftrightarrow> (\<exists>uris sources. length uris \<le> 2 \<and> (\<forall>uri \<in> set uris. T uri)
     \<and> list_all2 (csp_source L) uris sources \<and> v = csp_listing sources)"

lemma own_policy_mono: "own_policy L S v \<Longrightarrow> (\<And>uri. S uri \<Longrightarrow> T uri) \<Longrightarrow> own_policy L T v"
  unfolding own_policy_def by blast

lemma own_policy_default [simp]: "own_policy L T (csp_with [])"
  unfolding own_policy_def
  by (intro exI [of _ "[]"]) (simp add: csp_listing_def)

lemma own_policy_one: "T uri \<Longrightarrow> form_action_source L uri = Some source \<Longrightarrow> own_policy L T (csp_with (CHR '' '' # source))"
  unfolding own_policy_def
  by (intro exI [of _ "[uri]"] exI [of _ "[source]"]) (simp add: csp_listing_def form_action_csp_source)

lemma own_policy_two:
  "T uri \<Longrightarrow> T uri' \<Longrightarrow> form_action_source L uri = Some source \<Longrightarrow> form_action_source L uri' = Some source'
    \<Longrightarrow> own_policy L T (csp_with (CHR '' '' # source @ CHR '' '' # source'))"
  unfolding own_policy_def
  by (intro exI [of _ "[uri, uri']"] exI [of _ "[source, source']"]) (simp add: csp_listing_def form_action_csp_source)

text \<open>No cross-origin access, and a content policy only of the code's own form.\<close>

definition contained :: "libs \<Rightarrow> (string \<Rightarrow> bool) \<Rightarrow> response \<Rightarrow> bool" where
  "contained L T r \<longleftrightarrow> header_get acao_text (rs_headers r) = None
     \<and> (\<forall>v. header_get csp_text (rs_headers r) = Some v \<longrightarrow> own_policy L T v)"

lemma contained_sensitive [simp]: "contained L T r \<Longrightarrow> contained L T (sensitive r)"
  by (auto simp: contained_def sensitive_def sensitive_header csp_text_def acao_text_def split: option.splits)

lemma contained_set_cookie [simp]:
  "contained L T (with_headers (header_insert ''set-cookie'' v) r) = contained L T r"
  "contained L T (with_headers (header_append ''set-cookie'' v) r) = contained L T r"
  by (auto simp: contained_def csp_text_def acao_text_def split: option.splits)

lemma contained_clear [simp]: "contained L T (clear_transaction_cookie r name secure) = contained L T r"
  by (simp add: clear_transaction_cookie_def split: option.splits)

lemma contained_plain [simp]:
  "contained L T (status_response code)" "contained L T (html_response code text)"
  by (simp_all add: contained_def status_response_def html_response_def csp_text_def acao_text_def)

lemma contained_local_error [simp]: "contained L T (local_error m)"
  by (simp add: local_error_def)

lemma contained_json [simp]: "contained L T (json_sensitive_status code v)"
proof -
  have "contained L T \<lparr>rs_status = code, rs_headers = [(''content-type'', ''application/json'')], rs_body = JsonBody v\<rparr>"
    by (simp add: contained_def csp_text_def acao_text_def)
  from contained_sensitive [OF this] show ?thesis by (simp add: json_sensitive_status_def sensitive_def)
qed

lemma contained_token_error [simp]: "contained L T (token_error c)"
  by (simp add: token_error_def)

lemma contained_bearer_error [simp]: "contained L T bearer_error"
  using contained_json [of L T 401 "json_error ''invalid_token''"]
  by (auto simp: bearer_error_def contained_def csp_text_def acao_text_def)

lemma contained_json_sensitive [simp]: "contained L T (json_sensitive v)"
  by (simp add: json_sensitive_def)

lemma contained_redirect [simp]: "framework_laws H \<Longrightarrow> contained L T (hl_redirect H u)"
  by (cases "hl_header_ok H u")
    (auto simp: framework_laws_def contained_def code_headers_def csp_text_def acao_text_def)

lemma contained_rejection [simp]: "framework_laws H \<Longrightarrow> contained L T (hl_body_rejection H)"
  by (auto simp: framework_laws_def contained_def code_headers_def csp_text_def acao_text_def)

lemma contained_redirects [simp]:
  assumes "framework_laws H"
  shows "contained L T (redirect_params L H base items)" "contained L T (oauth_redirect L H base state issuer code)"
    "contained L T (code_redirect L H base state issuer code)" "contained L T (consent_return L H base items)"
  using assms by (simp_all add: redirect_params_def oauth_redirect_def code_redirect_def consent_return_def Let_def)

lemma contained_strict [simp]: "contained L T (strict_referrer html)"
proof -
  have "contained L T (sensitive (html_response 200 html))" by simp
  then show ?thesis by (simp add: strict_referrer_def contained_def csp_text_def acao_text_def)
qed

lemma contained_policy:
  "contained L T r \<Longrightarrow> own_policy L T v \<Longrightarrow> contained L T (policy_header H v r)"
  by (auto simp: policy_header_def contained_def csp_text_def acao_text_def)

lemma contained_forms:
  "T redirect \<Longrightarrow> contained L T (form_page L H html redirect)"
  "T google \<Longrightarrow> T redirect \<Longrightarrow> contained L T (login_page L H html google redirect)"
  by (auto simp: form_page_def intro!: contained_policy own_policy_one split: option.splits)
    (auto simp: login_page_def intro!: contained_policy intro: own_policy_two [of T google redirect] split: option.splits)

section \<open>Whom a page sends its form to\<close>

definition to_google :: "io \<Rightarrow> provider \<Rightarrow> string \<Rightarrow> bool" where
  "to_google I p loc \<longleftrightarrow> (\<exists>state nonce challenge u.
     authorization_url (io_libs I) (io_google I) (pr_google p) state nonce challenge True = Inr u \<and> loc = url_as_str u)"

text \<open>A redirect URI that is trusted in the registry a client resolved to, a registered
  post-logout URI, the provider itself, or its Google authorization URL.\<close>

definition form_target :: "io \<Rightarrow> provider \<Rightarrow> string \<Rightarrow> bool" where
  "form_target I p uri \<longleftrightarrow> to_google I p uri \<or> uri = pr_issuer p
     \<or> (\<exists>client. valid_post_logout_redirect (pr_registry p) client uri)
     \<or> (\<exists>client k registry w w' client'. resolve_client I p k client w = (Inr registry, w')
          \<and> trusted_redirect (io_libs I) registry client' uri)"

abbreviation kept :: "io \<Rightarrow> provider \<Rightarrow> response \<Rightarrow> bool" where
  "kept I p \<equiv> contained (io_libs I) (form_target I p)"

lemma trusted_form_target:
  "resolve_client I p k client w = (Inr registry, w') \<Longrightarrow> trusted_redirect (io_libs I) registry client' uri \<Longrightarrow> form_target I p uri"
  unfolding form_target_def by blast

lemma resolve_client_db: "resolve_client I p k client w = (r, w') \<Longrightarrow> wd_db w' = wd_db w"
  by (auto simp: resolve_client_def split: if_splits option.splits sum.splits prod.splits)

lemma attempt_once_cases:
  assumes "attempt_once I p k client operation w = (out, w')"
  obtains "out = Unresolved" "wd_db w' = wd_db w"
  | registry w1 err where "resolve_client I p k client w = (Inr registry, w1)"
      "operation registry (wd_db w) = (Inl err, wd_db w')" "out = Refused err"
  | registry w1 v where "resolve_client I p k client w = (Inr registry, w1)"
      "operation registry (wd_db w) = (Inr v, wd_db w')" "out = Done v"
proof -
  obtain r w1 where r: "resolve_client I p k client w = (r, w1)" by fastforce
  note db = resolve_client_db [OF r]
  show ?thesis
  proof (cases r)
    case (Inl u)
    then show ?thesis using assms db by (intro that(1)) (auto simp: attempt_once_def r)
  next
    case (Inr registry)
    obtain x d where x: "operation registry (wd_db w) = (x, d)" by fastforce
    show ?thesis using assms r Inr x db that(2,3) [of registry]
      by (cases x) (auto simp: attempt_once_def run_db_def)
  qed
qed

lemma with_policy_Done:
  assumes "with_policy I p k expired client operation w = (Done v, w')"
  shows "\<exists>n registry d d' w1 w2. resolve_client I p n client w1 = (Inr registry, w2) \<and> operation n registry d = (Inr v, d')"
proof -
  obtain r w1 where r: "attempt_once I p k client (operation k) w = (r, w1)" by fastforce
  have finished: "\<exists>registry d d' w1 w2. resolve_client I p n client w1 = (Inr registry, w2) \<and> operation n registry d = (Inr v, d')"
    if "attempt_once I p n client (operation n) w = (Done v, w')" for n w w'
    using that by (cases rule: attempt_once_cases) auto
  from assms consider "r = Done v" | "attempt_once I p (Suc k) client (operation (Suc k)) w1 = (Done v, w')"
    by (auto simp: with_policy_def r split: resolved.splits if_splits)
  then show ?thesis using finished r by cases blast+
qed

lemma consent_view_trusted:
  assumes "consent_view L B e d session handle registry = (Inr v, d')"
  shows "\<exists>client. trusted_redirect L registry client (cv_redirect_uri v)"
proof -
  from assms obtain row pending where "revalidate L B e 0 registry row = Inr pending" "cv_redirect_uri v = ba_redirect_uri row"
    by (auto simp: consent_view_def with_consent_def checked_def split: sum.splits)
  then show ?thesis
    by (auto simp: revalidate_def and_then_Inr_iff validate_pending_parts_Inr grant_conditions_def)
qed

lemma challenge_form_target:
  assumes "begin_challenge I p session r d = (Inr challenge, d')"
  shows "form_target I p (lch_redirect_uri challenge)"
  using assms
  by (auto simp: begin_challenge_def begin_logout_def begin_local_def logout_insert_def form_target_def Let_def
      split: option.splits if_splits)

section \<open>Browser endpoints\<close>

lemma contained_consent_page [simp]: "kept I p (fst (consent_page I p k session handle w))"
proof -
  have "form_target I p (cv_redirect_uri v)"
    if "with_policy I p k BrMetadataExpired client (\<lambda>n registry d. consent_view (io_libs I) (io_codec I) (io_env I n) d session handle registry) w
      = (Done v, w')" for client v w'
    using with_policy_Done [OF that] consent_view_trusted trusted_form_target by metis
  then show ?thesis
    by (auto simp: consent_page_def contained_forms split: sum.splits prod.splits resolved.splits)
qed

lemma contained_login_response:
  assumes "framework_laws (io_http I)" and "form_target I p (pg_redirect_uri pending)"
    and "login_response I p registry a pending allow start = Inr r"
  shows "kept I p r"
proof -
  have "form_target I p (url_as_str u)"
    if "authorization_url (io_libs I) (io_google I) (pr_google p) state nonce challenge True = Inr u" for state nonce challenge u
    using that unfolding form_target_def to_google_def by blast
  then show ?thesis using assms by (auto simp: login_response_def Let_def and_then_Inr_iff contained_forms)
qed

definition answer_contained :: "io \<Rightarrow> provider \<Rightarrow> (string + response) \<times> world \<Rightarrow> bool" where
  "answer_contained I p m \<longleftrightarrow> (\<forall>r. fst m = Inr r \<longrightarrow> kept I p r)"

lemma answer_contained_or_answer:
  "(\<And>v w. answer_contained I p (f v w)) \<Longrightarrow> answer_contained I p (or_answer m (\<lambda>err. Inl code) f)"
  by (auto simp: answer_contained_def or_answer_def split: prod.splits sum.splits)

lemma answer_contained_simps [simp]:
  "answer_contained I p (Inl code, w)" "kept I p r \<Longrightarrow> answer_contained I p (Inr r, w)"
  by (simp_all add: answer_contained_def)

lemma answer_contained_page [simp]: "answer_contained I p (apfst Inr (consent_page I p k session handle w))"
  by (cases "consent_page I p k session handle w")
    (metis answer_contained_def apfst_conv contained_consent_page fst_conv sum.inject(2))

lemma answer_contained_login [simp]:
  "framework_laws (io_http I) \<Longrightarrow> form_target I p (pg_redirect_uri pending)
    \<Longrightarrow> answer_contained I p (login_response I p registry a pending allow start, w)"
  using contained_login_response by (auto simp: answer_contained_def)

lemma answer_contained_session:
  assumes "framework_laws (io_http I)"
  shows "answer_contained I p (authorize_with_session I p k registry a pending allow session w)"
  using assms unfolding authorize_with_session_def
  by (auto intro!: answer_contained_or_answer split: option.splits)

lemma answer_contained_no_session:
  assumes "framework_laws (io_http I)" and "form_target I p (pg_redirect_uri pending)"
  shows "answer_contained I p (authorize_without_session I p k registry h a pending allow w)"
  using assms unfolding authorize_without_session_def
  by (auto intro!: answer_contained_or_answer)

lemma answer_contained_valid:
  assumes "framework_laws (io_http I)" and "resolve_client I p n client w1 = (Inr registry, w2)"
  shows "answer_contained I p (authorize_valid I p k q h registry w)"
proof -
  have "form_target I p (pg_redirect_uri pending)"
    if "validate_pending L t registry request = Inr pending" "L = io_libs I" for L t request pending
    using that assms(2) trusted_form_target
    by (auto simp: validate_pending_def validate_pending_parts_Inr grant_conditions_def)
  then show ?thesis
    using assms(1) answer_contained_session answer_contained_no_session
    by (auto simp: authorize_valid_def Let_def split: sum.splits option.splits)
qed

lemma contained_authorize_pass:
  assumes "framework_laws (io_http I)" and "authorize_pass I p k final q h client redirect w = (Some r, w')"
  shows "kept I p r"
proof (cases "resolve_client I p k client w")
  case (Pair out w1)
  show ?thesis
  proof (cases out)
    case (Inl u)
    then show ?thesis using assms(2) by (auto simp: authorize_pass_def Pair)
  next
    case (Inr registry)
    have "kept I p v" if "authorize_valid I p k q h registry w1 = (Inr v, w2)" for v w2
      using answer_contained_valid [OF assms(1) Pair [unfolded Inr], of k q h w1] that by (simp add: answer_contained_def)
    then show ?thesis using assms
      by (auto simp: authorize_pass_def Pair Inr split: prod.splits sum.splits if_splits)
  qed
qed

lemma contained_authorize:
  assumes "framework_laws (io_http I)"
  shows "kept I p (fst (authorize I p raw h w))"
  using contained_authorize_pass [OF assms]
  by (auto simp: authorize_def split: sum.splits prod.splits option.splits)

lemma contained_google_start:
  "framework_laws (io_http I) \<Longrightarrow> kept I p (fst (google_start I p h bytes w))"
proof -
  assume laws: "framework_laws (io_http I)"
  have "kept I p (fst (google_cancel I p tid state binding name w))" for tid state binding name
    using laws by (auto simp: google_cancel_def split: sum.splits prod.splits resolved.splits)
  moreover have "kept I p (fst (google_continue I p tid state binding w))" for tid state binding
    using laws by (auto simp: google_continue_def or_answer_def split: sum.splits prod.splits)
  ultimately show ?thesis by (auto simp: google_start_def Let_def split: sum.splits option.splits)
qed

lemma contained_opened [simp]: "kept I p r \<Longrightarrow> kept I p (opened_session p completion name r)"
  by (simp add: opened_session_def)

lemma contained_finish_login:
  assumes "framework_laws (io_http I)"
  shows "kept I p (fst (finish_login I p completion name w))"
proof -
  have page: "kept I p (fst (apfst (opened_session p completion name) (consent_page I p 40 session handle w)))" for session handle w
    by (cases "consent_page I p 40 session handle w") (metis apfst_conv contained_consent_page contained_opened fst_conv)
  show ?thesis using assms page
    by (auto simp: finish_login_def Let_def split: prod.splits resolved.splits option.splits)
qed

lemma contained_callback:
  assumes "framework_laws (io_http I)"
  shows "kept I p (fst (callback I p raw h w))"
proof -
  have failed: "kept I p (fst (failed_callback I p claim name message w))" for claim name message w
    by (auto simp: failed_callback_def split: prod.splits)
  have denied: "kept I p (fst (denied_callback I p claim name w))" for claim name w
    using assms by (auto simp: denied_callback_def split: prod.splits resolved.splits)
  have completed: "kept I p (fst (completed_callback I p claim name identity w))" for claim name identity w
    using contained_finish_login [OF assms] by (auto simp: completed_callback_def split: prod.splits resolved.splits)
  have "kept I p (fst (callback_claimed I p c winner w))" for c winner w
    using failed denied completed by (auto simp: callback_claimed_def split: prod.splits option.splits sum.splits)
  then show ?thesis by (auto simp: callback_def split: prod.splits option.splits)
qed

lemma contained_consent_get: "kept I p (fst (consent_get I p raw h w))"
  by (auto simp: consent_get_def split: sum.splits option.splits)

lemma contained_consent_post:
  assumes "framework_laws (io_http I)"
  shows "kept I p (fst (consent_post I p h bytes w))"
proof -
  have "kept I p (fst (consent_decision I p action session handle w))" for action session handle
    using assms by (auto simp: consent_decision_def split: sum.splits prod.splits resolved.splits)
  then show ?thesis by (auto simp: consent_post_def split: sum.splits option.splits)
qed

lemma contained_logout_response [simp]: "framework_laws (io_http I) \<Longrightarrow> kept I p (logout_response I p v)"
  by (simp add: logout_response_def)

lemma kept_logout_confirm:
  "run_db (begin_challenge I p session params) w = (Inr challenge, w') \<Longrightarrow> kept I p (logout_confirm I challenge)"
  using challenge_form_target [of I p session params "wd_db w"]
  by (auto simp: logout_confirm_def run_db_def intro!: contained_forms split: prod.splits)

lemma contained_logout_rp:
  assumes "framework_laws (io_http I)"
  shows "kept I p (fst (logout_rp I keys p h q w))"
  using assms
  by (auto simp: logout_rp_def or_answer_def intro: kept_logout_confirm split: prod.splits option.splits sum.splits)

lemma contained_logout_confirmed:
  assumes "framework_laws (io_http I)"
  shows "kept I p (fst (logout_confirmed I p h q w))"
  using assms
  by (auto simp: logout_confirmed_def or_answer_def split: prod.splits option.splits sum.splits)

section \<open>Endpoints that grant cross-origin access\<close>

definition cors_ok :: "io \<Rightarrow> provider \<Rightarrow> header_map \<Rightarrow> response \<Rightarrow> bool" where
  "cors_ok I p h r \<longleftrightarrow>
     (\<forall>o'. header_get acao_text (rs_headers r) = Some o' \<longrightarrow>
        origin (io_http I) h = Some o' \<and> reviewed_browser_origin (pr_registry p) o')
     \<and> (\<forall>v. header_get csp_text (rs_headers r) = Some v \<longrightarrow> own_policy (io_libs I) (form_target I p) v)"

lemma contained_cors_ok: "kept I p r \<Longrightarrow> cors_ok I p h r"
  by (simp add: contained_def cors_ok_def)

lemma valid_is_reviewed: "valid_browser_origin reg client o' \<Longrightarrow> reviewed_browser_origin reg o'"
  unfolding valid_browser_origin_def reviewed_browser_origin_def is_some_and_iff client_of_def
  by (force dest: map_of_SomeD)

lemma cors_ok_for:
  assumes "kept I p r" and "\<And>o'. origin (io_http I) h = Some o' \<Longrightarrow> reviewed_browser_origin (pr_registry p) o'"
  shows "cors_ok I p h (cors_for (io_http I) h r)"
  using assms
  by (auto simp: cors_for_def cors_ok_def contained_def cors_def acao_text_def csp_text_def split: option.splits)

lemma checked_origin:
  assumes "\<not> is_some_and (origin H h) (\<lambda>o'. \<not> valid_browser_origin reg client o')" and "origin H h = Some o'"
  shows "reviewed_browser_origin reg o'"
  using assms valid_is_reviewed by (auto simp: is_some_and_iff)

lemma cors_ok_token: "cors_ok I p h (fst (token_endpoint I keys p h bytes w))"
proof -
  have answer: "kept I p (token_response_of I keys p outcome)" for outcome
    by (auto simp: token_response_of_def split: resolved.splits prod.splits sum.splits)
  have "reviewed_browser_origin (pr_registry p) o'"
    if "token_params_of (io_libs I) (io_http I) p h q = Inr t" "origin (io_http I) h = Some o'" for q t o'
    using that checked_origin by (auto simp: token_params_of_def and_then_Inr_iff split: if_splits)
  with answer show ?thesis
    by (auto simp: token_endpoint_def and_then_Inr_iff map_ok_Inr_iff intro: contained_cors_ok cors_ok_for
      split: sum.splits prod.splits resolved.splits)
qed

lemma cors_ok_userinfo: "cors_ok I p h (fst (userinfo_endpoint I keys p h bytes w))"
proof -
  have "reviewed_browser_origin (pr_registry p) o'"
    if "userinfo_claims I keys p h bytes = Some claims" "origin (io_http I) h = Some o'" for claims o'
    using that checked_origin by (auto simp: userinfo_claims_def split: sum.splits option.splits if_splits)
  then show ?thesis
    by (auto simp: userinfo_endpoint_def intro: contained_cors_ok cors_ok_for split: option.splits)
qed

lemma cors_ok_revoke: "cors_ok I p h (fst (revoke_endpoint I p h bytes w))"
proof -
  have answers: "kept I p (json_sensitive_status 503 (json_error ''server_error''))" "kept I p (sensitive (status_response 200))"
    by simp_all
  show ?thesis using checked_origin
    by (auto simp: revoke_endpoint_def intro: contained_cors_ok intro!: cors_ok_for answers
      split: sum.splits option.splits prod.splits)
qed

lemma cors_ok_options: "cors_ok I p h (api_options I p h)"
  by (auto simp: api_options_def Let_def cors_ok_def cors_def sensitive_def sensitive_header status_response_def
    acao_text_def csp_text_def split: option.splits)

lemma cors_ok_handler:
  assumes "framework_laws (io_http I)" and "\<forall>r. endpoint = Answer r \<longrightarrow> kept I p r"
  shows "cors_ok I p (rq_headers rq) (fst (run_handler I keys p rq endpoint w))"
  using assms cors_ok_token cors_ok_userinfo cors_ok_revoke cors_ok_options
  by (cases endpoint)
    (auto simp: with_body_def authorize_get_def authorize_post_def logout_get_def logout_post_def
      contained_authorize contained_google_start contained_callback contained_consent_get contained_consent_post
      contained_logout_rp contained_logout_confirmed intro!: contained_cors_ok split: sum.splits)

section \<open>Every response\<close>

lemma dispatch_cors_ok:
  assumes "framework_laws (io_http I)" and "rq_path rq \<notin> set public_paths"
  shows "contained (io_libs I) (\<lambda>uri. False) (fst (dispatch I s rq w))
    \<or> (\<exists>p. as_provider s = Some p \<and> cors_ok I p (rq_headers rq) (fst (dispatch I s rq w)))"
proof -
  have base: "contained L T r" if "base_route I s rq = Some (Answer r)" for L T r
    using that assms(2) by (auto simp: base_route_def public_paths_def live_def ready_def split: if_splits)
  have browser: "contained L T r" if "browser_route p rq = Some (Answer r)" for L T p r
    using that assms(2) by (auto simp: browser_route_def public_paths_def signed_out_def split: if_splits)
  have api: "api_route rq \<noteq> Some (Answer r)" for r
    by (auto simp: api_route_def Let_def)
  have none: "contained L T not_found" for L T by (simp add: not_found_def)
  have only: "\<exists>r. endpoint = Answer r" if "base_route I s rq = Some endpoint" for endpoint
    using that by (auto simp: base_route_def split: if_splits)
  show ?thesis
  proof (cases "base_route I s rq")
    case (Some endpoint)
    with only obtain r where "base_route I s rq = Some (Answer r)" by blast
    then show ?thesis using base by (simp add: dispatch_def)
  next
    case no_base: None
    show ?thesis
    proof (cases "as_provider s")
      case None
      then show ?thesis using none no_base by (simp add: dispatch_def)
    next
      case (Some p)
      note run = cors_ok_handler [OF assms(1), of _ p rq "as_keys s" w]
      show ?thesis
      proof (cases "api_route rq")
        case (Some endpoint)
        then have "cors_ok I p (rq_headers rq) (fst (run_handler I (as_keys s) p rq endpoint w))"
          using api by (intro run) auto
        then show ?thesis using Some \<open>as_provider s = Some p\<close> no_base by (simp add: dispatch_def)
      next
        case no_api: None
        show ?thesis
        proof (cases "browser_route p rq")
          case None
          then show ?thesis using none no_base no_api \<open>as_provider s = Some p\<close> by (simp add: dispatch_def)
        next
          case (Some endpoint)
          then have "cors_ok I p (rq_headers rq) (fst (run_handler I (as_keys s) p rq endpoint w))"
            using browser by (intro run) auto
          then show ?thesis using Some \<open>as_provider s = Some p\<close> no_base no_api by (simp add: dispatch_def)
        qed
      qed
    qed
  qed
qed

lemma drop_body_headers [simp]: "rs_headers (drop_body rq r) = rs_headers r"
  by (simp add: drop_body_def)

text \<open>A content policy as a browser reads it: directives between semicolons, words between spaces.\<close>

definition csp_directives :: "string \<Rightarrow> string list list" where
  "csp_directives policy = map (\<lambda>d. filter (\<lambda>w. w \<noteq> []) (split_on (CHR '' '') d)) (split_on (CHR '';'') policy)"

abbreviation csp_quote :: "string \<Rightarrow> string" where "csp_quote w \<equiv> apostrophe @ w @ apostrophe"

definition eri_directives :: "string list \<Rightarrow> string list list" where
  "eri_directives sources = [[''default-src'', csp_quote ''none''], [''style-src'', csp_quote ''self''],
     [''form-action'', csp_quote ''self''] @ sources, [''frame-ancestors'', csp_quote ''none''], [''base-uri'', csp_quote ''none'']]"

definition csp_word :: "string \<Rightarrow> bool" where
  "csp_word s \<longleftrightarrow> s \<noteq> [] \<and> CHR '' '' \<notin> set s \<and> CHR '';'' \<notin> set s"

lemma csp_words:
  "list_all csp_word sources \<Longrightarrow> filter (\<lambda>w. w \<noteq> []) (split_on (CHR '' '') (b @ concat (map (\<lambda>s. CHR '' '' # s) sources)))
    = filter (\<lambda>w. w \<noteq> []) (split_on (CHR '' '') b) @ sources"
proof (induction sources arbitrary: b)
  case (Cons s sources)
  then have "filter (\<lambda>w. w \<noteq> []) (split_on (CHR '' '') s) = [s]" by (simp add: csp_word_def split_on_plain)
  with Cons show ?case by (simp add: split_on_append)
qed simp

lemma csp_listing_directives:
  assumes "list_all csp_word sources"
  shows "csp_directives (csp_listing sources) = eri_directives sources"
proof -
  let ?list = "concat (map (\<lambda>s. CHR '' '' # s) sources)"
  have plain: "CHR '';'' \<notin> set (c @ ?list)" if "CHR '';'' \<notin> set c" for c
    using that assms by (auto simp: csp_word_def list_all_iff)
  have split: "csp_directives (a @ CHR '';'' # b @ CHR '';'' # (c @ ?list) @ CHR '';'' # d @ CHR '';'' # e)
      = map (filter (\<lambda>w. w \<noteq> []) \<circ> split_on (CHR '' '')) [a, b, c @ ?list, d, e]"
    if "list_all (\<lambda>x. CHR '';'' \<notin> set x) [a, b, c, d, e]" for a b c d e
    using that plain [of c] by (simp only: csp_directives_def split_on_append) (simp add: split_on_plain)
  have "csp_listing sources = (''default-src '' @ csp_quote ''none'') @ CHR '';'' # ('' style-src '' @ csp_quote ''self'') @ CHR '';''
      # (('' form-action '' @ csp_quote ''self'') @ ?list) @ CHR '';'' # ('' frame-ancestors '' @ csp_quote ''none'') @ CHR '';''
      # ('' base-uri '' @ csp_quote ''none'')"
    by (simp add: csp_listing_def csp_with_def)
  moreover have "filter (\<lambda>w. w \<noteq> []) (split_on (CHR '' '') (''default-src '' @ csp_quote ''none'')) = [''default-src'', csp_quote ''none'']"
    "filter (\<lambda>w. w \<noteq> []) (split_on (CHR '' '') ('' style-src '' @ csp_quote ''self'')) = [''style-src'', csp_quote ''self'']"
    "filter (\<lambda>w. w \<noteq> []) (split_on (CHR '' '') ('' form-action '' @ csp_quote ''self'')) = [''form-action'', csp_quote ''self'']"
    "filter (\<lambda>w. w \<noteq> []) (split_on (CHR '' '') ('' frame-ancestors '' @ csp_quote ''none'')) = [''frame-ancestors'', csp_quote ''none'']"
    "filter (\<lambda>w. w \<noteq> []) (split_on (CHR '' '') ('' base-uri '' @ csp_quote ''none'')) = [''base-uri'', csp_quote ''none'']"
    by code_simp+
  moreover have "list_all (\<lambda>x. CHR '';'' \<notin> set x) [''default-src '' @ csp_quote ''none'', '' style-src '' @ csp_quote ''self'',
      '' form-action '' @ csp_quote ''self'', '' frame-ancestors '' @ csp_quote ''none'', '' base-uri '' @ csp_quote ''none'']"
    by code_simp
  ultimately show ?thesis
    by (simp only: split csp_words [OF assms] eri_directives_def list.map comp_apply)
qed

text \<open>C31: No response is served without its security headers, whichever handler or error path built it.  Off the
  four public documents it is never stored, sniffed or framed and carries a content policy that lists
  at most two sources: each is the origin of an http or https URL or the scheme of a native one, and that
  URL is the provider itself, its Google authorization URL, a registered post-logout URI or a redirect
  URI trusted in the registry of a client.  Unless such an origin itself has a space or a semicolon, a browser reads the
  policy as five directives: nothing loads but the stylesheet, forms go only to the server and
  the listed sources, nobody frames the page, no base URI.  Cross-origin reading is allowed only to the very origin that
  asked, and only if a registered client declares that origin; the public documents allow every origin.\<close>

theorem responses_hardened:
  assumes "serve I s rq w = (r, w')" and "framework_laws (io_http I)"
  shows "(rq_path rq \<notin> set public_paths \<longrightarrow>
       header_get ''cache-control'' (rs_headers r) = Some ''no-store''
       \<and> header_get ''x-content-type-options'' (rs_headers r) = Some ''nosniff''
       \<and> header_get ''x-frame-options'' (rs_headers r) = Some ''DENY''
       \<and> header_get ''referrer-policy'' (rs_headers r) \<noteq> None
       \<and> (\<exists>policy uris sources. header_get ''content-security-policy'' (rs_headers r) = Some policy
            \<and> length uris \<le> 2 \<and> (\<forall>uri \<in> set uris. \<exists>p. as_provider s = Some p \<and> form_target I p uri)
            \<and> list_all2 (csp_source (io_libs I)) uris sources \<and> policy = csp_listing sources
            \<and> (list_all csp_word sources \<longrightarrow> csp_directives policy = eri_directives sources))
       \<and> (\<forall>o'. header_get ''access-control-allow-origin'' (rs_headers r) = Some o' \<longrightarrow>
            origin (io_http I) (rq_headers rq) = Some o'
            \<and> (\<exists>p. as_provider s = Some p \<and> reviewed_browser_origin (pr_registry p) o')))
    \<and> (rq_path rq \<in> set public_paths \<longrightarrow>
       header_get ''access-control-allow-origin'' (rs_headers r) = Some ''*''
       \<and> header_get ''x-content-type-options'' (rs_headers r) = Some ''nosniff'')"
proof -
  obtain r0 where r0: "dispatch I s rq w = (r0, w')" "r = drop_body rq (security_middleware (rq_path rq) r0)"
    using assms(1) by (cases "dispatch I s rq w") (auto simp: serve_def)
  have public: "rs_headers r = public_security (rs_headers r0)" if "rq_path rq \<in> set public_paths"
    using that by (simp add: r0(2) security_middleware_def)
  have other: "rs_headers r = sensitive_headers (rs_headers r0)" if "rq_path rq \<notin> set public_paths"
    using that by (simp add: r0(2) security_middleware_def)
  let ?T = "\<lambda>uri. \<exists>p. as_provider s = Some p \<and> form_target I p uri"
  have "(\<exists>policy uris sources. header_get csp_text (rs_headers r) = Some policy
            \<and> length uris \<le> 2 \<and> (\<forall>uri \<in> set uris. ?T uri)
            \<and> list_all2 (csp_source (io_libs I)) uris sources \<and> policy = csp_listing sources
            \<and> (list_all csp_word sources \<longrightarrow> csp_directives policy = eri_directives sources))
      \<and> (\<forall>o'. header_get acao_text (rs_headers r) = Some o' \<longrightarrow> origin (io_http I) (rq_headers rq) = Some o'
            \<and> (\<exists>p. as_provider s = Some p \<and> reviewed_browser_origin (pr_registry p) o'))"
    if path: "rq_path rq \<notin> set public_paths"
  proof -
    have "own_policy (io_libs I) ?T v" if "header_get csp_text (rs_headers r0) = Some v" for v
      using dispatch_cors_ok [OF assms(2) path, of s w] that own_policy_mono [of "io_libs I" _ v ?T]
      by (auto simp: r0(1) contained_def cors_ok_def)
    then have "\<exists>policy. header_get csp_text (rs_headers r) = Some policy \<and> own_policy (io_libs I) ?T policy"
      by (auto simp: other [OF path] sensitive_header csp_text_def split: option.splits)
    moreover have "header_get acao_text (rs_headers r) = header_get acao_text (rs_headers r0)"
      by (simp add: other [OF path] sensitive_header acao_text_def)
    then have "\<forall>o'. header_get acao_text (rs_headers r) = Some o' \<longrightarrow> origin (io_http I) (rq_headers rq) = Some o'
            \<and> (\<exists>p. as_provider s = Some p \<and> reviewed_browser_origin (pr_registry p) o')"
      using dispatch_cors_ok [OF assms(2) path, of s w] by (auto simp: r0(1) contained_def cors_ok_def)
    ultimately show ?thesis using csp_listing_directives unfolding own_policy_def by metis
  qed
  then show ?thesis
    using other public by (simp add: sensitive_header public_security_def csp_text_def acao_text_def)
qed

end
