(* ===== verification/Service_Invariant.thy ===== *)
theory Service_Invariant
  imports Router System Fetcher_Properties
begin

text \<open>
  Every HTTP request keeps the state sound: whatever endpoint it reaches, the database keeps its
  invariant and only grows in the sense of \<open>db_le\<close>, and the metadata fetcher gets its flights and
  permits back.
\<close>

section \<open>Transactions of the stores\<close>

text \<open>A sequence of requests to the stores, each run as a transaction on the state before it.\<close>

definition run_requests :: "libs \<Rightarrow> binding_codec \<Rightarrow> request list \<Rightarrow> db \<Rightarrow> db" where
  "run_requests L B ts d = foldl (\<lambda>d t. run_request L B t d d d) d ts"

definition runs :: "libs \<Rightarrow> binding_codec \<Rightarrow> db \<Rightarrow> db \<Rightarrow> bool" where
  "runs L B d d' \<longleftrightarrow> (\<exists>ts. d' = run_requests L B ts d)"

lemma runs_refl [simp]: "runs L B d d"
  unfolding runs_def by (rule exI [of _ "[]"]) (simp add: run_requests_def)

lemma runs_trans: "runs L B d d1 \<Longrightarrow> runs L B d1 d2 \<Longrightarrow> runs L B d d2"
proof -
  assume "runs L B d d1" "runs L B d1 d2"
  then obtain ts us where "d1 = run_requests L B ts d" "d2 = run_requests L B us d1" by (auto simp: runs_def)
  then have "d2 = run_requests L B (ts @ us) d" by (simp add: run_requests_def)
  then show ?thesis unfolding runs_def by blast
qed

lemma runs_request: "runs L B d (run_request L B t d d d)"
  unfolding runs_def by (rule exI [of _ "[t]"]) (simp add: run_requests_def)

lemmas runs_browser = runs_request [where t = "BrowserRequest b" for b, unfolded run_request.simps]
lemmas runs_logout = runs_request [where t = "LogoutRequest b" for b, unfolded run_request.simps]
lemmas runs_credential = runs_request [where t = "CredentialRequest b" for b, unfolded run_request.simps]

lemma runs_sound: "runs L B d d' \<Longrightarrow> sound_step d d'"
proof -
  have "sound_step d (run_requests L B ts d)" for ts
  proof (induction ts arbitrary: d)
    case (Cons t ts)
    have "sound_step d (run_request L B t d d d)"
      using sound_request [of d d d L B t] by (auto simp: sound_step_def)
    from sound_step_trans [OF this Cons.IH] show ?case by (simp add: run_requests_def)
  qed (simp add: run_requests_def)
  then show "runs L B d d' \<Longrightarrow> sound_step d d'" by (auto simp: runs_def)
qed

section \<open>Steps of the world\<close>

text \<open>A step of the world moves the database by \<open>R\<close> and gives the metadata fetcher back what it lent;
  an operation is sound when it is such a step from every world.\<close>

definition world_step :: "(db \<Rightarrow> db \<Rightarrow> bool) \<Rightarrow> world \<Rightarrow> world \<Rightarrow> bool" where
  "world_step R w w' \<longleftrightarrow> R (wd_db w) (wd_db w')
     \<and> fe_in_flight (wd_fetcher w') = fe_in_flight (wd_fetcher w) \<and> fe_permits (wd_fetcher w') = fe_permits (wd_fetcher w)"

definition sound_run :: "(db \<Rightarrow> db \<Rightarrow> bool) \<Rightarrow> (world \<Rightarrow> 'r \<times> world) \<Rightarrow> bool" where
  "sound_run R m \<longleftrightarrow> (\<forall>w. world_step R w (snd (m w)))"

lemma sound_runI: "(\<And>w. world_step R w (snd (m w))) \<Longrightarrow> sound_run R m"
  by (simp add: sound_run_def)

lemma sound_runD: "sound_run R m \<Longrightarrow> world_step R w (snd (m w))"
  by (simp add: sound_run_def)

lemma fetch_leased_flights:
  assumes "fetch_leased L N e st client_id = (out, st')"
  shows "fe_in_flight st' = fe_in_flight st \<and> fe_permits st' = fe_permits st"
proof (cases "start_fetch L (env_instant e 0) st client_id" rule: prod.exhaust)
  case (Pair o1 st1)
  from Pair show ?thesis
  proof (cases rule: start_fetch_cases)
    case (flying target)
    have "removeAll client_id (fe_in_flight st) = fe_in_flight st" using flying(4) by simp
    then show ?thesis using assms flying Pair
      by (cases "fetch_document L N client_id target")
        (auto simp: fetch_leased_outcomes finish_fetch_def Let_def drop_flight_def)
  qed (use assms Pair in \<open>auto simp: fetch_leased_outcomes\<close>)
qed

text \<open>
  The handlers as a client of the store.  Whatever a handler does to the database it does by the
  store's operations: a relation that holds across each of them (and is reflexive and transitive)
  holds across the handlers.  The operations that approve an authorization are kept apart.
\<close>

locale store_client =
  fixes I :: io and R :: "db \<Rightarrow> db \<Rightarrow> bool"
  assumes same: "R d d"
    and chain: "R d d1 \<Longrightarrow> R d1 d2 \<Longrightarrow> R d d2"
    and started:
      "R d (snd (begin_google_with_pre_authorization (io_libs I) (io_codec I) e d pending state nonce allow))"
      "R d (snd (start_google (io_libs I) e d tid state' binding))"
      "R d (snd (cancel_google_bound (io_libs I) (io_codec I) e d tid state' binding registry))"
      "R d (snd (begin_authenticated_with_pre_authorization (io_libs I) (io_codec I) e d session pending state nonce allow))"
    and returned:
      "R d (snd (claim_callback (io_libs I) e d state' binding))"
      "R d (snd (fail_callback (io_libs I) d claim))"
      "R d (snd (deny_callback (io_libs I) (io_codec I) e d claim reg))"
      "R d (snd (complete_callback_bound (io_libs I) (io_codec I) e d claim identity lifetime registry))"
    and shown: "R d (snd (consent_view (io_libs I) (io_codec I) e d session handle reg))"
    and denied: "R d (snd (deny_bound (io_libs I) (io_codec I) e d session handle registry))"
    and closed:
      "R d (snd (begin_logout (io_libs I) e d session client uri state reg))"
      "R d (snd (begin_local (io_libs I) e d session uri))"
      "R d (snd (finish (io_libs I) e d session challenge reg))"
      "R d (snd (finish_hint (io_libs I) e d session challenge reg hint))"
    and redeemed:
      "R d (snd (exchange_code_request (io_libs I) (io_codec I) now e d d d raw client uri resource verifier scopes reg))"
      "R d (snd (rotate_refresh_request (io_libs I) (io_codec I) e d d d raw client resource scopes reg))"
      "R d (snd (revoke_refresh (io_libs I) e d d raw client))"
begin

lemmas store_steps = started returned shown denied closed redeemed

declare same [simp]

lemma world_step_refl [simp]: "world_step R w w"
  by (simp add: world_step_def same)

lemma world_step_trans: "world_step R w w1 \<Longrightarrow> world_step R w1 w2 \<Longrightarrow> world_step R w w2"
  unfolding world_step_def using chain by metis

lemma world_step_key_cache [simp]: "world_step R w (w\<lparr>wd_key_cache := c\<rparr>)"
  by (simp add: world_step_def same)

lemma sound_then:
  assumes "sound_run R m" and "m w = (r, w1)" and "world_step R w1 w2"
  shows "world_step R w w2"
  using sound_runD [OF assms(1), where w = w] assms(2,3) world_step_trans by (metis snd_conv)

lemma world_step_db:
  assumes "R (wd_db w) (snd (f (wd_db w)))"
  shows "world_step R w (snd (run_db f w))"
  using assms by (cases "f (wd_db w)") (simp add: run_db_def world_step_def)

lemma world_step_or_answer:
  assumes "world_step R w (snd m)" and "\<And>v w'. m = (Inr v, w') \<Longrightarrow> world_step R w' (snd (f v w'))"
  shows "world_step R w (snd (or_answer m failed f))"
proof (cases m)
  case (Pair r w')
  then show ?thesis using assms world_step_trans [where w = w and ?w1.0 = w'] by (cases r) (auto simp: or_answer_def)
qed

lemma sound_resolve: "sound_run R (resolve_client I p k client_id)"
proof (rule sound_runI)
  fix w :: world
  obtain out f where run: "fetch_leased (io_libs I) (io_fetch I k) (io_fetch_env I k) (wd_fetcher w) client_id = (out, f)"
    by fastforce
  from fetch_leased_flights [OF this] show "world_step R w (snd (resolve_client I p k client_id w))"
    by (cases out) (auto simp: resolve_client_def run world_step_def split: option.splits)
qed

lemma sound_attempt:
  assumes "\<And>reg d. R d (snd (operation reg d))"
  shows "sound_run R (attempt_once I p k client_id operation)"
proof (rule sound_runI)
  fix w :: world
  obtain r w1 where r: "resolve_client I p k client_id w = (r, w1)" by fastforce
  show "world_step R w (snd (attempt_once I p k client_id operation w))"
  proof (cases r)
    case (Inl u)
    then show ?thesis using sound_then [OF sound_resolve r] by (simp add: attempt_once_def r)
  next
    case (Inr reg)
    have "world_step R w (snd (run_db (operation reg) w1))"
      using sound_then [OF sound_resolve r world_step_db] assms by blast
    then show ?thesis by (cases "run_db (operation reg) w1") (auto simp: attempt_once_def r Inr split: sum.splits)
  qed
qed

lemma sound_with_policy:
  assumes "\<And>n reg d. R d (snd (operation n reg d))"
  shows "sound_run R (with_policy I p k expired client_id operation)"
proof (rule sound_runI)
  fix w :: world
  obtain r w1 where r: "attempt_once I p k client_id (operation k) w = (r, w1)" by fastforce
  have first: "world_step R w w1" using sound_then [OF sound_attempt r] assms by simp
  have "world_step R w1 (snd (attempt_once I p (Suc k) client_id (operation (Suc k)) w1))"
    using sound_runD [OF sound_attempt] assms by blast
  with first have "world_step R w (snd (attempt_once I p (Suc k) client_id (operation (Suc k)) w1))"
    by (rule world_step_trans)
  with first show "world_step R w (snd (with_policy I p k expired client_id operation w))"
    by (auto simp: with_policy_def r split: resolved.splits)
qed

lemma world_step_with_policy:
  assumes "with_policy I p k expired client_id operation w = (r, w1)"
    and "\<And>n reg d. R d (snd (operation n reg d))" and "world_step R w1 w2"
  shows "world_step R w w2"
  using sound_then [OF sound_with_policy assms(1,3)] assms(2) by blast

lemma registry_steps:
  "R d (snd (cancel_google_with_registry (io_libs I) (io_codec I) e d tid state binding reg))"
  "R d (snd (complete_callback_with_registry (io_libs I) (io_codec I) e d claim identity lifetime reg))"
  "R d (snd (deny_with_registry (io_libs I) (io_codec I) e d session handle reg))"
  by (simp_all add: cancel_google_with_registry_def complete_callback_with_registry_def deny_with_registry_def store_steps)

lemma sound_redeem: "R d (snd (redeem_grant I t g n reg d))"
  by (cases g) (simp_all add: redeemed)

lemma sound_begin_challenge: "R d (snd (begin_challenge I p session r d))"
  by (simp add: begin_challenge_def closed split: option.splits)

lemma step_consent_page: "world_step R w (snd (consent_page I p k session handle w))"
proof (cases "transaction_client_id (wd_db w) (ch_transaction_id handle)")
  case (Inr client)
  let ?op = "\<lambda>n registry d. consent_view (io_libs I) (io_codec I) (io_env I n) d session handle registry"
  obtain r w1 where r: "with_policy I p k BrMetadataExpired client ?op w = (r, w1)" by fastforce
  have "world_step R w w1" by (rule world_step_with_policy [OF r]) (simp_all add: store_steps)
  then show ?thesis by (cases r) (auto simp: consent_page_def Inr r)
qed (simp add: consent_page_def)

lemma step_authorize_without_session:
  "world_step R w (snd (authorize_without_session I p k registry h a pending allow w))"
  unfolding authorize_without_session_def
  by (auto intro!: world_step_or_answer world_step_db store_steps)

lemma step_google_cancel: "world_step R w (snd (google_cancel I p tid state binding name w))"
proof (cases "transaction_client_id (wd_db w) tid")
  case (Inr client)
  let ?op = "\<lambda>n registry d. cancel_google_with_registry (io_libs I) (io_codec I) (io_env I n) d tid state binding registry"
  obtain r w1 where r: "with_policy I p 0 BrMetadataExpired client ?op w = (r, w1)" by fastforce
  have "world_step R w w1" by (rule world_step_with_policy [OF r]) (simp_all add: registry_steps)
  then show ?thesis by (cases r) (auto simp: google_cancel_def Inr r)
qed (simp add: google_cancel_def)

lemma step_google_continue: "world_step R w (snd (google_continue I p tid state binding w))"
  unfolding google_continue_def
  by (rule world_step_or_answer) (auto intro: world_step_db store_steps split: sum.splits)

lemma step_google_start: "world_step R w (snd (google_start I p h bytes w))"
  by (auto simp: google_start_def Let_def step_google_cancel step_google_continue split: sum.splits option.splits)

lemma sound_claim_first: "sound_run R (claim_first I k state cookies)"
proof (induction cookies arbitrary: k)
  case (Cons c cookies)
  obtain name binding where c: "c = (name, binding)" by (cases c)
  show ?case
  proof (rule sound_runI)
    fix w :: world
    obtain r w1 where r: "run_db (\<lambda>d. claim_callback (io_libs I) (io_env I k) d state binding) w = (r, w1)" by fastforce
    have first: "world_step R w w1" using world_step_db [where w = w and f = "\<lambda>d. claim_callback (io_libs I) (io_env I k) d state binding",
        OF returned(1)] r by simp
    then have "world_step R w (snd (claim_first I (Suc k) state cookies w1))"
      using world_step_trans [OF first sound_runD [OF Cons.IH]] by blast
    then show "world_step R w (snd (claim_first I k state (c # cookies) w))"
      using first by (auto simp: c r split: sum.splits)
  qed
qed (simp add: sound_run_def)

lemma step_failed_callback: "world_step R w (snd (failed_callback I p claim name message w))"
proof -
  obtain r w1 where r: "run_db (\<lambda>d. fail_callback (io_libs I) d claim) w = (r, w1)" by fastforce
  then show ?thesis using world_step_db [where w = w and f = "\<lambda>d. fail_callback (io_libs I) d claim", OF returned(2)]
    by (simp add: failed_callback_def)
qed

lemma step_denied_callback: "world_step R w (snd (denied_callback I p claim name w))"
proof (cases "callback_client_id (io_libs I) (wd_db w) claim")
  case (Inr client)
  let ?op = "\<lambda>n registry d. deny_callback (io_libs I) (io_codec I) (io_env I n) d claim registry"
  obtain r w1 where r: "with_policy I p 10 BrMetadataExpired client ?op w = (r, w1)" by fastforce
  have "world_step R w w1" by (rule world_step_with_policy [OF r]) (simp_all add: store_steps)
  then show ?thesis by (simp add: denied_callback_def Inr r)
qed (simp add: denied_callback_def)

lemma step_consent_get: "world_step R w (snd (consent_get I p raw h w))"
  by (auto simp: consent_get_def step_consent_page split: sum.splits option.splits)

lemma step_token: "world_step R w (snd (token_endpoint I keys p h bytes w))"
proof -
  have bad: "world_step R w (snd (case resolve_client I p 0 client w of
      (Inl _, w) \<Rightarrow> (token_error ''invalid_grant'', w) | (Inr _, w) \<Rightarrow> (token_error code, w)))" for client code
  proof -
    obtain u w2 where u: "resolve_client I p 0 client w = (u, w2)" by fastforce
    show ?thesis using sound_then [OF sound_resolve u] by (auto simp: u split: sum.splits)
  qed
  have good: "world_step R w (snd (case with_policy I p 0 CredMetadataExpired client (redeem_grant I t g) w of
      (Unresolved, w) \<Rightarrow> (token_error ''invalid_grant'', w)
    | (outcome, w) \<Rightarrow> (cors_for (io_http I) h (token_response_of I keys p outcome), w)))" for client t g
  proof -
    obtain r w1 where r: "with_policy I p 0 CredMetadataExpired client (redeem_grant I t g) w = (r, w1)" by fastforce
    have "world_step R w w1" by (rule world_step_with_policy [OF r]) (simp_all add: sound_redeem)
    then show ?thesis by (cases r) (auto simp: r)
  qed
  show ?thesis unfolding token_endpoint_def using bad good by (simp split: sum.split)
qed

lemma step_userinfo: "world_step R w (snd (userinfo_endpoint I keys p h bytes w))"
  by (auto simp: userinfo_endpoint_def split: option.splits)

lemma step_revoke: "world_step R w (snd (revoke_endpoint I p h bytes w))"
proof -
  have "world_step R w (snd (case run_db (\<lambda>d. revoke_refresh (io_libs I) (io_env I 0) d d v client) w of
      (Inl _, w) \<Rightarrow> (r1, w) | (Inr _, w) \<Rightarrow> (r2, w)))" for v client r1 r2
    using world_step_db [where w = w and f = "\<lambda>d. revoke_refresh (io_libs I) (io_env I 0) d d v client", OF redeemed(3)]
    by (cases "run_db (\<lambda>d. revoke_refresh (io_libs I) (io_env I 0) d d v client) w") (auto split: sum.splits)
  then show ?thesis by (auto simp: revoke_endpoint_def split: sum.splits option.splits)
qed

lemma step_logout_rp: "world_step R w (snd (logout_rp I keys p h q w))"
  unfolding logout_rp_def
  by (auto intro!: world_step_or_answer world_step_db sound_begin_challenge store_steps split: option.splits)

lemma step_logout_confirmed: "world_step R w (snd (logout_confirmed I p h q w))"
  unfolding logout_confirmed_def
  by (auto intro!: world_step_or_answer world_step_db store_steps split: option.splits sum.splits)

text \<open>The endpoints that approve nothing.\<close>

lemma step_not_approving:
  "endpoint \<notin> {AuthorizeGet, AuthorizePost, Callback, ConsentPost} \<Longrightarrow>
     world_step R w (snd (run_handler I keys p rq endpoint w))"
  by (cases endpoint)
    (auto simp: with_body_def logout_get_def logout_post_def step_google_start step_consent_get step_token
      step_userinfo step_revoke step_logout_rp step_logout_confirmed split: sum.splits)

end

text \<open>The client of a store whose approvals keep the relation too: every handler does.\<close>

locale approving_store_client = store_client +
  assumes approved:
      "R d (snd (approve (io_libs I) (io_codec I) e d session handle reg))"
      "R d (snd (approve_pre_authorized (io_libs I) (io_codec I) e d session handle reg))"
begin

lemma sound_decide: "R d (snd (decide I p action session handle n reg d))"
  by (simp add: decide_def approved registry_steps)

lemma step_authorize_with_session:
  "world_step R w (snd (authorize_with_session I p k registry a pending allow session w))"
  unfolding authorize_with_session_def
  by (auto intro!: world_step_or_answer world_step_db store_steps approved step_consent_page split: option.splits)

lemma sound_authorize_valid: "sound_run R (authorize_valid I p k q h registry)"
  by (rule sound_runI)
    (auto simp: authorize_valid_def Let_def step_authorize_with_session step_authorize_without_session
      split: sum.splits option.splits)

lemma sound_authorize_pass: "sound_run R (authorize_pass I p k final q h client redirect)"
proof (rule sound_runI)
  fix w :: world
  obtain r w1 where r: "resolve_client I p k client w = (r, w1)" by fastforce
  have first: "world_step R w w1" using sound_then [OF sound_resolve r] by simp
  show "world_step R w (snd (authorize_pass I p k final q h client redirect w))"
  proof (cases r)
    case (Inr reg)
    obtain out w2 where v: "authorize_valid I p k q h reg w1 = (out, w2)" by fastforce
    have "world_step R w w2" using world_step_trans [OF first sound_then [OF sound_authorize_valid v]] by simp
    with first show ?thesis by (auto simp: authorize_pass_def r Inr v split: sum.splits)
  qed (simp add: authorize_pass_def r first)
qed

lemma sound_authorize: "sound_run R (authorize I p raw h)"
proof (rule sound_runI)
  fix w :: world
  have two: "world_step R w (snd (case authorize_pass I p 0 False q h client redirect w of
        (Some r, w) \<Rightarrow> (r, w)
      | (None, w) \<Rightarrow> (case authorize_pass I p 100 True q h client redirect w of
          (Some r, w) \<Rightarrow> (r, w) | (None, w) \<Rightarrow> (local_error expired_text, w))))" for q client redirect
  proof -
    obtain r1 w1 where r1: "authorize_pass I p 0 False q h client redirect w = (r1, w1)" by fastforce
    obtain r2 w2 where r2: "authorize_pass I p 100 True q h client redirect w1 = (r2, w2)" by fastforce
    have "world_step R w w1" "world_step R w1 w2"
      using sound_then [OF sound_authorize_pass r1] sound_then [OF sound_authorize_pass r2] by simp_all
    then show ?thesis by (auto simp: r1 r2 intro: world_step_trans split: option.splits)
  qed
  then show "world_step R w (snd (authorize I p raw h w))"
    by (auto simp: authorize_def split: sum.splits option.splits)
qed

lemma step_finish_login: "world_step R w (snd (finish_login I p completion name w))"
proof (cases "transaction_client_id (wd_db w) (ch_transaction_id (lgc_consent completion))")
  case (Inr client)
  let ?op = "\<lambda>n registry d. approve_pre_authorized (io_libs I) (io_codec I) (io_env I n) d (lgc_session completion)
    (lgc_consent completion) registry"
  obtain r w1 where r: "with_policy I p 30 BrMetadataExpired client ?op w = (r, w1)" by fastforce
  have first: "world_step R w w1" by (rule world_step_with_policy [OF r]) (simp_all add: store_steps approved)
  have "world_step R w (snd (consent_page I p 40 (lgc_session completion) (lgc_consent completion) w1))"
    using world_step_trans [OF first step_consent_page] .
  then show ?thesis using first
    by (auto simp: finish_login_def Let_def Inr r split: resolved.splits option.splits)
qed (auto simp: finish_login_def Let_def step_consent_page)

lemma step_completed_callback: "world_step R w (snd (completed_callback I p claim name identity w))"
proof (cases "callback_client_id (io_libs I) (wd_db w) claim")
  case (Inr client)
  let ?op = "\<lambda>n registry d. complete_callback_with_registry (io_libs I) (io_codec I) (io_env I n) d claim identity month registry"
  obtain r w1 where r: "with_policy I p 20 BrMetadataExpired client ?op w = (r, w1)" by fastforce
  have first: "world_step R w w1" by (rule world_step_with_policy [OF r]) (simp_all add: registry_steps)
  then show ?thesis using world_step_trans [OF first step_finish_login]
    by (auto simp: completed_callback_def Inr r split: resolved.splits)
qed (simp add: completed_callback_def)

lemma step_callback_claimed: "world_step R w (snd (callback_claimed I p c winner w))"
proof -
  have "world_step R w (snd (failed_callback I p claim name message (w\<lparr>wd_key_cache := cache\<rparr>)))"
    "world_step R w (snd (completed_callback I p claim name identity (w\<lparr>wd_key_cache := cache\<rparr>)))"
    for claim name message cache identity
    by (rule world_step_trans [OF world_step_key_cache step_failed_callback],
        rule world_step_trans [OF world_step_key_cache step_completed_callback])
  then show ?thesis
    by (auto simp: callback_claimed_def step_failed_callback step_denied_callback split: prod.splits option.splits sum.splits)
qed

lemma step_callback: "world_step R w (snd (callback I p raw h w))"
proof (cases "Option.bind (case pairs (io_libs I) (or_default raw []) 4096 of Inr q \<Rightarrow> Some q | Inl _ \<Rightarrow> None) callback_params_of")
  case (Some c)
  obtain r w1 where r: "claim_first I 0 (cb_state c) (transaction_cookies (io_libs I) (io_http I) h (pr_secure p)) w = (r, w1)"
    by fastforce
  have first: "world_step R w w1" using sound_then [OF sound_claim_first r] by simp
  then show ?thesis using world_step_trans [OF first step_callback_claimed]
    by (auto simp: callback_def Some r split: option.splits)
qed (simp add: callback_def)

lemma step_consent_decision: "world_step R w (snd (consent_decision I p action session handle w))"
proof (cases "transaction_client_id (wd_db w) (ch_transaction_id handle)")
  case (Inr client)
  obtain r w1 where r: "with_policy I p (Suc 0) BrMetadataExpired client (decide I p action session handle) w = (r, w1)" by fastforce
  obtain u w2 where u: "resolve_client I p (Suc 0) client w = (u, w2)" by fastforce
  have "world_step R w w1" by (rule world_step_with_policy [OF r]) (simp_all add: sound_decide)
  moreover have "world_step R w w2" using sound_then [OF sound_resolve u] by simp
  ultimately show ?thesis by (auto simp: consent_decision_def Inr r u split: resolved.splits sum.splits)
qed (simp add: consent_decision_def)

lemma step_consent_post: "world_step R w (snd (consent_post I p h bytes w))"
  by (auto simp: consent_post_def step_consent_decision split: sum.splits option.splits)

lemma step_run_handler: "world_step R w (snd (run_handler I keys p rq endpoint w))"
proof (cases "endpoint \<in> {AuthorizeGet, AuthorizePost, Callback, ConsentPost}")
  case True
  then show ?thesis
    by (auto simp: with_body_def authorize_get_def authorize_post_def step_callback step_consent_post
        sound_runD [OF sound_authorize])
qed (rule step_not_approving)

lemma step_serve: "world_step R w (snd (serve I s rq w))"
  by (auto simp: serve_def dispatch_def step_run_handler split: option.splits handler.splits)

end

section \<open>The store as the handlers use it\<close>

lemma runs_store:
  "runs L B d (snd (begin_google_with_pre_authorization L B e d p st n a))"
  "runs L B d (snd (start_google L e d i gst b))"
  "runs L B d (snd (cancel_google_bound L B e d i gst b r))"
  "runs L B d (snd (begin_authenticated_with_pre_authorization L B e d v p dst n a))"
  "runs L B d (snd (claim_callback L e d gst b))"
  "runs L B d (snd (fail_callback L d c))"
  "runs L B d (snd (deny_callback L B e d c reg))"
  "runs L B d (snd (complete_callback_bound L B e d c identity t r))"
  "runs L B d (snd (approve L B e d v h reg))"
  "runs L B d (snd (approve_pre_authorized L B e d v h reg))"
  "runs L B d (snd (consent_view L B e d v h reg))"
  "runs L B d (snd (deny_bound L B e d v h r))"
  "runs L B d (snd (begin_logout L e d v c u dst reg))"
  "runs L B d (snd (begin_local L e d v u))"
  "runs L B d (snd (finish L e d v ch reg))"
  "runs L B d (snd (finish_hint L e d v ch reg hint))"
  using runs_browser [of L B d "BeginGoogle e p st n a"] runs_browser [of L B d "StartGoogle e i gst b"]
    runs_browser [of L B d "CancelGoogle e i gst b r"] runs_browser [of L B d "BeginAuthenticated e v p dst n a"]
    runs_browser [of L B d "ClaimCallback e gst b"] runs_browser [of L B d "FailCallback c"]
    runs_browser [of L B d "DenyCallback e c reg"] runs_browser [of L B d "CompleteCallback e c identity t r"]
    runs_browser [of L B d "Approve e v h reg"] runs_browser [of L B d "ApprovePreAuthorized e v h reg"]
    runs_browser [of L B d "ConsentView e v h reg"] runs_browser [of L B d "Deny e v h r"]
    runs_logout [of L B d "BeginLogout e v c u dst reg"] runs_logout [of L B d "BeginLocal e v u"]
    runs_logout [of L B d "Finish e v ch reg"] runs_logout [of L B d "FinishHint e v ch reg hint"]
  by simp_all

lemma runs_redeemed:
  "runs L B d (snd (exchange_code_request L B now e d d d raw client uri resource verifier scopes reg))"
  "runs L B d (snd (rotate_refresh_request L B e d d d raw client resource scopes reg))"
  "runs L B d (snd (revoke_refresh L e d d raw client))"
  using runs_credential [of L B d "ExchangeCode now e raw client uri resource verifier scopes reg"]
    runs_credential [of L B d "RotateRefresh e raw client resource scopes reg"]
    runs_credential [of L B d "RevokeRefresh e raw client"]
  by simp_all

interpretation handlers: approving_store_client I "runs (io_libs I) (io_codec I)" for I
  by unfold_locales (auto simp: runs_store runs_redeemed intro: runs_trans)

text \<open>C16: Serving a request, whatever its method, path, headers and body, with whatever clocks, random numbers and
  answers of the network, keeps the database invariant, only ever extends the database (no credential,
  authorization, challenge or identity disappears or is rebound, nothing consumed or revoked comes
  back), and returns every permit and flight of the metadata fetcher, on every error path too.\<close>

theorem every_http_request_is_sound:
  assumes "serve I s rq w = (response, w')" and "db_inv (wd_db w)"
  shows "db_inv (wd_db w') \<and> db_le (wd_db w) (wd_db w')
    \<and> fe_in_flight (wd_fetcher w') = fe_in_flight (wd_fetcher w) \<and> fe_permits (wd_fetcher w') = fe_permits (wd_fetcher w)"
  using handlers.step_serve [of I w s rq] assms runs_sound by (fastforce simp: world_step_def sound_step_def)

end
