(* ===== verification/Service_Properties.thy ===== *)
theory Service_Properties
  imports Service_Headers Service_Invariant Session_Properties Token_Properties
begin

text \<open>
  What the endpoints guarantee to the outside: where they redirect, what they hand out and to whom,
  and what a forged request cannot change; with a concrete service for the witnesses.
\<close>

section \<open>A concrete service\<close>

definition ref_http :: http_libs where
  "ref_http = \<lparr>hl_header_ok = (\<lambda>v. True), hl_to_str = Some,
     hl_redirect = (\<lambda>u. \<lparr>rs_status = 303, rs_headers = [(''location'', u)], rs_body = NoBody\<rparr>),
     hl_body_rejection = status_response 413\<rparr>"

definition ref_adapter :: google_adapter where
  "ref_adapter = \<lparr>ga_client_id = ''g'', ga_client_secret_env = ''S'', ga_callback = ''https://auth.shocker.cl/federation/google/callback'',
     ga_endpoints = \<lparr>ge_authorize = AUTHORIZE_ENDPOINT, ge_token = TOKEN_ENDPOINT, ge_jwks = JWKS_ENDPOINT\<rparr>\<rparr>"

definition ref_provider :: provider where
  "ref_provider = \<lparr>pr_registry = ref_registry, pr_cimd_policy = None, pr_google = ref_adapter,
     pr_issuer = ''https://auth.shocker.cl'', pr_userinfo = ''https://auth.shocker.cl/userinfo'', pr_secure = True\<rparr>"

definition ref_google_net :: google_net where
  "ref_google_net = \<lparr>gn_post = (\<lambda>u f. None), gn_get = (\<lambda>u. None), gn_permit = (\<lambda>k. True), gn_header_text = Some,
     gn_client_built = True, gn_var = (\<lambda>v. Some ''secret''), gn_system_secs = Some 1000,
     gn_append_pairs = (\<lambda>u ps. u), gn_token_response = (\<lambda>s. None), gn_jwks = (\<lambda>s. None),
     gn_rsa_new = (\<lambda>n x. None), gn_from_components = (\<lambda>n x. None), gn_decode_header = (\<lambda>t. None),
     gn_decode_claims = (\<lambda>t k v. None)\<rparr>"

definition ref_io :: io where
  "ref_io = \<lparr>io_libs = ref_libs, io_codec = ref_codec, io_crypto = ref_crypto, io_http = ref_http,
     io_env = (\<lambda>n. env_at (seconds 1000) (100 + 10 * n)), io_fetch = (\<lambda>n. meta_net), io_fetch_env = (\<lambda>n. ref_env),
     io_google = ref_google_net, io_now = seconds 1000, io_ready = Finished (Some 1)\<rparr>"

definition ref_app :: app_state where
  "ref_app = \<lparr>as_keys = ref_keys, as_provider = Some ref_provider\<rparr>"

definition ref_world :: "db \<Rightarrow> world" where
  "ref_world d = \<lparr>wd_db = d, wd_fetcher = new_fetcher, wd_key_cache = google_key_cache 0\<rparr>"

lemma ref_http_laws: "framework_laws (io_http ref_io)"
  by (simp add: ref_io_def ref_http_def framework_laws_def code_headers_def status_response_def)

definition post :: "string \<Rightarrow> string \<Rightarrow> http_request" where
  "post path bytes = \<lparr>rq_method = ''POST'', rq_path = path, rq_query = None, rq_headers = [], rq_body = bytes\<rparr>"

theorem every_http_request_is_sound_witness:
  "db_inv (wd_db (snd (serve ref_io ref_app (post ''/token'' ''grant_type=refresh_token&refresh_token=x&client_id=app'') (ref_world sc_db0))))"
proof -
  obtain r w' where run: "serve ref_io ref_app (post ''/token'' ''grant_type=refresh_token&refresh_token=x&client_id=app'') (ref_world sc_db0) = (r, w')"
    by fastforce
  have "db_inv (wd_db (ref_world sc_db0))" by (simp add: ref_world_def)
  from every_http_request_is_sound [OF run this] run show ?thesis by simp
qed

theorem responses_hardened_witness:
  "header_get ''x-frame-options'' (rs_headers (fst (serve ref_io ref_app (post ''/nowhere'' []) (ref_world sc_db0)))) = Some ''DENY''"
proof -
  obtain r w' where run: "serve ref_io ref_app (post ''/nowhere'' []) (ref_world sc_db0) = (r, w')"
    by fastforce
  have "rq_path (post ''/nowhere'' []) \<notin> set public_paths" by (simp add: post_def public_paths_def)
  with responses_hardened [OF run ref_http_laws] run show ?thesis by simp
qed

section \<open>Where the authorization endpoint redirects\<close>

definition location :: "response \<Rightarrow> string option" where
  "location r = header_get ''location'' (rs_headers r)"

lemma location_simps [simp]:
  "location (sensitive r) = location r" "location (with_headers (header_insert ''set-cookie'' v) r) = location r"
  "location (status_response code) = None" "location (html_response code text) = None"
  by (simp_all add: location_def sensitive_def sensitive_header status_response_def html_response_def)

lemma location_pages [simp]:
  "location (local_error m) = None" "location (form_page L H html redirect) = None"
  "location (login_page L H html google redirect) = None"
proof -
  show "location (local_error m) = None" by (simp add: local_error_def)
  have strict: "location (strict_referrer html) = None"
    using location_simps(1) [of "html_response 200 html"] by (simp add: strict_referrer_def location_def html_response_def)
  have "location (policy_header H v r) = location r" for v r by (simp add: policy_header_def location_def)
  with strict show "location (form_page L H html redirect) = None" "location (login_page L H html google redirect) = None"
    by (simp_all add: form_page_def login_page_def split: option.splits)
qed

lemma location_redirect:
  assumes "framework_laws H"
  shows "location (hl_redirect H u) = Some loc \<Longrightarrow> loc = u"
  using assms by (cases "hl_header_ok H u") (auto simp: framework_laws_def location_def code_headers_def)

text \<open>An answer at a redirect URI: the URI itself, then a query separator, then the serialized
  parameters and nothing else: the code or the error, the state if there is one, the issuer.\<close>

definition query_suffix :: "string \<Rightarrow> string \<Rightarrow> string" where
  "query_suffix base q = (if q = [] then [] else if CHR ''?'' \<in> set base then CHR ''&'' # q else CHR ''?'' # q)"

definition answers_at :: "libs \<Rightarrow> string \<Rightarrow> string option \<Rightarrow> string \<Rightarrow> string \<Rightarrow> bool" where
  "answers_at L redirect state issuer loc \<longleftrightarrow> (\<exists>answer x. (answer = ''code'' \<or> answer = ''error'')
     \<and> loc = redirect @ query_suffix redirect (form_serialize L ((answer, x)
         # (case state of None \<Rightarrow> [] | Some s \<Rightarrow> [(''state'', s)]) @ [(''iss'', issuer)])))"

lemma answers_at_redirect_url:
  "answer = ''code'' \<or> answer = ''error'' \<Longrightarrow>
     answers_at L base state issuer (redirect_url L base [(answer, Some x), (''state'', state), (''iss'', Some issuer)])"
  unfolding answers_at_def
  by (intro exI [of _ answer] exI [of _ x])
    (cases state, simp_all add: redirect_url_def query_suffix_def present_items_def List.map_filter_def Let_def)

lemma location_redirects:
  assumes "framework_laws H"
  shows "location (oauth_redirect L H base state issuer code) = Some loc \<Longrightarrow> answers_at L base state issuer loc"
    and "location (code_redirect L H base state issuer code) = Some loc \<Longrightarrow> answers_at L base state issuer loc"
  using location_redirect [OF assms] answers_at_redirect_url
  by (auto simp: oauth_redirect_def code_redirect_def redirect_params_def dest!: location_redirect [OF assms])

lemma location_consent_page [simp]: "location (fst (consent_page I p k session handle w)) = None"
  by (auto simp: consent_page_def split: sum.splits prod.splits resolved.splits)

lemma begin_authenticated_rows:
  assumes "begin_authenticated_with_pre_authorization L B e d session pending downstream nonce allow = (Inr handle, d')"
  shows "\<forall>r \<in> set (db_browser d'). ba_id r = ch_transaction_id handle
    \<longrightarrow> ba_redirect_uri r = pg_redirect_uri pending \<and> ba_downstream_state r = downstream"
proof -
  from assms obtain row where row: "insert_browser d row = Some d'" "ba_id row = ch_transaction_id handle"
      "ba_redirect_uri row = pg_redirect_uri pending" "ba_downstream_state row = downstream"
    unfolding begin_authenticated_with_pre_authorization_def Let_def
    by (auto simp: checked_def insert_or_def browser_row_of_def split: sum.splits option.splits)
  then have "ba_id row \<notin> ba_id ` set (db_browser d)" "db_browser d' = db_browser d @ [row]"
    by (auto simp: insert_browser_def split: if_splits)
  with row(2-4) show ?thesis by (auto simp: image_iff)
qed

lemma with_consent_run:
  assumes "with_consent L e d session handle f = (Inr v, d')"
  obtains s row where "row \<in> set (db_browser d)" "ba_id row = ch_transaction_id handle"
    "ba_session_id row = Some (pv_id session)" "ba_csrf_hash row = Some (hash L (ch_csrf handle))"
    "ba_stage row = AwaitingConsent" "f s row = (Inr v, d')"
proof -
  from assms obtain s row where row: "lock_consent L d (ch_transaction_id handle) (pv_id session) (ch_csrf handle) = Inr row"
      and f: "f s row = (Inr v, d')"
    by (auto simp: with_consent_def checked_def split: sum.splits)
  from row have "row \<in> set (db_browser d)" "ba_id row = ch_transaction_id handle"
    "ba_session_id row = Some (pv_id session)" "ba_csrf_hash row = Some (hash L (ch_csrf handle))"
    "ba_stage row = AwaitingConsent"
    by (auto simp: lock_consent_def find_Some_iff)
  with f show ?thesis by (intro that)
qed

lemma approve_pre_row:
  assumes "approve_pre_authorized L B e d session handle reg = (Inr (Some v), d')"
  shows "\<exists>r \<in> set (db_browser d). ba_id r = ch_transaction_id handle
    \<and> co_redirect_uri v = ba_redirect_uri r \<and> co_downstream_state v = ba_downstream_state r"
proof -
  from assms [unfolded approve_pre_authorized_def]
  obtain s row where row: "row \<in> set (db_browser d)" "ba_id row = ch_transaction_id handle"
    and run: "checked (revalidate L B e 0 reg row) d (\<lambda>pending.
     if \<not> ba_allow_pre_authorization row \<or> \<not> pre_authorizes reg pending then (Inr None, d)
     else checked (map_err policy_error (approve_grant (env_instant e 2) pending True)) d (\<lambda>grant.
     (case insert_authorization_code_tx L B e 0 (env_clock e 1) d (pv_id session) grant (ba_oidc_nonce row)
             (ps_upstream_auth_time s) 60 of
        None \<Rightarrow> (Inl BrDatabase, d)
      | Some (code, d') \<Rightarrow>
        checked (revalidate L B e 3 reg row) d (\<lambda>current.
        if \<not> pre_authorizes reg current then (Inl BrPolicyChanged, d)
        else checked (browser_ensure_fresh (env_clock e 2) s (Some (ba_expires_at row))) d (\<lambda>_.
          (Inr (Some \<lparr>co_code = code, co_redirect_uri = ba_redirect_uri row,
                      co_downstream_state = ba_downstream_state row\<rparr>),
           mark_approved (ch_transaction_id handle) d')))))) = (Inr (Some v), d')"
    by (rule with_consent_run)
  have "co_redirect_uri v = ba_redirect_uri row \<and> co_downstream_state v = ba_downstream_state row"
    using run by (auto simp: checked_def split: sum.splits option.splits prod.splits if_splits)
  with row show ?thesis by blast
qed

lemma or_answer_Inr:
  assumes "or_answer m (\<lambda>err. Inl code) f = (Inr r, w')"
  obtains v w where "m = (Inr v, w)" "f v w = (Inr r, w')"
  using assms by (cases m) (auto simp: or_answer_def split: sum.splits)

lemma run_db_Inr: "run_db f w = (Inr v, w') \<Longrightarrow> \<exists>d. f (wd_db w) = (Inr v, d) \<and> wd_db w' = d"
  by (cases "f (wd_db w)") (auto simp: run_db_def)

lemma consent_page_no_location: "apfst Inr (consent_page I p k session handle w) = (Inr r, w') \<Longrightarrow> location r = None"
  using location_consent_page [of I p k session handle w] by (cases "consent_page I p k session handle w") auto

lemma location_with_session:
  assumes "framework_laws (io_http I)"
    and "authorize_with_session I p k registry a pending allow session w = (Inr r, w')" and "location r = Some loc"
  shows "answers_at (io_libs I) (pg_redirect_uri pending) (ap_downstream a) (pr_issuer p) loc"
proof -
  from assms(2) [unfolded authorize_with_session_def]
  have run: "or_answer (run_db (\<lambda>d. begin_authenticated_with_pre_authorization (io_libs I) (io_codec I) (io_env I (k + 2)) d
               session pending (ap_downstream a) (ap_nonce a) allow) w) (\<lambda>_. Inl ''server_error'') (\<lambda>handle w.
        if allow then
          or_answer (run_db (\<lambda>d. approve_pre_authorized (io_libs I) (io_codec I) (io_env I (k + 3)) d session handle registry) w)
            (\<lambda>_. Inl ''server_error'') (\<lambda>outcome w. (case outcome of
               Some v \<Rightarrow> (Inr (code_redirect (io_libs I) (io_http I) (co_redirect_uri v) (co_downstream_state v)
                            (pr_issuer p) (co_code v)), w)
             | None \<Rightarrow> if ap_prompt a = Some ''none'' then (Inl ''consent_required'', w)
                 else apfst Inr (consent_page I p (k + 4) session handle w)))
        else apfst Inr (consent_page I p (k + 4) session handle w)) = (Inr r, w')"
    by (simp split: if_splits)
  then obtain handle w1 where begun: "run_db (\<lambda>d. begin_authenticated_with_pre_authorization (io_libs I) (io_codec I)
        (io_env I (k + 2)) d session pending (ap_downstream a) (ap_nonce a) allow) w = (Inr handle, w1)"
    and rest: "(if allow then
          or_answer (run_db (\<lambda>d. approve_pre_authorized (io_libs I) (io_codec I) (io_env I (k + 3)) d session handle registry) w1)
            (\<lambda>_. Inl ''server_error'') (\<lambda>outcome w. (case outcome of
               Some v \<Rightarrow> (Inr (code_redirect (io_libs I) (io_http I) (co_redirect_uri v) (co_downstream_state v)
                            (pr_issuer p) (co_code v)), w)
             | None \<Rightarrow> if ap_prompt a = Some ''none'' then (Inl ''consent_required'', w)
                 else apfst Inr (consent_page I p (k + 4) session handle w)))
        else apfst Inr (consent_page I p (k + 4) session handle w1)) = (Inr r, w')"
    by (rule or_answer_Inr)
  have allow using rest assms(3) consent_page_no_location by (metis option.distinct(1))
  with rest obtain outcome w2 where approved: "run_db (\<lambda>d. approve_pre_authorized (io_libs I) (io_codec I) (io_env I (k + 3)) d
        session handle registry) w1 = (Inr outcome, w2)"
    and answer: "(case outcome of
               Some v \<Rightarrow> (Inr (code_redirect (io_libs I) (io_http I) (co_redirect_uri v) (co_downstream_state v)
                            (pr_issuer p) (co_code v)), w2)
             | None \<Rightarrow> if ap_prompt a = Some ''none'' then (Inl ''consent_required'', w2)
                 else apfst Inr (consent_page I p (k + 4) session handle w2)) = (Inr r, w')"
    by (auto elim!: or_answer_Inr)
  have "outcome \<noteq> None"
  proof
    assume "outcome = None"
    with answer have "(apfst Inr (consent_page I p (k + 4) session handle w2) :: (string + response) \<times> world) = (Inr r, w')"
      by (simp split: if_splits)
    from consent_page_no_location [OF this] assms(3) show False by simp
  qed
  with answer obtain v where v: "outcome = Some v"
    "r = code_redirect (io_libs I) (io_http I) (co_redirect_uri v) (co_downstream_state v) (pr_issuer p) (co_code v)"
    by (cases outcome) auto
  have "answers_at (io_libs I) (co_redirect_uri v) (co_downstream_state v) (pr_issuer p) loc"
    using location_redirects(2) [OF assms(1)] assms(3) v(2) by blast
  moreover have "co_redirect_uri v = pg_redirect_uri pending \<and> co_downstream_state v = ap_downstream a"
    using run_db_Inr [OF approved] approve_pre_row run_db_Inr [OF begun] begin_authenticated_rows v(1) by metis
  ultimately show ?thesis by simp
qed

lemma location_login_response:
  assumes "framework_laws (io_http I)"
    and "login_response I p registry a pending allow start = Inr r" and "location r = Some loc"
  shows "to_google I p loc"
proof -
  from assms(2,3) obtain va c where u: "authorization_url (io_libs I) (io_google I) (pr_google p)
      (bs_upstream_state start) (bs_upstream_nonce start) c True = Inr va"
    and loc: "location (hl_redirect (io_http I) (url_as_str va)) = Some loc"
    by (auto simp: login_response_def Let_def and_then_Inr_iff split: if_splits)
  from location_redirect [OF assms(1) loc] u show ?thesis unfolding to_google_def by blast
qed

lemma location_without_session:
  assumes "framework_laws (io_http I)"
    and "authorize_without_session I p k registry h a pending allow w = (Inr r, w')" and "location r = Some loc"
  shows "to_google I p loc"
proof -
  from assms(2) obtain start where "login_response I p registry a pending allow start = Inr r"
    unfolding authorize_without_session_def
    by (auto simp: or_answer_def split: if_splits prod.splits sum.splits)
  then show ?thesis using location_login_response [OF assms(1) _ assms(3)] by blast
qed

lemma authorize_params_redirect:
  assumes "authorize_params_of q = Inr a" and "one q ''redirect_uri'' = Some redirect"
  shows "ap_redirect a = redirect" and "optional q ''state'' = Inr (ap_downstream a)"
proof -
  from assms(1) have "required q ''redirect_uri'' = Inr (ap_redirect a)" "optional q ''state'' = Inr (ap_downstream a)"
    by (auto simp: authorize_params_of_def and_then_Inr_iff split: if_splits)
  with assms(2) show "ap_redirect a = redirect" "optional q ''state'' = Inr (ap_downstream a)"
    by (simp_all add: required_def split: if_splits)
qed

lemma location_valid:
  assumes "framework_laws (io_http I)" and "authorize_valid I p k q h registry w = (Inr r, w')"
    and "location r = Some loc" and "one q ''redirect_uri'' = Some redirect"
  shows "(\<exists>state. optional q ''state'' = Inr state \<and> answers_at (io_libs I) redirect state (pr_issuer p) loc) \<or> to_google I p loc"
proof -
  from assms(2) obtain a pending where a: "authorize_params_of q = Inr a"
    and pending: "validate_pending (io_libs I) (env_instant (io_env I k) 0) registry (request_of a) = Inr pending"
    by (auto simp: authorize_valid_def split: sum.splits)
  have "pg_redirect_uri pending = redirect"
    using pending authorize_params_redirect(1) [OF a assms(4)]
    by (auto simp: validate_pending_def validate_pending_parts_Inr request_of_def)
  moreover from assms(2) obtain allow session where
    "authorize_with_session I p k registry a pending allow session w = (Inr r, w')
     \<or> authorize_without_session I p k registry h a pending allow w = (Inr r, w')"
    by (auto simp: authorize_valid_def a pending Let_def split: if_splits option.splits)
  ultimately show ?thesis
    using location_with_session [OF assms(1) _ assms(3)] location_without_session [OF assms(1) _ assms(3)]
      authorize_params_redirect(2) [OF a assms(4)] by metis
qed

lemma location_pass:
  assumes "framework_laws (io_http I)" and "one q ''redirect_uri'' = Some redirect"
    and "authorize_pass I p k final q h client redirect w = (Some r, w')" and "location r = Some loc"
  shows "\<exists>registry w1. resolve_client I p k client w = (Inr registry, w1) \<and> trusted_redirect (io_libs I) registry client redirect
    \<and> ((\<exists>state. optional q ''state'' = Inr state \<and> answers_at (io_libs I) redirect state (pr_issuer p) loc) \<or> to_google I p loc)"
proof -
  obtain out w1 where out: "resolve_client I p k client w = (out, w1)" by fastforce
  obtain registry where registry: "out = Inr registry" "trusted_redirect (io_libs I) registry client redirect"
    using assms(3,4) by (cases out) (auto simp: authorize_pass_def out split: if_splits)
  obtain result w2 where result: "authorize_valid I p k q h registry w1 = (result, w2)" by fastforce
  have "(\<exists>state. optional q ''state'' = Inr state \<and> answers_at (io_libs I) redirect state (pr_issuer p) loc) \<or> to_google I p loc"
  proof (cases result)
    case (Inr response)
    then have "r = response" using assms(3,4) registry
      by (auto simp: authorize_pass_def out result split: sum.splits if_splits)
    then show ?thesis using location_valid [OF assms(1) _ assms(4,2)] result Inr by blast
  next
    case (Inl code)
    then obtain state where "optional q ''state'' = Inr state"
      "r = oauth_redirect (io_libs I) (io_http I) redirect state (pr_issuer p) code"
      using assms(3,4) registry by (auto simp: authorize_pass_def out result split: sum.splits if_splits)
    then show ?thesis using location_redirects(1) [OF assms(1)] assms(4) by blast
  qed
  with out registry show ?thesis by blast
qed

text \<open>C11: The authorization endpoint is no open redirector: whatever the request, if the answer sends the browser
  anywhere, then the request named exactly one client and one redirect URI, that URI is trusted for the client
  in the registry the client resolved to, and the location is one of two: the Google authorization URL of
  the provider, or that URI followed by a query separator and by the serialized answer alone, which is
  the code or the error, the request's state if it had one, and the provider's issuer.\<close>

theorem authorize_redirects_only_to_trusted:
  assumes "framework_laws (io_http I)" and "authorize I p raw h w = (r, w')" and "location r = Some loc"
  shows "\<exists>q client redirect registry k w1 w2. pairs (io_libs I) raw 8192 = Inr q
    \<and> one q ''client_id'' = Some client \<and> one q ''redirect_uri'' = Some redirect
    \<and> resolve_client I p k client w1 = (Inr registry, w2) \<and> trusted_redirect (io_libs I) registry client redirect
    \<and> ((\<exists>state. optional q ''state'' = Inr state \<and> answers_at (io_libs I) redirect state (pr_issuer p) loc) \<or> to_google I p loc)"
proof -
  from assms(2,3) obtain q client redirect where q: "pairs (io_libs I) raw 8192 = Inr q"
    "one q ''client_id'' = Some client" "one q ''redirect_uri'' = Some redirect"
    by (auto simp: authorize_def split: sum.splits option.splits)
  obtain r1 w1 where r1: "authorize_pass I p 0 False q h client redirect w = (r1, w1)" by fastforce
  obtain r2 w2 where r2: "authorize_pass I p 100 True q h client redirect w1 = (r2, w2)" by fastforce
  from assms(2,3) consider "r1 = Some r" | "r2 = Some r"
    by (cases r1; cases r2) (auto simp: authorize_def q r1 r2)
  then show ?thesis
  proof cases
    case 1
    from location_pass [OF assms(1) q(3) r1 [unfolded 1] assms(3)] q show ?thesis by blast
  next
    case 2
    from location_pass [OF assms(1) q(3) r2 [unfolded 2] assms(3)] q show ?thesis by blast
  qed
qed

end
