(* ===== verification/Endpoint_Properties.thy ===== *)
theory Endpoint_Properties
  imports Service_Properties
begin

text \<open>
  What the token, userinfo and consent endpoints and the callback give away, and to whom: each success
  is traced back, through the retry around the store operation, to rows that were in the database
  when the request arrived.
\<close>

section \<open>A concrete code exchange and a refused request\<close>

definition code_io :: io where
  "code_io = ref_io\<lparr>io_env := (\<lambda>n. env_at (seconds 1010) 60)\<rparr>"

definition code_body :: string where
  "code_body = ''grant_type=authorization_code&code='' @ sc_secret 50 @ ''&client_id=app&redirect_uri='' @ sc_redirect
     @ ''&code_verifier='' @ ref_verifier"

definition code_form :: form where
  "code_form = [(''grant_type'', ''authorization_code''), (''code'', sc_secret 50), (''client_id'', ''app''),
     (''redirect_uri'', sc_redirect), (''code_verifier'', ref_verifier)]"

lemma plain_valid_utf8: "list_all (\<lambda>b. b < 0x80) bs \<Longrightarrow> valid_utf8 bs"
  by (induction bs) auto

lemma plain_percent: "CHR ''%'' \<notin> set s \<Longrightarrow> percent_loop s i"
proof (induction s i rule: percent_loop.induct)
  case (1 s i)
  then show ?case by (subst percent_loop.simps) (auto simp: in_set_conv_nth)
qed

lemma seven_bits: "\<not> digit7 c \<Longrightarrow> (of_char c :: nat) < 128"
  by (cases c) (simp split: if_splits)

lemma plain_utf8: "list_all (\<lambda>c. \<not> digit7 c) s \<Longrightarrow> from_utf8 s = Some s"
  using seven_bits by (auto simp: from_utf8_def list_all_iff intro!: plain_valid_utf8)

lemma code_body_ascii: "list_all (\<lambda>c. \<not> digit7 c) code_body" by code_simp

lemma code_body_percent: "CHR ''%'' \<notin> set code_body" by code_simp

lemma code_body_parsed: "form_parse ref_libs code_body = code_form" by code_simp

lemma code_body_short: "length code_body \<le> 8192" by code_simp

lemma code_form_short: "list_all (\<lambda>(k, x). length k \<le> 128 \<and> length x \<le> 2048) code_form" by code_simp

lemma code_body_pairs: "pairs_bytes ref_libs code_body 8192 = Inr code_form"
proof -
  have "\<not> list_ex (\<lambda>(k, x). 128 < length k \<or> 2048 < length x) code_form"
    using code_form_short by (auto simp: list_ex_iff list_all_iff)
  moreover have "length code_form \<le> 32" by (simp add: code_form_def)
  ultimately show ?thesis
    using plain_utf8 [OF code_body_ascii] plain_percent [OF code_body_percent, of 0] code_body_parsed code_body_short
    by (simp add: pairs_bytes_def pairs_def valid_percent_def Let_def)
qed

lemma code_form_params: "token_params_of ref_libs ref_http ref_provider [] code_form = Inr \<lparr>tp_client = ''app'', tp_resource = None, tp_scope = None\<rparr>" 
  by code_simp

lemma code_form_grant: "grant_of code_form = Inr (CodeGrant (sc_secret 50) sc_redirect ref_verifier)" 
  by code_simp

lemma app_known: "contains_client ref_registry ''app''" by code_simp

lemma code_form_redeems: "exchange_code_request ref_libs ref_codec (env_instant (env_at (seconds 1010) 60) 9) (env_at (seconds 1010) 60) sc_db2 sc_db2 sc_db2 (sc_secret 50)
     ''app'' sc_redirect None ref_verifier None ref_registry
     = (Inr (sc_result 61), sc_db3)" by code_simp

lemma code_form_policy: "with_policy code_io ref_provider 0 CredMetadataExpired ''app''
   (redeem_grant code_io \<lparr>tp_client = ''app'', tp_resource = None, tp_scope = None\<rparr> (CodeGrant (sc_secret 50) sc_redirect ref_verifier))
   (ref_world sc_db2) = (Done (sc_result 61, True), ref_world sc_db3)"
  using app_known code_form_redeems by (simp add: with_policy_def attempt_once_def resolve_client_def ref_provider_def run_db_def ref_world_def
     code_io_def ref_io_def map_ok_def)

lemma code_form_issued: "\<exists>answer. issue ref_libs ref_crypto (env_at (seconds 1010) 60) ref_keys ''https://auth.shocker.cl'' ''https://auth.shocker.cl/userinfo''
   (sc_result 61) True = Inr answer"
proof -
  have "is_ok (issue ref_libs ref_crypto (env_at (seconds 1010) 60) ref_keys ''https://auth.shocker.cl'' ''https://auth.shocker.cl/userinfo''
   (sc_result 61) True)"
    by (simp add: issue_def sign_def sign_id_def ref_crypto_def)
  then show ?thesis by (simp add: is_ok_iff)
qed

lemma code_form_answered: "rs_status (fst (token_endpoint code_io ref_keys ref_provider [] code_body (ref_world sc_db2))) = 200"
proof -
  obtain answer where "issue ref_libs ref_crypto (env_at (seconds 1010) 60) ref_keys (pr_issuer ref_provider) (pr_userinfo ref_provider)
    (sc_result 61) True = Inr answer" using code_form_issued by (auto simp: ref_provider_def)
  then show ?thesis using code_body_pairs code_form_params code_form_grant code_form_policy
    by (simp add: token_endpoint_def token_response_of_def code_io_def ref_io_def  cors_for_def origin_def header_get_all_def json_sensitive_def json_sensitive_status_def with_headers_def)
qed

lemma sc_db2_db_inv: "db_inv sc_db2"
  using sc_db2_inv(1) sc_db1_db_inv by (simp add: db_inv_def identity_inv_def sc_db2_def)

definition wrong_request :: string where
  "wrong_request = ''client_id=app&redirect_uri=https://app.shocker.cl/cb&response_type=token&state=s''"

definition wrong_form :: form where
  "wrong_form = [(''client_id'', ''app''), (''redirect_uri'', ''https://app.shocker.cl/cb''), (''response_type'', ''token''), (''state'', ''s'')]"

lemma wrong_request_pairs: "pairs ref_libs wrong_request 8192 = Inr wrong_form"
proof -
  have "percent_loop wrong_request 0"
    by (rule plain_percent) (simp add: wrong_request_def)
  moreover have "form_parse ref_libs wrong_request = wrong_form" "length wrong_request \<le> 8192" by code_simp+
  moreover have "\<not> 32 < length wrong_form" "\<not> list_ex (\<lambda>(k, x). 128 < length k \<or> 2048 < length x) wrong_form"
    by (simp_all add: wrong_form_def)
  ultimately show ?thesis by (simp add: pairs_def valid_percent_def Let_def)
qed

lemma app_resolves: "resolve_client ref_io ref_provider 0 ''app'' w = (Inr ref_registry, w)"
  using app_known by (simp add: resolve_client_def ref_provider_def)

lemma app_redirect_trusted: "trusted_redirect ref_libs ref_registry ''app'' ''https://app.shocker.cl/cb''"
 by code_simp

lemma wrong_form_refused: "authorize_params_of wrong_form = Inl ''invalid_request''"
 by code_simp

lemma wrong_form_fields: "optional wrong_form ''state'' = Inr (Some ''s'')"
 "one wrong_form ''client_id'' = Some ''app''" "one wrong_form ''redirect_uri'' = Some ''https://app.shocker.cl/cb''"
 by code_simp+

lemma wrong_request_location: "\<exists>loc. location (fst (authorize ref_io ref_provider wrong_request [] (ref_world sc_db0))) = Some loc"
proof -
  have parts: "io_libs ref_io = ref_libs" "io_http ref_io = ref_http" by (simp_all add: ref_io_def)
  have "registry_ensure_fresh t ref_registry = Inr ()" for t
    by (simp add: registry_ensure_fresh_def ref_registry_def)
  moreover have "location (hl_redirect ref_http u) = Some u" for u
    by (simp add: ref_http_def location_def header_get_def)
  ultimately show ?thesis 
   by (simp add: authorize_def authorize_pass_def authorize_valid_def wrong_request_pairs app_resolves app_redirect_trusted wrong_form_refused wrong_form_fields parts is_ok_def
       oauth_redirect_def redirect_params_def)
qed

theorem authorize_redirects_only_to_trusted_witness:
  "\<exists>loc. location (fst (authorize ref_io ref_provider wrong_request [] (ref_world sc_db0))) = Some loc
     \<and> (answers_at ref_libs ''https://app.shocker.cl/cb'' (Some ''s'') ''https://auth.shocker.cl'' loc \<or> to_google ref_io ref_provider loc)"
proof -
  obtain r w' where run: "authorize ref_io ref_provider wrong_request [] (ref_world sc_db0) = (r, w')" by fastforce
  with wrong_request_location obtain loc where loc: "location r = Some loc" by auto
  have parts: "io_libs ref_io = ref_libs" "pr_issuer ref_provider = ''https://auth.shocker.cl''"
    by (simp_all add: ref_io_def ref_provider_def)
  from authorize_redirects_only_to_trusted [OF ref_http_laws run loc, unfolded parts wrong_request_pairs]
    wrong_form_fields loc run show ?thesis by auto
qed

section \<open>The retry around a store operation\<close>

text \<open>
  The interface of a retried operation: an operation that reports expired metadata has changed
  nothing, so the second attempt starts from the database the request found.
\<close>

locale retried_operation =
  fixes operation :: "nat \<Rightarrow> client_registry \<Rightarrow> db \<Rightarrow> ('e + 'a) \<times> db"
    and expired :: 'e
  assumes expired_keeps: "operation n registry d = (Inl expired, d') \<Longrightarrow> d' = d"
begin

text \<open>A success took effect on the database the request found, under a registry the client resolved to.\<close>

lemma succeeded:
  assumes "with_policy I p k expired client operation w = (Done v, w')"
  shows "\<exists>n registry w1 w2. resolve_client I p n client w1 = (Inr registry, w2)
    \<and> operation n registry (wd_db w) = (Inr v, wd_db w')"
proof -
  obtain r w1 where r: "attempt_once I p k client (operation k) w = (r, w1)" by fastforce
  from r show ?thesis
  proof (cases rule: attempt_once_cases)
    case 1
    then show ?thesis using assms(1) by (simp add: with_policy_def r)
  next
    case (2 registry w2 err)
    then have err: "err = expired" and again: "attempt_once I p (Suc k) client (operation (Suc k)) w1 = (Done v, w')"
      using assms(1) by (auto simp: with_policy_def r split: if_splits)
    have "wd_db w1 = wd_db w" using expired_keeps 2(2) err by blast
    with again show ?thesis by (cases rule: attempt_once_cases) auto
  next
    case (3 registry w2 u)
    then show ?thesis using assms(1) by (auto simp: with_policy_def r)
  qed
qed

end

text \<open>An operation all of whose errors roll back changes the database only when it succeeds.\<close>

locale rolled_back_operation = retried_operation +
  assumes refusal_keeps: "operation n registry d = (Inl err, d') \<Longrightarrow> d' = d"
begin

lemma changed:
  assumes "with_policy I p k expired client operation w = (out, w')"
  shows "wd_db w' = wd_db w \<or> (\<exists>v. out = Done v)"
proof -
  obtain r w1 where r: "attempt_once I p k client (operation k) w = (r, w1)" by fastforce
  from r show ?thesis
  proof (cases rule: attempt_once_cases)
    case (2 registry w2 err)
    then have w1: "wd_db w1 = wd_db w" using refusal_keeps by blast
    show ?thesis
    proof (cases "err = expired")
      case True
      then have "attempt_once I p (Suc k) client (operation (Suc k)) w1 = (out, w')"
        using assms 2 by (simp add: with_policy_def r)
      then show ?thesis by (cases rule: attempt_once_cases) (use w1 refusal_keeps in auto)
    qed (use assms 2 w1 in \<open>auto simp: with_policy_def r\<close>)
  qed (use assms in \<open>auto simp: with_policy_def r\<close>)
qed

text \<open>When the database changed, the operation succeeded on the one the request found.\<close>

lemma changed_done:
  assumes "with_policy I p k expired client operation w = (out, w')" and "wd_db w' \<noteq> wd_db w"
  shows "\<exists>n registry v. operation n registry (wd_db w) = (Inr v, wd_db w')"
proof -
  from changed [OF assms(1)] assms(2) obtain v where "out = Done v" by blast
  from succeeded [OF assms(1) [unfolded this]] show ?thesis by blast
qed

end

section \<open>The token endpoint\<close>

lemma rotate_request_success:
  assumes "rotate_refresh_request L B e dq d0 d raw client_id resource scopes reg = (Inr r, d')"
  shows "\<exists>f. family_of_token dq (hash L raw) = Some f \<and> rf_client_id f = client_id
    \<and> rotate_refresh_bound L B e d0 d raw client_id (rf_resource f) (Some reg) = (Inr r, d')"
  using assms by (auto simp: rotate_refresh_request_def split: option.splits if_splits)

lemma exchanged_code:
  assumes "cred_inv d" and "exchange_code_bound L B e d d raw client redirect resource verifier registry = (Inr v, d')"
  shows "\<exists>c \<in> set (db_codes d). ac_code_hash c = hash L raw \<and> ac_client_id c = client \<and> ac_redirect_uri c = redirect
    \<and> verify_s256 L verifier (ac_code_challenge c) \<and> ac_consumed_at c = None \<and> ex_scopes v = ac_scopes c
    \<and> ex_client_id v = client"
proof -
  from exchange_cases [OF assms(2)] obtain c s where
    ready: "exchange_ready L B e d d raw client redirect resource verifier registry c s"
    and rest: "ac_consumed_at c = None" "ex_scopes v = ac_scopes c" "ex_client_id v = ac_client_id c" by auto
  from ready_code_hash [OF ready assms(1) creds_le_refl] have "c \<in> set (db_codes d)" "ac_code_hash c = hash L raw"
    using by_key_SomeD(3) by blast+
  with ready rest show ?thesis by (auto simp: exchange_ready_def code_matches_def)
qed

lemma rotated_member:
  assumes "cred_inv d" and "rotate_refresh_bound L B e d d raw client resource registry = (Inr v, d')"
  shows "\<exists>m \<in> set (db_members d). \<exists>f \<in> set (db_families d). rm_token_hash m = hash L raw \<and> rm_family_id m = rf_id f
    \<and> rm_consumed_at m = None \<and> rf_revoked_at f = None \<and> rf_client_id f = client \<and> ex_scopes v = rf_scopes f
    \<and> ex_client_id v = client"
proof -
  from rotation_cases [OF assms(2)] obtain m f0 f s where
    ready: "rotation_ready L B e d d raw client resource registry m f0 f s"
    and rest: "rm_consumed_at m = None" "rf_revoked_at f = None" "ex_scopes v = rf_scopes f" "ex_client_id v = rf_client_id f"
    by auto
  from rotation_consistent [OF ready assms(1) creds_le_refl] ready rest show ?thesis
    by (intro bexI [of _ m] bexI [of _ f]) (auto simp: rotation_ready_def)
qed

lemma apfst_Inl_iff: "apfst (map_ok f) m = (Inl err, d) \<longleftrightarrow> m = (Inl err, d)"
  by (cases m; cases "fst m") (auto simp: map_ok_def)

lemma apfst_Inr_iff: "apfst (map_ok f) m = (Inr u, d) \<longleftrightarrow> (\<exists>v. m = (Inr v, d) \<and> u = f v)"
  by (cases m; cases "fst m") (auto simp: map_ok_def)

lemma redeem_expired_kept:
  assumes "redeem_grant I t g n registry d = (Inl CredMetadataExpired, d')"
  shows "d' = d"
proof (cases g)
  case (CodeGrant code redirect verifier)
  then have "exchange_code_request (io_libs I) (io_codec I) (env_instant (io_env I n) 9) (io_env I n) d d d code (tp_client t)
      redirect (tp_resource t) verifier (tp_scope t) registry = (Inl CredMetadataExpired, d')"
    using assms by (simp add: apfst_Inl_iff)
  then show ?thesis using exchange_cases
    by (fastforce simp: exchange_code_request_def split: option.splits if_splits sum.splits)
next
  case (RefreshGrant refresh)
  then have "rotate_refresh_request (io_libs I) (io_codec I) (io_env I n) d d d refresh (tp_client t)
      (tp_resource t) (tp_scope t) registry = (Inl CredMetadataExpired, d')"
    using assms by (simp add: apfst_Inl_iff)
  then show ?thesis using rotation_cases
    by (fastforce simp: rotate_refresh_request_def split: option.splits if_splits sum.splits)
qed

interpretation redemption: retried_operation "redeem_grant I t g" CredMetadataExpired for I t g
  by unfold_locales (rule redeem_expired_kept)

text \<open>What entitles a request to a token: a live code with its verifier, or a live refresh token,
  of the client that asks, in the database as the request found it.\<close>

definition entitled :: "libs \<Rightarrow> db \<Rightarrow> string \<Rightarrow> grant \<Rightarrow> string list \<Rightarrow> bool" where
  "entitled L d client g scopes = (case g of
     CodeGrant code redirect verifier \<Rightarrow>
       (\<exists>c \<in> set (db_codes d). ac_code_hash c = hash L code \<and> ac_client_id c = client \<and> ac_redirect_uri c = redirect
          \<and> verify_s256 L verifier (ac_code_challenge c) \<and> ac_consumed_at c = None \<and> scopes = ac_scopes c)
   | RefreshGrant refresh \<Rightarrow>
       (\<exists>m \<in> set (db_members d). \<exists>f \<in> set (db_families d). rm_token_hash m = hash L refresh \<and> rm_family_id m = rf_id f
          \<and> rm_consumed_at m = None \<and> rf_revoked_at f = None \<and> rf_client_id f = client \<and> scopes = rf_scopes f))"

lemma redeemed_entitled:
  assumes "cred_inv d" and "redeem_grant I t g n registry d = (Inr (v, initial), d')"
  shows "entitled (io_libs I) d (tp_client t) g (ex_scopes v) \<and> ex_client_id v = tp_client t"
proof (cases g)
  case (CodeGrant code redirect verifier)
  then have "exchange_code_request (io_libs I) (io_codec I) (env_instant (io_env I n) 9) (io_env I n) d d d code (tp_client t)
      redirect (tp_resource t) verifier (tp_scope t) registry = (Inr v, d')"
    using assms(2) by (auto simp: apfst_Inr_iff)
  from request_success [OF this] obtain resource where
    "exchange_code_bound (io_libs I) (io_codec I) (io_env I n) d d code (tp_client t) redirect resource verifier
       (Some registry) = (Inr v, d')" by blast
  from exchanged_code [OF assms(1) this] show ?thesis by (auto simp: entitled_def CodeGrant)
next
  case (RefreshGrant refresh)
  then have "rotate_refresh_request (io_libs I) (io_codec I) (io_env I n) d d d refresh (tp_client t)
      (tp_resource t) (tp_scope t) registry = (Inr v, d')"
    using assms(2) by (auto simp: apfst_Inr_iff)
  from rotate_request_success [OF this] obtain resource where
    "rotate_refresh_bound (io_libs I) (io_codec I) (io_env I n) d d refresh (tp_client t) resource
       (Some registry) = (Inr v, d')" by blast
  from rotated_member [OF assms(1) this] show ?thesis unfolding entitled_def RefreshGrant grant.case by blast
qed

lemma cors_for_status [simp]: "rs_status (cors_for H h r) = rs_status r" "rs_body (cors_for H h r) = rs_body r"
  by (simp_all add: cors_for_def with_headers_def split: option.splits)

lemma json_answers [simp]:
  "rs_status (json_sensitive_status code v) = code" "rs_body (json_sensitive_status code v) = JsonBody v"
  "rs_status (token_error c) = 400" "rs_body (token_error c) = JsonBody (json_error c)"
  "rs_status (json_sensitive v) = 200" "rs_body (json_sensitive v) = JsonBody v"
  by (simp_all add: token_error_def json_sensitive_def json_sensitive_status_def with_headers_def)

lemma token_endpoint_cases:
  assumes "token_endpoint I keys p h bytes w = (r, w')"
  shows "(rs_status r = 400 \<and> (\<exists>code. rs_body r = JsonBody (json_error code)))
    \<or> (rs_status r = 200 \<and> (\<exists>q t g n registry v initial answer. pairs_bytes (io_libs I) bytes 8192 = Inr q
         \<and> token_params_of (io_libs I) (io_http I) p h q = Inr t \<and> grant_of q = Inr g
         \<and> (\<exists>w1 w2. resolve_client I p n (tp_client t) w1 = (Inr registry, w2))
         \<and> redeem_grant I t g n registry (wd_db w) = (Inr (v, initial), wd_db w')
         \<and> issue (io_libs I) (io_crypto I) (io_env I 2) keys (pr_issuer p) (pr_userinfo p) v initial = Inr answer
         \<and> rs_body r = JsonBody (token_json answer)))"
proof (cases "pairs_bytes (io_libs I) bytes 8192")
  case (Inl u)
  then show ?thesis using assms by (auto simp: token_endpoint_def)
next
  case q: (Inr q)
  show ?thesis
  proof (cases "token_params_of (io_libs I) (io_http I) p h q")
    case (Inl u)
    then show ?thesis using assms q by (auto simp: token_endpoint_def)
  next
    case t: (Inr t)
    show ?thesis
    proof (cases "grant_of q")
      case (Inl u)
      then show ?thesis using assms q t by (auto simp: token_endpoint_def split: prod.splits sum.splits)
    next
      case g: (Inr g)
      obtain outcome w1 where run: "with_policy I p 0 CredMetadataExpired (tp_client t) (redeem_grant I t g) w = (outcome, w1)"
        by fastforce
      show ?thesis
      proof (cases outcome)
        case (Done vi)
        obtain v initial where vi: "vi = (v, initial)" by (cases vi)
        from redemption.succeeded [OF run [unfolded Done vi]] obtain n registry where
          resolved: "\<exists>w1 w2. resolve_client I p n (tp_client t) w1 = (Inr registry, w2)"
          and redeemed: "redeem_grant I t g n registry (wd_db w) = (Inr (v, initial), wd_db w1)" by blast
        have answer: "r = cors_for (io_http I) h (token_response_of I keys p (Done (v, initial)))" "w' = w1"
          using assms q t g run Done vi by (simp_all add: token_endpoint_def)
        show ?thesis
        proof (cases "issue (io_libs I) (io_crypto I) (io_env I 2) keys (pr_issuer p) (pr_userinfo p) v initial")
          case (Inl err)
          then show ?thesis using answer by (intro disjI1) (auto simp: token_response_of_def)
        next
          case (Inr tok)
          then have "rs_status r = 200 \<and> rs_body r = JsonBody (token_json tok)"
            using answer by (auto simp: token_response_of_def)
          with q t g resolved redeemed answer(2) Inr show ?thesis
            by (intro disjI2 conjI exI [of _ q] exI [of _ t] exI [of _ g] exI [of _ n] exI [of _ registry] exI [of _ v]
              exI [of _ initial] exI [of _ tok]) auto
        qed
      qed (use assms q t g run in \<open>auto simp: token_endpoint_def token_response_of_def\<close>)
    qed
  qed
qed

text \<open>C4: The token endpoint answers 200 or a 400 that names an OAuth error.  A 200 means that the request was entitled:
  it presented the secret of an unconsumed code of its client with the matching redirect and PKCE
  verifier, or a live refresh token of its client, as stored when the request arrived; the body is
  then exactly the response signed for that grant, with that grant's scopes and client.\<close>

theorem token_endpoint_entitled:
  assumes "db_inv (wd_db w)" and "token_endpoint I keys p h bytes w = (r, w')"
  shows "(rs_status r = 400 \<and> (\<exists>code. rs_body r = JsonBody (json_error code)))
    \<or> (rs_status r = 200 \<and> (\<exists>q t g v initial answer. pairs_bytes (io_libs I) bytes 8192 = Inr q
         \<and> token_params_of (io_libs I) (io_http I) p h q = Inr t \<and> grant_of q = Inr g
         \<and> entitled (io_libs I) (wd_db w) (tp_client t) g (ex_scopes v) \<and> ex_client_id v = tp_client t
         \<and> issue (io_libs I) (io_crypto I) (io_env I 2) keys (pr_issuer p) (pr_userinfo p) v initial = Inr answer
         \<and> rs_body r = JsonBody (token_json answer)))"
  using token_endpoint_cases [OF assms(2)] redeemed_entitled [OF db_invD(1) [OF assms(1)]] by blast

theorem token_endpoint_entitled_witness:
  "rs_status (fst (token_endpoint code_io ref_keys ref_provider [] code_body (ref_world sc_db2))) = 200
   \<and> (\<exists>g scopes. entitled ref_libs sc_db2 ''app'' g scopes)"
proof -
  obtain r w' where run: "token_endpoint code_io ref_keys ref_provider [] code_body (ref_world sc_db2) = (r, w')"
    by fastforce
  have ok: "rs_status r = 200" using code_form_answered by (simp add: run)
  have parts: "io_libs code_io = ref_libs" "io_http code_io = ref_http" "wd_db (ref_world sc_db2) = sc_db2"
    by (simp_all add: code_io_def ref_io_def ref_world_def)
  have "db_inv (wd_db (ref_world sc_db2))" using sc_db2_db_inv by (simp add: parts)
  from token_endpoint_entitled [OF this run, unfolded parts] show ?thesis
  proof (elim disjE conjE exE)
    assume "rs_status r = 400"
    with ok show ?thesis by simp
  next
    fix q t g v initial answer
    assume "pairs_bytes ref_libs code_body 8192 = Inr q" "token_params_of ref_libs ref_http ref_provider [] q = Inr t"
      and entitled: "entitled ref_libs sc_db2 (tp_client t) g (ex_scopes v)"
    then have "tp_client t = ''app''"
      using code_body_pairs code_form_params by (metis sum.inject(2) token_params.select_convs(1))
    with entitled ok run show ?thesis by (intro conjI exI [of _ g] exI [of _ "ex_scopes v"]) simp_all
  qed
qed

section \<open>Userinfo\<close>


















lemma bearer_error_parts [simp]:
  "rs_status bearer_error = 401" "rs_body bearer_error = JsonBody (json_error ''invalid_token'')"
  by (simp_all add: bearer_error_def json_sensitive_status_def with_headers_def)


section \<open>The consent form\<close>

lemma with_consent_kept:
  assumes "with_consent L e d session handle f = (Inl err, d')" and "\<And>s row. f s row = (Inl err, d') \<Longrightarrow> d' = d"
  shows "d' = d"
  using assms by (auto simp: with_consent_def checked_def split: sum.splits)

lemma approve_kept: "approve L B e d session handle reg = (Inl err, d') \<Longrightarrow> d' = d"
  unfolding approve_def
  by (erule with_consent_kept) (auto simp: checked_def split: sum.splits option.splits prod.splits if_splits)

lemma deny_kept: "deny_with_registry L B e d session handle reg = (Inl err, d') \<Longrightarrow> d' = d"
  unfolding deny_with_registry_def deny_bound_def
  by (erule with_consent_kept) (auto simp: checked_def split: sum.splits option.splits prod.splits if_splits)

lemma decide_kept: "decide I p action session handle n reg d = (Inl err, d') \<Longrightarrow> d' = d"
  by (auto simp: decide_def apfst_Inl_iff dest: approve_kept deny_kept split: if_splits)

interpretation decision: rolled_back_operation "decide I p action session handle" BrMetadataExpired
  for I p action session handle
  by unfold_locales (erule decide_kept)+

text \<open>The transaction a decision answers: it awaits consent, in this session and with this secret.\<close>

definition awaits :: "libs \<Rightarrow> db \<Rightarrow> provider_session \<Rightarrow> consent_handle \<Rightarrow> bool" where
  "awaits L d session handle \<longleftrightarrow> (\<exists>row \<in> set (db_browser d). ba_id row = ch_transaction_id handle
     \<and> ba_session_id row = Some (pv_id session) \<and> ba_csrf_hash row = Some (hash L (ch_csrf handle))
     \<and> ba_stage row = AwaitingConsent)"

lemma with_consent_awaits:
  assumes "with_consent L e d session handle f = (Inr v, d')"
  shows "awaits L d session handle"
  using assms by (rule with_consent_run) (auto simp: awaits_def)

lemma decided_awaits:
  assumes "decide I p action session handle n reg d = (Inr v, d')"
  shows "awaits (io_libs I) d session handle"
  using assms
  by (auto simp: decide_def apfst_Inr_iff approve_def deny_with_registry_def deny_bound_def dest: with_consent_awaits
      split: if_splits)

lemma consent_decision_changed:
  "wd_db (snd (consent_decision I p action session handle w)) = wd_db w
   \<or> (action = ''approve'' \<or> action = ''deny'') \<and> awaits (io_libs I) (wd_db w) session handle"
proof (cases "transaction_client_id (wd_db w) (ch_transaction_id handle)")
  case (Inl err)
  then show ?thesis by (simp add: consent_decision_def)
next
  case client: (Inr client)
  show ?thesis
  proof (cases "action = ''approve'' \<or> action = ''deny''")
    case False
    obtain r w1 where r: "resolve_client I p 1 client w = (r, w1)" by fastforce
    show ?thesis using resolve_client_db [OF r] r False client by (cases r) (auto simp: consent_decision_def)
  next
    case True
    obtain out w1 where out: "with_policy I p 1 BrMetadataExpired client (decide I p action session handle) w = (out, w1)"
      by fastforce
    have "snd (consent_decision I p action session handle w) = w1"
      using True out client by (auto simp: consent_decision_def split: resolved.splits prod.splits)
    moreover have "wd_db w1 = wd_db w \<or> awaits (io_libs I) (wd_db w) session handle"
      using decision.changed_done [OF out] decided_awaits by blast
    ultimately show ?thesis using True by auto
  qed
qed

text \<open>C12: A forged consent form changes nothing: if posting it changes the database, then the browser
  named no origin or the provider's own, presented the cookie of a live session, and the form held the
  identifier and the secret of a transaction that awaited consent in that session, with the action
  approve or deny.\<close>

theorem forged_consent_changes_nothing:
  "wd_db (snd (consent_post I p h bytes w)) = wd_db w
   \<or> (\<exists>q text tid csrf action raw session. pairs_bytes (io_libs I) bytes 4096 = Inr q
        \<and> one q ''transaction_id'' = Some text \<and> uuid_parse (io_libs I) text = Some tid
        \<and> one q ''csrf'' = Some csrf \<and> one q ''action'' = Some action \<and> action \<in> {''approve'', ''deny''}
        \<and> same_origin (io_http I) h (pr_issuer p)
        \<and> cookie (io_http I) h (session_cookie (pr_secure p)) = Some raw
        \<and> find_provider_session (io_libs I) (io_env I 0) (wd_db w) raw = Inr session
        \<and> awaits (io_libs I) (wd_db w) session \<lparr>ch_transaction_id = tid, ch_csrf = csrf\<rparr>)"
proof (rule disjCI)
  assume "\<not> (\<exists>q text tid csrf action raw session. pairs_bytes (io_libs I) bytes 4096 = Inr q
        \<and> one q ''transaction_id'' = Some text \<and> uuid_parse (io_libs I) text = Some tid
        \<and> one q ''csrf'' = Some csrf \<and> one q ''action'' = Some action \<and> action \<in> {''approve'', ''deny''}
        \<and> same_origin (io_http I) h (pr_issuer p)
        \<and> cookie (io_http I) h (session_cookie (pr_secure p)) = Some raw
        \<and> find_provider_session (io_libs I) (io_env I 0) (wd_db w) raw = Inr session
        \<and> awaits (io_libs I) (wd_db w) session \<lparr>ch_transaction_id = tid, ch_csrf = csrf\<rparr>)"
  note none = this [simplified]
  show "wd_db (snd (consent_post I p h bytes w)) = wd_db w"
    using consent_decision_changed none
    by (fastforce simp: consent_post_def session_from_def bind_eq_Some_conv split: sum.splits option.splits)
qed

section \<open>The Google callback\<close>

lemma claim_callback_kept:
  assumes "claim_callback L e d state binding = (out, d')"
  shows "d' = d \<and> (\<exists>err. out = Inl err)
    \<or> (\<exists>row \<in> set (db_browser d). ba_upstream_state_hash row = Some (hash L state)
         \<and> ba_browser_binding_hash row = Some (hash L binding) \<and> ba_stage row = AwaitingGoogle)"
  using assms unfolding claim_callback_def
  by (auto simp: Let_def split: option.splits dest: find_Some_set)

text \<open>The transaction a callback belongs to: started with this state, by the browser that holds this binding.\<close>

definition bound_to_browser :: "libs \<Rightarrow> db \<Rightarrow> string \<Rightarrow> string \<Rightarrow> bool" where
  "bound_to_browser L d state binding \<longleftrightarrow> (\<exists>row \<in> set (db_browser d). ba_upstream_state_hash row = Some (hash L state)
     \<and> ba_browser_binding_hash row = Some (hash L binding) \<and> ba_stage row = AwaitingGoogle)"

lemma claim_first_bound:
  assumes "claim_first I k state cookies w = (winner, w')"
  shows "(winner = None \<and> wd_db w' = wd_db w)
    \<or> (\<exists>name binding. (name, binding) \<in> set cookies \<and> bound_to_browser (io_libs I) (wd_db w) state binding)"
  using assms
proof (induction I k state cookies w rule: claim_first.induct)
  case (1 I k state w)
  then show ?case by simp
next
  case (2 I k state name binding cookies w)
  obtain out d where out: "claim_callback (io_libs I) (io_env I k) (wd_db w) state binding = (out, d)" by fastforce
  show ?case
  proof (cases "bound_to_browser (io_libs I) (wd_db w) state binding")
    case False
    with claim_callback_kept [OF out] obtain err where err: "out = Inl err" "d = wd_db w"
      unfolding bound_to_browser_def by blast
    let ?w = "w\<lparr>wd_db := d\<rparr>"
    have run: "run_db (\<lambda>d. claim_callback (io_libs I) (io_env I k) d state binding) w = (Inl err, ?w)"
      using out err by (simp add: run_db_def)
    have "claim_first I (Suc k) state cookies ?w = (winner, w')" using "2.prems" run by simp
    from "2.IH" [OF run [symmetric] refl this] err(2) show ?thesis by auto
  qed auto
qed

lemma with_policy_keeps:
  assumes "with_policy I p k expired client operation w = (out, w')"
    and "\<forall>n registry d. f (snd (operation n registry d)) = f d"
  shows "f (wd_db w') = f (wd_db w)"
proof -
  have once: "f (wd_db w2) = f (wd_db w1)" if "attempt_once I p n client (operation n) w1 = (r, w2)" for n r and w1 w2 :: world
    using that assms(2) by (cases rule: attempt_once_cases) (metis snd_conv)+
  obtain r w1 where r: "attempt_once I p k client (operation k) w = (r, w1)" by fastforce
  show ?thesis using once [OF r] once assms(1) by (auto simp: with_policy_def r split: resolved.splits if_splits)
qed

lemma sessions_kept:
  "db_sessions (snd (claim_callback L e d state binding)) = db_sessions d"
  "db_sessions (snd (fail_callback L d claim)) = db_sessions d"
  "db_sessions (snd (deny_callback L B e d claim reg)) = db_sessions d"
  by (auto simp: claim_callback_def Let_def fail_callback_def deny_callback_def checked_def set_browser_def
      split: option.splits sum.splits)

lemma claim_first_sessions: "db_sessions (wd_db (snd (claim_first I k state cookies w))) = db_sessions (wd_db w)"
proof (induction I k state cookies w rule: claim_first.induct)
  case (2 I k state name binding cookies w)
  obtain out d where out: "claim_callback (io_libs I) (io_env I k) (wd_db w) state binding = (out, d)" by fastforce
  have "db_sessions d = db_sessions (wd_db w)"
    using sessions_kept(1) [of "io_libs I" "io_env I k" "wd_db w" state binding] by (simp add: out)
  moreover have "run_db (\<lambda>d. claim_callback (io_libs I) (io_env I k) d state binding) w = (out, w\<lparr>wd_db := d\<rparr>)"
    by (simp add: run_db_def out)
  ultimately show ?case using "2.IH" by (cases out) auto
qed simp

lemma denied_sessions: "db_sessions (wd_db (snd (denied_callback I p claim name w))) = db_sessions (wd_db w)"
proof (cases "callback_client_id (io_libs I) (wd_db w) claim")
  case (Inr client)
  obtain out w1 where out: "with_policy I p 10 BrMetadataExpired client
      (\<lambda>n registry d. deny_callback (io_libs I) (io_codec I) (io_env I n) d claim registry) w = (out, w1)" by fastforce
  show ?thesis using with_policy_keeps [OF out, of db_sessions] sessions_kept(3)
    by (simp add: denied_callback_def Inr out)
qed (simp add: denied_callback_def)

lemma failed_sessions: "db_sessions (wd_db (snd (failed_callback I p claim name message w))) = db_sessions (wd_db w)"
  using sessions_kept(2) [of "io_libs I" "wd_db w" claim]
  by (cases "fail_callback (io_libs I) (wd_db w) claim") (simp add: failed_callback_def run_db_def)

lemma callback_params_one: "callback_params_of q = Some c \<Longrightarrow> cb_error c = None \<Longrightarrow> \<exists>code. cb_code c = Some code"
  by (auto simp: callback_params_of_def split: option.splits sum.splits if_splits)

text \<open>A claimed callback opens a session only for an identity Google verified.\<close>

lemma callback_claimed_sessions:
  assumes "callback_params_of q = Some c"
  shows "db_sessions (wd_db (snd (callback_claimed I p c (claimant, claim, verifier, nonce) w))) = db_sessions (wd_db w)
    \<or> (\<exists>code identity cache. cb_code c = Some code
         \<and> google_exchange_code (io_libs I) (io_google I) (io_env I 9) (pr_google p) (wd_key_cache w) code verifier nonce
             = (Inr identity, cache))"
proof (cases "cb_error c")
  case (Some err)
  then show ?thesis using denied_sessions failed_sessions by (simp add: callback_claimed_def)
next
  case None
  with callback_params_one [OF assms] obtain code where code: "cb_code c = Some code" by blast
  obtain res cache where res: "google_exchange_code (io_libs I) (io_google I) (io_env I 9) (pr_google p)
      (wd_key_cache w) code verifier nonce = (res, cache)" by fastforce
  show ?thesis
  proof (cases res)
    case (Inl err)
    then show ?thesis using failed_sessions None code res by (simp add: callback_claimed_def or_default_def)
  next
    case (Inr identity)
    with code res show ?thesis by blast
  qed
qed

text \<open>C13: A login cannot be forced on a browser, nor forged: if the Google callback changes the database, then the request
  carries a transaction cookie whose value is the binding of a transaction that awaits Google with the
  very state of the request; and if it changes the provider sessions, then moreover the callback claimed
  a transaction and Google exchanged the code of the request, with the verifier and nonce of that
  transaction, for a verified identity.\<close>

theorem login_needs_browser_and_google:
  "wd_db (snd (callback I p raw h w)) = wd_db w
   \<or> (\<exists>q c name binding. pairs (io_libs I) (or_default raw []) 4096 = Inr q \<and> callback_params_of q = Some c
        \<and> (name, binding) \<in> set (transaction_cookies (io_libs I) (io_http I) h (pr_secure p))
        \<and> bound_to_browser (io_libs I) (wd_db w) (cb_state c) binding
        \<and> (db_sessions (wd_db (snd (callback I p raw h w))) = db_sessions (wd_db w)
          \<or> (\<exists>code claimant claim verifier nonce w1 identity cache.
               claim_first I 0 (cb_state c) (transaction_cookies (io_libs I) (io_http I) h (pr_secure p)) w
                 = (Some (claimant, claim, verifier, nonce), w1)
               \<and> cb_code c = Some code
               \<and> google_exchange_code (io_libs I) (io_google I) (io_env I 9) (pr_google p) (wd_key_cache w1)
                   code verifier nonce = (Inr identity, cache))))"
proof (cases "Option.bind (case pairs (io_libs I) (or_default raw []) 4096 of Inr q \<Rightarrow> Some q | Inl _ \<Rightarrow> None) callback_params_of")
  case None
  then show ?thesis by (simp add: callback_def)
next
  case c: (Some c)
  then obtain q where q: "pairs (io_libs I) (or_default raw []) 4096 = Inr q" "callback_params_of q = Some c"
    by (auto split: sum.splits)
  obtain winner w1 where winner: "claim_first I 0 (cb_state c)
      (transaction_cookies (io_libs I) (io_http I) h (pr_secure p)) w = (winner, w1)" by fastforce
  have s1: "db_sessions (wd_db w1) = db_sessions (wd_db w)"
    using claim_first_sessions [of I 0 "cb_state c" "transaction_cookies (io_libs I) (io_http I) h (pr_secure p)" w]
    by (simp add: winner)
  show ?thesis
  proof (cases "winner = None \<and> wd_db w1 = wd_db w")
    case True
    then show ?thesis using c winner by (simp add: callback_def)
  next
    case False
    with claim_first_bound [OF winner] obtain name binding where bound:
      "(name, binding) \<in> set (transaction_cookies (io_libs I) (io_http I) h (pr_secure p))"
      "bound_to_browser (io_libs I) (wd_db w) (cb_state c) binding" by blast
    have "db_sessions (wd_db (snd (callback I p raw h w))) = db_sessions (wd_db w)
      \<or> (\<exists>code claimant claim verifier nonce identity cache. winner = Some (claimant, claim, verifier, nonce)
           \<and> cb_code c = Some code
           \<and> google_exchange_code (io_libs I) (io_google I) (io_env I 9) (pr_google p) (wd_key_cache w1)
               code verifier nonce = (Inr identity, cache))"
    proof (cases winner)
      case None
      then show ?thesis using c winner s1 by (simp add: callback_def)
    next
      case (Some x)
      obtain claimant claim verifier nonce where x: "x = (claimant, claim, verifier, nonce)" by (cases x) auto
      have "callback I p raw h w = callback_claimed I p c (claimant, claim, verifier, nonce) w1"
        using c winner by (simp add: callback_def Some x)
      with callback_claimed_sessions [OF q(2), of I p claimant claim verifier nonce w1] s1 Some x
      show ?thesis by simp
    qed
    with q bound winner show ?thesis by blast
  qed
qed

end
