(* ===== verification/Service_History.thy ===== *)
theory Service_History
  imports Endpoint_Properties
begin

text \<open>
  Histories of the running service: HTTP requests served one after the other, with any clocks, random
  numbers and network answers, and between them any transactions of other handlers.  What a
  single request uses up (a code, a refresh token, a logout challenge, a consent, a session that
  logs out) stays used up whatever is served afterwards.
\<close>

section \<open>Histories of served requests\<close>

record exchange =
  xc_io :: io
  xc_state :: app_state
  xc_request :: http_request
  xc_response :: response

text \<open>The exchanges, newest first, that lead from one world to another over the libraries \<open>L\<close> and
  the binding codec \<open>B\<close>.\<close>

inductive served :: "libs \<Rightarrow> binding_codec \<Rightarrow> world \<Rightarrow> exchange list \<Rightarrow> world \<Rightarrow> bool" for L B w where
  served_start: "served L B w [] w"
| served_request: "served L B w h w1 \<Longrightarrow> io_libs I = L \<Longrightarrow> io_codec I = B \<Longrightarrow> serve I s rq w1 = (r, w2)
    \<Longrightarrow> served L B w (\<lparr>xc_io = I, xc_state = s, xc_request = rq, xc_response = r\<rparr> # h) w2"
| served_others: "served L B w h w1 \<Longrightarrow> runs L B (wd_db w1) (wd_db w2) \<Longrightarrow> served L B w h w2"

inductive_cases served_consE: "served L B w (x # h) w'"

lemma serve_runs: "serve I s rq w = (r, w') \<Longrightarrow> runs (io_libs I) (io_codec I) (wd_db w) (wd_db w')"
  using handlers.step_serve [of I w s rq] by (simp add: world_step_def)

lemma runs_inv: "runs L B d d' \<Longrightarrow> db_inv d \<Longrightarrow> db_inv d' \<and> db_le d d'"
  using runs_sound by (fastforce simp: sound_step_def)

lemma served_inv: "served L B w h w' \<Longrightarrow> db_inv (wd_db w) \<Longrightarrow> db_inv (wd_db w') \<and> db_le (wd_db w) (wd_db w')"
proof (induction rule: served.induct)
  case (served_request h w1 I s rq r w2)
  then show ?case using runs_inv [OF serve_runs] db_le_trans by metis
next
  case (served_others h w1 w2)
  then show ?case using runs_inv db_le_trans by metis
qed simp

section \<open>The service as a client of the store\<close>



text \<open>
  The interface of a secret of one use: an accepted exchange finds it unspent and leaves it spent,
  and spent it stays.  Then no history holds two exchanges that were both accepted.
\<close>

locale single_use =
  fixes accepted :: "exchange \<Rightarrow> bool" and spent :: "db \<Rightarrow> bool" and L :: libs
  assumes accepted_spends: "accepted \<lparr>xc_io = I, xc_state = s, xc_request = rq, xc_response = r\<rparr> \<Longrightarrow> io_libs I = L
      \<Longrightarrow> serve I s rq w = (r, w') \<Longrightarrow> db_inv (wd_db w) \<Longrightarrow> db_inv (wd_db w') \<Longrightarrow> \<not> spent (wd_db w) \<and> spent (wd_db w')"
    and stays_spent: "spent d \<Longrightarrow> db_le d d' \<Longrightarrow> db_inv d' \<Longrightarrow> spent d'"
begin

lemma accepted_at_most_once:
  assumes "served L B w h w'" "db_inv (wd_db w)"
  shows "length (filter accepted h) \<le> 1 \<and> (filter accepted h \<noteq> [] \<longrightarrow> spent (wd_db w'))"
  using assms
proof (induction rule: served.induct)
  case (served_request h w1 I s rq r w2)
  let ?x = "\<lparr>xc_io = I, xc_state = s, xc_request = rq, xc_response = r\<rparr>"
  have inv: "db_inv (wd_db w1)" using served_inv [OF served_request(1)] served_request.prems by blast
  note later = runs_inv [OF serve_runs [OF served_request(4)] inv]
  show ?case
  proof (cases "accepted ?x")
    case True
    from accepted_spends [OF True served_request(2,4) inv] later
    have "\<not> spent (wd_db w1)" "spent (wd_db w2)" by blast+
    moreover from this(1) have "filter accepted h = []" using served_request.IH served_request.prems by blast
    ultimately show ?thesis using True by simp
  next
    case False
    then show ?thesis using served_request.IH served_request.prems stays_spent later by auto
  qed
next
  case (served_others h w1 w2)
  then show ?case using stays_spent runs_inv [OF served_others(2)] served_inv [OF served_others(1)] by blast
qed simp

end

section \<open>Posts to the endpoints\<close>

lemma location_middleware: "path \<notin> set public_paths \<Longrightarrow> location (security_middleware path r) = location r"
  using location_simps(1) [of r] by (simp add: security_middleware_def sensitive_def)

text \<open>The handlers of the three posts that use something up.\<close>

definition posts :: "(string \<times> handler) set" where
  "posts = {(''/token'', Token), (''/logout'', LogoutPost), (''/consent'', ConsentPost)}"

lemma post_not_base: "rq_method rq = ''POST'' \<Longrightarrow> base_route I s rq = None"
  by (simp add: base_route_def is_get_def)

lemma post_routes:
  assumes "rq_method rq = ''POST''" "(rq_path rq, e) \<in> posts"
  shows "api_route rq = Some e \<or> (api_route rq = None \<and> browser_route p rq = Some e)"
  using assms by (auto simp: posts_def api_route_def browser_route_def is_post_def is_get_def)

lemma serve_post:
  assumes "serve I s rq w = (r, w')" and "rq_method rq = ''POST''" and "(rq_path rq, e) \<in> posts"
  shows "(w' = w \<and> rs_status r = 404 \<and> location r = None)
    \<or> (\<exists>p r0. as_provider s = Some p \<and> run_handler I (as_keys s) p rq e w = (r0, w')
        \<and> rs_status r = rs_status r0 \<and> location r = location r0)"
proof -
  obtain r0 where r0: "dispatch I s rq w = (r0, w')" "r = drop_body rq (security_middleware (rq_path rq) r0)"
    using assms(1) by (cases "dispatch I s rq w") (auto simp: serve_def)
  have "rq_path rq \<notin> set public_paths" using assms(3) by (auto simp: posts_def public_paths_def)
  then have r: "rs_status r = rs_status r0" "location r = location r0"
    using r0(2) location_middleware by (simp_all add: drop_body_def assms(2) security_middleware_def with_headers_def)
  show ?thesis
  proof (cases "as_provider s")
    case None
    then have "w' = w \<and> r0 = not_found" using r0(1) post_not_base [OF assms(2)] by (simp add: dispatch_def)
    then show ?thesis using r by (simp add: not_found_def sensitive_def with_headers_def status_response_def location_def sensitive_header)
  next
    case (Some p)
    have "run_handler I (as_keys s) p rq e w = (r0, w')"
      using r0(1) post_not_base [OF assms(2)] post_routes [OF assms(2,3), of p] Some by (auto simp: dispatch_def)
    with Some r show ?thesis by blast
  qed
qed

section \<open>What a post presents and when it is accepted\<close>

datatype one_time = CodeSecret string | RefreshSecret string | LogoutChallenge uuid | ConsentTransaction uuid

definition form_of :: "io \<Rightarrow> http_request \<Rightarrow> nat \<Rightarrow> form" where
  "form_of I rq maximum = (case pairs_bytes (io_libs I) (rq_body rq) maximum of Inr q \<Rightarrow> q | Inl _ \<Rightarrow> [])"

fun presents :: "io \<Rightarrow> http_request \<Rightarrow> one_time \<Rightarrow> bool" where
  "presents I rq (CodeSecret code) \<longleftrightarrow> rq_method rq = ''POST'' \<and> rq_path rq = ''/token''
     \<and> (case grant_of (form_of I rq 8192) of Inr (CodeGrant c _ _) \<Rightarrow> c = code | _ \<Rightarrow> False)"
| "presents I rq (RefreshSecret refresh) \<longleftrightarrow> rq_method rq = ''POST'' \<and> rq_path rq = ''/token''
     \<and> (case grant_of (form_of I rq 8192) of Inr (RefreshGrant x) \<Rightarrow> x = refresh | _ \<Rightarrow> False)"
| "presents I rq (LogoutChallenge cid) \<longleftrightarrow> rq_method rq = ''POST'' \<and> rq_path rq = ''/logout''
     \<and> Option.bind (one (form_of I rq 4096) ''challenge'') (uuid_parse (io_libs I)) = Some cid"
| "presents I rq (ConsentTransaction tid) \<longleftrightarrow> rq_method rq = ''POST'' \<and> rq_path rq = ''/consent''
     \<and> Option.bind (one (form_of I rq 4096) ''transaction_id'') (uuid_parse (io_libs I)) = Some tid"

text \<open>A decision is sent back to the client by a page that leads a web client's browser on (200), or by a
  redirect to the scheme of a native one; a decision that is not taken is answered by an error page.\<close>

definition sent_back :: "response \<Rightarrow> bool" where
  "sent_back r \<longleftrightarrow> rs_status r = 200 \<or> location r \<noteq> None"

lemma sent_back_simps [simp]: "\<not> sent_back (local_error m)" "sent_back (sensitive (html_response 200 html))"
  by (simp_all add: sent_back_def) (simp_all add: local_error_def sensitive_def html_response_def)

lemma sent_back_cong: "rs_status r = rs_status r' \<Longrightarrow> location r = location r' \<Longrightarrow> sent_back r \<longleftrightarrow> sent_back r'"
  by (simp add: sent_back_def)

lemma not_sent_back: "rs_status r = 404 \<Longrightarrow> location r = None \<Longrightarrow> \<not> sent_back r"
  by (simp add: sent_back_def)

lemma consent_return_sent_back:
  assumes "framework_laws H" and "hl_header_ok H (redirect_url L base items)"
  shows "sent_back (consent_return L H base items)"
proof -
  have "location (hl_redirect H (redirect_url L base items)) = Some (redirect_url L base items)"
    using assms by (simp add: framework_laws_def location_def)
  then have "sent_back (sensitive (redirect_params L H base items))" by (simp add: sent_back_def redirect_params_def)
  then show ?thesis by (simp add: consent_return_def Let_def)
qed

text \<open>The token endpoint answers 200, a logout sends the browser somewhere, a decision is sent back.\<close>

definition accepted :: "one_time \<Rightarrow> exchange \<Rightarrow> bool" where
  "accepted x c \<longleftrightarrow> presents (xc_io c) (xc_request c) x
     \<and> (case x of CodeSecret _ \<Rightarrow> rs_status (xc_response c) = 200 | RefreshSecret _ \<Rightarrow> rs_status (xc_response c) = 200
        | LogoutChallenge _ \<Rightarrow> location (xc_response c) \<noteq> None | ConsentTransaction _ \<Rightarrow> sent_back (xc_response c))"

definition spent :: "libs \<Rightarrow> one_time \<Rightarrow> db \<Rightarrow> bool" where
  "spent L x d = (case x of
     CodeSecret code \<Rightarrow> (\<exists>c. code_by_hash d (hash L code) = Some c \<and> ac_consumed_at c \<noteq> None)
   | RefreshSecret refresh \<Rightarrow> (\<exists>m. member_by_hash d (hash L refresh) = Some m \<and> rm_consumed_at m \<noteq> None)
   | LogoutChallenge cid \<Rightarrow> (\<exists>row \<in> set (db_logouts d). lc_id row = cid \<and> lc_consumed_at row \<noteq> None)
   | ConsentTransaction tid \<Rightarrow> decided d tid)"

lemma decided_persists: "decided d tid \<Longrightarrow> db_le d d' \<Longrightarrow> decided d' tid"
proof -
  assume "decided d tid" "db_le d d'"
  then obtain row row' where "row' \<in> set (db_browser d')" "browser_le row row'" "ba_id row = tid"
    "stage_rank (ba_stage row) = 4" using row_later unfolding decided_def by metis
  moreover have "stage_rank s \<le> 4" for s by (cases s) simp_all
  ultimately show "decided d' tid"
    using browser_leD [of row row'] unfolding decided_def by (metis not_less)
qed

lemma spent_persists:
  assumes "spent L x d" "db_le d d'" "db_inv d'"
  shows "spent L x d'"
proof (cases x)
  case (CodeSecret code)
  then show ?thesis using assms(1) by_key_later(3) [OF db_leD(1) [OF assms(2)] db_invD(1) [OF assms(3)]]
    by (fastforce simp: spent_def code_le_def)
next
  case (RefreshSecret refresh)
  then show ?thesis using assms(1) by_key_later(6) [OF db_leD(1) [OF assms(2)] db_invD(1) [OF assms(3)]]
    by (fastforce simp: spent_def member_le_def)
next
  case (LogoutChallenge cid)
  then show ?thesis using assms(1) challenge_later [OF assms(2)] by (auto simp: spent_def)
next
  case (ConsentTransaction tid)
  then show ?thesis using assms(1,2) decided_persists by (simp add: spent_def)
qed

section \<open>Redeeming\<close>

lemma token_endpoint_redeems:
  assumes "token_endpoint I keys p h bytes w = (r, w')" and "rs_status r = 200"
  shows "\<exists>q t g n registry v. pairs_bytes (io_libs I) bytes 8192 = Inr q \<and> grant_of q = Inr g
    \<and> redeem_grant I t g n registry (wd_db w) = (Inr v, wd_db w')"
proof -
  from assms obtain q where q: "pairs_bytes (io_libs I) bytes 8192 = Inr q"
    by (cases "pairs_bytes (io_libs I) bytes 8192") (auto simp: token_endpoint_def)
  moreover from assms q obtain t where t: "token_params_of (io_libs I) (io_http I) p h q = Inr t"
    by (cases "token_params_of (io_libs I) (io_http I) p h q") (auto simp: token_endpoint_def)
  moreover from assms q t obtain g where g: "grant_of q = Inr g"
    by (cases "grant_of q") (auto simp: token_endpoint_def split: prod.splits sum.splits)
  moreover obtain outcome w1 where run: "with_policy I p 0 CredMetadataExpired (tp_client t) (redeem_grant I t g) w = (outcome, w1)"
    by fastforce
  moreover have "\<exists>v. outcome = Done v \<and> w' = w1"
    using assms q t g run by (cases outcome) (auto simp: token_endpoint_def token_response_of_def)
  ultimately show ?thesis using redemption.succeeded by metis
qed

definition secret_of :: "grant \<Rightarrow> one_time" where
  "secret_of g = (case g of CodeGrant code _ _ \<Rightarrow> CodeSecret code | RefreshGrant refresh \<Rightarrow> RefreshSecret refresh)"

lemma redeem_spends:
  assumes "redeem_grant I t g n registry d = (Inr v, d')" and "cred_inv d" and "cred_inv d'"
  shows "\<not> spent (io_libs I) (secret_of g) d \<and> spent (io_libs I) (secret_of g) d'"
proof (cases g)
  case (CodeGrant code redirect verifier)
  then obtain u where "exchange_code_request (io_libs I) (io_codec I) (env_instant (io_env I n) 9) (io_env I n) d d d code
      (tp_client t) redirect (tp_resource t) verifier (tp_scope t) registry = (Inr u, d')"
    using assms(1) by (auto simp: apfst_Inr_iff)
  from request_success [OF this] obtain resource where
    run: "exchange_code_bound (io_libs I) (io_codec I) (io_env I n) d d code (tp_client t) redirect resource verifier
       (Some registry) = (Inr u, d')" by blast
  have "spent (io_libs I) (CodeSecret code) d'"
    using exchange_consumes [OF run assms(2) creds_le_refl] by (auto simp: spent_def)
  moreover have "\<not> spent (io_libs I) (CodeSecret code) d"
  proof
    assume "spent (io_libs I) (CodeSecret code) d"
    then obtain c where "code_by_hash d (hash (io_libs I) code) = Some c" "ac_consumed_at c \<noteq> None"
      by (auto simp: spent_def)
    from consumed_code_not_redeemed [OF this creds_le_refl assms(2) creds_le_refl] run
    show False by (metis is_ok_iff fst_conv)
  qed
  ultimately show ?thesis by (simp add: CodeGrant secret_of_def)
next
  case (RefreshGrant refresh)
  then obtain u where "rotate_refresh_request (io_libs I) (io_codec I) (io_env I n) d d d refresh (tp_client t)
      (tp_resource t) (tp_scope t) registry = (Inr u, d')"
    using assms(1) by (auto simp: apfst_Inr_iff)
  from rotate_request_success [OF this] obtain resource where
    run: "rotate_refresh_bound (io_libs I) (io_codec I) (io_env I n) d d refresh (tp_client t) resource
       (Some registry) = (Inr u, d')" by blast
  from rotation_replaces_live_member [OF assms(2) creds_le_refl run] have "spent (io_libs I) (RefreshSecret refresh) d'"
    by (fastforce simp: spent_def)
  moreover have "\<not> spent (io_libs I) (RefreshSecret refresh) d"
  proof
    assume "spent (io_libs I) (RefreshSecret refresh) d"
    then obtain m where m: "m \<in> set (db_members d)" "rm_token_hash m = hash (io_libs I) refresh" "rm_consumed_at m \<noteq> None"
      using by_key_SomeD(6) by (fastforce simp: spent_def)
    from family_of_member [OF assms(2) m(1)] obtain f where "f \<in> set (db_families d)" "rf_id f = rm_family_id m"
      using by_key_SomeD(4) by metis
    from dead_member_not_rotated [OF m(1,2) this disjI1 [OF m(3)] assms(2) creds_le_refl] run
    show False by (metis is_ok_iff fst_conv)
  qed
  ultimately show ?thesis by (simp add: RefreshGrant secret_of_def)
qed

section \<open>Logging out and deciding\<close>

lemma finish_spends:
  assumes "finish L e d session challenge reg = (Inr out, d')"
  shows "\<exists>row \<in> set (db_logouts d). lc_id row = lch_id challenge \<and> lc_consumed_at row = None"
    and "spent L (LogoutChallenge (lch_id challenge)) d'"
proof -
  obtain o1 where run: "finish_inner L e d session challenge reg None = (o1, d')" "o1 = Inr (Some out)"
    using assms by (auto simp: finish_def and_then_Inr_iff ok_or_def split: prod.splits option.splits)
  from finish_inner_cases [OF run(1)] run(2) obtain row where
    row: "row \<in> set (db_logouts d)" "lc_id row = lch_id challenge" "lc_consumed_at row = None"
    and d': "d' = end_session (pv_id session) (env_clock e 0) (env_clock e 0)
                 (consume_challenge (lch_id challenge) (env_clock e 0) d)" by auto
  show "\<exists>row \<in> set (db_logouts d). lc_id row = lch_id challenge \<and> lc_consumed_at row = None" using row by blast
  have "row\<lparr>lc_consumed_at := Some (env_clock e 0)\<rparr> \<in> set (db_logouts d')"
    using row(1,2) by (auto simp: d' end_session_def revoke_families_def revoke_session_def consume_challenge_def set_update_where)
  then show "spent L (LogoutChallenge (lch_id challenge)) d'" using row(2)
    by (auto simp: spent_def intro!: bexI [of _ "row\<lparr>lc_consumed_at := Some (env_clock e 0)\<rparr>"])
qed

lemma challenge_unspent:
  assumes "row \<in> set (db_logouts d)" "lc_id row = cid" "lc_consumed_at row = None" "db_inv d"
  shows "\<not> spent L (LogoutChallenge cid) d"
proof
  assume "spent L (LogoutChallenge cid) d"
  then obtain q where "q \<in> set (db_logouts d)" "lc_id q = cid" "lc_consumed_at q \<noteq> None" by (auto simp: spent_def)
  with distinct_key_eq [OF db_invD(3) [OF assms(4)] assms(1), of q] assms(2,3) show False by simp
qed

lemma or_answer_located:
  assumes "or_answer m (\<lambda>_. local_error text) f = (r, w')" "location r \<noteq> None"
  shows "\<exists>v w. m = (Inr v, w) \<and> f v w = (r, w')"
  using assms by (cases m; cases "fst m") (auto simp: or_answer_def)

lemma run_db_conv: "run_db f w = (v, w') \<Longrightarrow> f (wd_db w) = (v, wd_db w')"
  by (cases "f (wd_db w)") (auto simp: run_db_def)

lemma logout_confirmed_finishes:
  assumes "logout_confirmed I p h q w = (r, w')" and "location r \<noteq> None"
  shows "\<exists>shown cid csrf session out. one q ''challenge'' = Some shown \<and> uuid_parse (io_libs I) shown = Some cid
    \<and> session_from I 0 (pr_secure p) h w = Some session
    \<and> finish (io_libs I) (io_env I 1) (wd_db w) session (submitted cid csrf) (pr_registry p) = (Inr out, wd_db w')"
proof -
  from assms obtain shown csrf where q: "one q ''challenge'' = Some shown" "optional q ''csrf'' = Inr (Some csrf)"
    by (auto simp: logout_confirmed_def optional_def split: sum.splits option.splits if_splits)
  with assms obtain cid where cid: "uuid_parse (io_libs I) shown = Some cid"
    by (cases "uuid_parse (io_libs I) shown")
      (auto simp: logout_confirmed_def optional_def split: sum.splits option.splits if_splits)
  with assms q obtain session where session: "session_from I 0 (pr_secure p) h w = Some session"
    by (cases "session_from I 0 (pr_secure p) h w")
      (auto simp: logout_confirmed_def optional_def split: sum.splits option.splits if_splits)
  have "or_answer (run_db (\<lambda>d. finish (io_libs I) (io_env I 1) d session (submitted cid csrf) (pr_registry p)) w)
      (\<lambda>_. local_error invalid_request_text) (\<lambda>outcome w. (logout_response I p outcome, w)) = (r, w')"
    using assms q cid session by (auto simp: logout_confirmed_def optional_def split: sum.splits option.splits if_splits)
  from or_answer_located [OF this assms(2)] obtain out w1 where
    "run_db (\<lambda>d. finish (io_libs I) (io_env I 1) d session (submitted cid csrf) (pr_registry p)) w = (Inr out, w1)"
    "(logout_response I p out, w1) = (r, w')" by blast
  with run_db_conv q cid session show ?thesis by (metis prod.inject)
qed

lemma decide_decides:
  assumes "decide I p action session handle n registry d = (Inr v, d')"
  shows "decided d' (ch_transaction_id handle)"
  using assms
  by (auto simp: decide_def apfst_Inr_iff deny_with_registry_def split: if_splits
      intro: approve_decides deny_decides)

lemma consent_post_decides:
  assumes "consent_post I p h bytes w = (r, w')" and "sent_back r"
  shows "\<exists>q tid csrf session. pairs_bytes (io_libs I) bytes 4096 = Inr q
    \<and> Option.bind (one q ''transaction_id'') (uuid_parse (io_libs I)) = Some tid
    \<and> awaits (io_libs I) (wd_db w) session \<lparr>ch_transaction_id = tid, ch_csrf = csrf\<rparr> \<and> decided (wd_db w') tid"
proof -
  from assms obtain q where q: "pairs_bytes (io_libs I) bytes 4096 = Inr q"
    by (auto simp: consent_post_def split: sum.splits)
  with assms obtain tid csrf action session where parts:
    "Option.bind (one q ''transaction_id'') (uuid_parse (io_libs I)) = Some tid"
    and run: "consent_decision I p action session \<lparr>ch_transaction_id = tid, ch_csrf = csrf\<rparr> w = (r, w')"
    by (auto simp: consent_post_def split: option.splits if_splits)
  from run assms(2) obtain client where client: "transaction_client_id (wd_db w) tid = Inr client"
    by (auto simp: consent_decision_def split: sum.splits)
  obtain out w1 where out: "with_policy I p 1 BrMetadataExpired client (decide I p action session \<lparr>ch_transaction_id = tid, ch_csrf = csrf\<rparr>) w = (out, w1)"
    by fastforce
  have "w' = w1 \<and> (\<exists>v. out = Done v)"
    using run assms(2) client out by (auto simp: consent_decision_def split: resolved.splits sum.splits prod.splits if_splits)
  then obtain v where v: "out = Done v" "w' = w1" by blast
  from decision.succeeded [OF out [unfolded v(1)]] obtain n registry where
    "decide I p action session \<lparr>ch_transaction_id = tid, ch_csrf = csrf\<rparr> n registry (wd_db w) = (Inr v, wd_db w')"
    using v(2) by blast
  from decided_awaits [OF this] decide_decides [OF this] q parts show ?thesis by force
qed

section \<open>One use\<close>

lemma with_body_cases:
  assumes "with_body I rq f w = (r, w')" and "pairs_bytes (io_libs I) (rq_body rq) maximum = Inr q" and "maximum \<le> body_limit"
  shows "f (rq_body rq) w = (r, w')"
proof -
  have "length (rq_body rq) \<le> maximum"
    using assms(2) by (auto simp: pairs_bytes_def pairs_def from_utf8_def and_then_Inr_iff ok_or_def split: if_splits)
  then show ?thesis using assms(1,3) by (simp add: with_body_def split: if_splits)
qed

lemma form_of_Inr: "form_of I rq maximum \<noteq> [] \<Longrightarrow> pairs_bytes (io_libs I) (rq_body rq) maximum = Inr (form_of I rq maximum)"
  by (simp add: form_of_def split: sum.splits)

lemma one_Some_mem: "one q name = Some v \<Longrightarrow> (name, v) \<in> set q"
proof -
  assume "one q name = Some v"
  then have "map snd (filter (\<lambda>kv. fst kv = name) q) = [v]"
    unfolding one_def by (simp split: list.splits)
  then have "v \<in> set (map snd (filter (\<lambda>kv. fst kv = name) q))" by simp
  then show ?thesis by auto
qed

lemma grant_of_Nil: "grant_of [] = Inl ''unsupported_grant_type''"
  by (simp add: grant_of_def one_def)

lemma token_accepted_spends:
  assumes "presents I rq x" "x = secret_of g" "grant_of (form_of I rq 8192) = Inr g" "rq_method rq = ''POST''" "rq_path rq = ''/token''"
    and "serve I s rq w = (r, w')" "rs_status r = 200" "db_inv (wd_db w)" "db_inv (wd_db w')"
  shows "\<not> spent (io_libs I) x (wd_db w) \<and> spent (io_libs I) x (wd_db w')"
proof -
  have q: "pairs_bytes (io_libs I) (rq_body rq) 8192 = Inr (form_of I rq 8192)"
    using form_of_Inr [of I rq 8192] grant_of_Nil assms(3) by (metis Inl_Inr_False)
  from serve_post [OF assms(6,4), of Token] assms(5,7) obtain p r0 where
    "with_body I rq (token_endpoint I (as_keys s) p (rq_headers rq)) w = (r0, w')" "rs_status r0 = 200"
    by (auto simp: posts_def)
  from token_endpoint_redeems [OF with_body_cases [OF this(1) q] this(2)] q assms(3)
  obtain t n registry v where "redeem_grant I t g n registry (wd_db w) = (Inr v, wd_db w')"
    by (auto simp: body_limit_def)
  from redeem_spends [OF this] assms(2,8,9) show ?thesis by (simp add: db_invD)
qed

lemma logout_accepted_spends:
  assumes "presents I rq (LogoutChallenge cid)" "serve I s rq w = (r, w')" "location r \<noteq> None" "db_inv (wd_db w)"
  shows "\<not> spent (io_libs I) (LogoutChallenge cid) (wd_db w) \<and> spent (io_libs I) (LogoutChallenge cid) (wd_db w')"
proof -
  let ?q = "form_of I rq 4096"
  from assms(1) obtain shown where shown: "one ?q ''challenge'' = Some shown" "uuid_parse (io_libs I) shown = Some cid"
    and route: "rq_method rq = ''POST''" "rq_path rq = ''/logout''" by (auto simp: bind_eq_Some_conv)
  have member: "list_ex (\<lambda>kv. fst kv = ''challenge'' \<or> fst kv = ''csrf'') ?q"
    using one_Some_mem [OF shown(1)] by (auto simp: list_ex_iff intro!: bexI [of _ "(''challenge'', shown)"])
  then have q: "pairs_bytes (io_libs I) (rq_body rq) 4096 = Inr ?q" by (intro form_of_Inr) auto
  from serve_post [OF assms(2) route(1), of LogoutPost] route(2) assms(3) obtain p r0 where
    run: "with_body I rq (logout_post I (as_keys s) p (rq_query rq) (rq_headers rq)) w = (r0, w')" "location r0 \<noteq> None"
    by (auto simp: posts_def)
  have "logout_post I (as_keys s) p (rq_query rq) (rq_headers rq) (rq_body rq) w = (r0, w')"
    by (rule with_body_cases [OF run(1) q]) (simp add: body_limit_def)
  then have "logout_confirmed I p (rq_headers rq) ?q w = (r0, w')"
    using run(2) q member by (auto simp: logout_post_def split: if_splits)
  from logout_confirmed_finishes [OF this run(2)] shown obtain csrf session out where
    finish: "finish (io_libs I) (io_env I 1) (wd_db w) session (submitted cid csrf) (pr_registry p) = (Inr out, wd_db w')"
    by auto
  from finish_spends [OF finish] challenge_unspent [OF _ _ _ assms(4)] show ?thesis by (auto simp: submitted_def)
qed

lemma consent_accepted_spends:
  assumes "presents I rq (ConsentTransaction tid)" "serve I s rq w = (r, w')" "sent_back r" "db_inv (wd_db w)"
  shows "\<not> spent (io_libs I) (ConsentTransaction tid) (wd_db w) \<and> spent (io_libs I) (ConsentTransaction tid) (wd_db w')"
proof -
  let ?q = "form_of I rq 4096"
  from assms(1) obtain shown where shown: "one ?q ''transaction_id'' = Some shown" "uuid_parse (io_libs I) shown = Some tid"
    and route: "rq_method rq = ''POST''" "rq_path rq = ''/consent''" by (auto simp: bind_eq_Some_conv)
  have q: "pairs_bytes (io_libs I) (rq_body rq) 4096 = Inr ?q"
    using one_Some_mem [OF shown(1)] by (intro form_of_Inr) auto
  from serve_post [OF assms(2) route(1), of ConsentPost] route(2) assms(3) obtain p r0 where
    run: "with_body I rq (consent_post I p (rq_headers rq)) w = (r0, w')" "sent_back r0"
    by (auto simp: posts_def dest: sent_back_cong not_sent_back)
  have "consent_post I p (rq_headers rq) (rq_body rq) w = (r0, w')"
    by (rule with_body_cases [OF run(1) q]) (simp add: body_limit_def)
  from consent_post_decides [OF this run(2)] q shown obtain csrf session where
    row: "awaits (io_libs I) (wd_db w) session \<lparr>ch_transaction_id = tid, ch_csrf = csrf\<rparr>" "decided (wd_db w') tid"
    by auto
  have "\<not> decided (wd_db w) tid"
  proof
    assume "decided (wd_db w) tid"
    then obtain a where a: "a \<in> set (db_browser (wd_db w))" "ba_id a = tid" "stage_rank (ba_stage a) = 4"
      by (auto simp: decided_def)
    from row(1) obtain b where b: "b \<in> set (db_browser (wd_db w))" "ba_id b = tid" "ba_stage b = AwaitingConsent"
      by (auto simp: awaits_def)
    from browser_inv_same_row [OF db_invD(2) [OF assms(4)] a(1) b(1)] a b show False by simp
  qed
  with row(2) show ?thesis by (simp add: spent_def)
qed

lemma accepted_spends_secret:
  assumes "accepted x \<lparr>xc_io = I, xc_state = s, xc_request = rq, xc_response = r\<rparr>" and "io_libs I = L"
    and "serve I s rq w = (r, w')" "db_inv (wd_db w)" "db_inv (wd_db w')"
  shows "\<not> spent L x (wd_db w) \<and> spent L x (wd_db w')"
proof (cases x)
  case (CodeSecret code)
  then obtain redirect verifier where "grant_of (form_of I rq 8192) = Inr (CodeGrant code redirect verifier)"
    using assms(1) by (auto simp: accepted_def split: sum.splits grant.splits)
  from token_accepted_spends [OF _ _ this _ _ assms(3) _ assms(4,5), of x] assms(1,2) show ?thesis
    by (auto simp: CodeSecret secret_of_def accepted_def)
next
  case (RefreshSecret refresh)
  then have "grant_of (form_of I rq 8192) = Inr (RefreshGrant refresh)"
    using assms(1) by (auto simp: accepted_def split: sum.splits grant.splits)
  from token_accepted_spends [OF _ _ this _ _ assms(3) _ assms(4,5), of x] assms(1,2) show ?thesis
    by (auto simp: RefreshSecret secret_of_def accepted_def)
next
  case (LogoutChallenge cid)
  then show ?thesis using logout_accepted_spends [OF _ assms(3) _ assms(4)] assms(1,2) by (simp add: accepted_def)
next
  case (ConsentTransaction tid)
  then show ?thesis using consent_accepted_spends [OF _ assms(3) _ assms(4)] assms(1,2) by (simp add: accepted_def)
qed

interpretation one_time: single_use "accepted x" "spent L x" L for x L
  by unfold_locales (erule (4) accepted_spends_secret, erule (2) spent_persists)

text \<open>C1: However requests are served, and whatever other transactions run in between, a secret of
  one use is accepted at most once: at most one request that presents a given authorization code or a
  given refresh token is answered 200, at most one that confirms a given logout challenge logs out,
  and at most one decision on a given authorization is sent back to the client, by the page that
  leads a web client's browser on or by the redirect to a native one.\<close>

theorem one_time_secret_accepted_once:
  assumes "served L B w h w'" and "db_inv (wd_db w)"
  shows "length (filter (accepted x) h) \<le> 1"
  using one_time.accepted_at_most_once [OF assms] by blast

section \<open>A code presented twice\<close>

text \<open>A client's post to the concrete service.\<close>

lemma serve_token_answer:
  assumes "length (rq_body rq) \<le> 8192" "rq_method rq = ''POST''" "rq_path rq = ''/token''" "as_provider s = Some p"
  shows "rs_status (fst (serve I s rq w)) = rs_status (fst (token_endpoint I (as_keys s) p (rq_headers rq) (rq_body rq) w))"
proof -
  have "base_route I s rq = None" "api_route rq = Some Token"
    using assms by (simp_all add: base_route_def api_route_def is_get_def is_post_def)
  then have "dispatch I s rq w = token_endpoint I (as_keys s) p (rq_headers rq) (rq_body rq) w"
    using assms(1,4) by (simp add: dispatch_def with_body_def body_limit_def)
  then show ?thesis
    by (cases "token_endpoint I (as_keys s) p (rq_headers rq) (rq_body rq) w")
      (simp add: serve_def drop_body_def security_middleware_def with_headers_def)
qed

definition code_exchange :: "world \<Rightarrow> exchange" where
  "code_exchange w = \<lparr>xc_io = code_io, xc_state = ref_app, xc_request = post ''/token'' code_body,
     xc_response = fst (serve code_io ref_app (post ''/token'' code_body) w)\<rparr>"

lemma code_exchange_accepted: "accepted (CodeSecret (sc_secret 50)) (code_exchange (ref_world sc_db2))"
proof -
  have "rs_status (fst (serve code_io ref_app (post ''/token'' code_body) (ref_world sc_db2))) = 200"
    using serve_token_answer [of "post ''/token'' code_body" ref_app ref_provider code_io] code_body_short code_form_answered
    by (simp add: post_def ref_app_def)
  moreover have "form_of code_io (post ''/token'' code_body) 8192 = code_form"
    using code_body_pairs by (simp add: form_of_def post_def code_io_def ref_io_def)
  ultimately show ?thesis
    by (simp add: accepted_def code_exchange_def code_form_grant) (simp add: post_def)
qed

theorem one_time_secret_accepted_once_witness:
  "\<exists>w1. accepted (CodeSecret (sc_secret 50)) (code_exchange (ref_world sc_db2))
     \<and> length (filter (accepted (CodeSecret (sc_secret 50))) [code_exchange w1, code_exchange (ref_world sc_db2)]) = 1"
proof -
  obtain r1 w1 where r1: "serve code_io ref_app (post ''/token'' code_body) (ref_world sc_db2) = (r1, w1)" by fastforce
  obtain r2 w2 where r2: "serve code_io ref_app (post ''/token'' code_body) w1 = (r2, w2)" by fastforce
  have parts: "io_libs code_io = ref_libs" "io_codec code_io = ref_codec" by (simp_all add: code_io_def ref_io_def)
  note two = served_request [OF served_request [OF served_start parts r1] parts r2]
  have "served ref_libs ref_codec (ref_world sc_db2) [code_exchange w1, code_exchange (ref_world sc_db2)] w2"
    using two by (simp add: code_exchange_def r1 r2)
  from one_time_secret_accepted_once [OF this] have
    "length (filter (accepted (CodeSecret (sc_secret 50))) [code_exchange w1, code_exchange (ref_world sc_db2)]) \<le> 1"
    using sc_db2_db_inv by (simp add: ref_world_def)
  with code_exchange_accepted show ?thesis by (intro exI [of _ w1]) (auto split: if_splits)
qed


end
