(* ===== verification/Service_Logout.thy ===== *)
theory Service_Logout
  imports Service_History
begin

text \<open>
  Logging out at the HTTP surface: both ways to complete a logout, the confirmed form and the
  identity-token hint, end the session of the browser for all later requests.
\<close>

section \<open>A session that logged out\<close>

text \<open>The session of this secret has ended, and with it every refresh family under it.\<close>

definition ended :: "libs \<Rightarrow> string \<Rightarrow> db \<Rightarrow> bool" where
  "ended L raw d \<longleftrightarrow> (\<exists>s \<in> set (db_sessions d). ps_token_hash s = hash L raw \<and> ps_revoked_at s \<noteq> None)"

lemma ended_persists: "ended L raw d \<Longrightarrow> db_le d d' \<Longrightarrow> ended L raw d'"
proof -
  assume "ended L raw d" "db_le d d'"
  then obtain s where s: "s \<in> set (db_sessions d)" "ps_token_hash s = hash L raw" "ps_revoked_at s \<noteq> None"
    and "creds_le d d'" using db_leD(1) by (auto simp: ended_def)
  then obtain s' where "s' \<in> set (db_sessions d')" "session_le s s'"
    using sessions.rows_member by (metis creds_le_def)
  with s session_leD [of s s'] show "ended L raw d'"
    unfolding ended_def by (intro bexI [of _ s']) (auto simp: session_le_def)
qed

lemma ended_session_lost:
  assumes "ended L raw d" "cred_inv d"
  shows "find_provider_session L e d raw = Inl InvalidGrant"
    and "s \<in> set (db_sessions d) \<Longrightarrow> ps_token_hash s = hash L raw \<Longrightarrow> f \<in> set (db_families d)
      \<Longrightarrow> rf_session_id f = ps_id s \<Longrightarrow> rf_revoked_at f \<noteq> None"
proof -
  obtain s0 where s0: "s0 \<in> set (db_sessions d)" "ps_token_hash s0 = hash L raw" "ps_revoked_at s0 \<noteq> None"
    using assms(1) by (auto simp: ended_def)
  have same: "r = s0" if "r \<in> set (db_sessions d)" "ps_token_hash r = hash L raw" for r
    using distinct_key_eq [OF cred_inv_distinct(7) [OF assms(2)] that(1) s0(1)] that(2) s0(2) by simp
  then have "find (\<lambda>r. ps_token_hash r = hash L raw \<and> ps_revoked_at r = None \<and> env_clock e 0 < ps_expires_at r)
      (db_sessions d) = None" using s0(3) by (auto simp: find_None_iff)
  then show "find_provider_session L e d raw = Inl InvalidGrant" by (simp add: find_provider_session_def)
  assume s: "s \<in> set (db_sessions d)" "ps_token_hash s = hash L raw" and f: "f \<in> set (db_families d)" "rf_session_id f = ps_id s"
  obtain q where q: "q \<in> set (db_sessions d)" "under_session f q"
    using assms(2) f(1) unfolding cred_inv_def families_wf_def by blast
  then have "q = s" using distinct_key_eq [OF cred_inv_distinct(1) [OF assms(2)] q(1) s(1)] f(2) by (simp add: under_session_def)
  with q same [OF s] s0(3) show "rf_revoked_at f \<noteq> None" by (simp add: under_session_def)
qed

text \<open>The session a request was accepted with.\<close>

definition session_of_secret :: "libs \<Rightarrow> string \<Rightarrow> uuid \<Rightarrow> db \<Rightarrow> bool" where
  "session_of_secret L raw sid d \<longleftrightarrow> (\<exists>s \<in> set (db_sessions d). ps_token_hash s = hash L raw \<and> ps_id s = sid)"

lemma session_from_secret:
  assumes "session_from I k secure h w = Some session"
  shows "\<exists>raw. cookie (io_http I) h (session_cookie secure) = Some raw
    \<and> session_of_secret (io_libs I) raw (pv_id session) (wd_db w)"
  using assms
  by (auto simp: session_from_def find_provider_session_def session_of_secret_def dest!: find_Some_set
      split: option.splits sum.splits)

lemma session_of_secret_persists: "session_of_secret L raw sid d \<Longrightarrow> db_le d d' \<Longrightarrow> session_of_secret L raw sid d'"
proof -
  assume "session_of_secret L raw sid d" "db_le d d'"
  then obtain s where "s \<in> set (db_sessions d)" "ps_token_hash s = hash L raw" "ps_id s = sid" "creds_le d d'"
    using db_leD(1) by (auto simp: session_of_secret_def)
  then show "session_of_secret L raw sid d'"
    using sessions.rows_member session_leD unfolding creds_le_def session_of_secret_def by metis
qed

lemma finish_inner_ends:
  assumes "finish_inner L e d session challenge reg hint = (Inr (Some out), d')" and "cred_inv d"
    and "session_of_secret L raw (pv_id session) d"
  shows "ended L raw d'"
proof -
  from finish_inner_cases [OF assms(1)] have d': "d' = end_session (pv_id session) (env_clock e 0) (env_clock e 0)
     (consume_challenge (lch_id challenge) (env_clock e 0) d)" by auto
  from assms(3) obtain s where s: "s \<in> set (db_sessions d)" "ps_token_hash s = hash L raw" "ps_id s = pv_id session"
    by (auto simp: session_of_secret_def)
  then have "s\<lparr>ps_revoked_at := coalesce (ps_revoked_at s) (env_clock e 0)\<rparr> \<in> set (db_sessions d')"
    using revoke_session_member [of s "consume_challenge (lch_id challenge) (env_clock e 0) d" "pv_id session" "env_clock e 0"]
    by (simp add: d' end_session_def consume_challenge_def)
  with s(2) show ?thesis
    unfolding ended_def by (intro bexI) (auto simp: coalesce_def split: option.splits)
qed

lemma logout_confirmed_ends:
  assumes "logout_confirmed I p h q w = (r, w')" and "location r \<noteq> None" and "db_inv (wd_db w)"
    and "cookie (io_http I) h (session_cookie (pr_secure p)) = Some raw"
  shows "ended (io_libs I) raw (wd_db w')"
proof -
  from logout_confirmed_finishes [OF assms(1,2)] obtain cid csrf session out where
    session: "session_from I 0 (pr_secure p) h w = Some session"
    and run: "finish (io_libs I) (io_env I 1) (wd_db w) session (submitted cid csrf) (pr_registry p) = (Inr out, wd_db w')"
    by blast
  have "finish_inner (io_libs I) (io_env I 1) (wd_db w) session (submitted cid csrf) (pr_registry p) None = (Inr (Some out), wd_db w')"
    using run by (auto simp: finish_def and_then_Inr_iff ok_or_def split: prod.splits option.splits)
  from finish_inner_ends [OF this db_invD(1) [OF assms(3)]] session_from_secret [OF session] assms(4)
  show ?thesis by auto
qed

lemma logout_confirm_page [simp]: "location (logout_confirm I challenge) = None"
  by (simp add: logout_confirm_def)

lemma logout_rp_ends:
  assumes "logout_rp I keys p h q w = (r, w')" and "location r \<noteq> None" and "db_inv (wd_db w)"
    and "cookie (io_http I) h (session_cookie (pr_secure p)) = Some raw"
  shows "ended (io_libs I) raw (wd_db w')"
proof -
  from assms(1,2) obtain a where a: "logout_params_of I keys p q = Some a"
    by (auto simp: logout_rp_def split: option.splits)
  from assms(1,2) a obtain session where session: "session_from I 0 (pr_secure p) h w = Some session"
    by (auto simp: logout_rp_def split: option.splits)
  note run = assms(1) [unfolded logout_rp_def a session option.case]
  from or_answer_located [OF run assms(2)] obtain challenge w1 where begun: "run_db (begin_challenge I p session a) w = (Inr challenge, w1)"
    and rest: "(case (if lp_redirect a \<noteq> None then lp_hint a else None) of None \<Rightarrow> (logout_confirm I challenge, w1)
            | Some hint \<Rightarrow>
                or_answer (run_db (\<lambda>d. finish_hint (io_libs I) (io_env I 2) d session challenge (pr_registry p) hint) w1)
                  (\<lambda>_. local_error invalid_request_text) (\<lambda>outcome w. (case outcome of
                     Some v \<Rightarrow> (logout_response I p v, w)
                   | None \<Rightarrow> (logout_confirm I challenge, w)))) = (r, w')" by blast
  from rest assms(2) obtain hint where
    "or_answer (run_db (\<lambda>d. finish_hint (io_libs I) (io_env I 2) d session challenge (pr_registry p) hint) w1)
                  (\<lambda>_. local_error invalid_request_text) (\<lambda>outcome w. (case outcome of
                     Some v \<Rightarrow> (logout_response I p v, w)
                   | None \<Rightarrow> (logout_confirm I challenge, w))) = (r, w')"
    by (auto split: option.splits if_splits)
  from or_answer_located [OF this assms(2)] obtain outcome w2 where
    hinted: "run_db (\<lambda>d. finish_hint (io_libs I) (io_env I 2) d session challenge (pr_registry p) hint) w1 = (Inr outcome, w2)"
    and last: "(case outcome of Some v \<Rightarrow> (logout_response I p v, w2) | None \<Rightarrow> (logout_confirm I challenge, w2)) = (r, w')"
    by blast
  obtain out where out: "outcome = Some out" "w2 = w'" using last assms(2) by (cases outcome) auto
  have finish: "finish_inner (io_libs I) (io_env I 2) (wd_db w1) session challenge (pr_registry p) (Some hint)
      = (Inr (Some out), wd_db w')"
    using run_db_conv [OF hinted] by (simp add: out finish_hint_def)
  have "snd (begin_challenge I p session a (wd_db w)) = wd_db w1" using run_db_conv [OF begun] by simp
  with handlers.sound_begin_challenge [of I "wd_db w" p session a] have "runs (io_libs I) (io_codec I) (wd_db w) (wd_db w1)" by simp
  from runs_inv [OF this assms(3)] have later: "db_inv (wd_db w1)" "db_le (wd_db w) (wd_db w1)" by simp_all
  from session_from_secret [OF session] assms(4)
  have "session_of_secret (io_libs I) raw (pv_id session) (wd_db w1)"
    using session_of_secret_persists later(2) by auto
  from finish_inner_ends [OF finish db_invD(1) [OF later(1)] this] show ?thesis .
qed

text \<open>An exchange that logged the browser out: an answer of the logout endpoint that sends it on,
  to a request with this session cookie.\<close>

definition logged_out :: "string \<Rightarrow> exchange \<Rightarrow> bool" where
  "logged_out raw c \<longleftrightarrow> rq_path (xc_request c) = ''/logout'' \<and> location (xc_response c) \<noteq> None
     \<and> is_some_and (as_provider (xc_state c)) (\<lambda>p.
         cookie (io_http (xc_io c)) (rq_headers (xc_request c)) (session_cookie (pr_secure p)) = Some raw)"

lemma rejected_location: "framework_laws H \<Longrightarrow> location (hl_body_rejection H) = None"
  by (auto simp: framework_laws_def code_headers_def location_def)

lemma logged_out_ends:
  assumes "serve I s rq w = (r, w')" and "logged_out raw \<lparr>xc_io = I, xc_state = s, xc_request = rq, xc_response = r\<rparr>"
    and "framework_laws (io_http I)" and "db_inv (wd_db w)"
  shows "ended (io_libs I) raw (wd_db w')"
proof -
  obtain r0 where r0: "dispatch I s rq w = (r0, w')" "r = drop_body rq (security_middleware (rq_path rq) r0)"
    using assms(1) by (cases "dispatch I s rq w") (auto simp: serve_def)
  from assms(2) obtain p where path: "rq_path rq = ''/logout''" and loc: "location r \<noteq> None" and p: "as_provider s = Some p"
    and raw: "cookie (io_http I) (rq_headers rq) (session_cookie (pr_secure p)) = Some raw"
    by (auto simp: logged_out_def is_some_and_def split: option.splits)
  have "location (drop_body rq x) = location x" for x by (simp add: drop_body_def location_def)
  then have r: "location r0 \<noteq> None"
    using loc location_middleware [of "rq_path rq" r0] path by (simp add: r0(2) public_paths_def)
  have routes: "base_route I s rq = None" "api_route rq = None"
    using path by (auto simp: base_route_def api_route_def)
  note dispatched = r0(1) [unfolded dispatch_def routes p option.case prod.case]
  note ends = logout_confirmed_ends [OF _ r assms(4) raw] logout_rp_ends [OF _ r assms(4) raw]
  have "location not_found = None" by (simp add: not_found_def)
  then have "run_handler I (as_keys s) p rq LogoutGet w = (r0, w') \<or> run_handler I (as_keys s) p rq LogoutPost w = (r0, w')"
    using dispatched r path by (auto simp: browser_route_def split: if_splits)
  then show ?thesis
  proof
    assume "run_handler I (as_keys s) p rq LogoutGet w = (r0, w')"
    then show ?thesis using ends(2) r by (auto simp: logout_get_def split: sum.splits)
  next
    assume "run_handler I (as_keys s) p rq LogoutPost w = (r0, w')"
    then show ?thesis using ends r rejected_location [OF assms(3)]
      by (auto simp: with_body_def logout_post_def split: sum.splits if_splits)
  qed
qed

text \<open>C17: Logging out at the HTTP surface is final: once the logout endpoint has answered a request by
  sending the browser on, by the confirmed form or by an identity-token hint, the session cookie of that
  request finds no session in any later state, whatever was served in between, and every refresh
  family under its session is revoked.\<close>

theorem logged_out_browser_stays_out:
  assumes "served L B w h w'" and "db_inv (wd_db w)" and "c \<in> set h" and "logged_out raw c"
    and "framework_laws (io_http (xc_io c))"
  shows "find_provider_session L e (wd_db w') raw = Inl InvalidGrant
    \<and> (\<forall>s \<in> set (db_sessions (wd_db w')). \<forall>f \<in> set (db_families (wd_db w')).
         ps_token_hash s = hash L raw \<and> rf_session_id f = ps_id s \<longrightarrow> rf_revoked_at f \<noteq> None)"
proof -
  have "ended L raw (wd_db w')" using assms
  proof (induction rule: served.induct)
    case (served_request h w1 I s rq r w2)
    let ?c = "\<lparr>xc_io = I, xc_state = s, xc_request = rq, xc_response = r\<rparr>"
    have inv: "db_inv (wd_db w1)" using served_inv [OF served_request(1)] served_request.prems by blast
    have le: "db_le (wd_db w1) (wd_db w2)" using runs_inv [OF serve_runs [OF served_request(4)] inv] by blast
    show ?case
    proof (cases "c = ?c")
      case True
      with logged_out_ends [OF served_request(4) _ _ inv] served_request.prems served_request(2) show ?thesis by simp
    next
      case False
      then show ?thesis using served_request.IH served_request.prems ended_persists [OF _ le] by simp
    qed
  next
    case (served_others h w1 w2)
    then show ?case using ended_persists runs_inv [OF served_others(2)] served_inv [OF served_others(1)] by blast
  qed simp
  moreover have "cred_inv (wd_db w')" using served_inv [OF assms(1,2)] db_invD(1) by blast
  ultimately show ?thesis using ended_session_lost by blast
qed

section \<open>A browser that logs out\<close>

definition bye_io :: io where
  "bye_io = ref_io\<lparr>io_env := (\<lambda>n. env_at (seconds 1110) 81)\<rparr>"

definition bye_headers :: header_map where
  "bye_headers = [(''cookie'', ''__Host-eri_session='' @ sc_secret 40), (''content-type'', ''application/x-www-form-urlencoded'')]"

definition bye_body :: string where
  "bye_body = ''challenge=80&csrf='' @ sc_secret 80"

definition bye_request :: http_request where
  "bye_request = \<lparr>rq_method = ''POST'', rq_path = ''/logout'', rq_query = None, rq_headers = bye_headers, rq_body = bye_body\<rparr>"

definition bye_form :: form where
  "bye_form = [(''challenge'', ''80''), (''csrf'', sc_secret 80)]"

lemma bye_body_ascii: "list_all (\<lambda>c. \<not> digit7 c) bye_body" by code_simp

lemma bye_body_percent: "CHR ''%'' \<notin> set bye_body" by code_simp

lemma bye_body_parsed: "form_parse ref_libs bye_body = bye_form" by code_simp

lemma bye_body_short: "length bye_body \<le> 4096" by code_simp

lemma bye_form_short: "list_all (\<lambda>(k, x). length k \<le> 128 \<and> length x \<le> 2048) bye_form" by code_simp

lemma bye_pairs: "pairs_bytes ref_libs bye_body 4096 = Inr bye_form"
proof -
  have "\<not> list_ex (\<lambda>(k, x). 128 < length k \<or> 2048 < length x) bye_form"
    using bye_form_short by (auto simp: list_ex_iff list_all_iff)
  moreover have "length bye_form \<le> 32" by (simp add: bye_form_def)
  ultimately show ?thesis
    using plain_utf8 [OF bye_body_ascii] plain_percent [OF bye_body_percent, of 0] bye_body_parsed bye_body_short
    by (simp add: pairs_bytes_def pairs_def valid_percent_def Let_def)
qed

lemma bye_cookie: "cookie ref_http bye_headers (session_cookie True) = Some (sc_secret 40)" by code_simp

lemma bye_session: "find_provider_session ref_libs (env_at (seconds 1110) 81) (snd lg_begin) (sc_secret 40) = Inr sc_session"
  by code_simp

lemma bye_finish: "fst (finish ref_libs (env_at (seconds 1110) 81) (snd lg_begin) sc_session lg_challenge ref_registry)
   = Inr lg_outcome"
  by code_simp

lemma bye_parts: "optional bye_form ''challenge'' = Inr (Some ''80'')" "optional bye_form ''csrf'' = Inr (Some (sc_secret 80))"
  "uuid_parse ref_libs ''80'' = Some 80"
  "list_ex (\<lambda>kv. fst kv = ''challenge'' \<or> fst kv = ''csrf'') bye_form"
  "\<not> list_ex (\<lambda>kv. fst kv \<noteq> ''challenge'' \<and> fst kv \<noteq> ''csrf'') bye_form"
  by code_simp+

lemma bye_origin: "same_origin H bye_headers u"
  by (simp add: same_origin_def origin_def bye_headers_def header_get_all_def is_none_or_def)

text \<open>The request logs out, over any framework that reads its two headers.\<close>

lemma bye_run:
  assumes "io_libs I = ref_libs" "io_env I = io_env bye_io"
    and "cookie (io_http I) bye_headers (session_cookie True) = Some (sc_secret 40)" "form_content_type (io_http I) bye_headers"
  shows "\<exists>d. dispatch I ref_app bye_request (ref_world (snd lg_begin)) = (logout_response I ref_provider lg_outcome, ref_world d)"
proof -
  have env: "io_env I n = env_at (seconds 1110) 81" for n by (simp add: assms(2) bye_io_def)
  have p: "pr_secure ref_provider" "pr_registry ref_provider = ref_registry" by (simp_all add: ref_provider_def)
  have session: "session_from I 0 True bye_headers (ref_world (snd lg_begin)) = Some sc_session"
    using bye_session assms(3) by (simp add: session_from_def env assms(1) ref_world_def)
  obtain d where d: "finish ref_libs (env_at (seconds 1110) 81) (snd lg_begin) sc_session lg_challenge ref_registry = (Inr lg_outcome, d)"
    using bye_finish by (metis prod.collapse)
  then have "run_db (\<lambda>d. finish ref_libs (env_at (seconds 1110) 81) d sc_session (submitted 80 (sc_secret 80)) ref_registry)
      (ref_world (snd lg_begin)) = (Inr lg_outcome, ref_world d)"
    by (simp add: run_db_def ref_world_def lg_challenge_def)
  then have "logout_post I ref_keys ref_provider None bye_headers bye_body (ref_world (snd lg_begin))
      = (logout_response I ref_provider lg_outcome, ref_world d)"
    using bye_parts bye_pairs session bye_origin assms(4)
    by (simp add: logout_post_def logout_confirmed_def env assms(1) p or_answer_def is_some_and_def)
  moreover have "base_route I ref_app bye_request = None" "api_route bye_request = None"
    "browser_route ref_provider bye_request = Some LogoutPost"
    by (simp_all add: base_route_def api_route_def browser_route_def is_get_def is_post_def bye_request_def)
  ultimately show ?thesis
    using bye_body_short
    by (intro exI [of _ d]) (simp add: dispatch_def ref_app_def with_body_def body_limit_def bye_request_def)
qed

definition bye_exchange :: exchange where
  "bye_exchange = \<lparr>xc_io = bye_io, xc_state = ref_app, xc_request = bye_request,
     xc_response = fst (serve bye_io ref_app bye_request (ref_world (snd lg_begin)))\<rparr>"

lemma bye_logged_out: "logged_out (sc_secret 40) bye_exchange"
proof -
  have io: "io_libs bye_io = ref_libs" "io_http bye_io = ref_http" by (simp_all add: bye_io_def ref_io_def)
  have received: "cookie ref_http bye_headers (session_cookie True) = Some (sc_secret 40)" "form_content_type ref_http bye_headers"
    by code_simp+
  obtain d where run: "dispatch bye_io ref_app bye_request (ref_world (snd lg_begin)) = (logout_response bye_io ref_provider lg_outcome, ref_world d)"
    using bye_run [of bye_io] received by (auto simp: io)
  have "header_get ''location'' (header_append k v [(''location'', u)]) = Some u" for k v u
    by (simp add: header_get_def header_append_def)
  then have "location (logout_response bye_io ref_provider lg_outcome) \<noteq> None"
    by (simp add: logout_response_def redirect_params_def io ref_http_def location_def with_headers_def sensitive_def sensitive_header)
  then have "location (fst (serve bye_io ref_app bye_request (ref_world (snd lg_begin)))) \<noteq> None"
    using location_middleware [of "rq_path bye_request"] run
    by (simp add: serve_def drop_body_def) (simp add: bye_request_def public_paths_def)
  with received(1) show ?thesis
    by (simp add: logged_out_def bye_exchange_def is_some_and_def io) (simp add: bye_request_def ref_app_def ref_provider_def)
qed

theorem logged_out_browser_stays_out_witness:
  "\<exists>w1. find_provider_session ref_libs (env_at (seconds 1111) 90) (wd_db w1) (sc_secret 40) = Inl InvalidGrant
     \<and> served ref_libs ref_codec (ref_world (snd lg_begin)) [bye_exchange] w1"
proof -
  obtain r w1 where r: "serve bye_io ref_app bye_request (ref_world (snd lg_begin)) = (r, w1)" by fastforce
  have parts: "io_libs bye_io = ref_libs" "io_codec bye_io = ref_codec" by (simp_all add: bye_io_def ref_io_def)
  have served: "served ref_libs ref_codec (ref_world (snd lg_begin)) [bye_exchange] w1"
    using served_request [OF served_start parts r] by (simp add: bye_exchange_def r)
  have laws: "framework_laws (io_http (xc_io bye_exchange))"
    using ref_http_laws by (simp add: bye_exchange_def bye_io_def ref_io_def)
  have "db_inv (wd_db (ref_world (snd lg_begin)))" by (simp add: ref_world_def)
  from logged_out_browser_stays_out [OF served this _ bye_logged_out laws] served show ?thesis by auto
qed

end
