(* ===== verification/Service_Cookies.thy ===== *)
theory Service_Cookies
  imports Service_Logout
begin

text \<open>
  The cookies of every response: their names, their attributes and the characters of their values.
  The code builds each of them as text and unwraps its conversion to a header value; the same
  lemmas show that this conversion, and the challenge of a freshly drawn PKCE verifier, never fail.
\<close>

section \<open>Text of header values\<close>

text \<open>Visible ASCII, space and tab.  The \<open>http\<close> crate accepts such text as a header value and hands out the
  text of no other; \<open>uuid\<close> prints hexadecimal digits and hyphens.\<close>

definition field_char :: "char \<Rightarrow> bool" where
  "field_char c \<longleftrightarrow> c = CHR 0x09 \<or> (32 \<le> byte c \<and> byte c < 127)"

definition header_text_laws :: "libs \<Rightarrow> http_libs \<Rightarrow> bool" where
  "header_text_laws L H \<longleftrightarrow> (\<forall>v. list_all field_char v \<longrightarrow> hl_header_ok H v)
     \<and> (\<forall>v t. hl_to_str H v = Some t \<longrightarrow> list_all field_char t)
     \<and> (\<forall>u. list_all (\<lambda>c. is_ascii_alphanumeric c \<or> c = CHR ''-'') (uuid_show L u))"

lemma field_char_simps [simp]: "is_ascii_alphanumeric c \<Longrightarrow> field_char c" "b64url_char c \<Longrightarrow> field_char c"
  by (auto simp: field_char_def b64url_char_def is_ascii_alphanumeric_def is_ascii_digit_def is_ascii_upper_def is_ascii_lower_def)

lemma split_on_chars: "p \<in> set (split_on c s) \<Longrightarrow> set p \<subseteq> set s"
proof (induction s arbitrary: p)
  case (Cons x xs)
  then show ?case by (fastforce split: if_splits list.splits)
qed auto

lemma trim_by_chars: "set (trim_by ws s) \<subseteq> set s"
proof (induction ws s rule: trim_by.induct)
  case (1 ws s)
  have "set r \<subseteq> set s" if "strip_any ws s = Some r" for r
    using that by (auto simp: strip_any_def find_Some_iff starts_with_iff dest: in_set_dropD split: option.splits)
  with 1 show ?case by (subst trim_by.simps) (fastforce split: option.splits)
qed

lemma trim_chars: "set (trim s) \<subseteq> set s"
  using trim_by_chars [of ws_seqs s] trim_by_chars [of "map rev ws_seqs" "rev (trim_by ws_seqs s)"]
  by (auto simp: trim_def)

section \<open>The cookies of a response\<close>

definition set_cookies :: "response \<Rightarrow> string list" where
  "set_cookies r = header_get_all ''set-cookie'' (rs_headers r)"

text \<open>The name of the session cookie or of a transaction's, a base64url value or none, and the attributes.\<close>

definition cookie_name :: "bool \<Rightarrow> string \<Rightarrow> bool" where
  "cookie_name secure name \<longleftrightarrow> (name = session_cookie secure \<or> starts_with name (tx_prefix secure))
     \<and> list_all field_char name \<and> CHR '';'' \<notin> set name \<and> CHR ''='' \<notin> set name"

definition hardened_cookie :: "bool \<Rightarrow> string \<Rightarrow> bool" where
  "hardened_cookie secure v \<longleftrightarrow> (\<exists>name x age. cookie_name secure name \<and> list_all b64url_char x
     \<and> age \<in> {[], ''; Max-Age=600'', ''; Max-Age=0''}
     \<and> v = name @ ''='' @ x @ ''; Path=/; HttpOnly; SameSite=Lax'' @ age @ secure_attribute secure)"

lemma hardened_legal:
  assumes "hardened_cookie secure v"
  shows "list_all field_char v"
proof -
  have "list_all field_char (secure_attribute secure)" "list_all field_char ''; Path=/; HttpOnly; SameSite=Lax''"
    "list_all field_char ''; Max-Age=600''" "list_all field_char ''; Max-Age=0''"
    by (simp_all add: secure_attribute_def field_char_def)
  moreover have "list_all field_char x" if "list_all b64url_char x" for x
    using that by (auto simp: list_all_iff)
  moreover have "field_char (CHR ''='')" by (simp add: field_char_def)
  ultimately show ?thesis using assms by (auto simp: hardened_cookie_def cookie_name_def)
qed

definition cookies_ok :: "bool \<Rightarrow> response \<Rightarrow> bool" where
  "cookies_ok secure r \<longleftrightarrow> (\<forall>v \<in> set (set_cookies r). hardened_cookie secure v)"

lemma header_all_simps [simp]:
  "header_get_all n (header_insert m v h) = (if n = m then [v] else header_get_all n h)"
  "header_get_all n (header_append m v h) = header_get_all n h @ (if n = m then [v] else [])"
  "header_get_all n [] = []" "header_get_all n ((m, v) # h) = (if n = m then [v] else []) @ header_get_all n h"
proof -
  show "header_get_all n (header_insert m v h) = (if n = m then [v] else header_get_all n h)"
    by (induction h) (auto simp: header_get_all_def header_insert_def)
qed (auto simp: header_get_all_def header_append_def)

lemma header_all_unless [simp]: "n \<noteq> m \<Longrightarrow> header_get_all n (insert_unless_present m v h) = header_get_all n h"
  by (simp add: insert_unless_present_def)

lemma set_cookies_simps [simp]:
  "set_cookies (sensitive r) = set_cookies r"
  "set_cookies (with_headers sensitive_headers r) = set_cookies r"
  "set_cookies (with_headers public_security r) = set_cookies r"
  "set_cookies (with_headers (header_insert ''set-cookie'' v) r) = [v]"
  "set_cookies (with_headers (header_append ''set-cookie'' v) r) = set_cookies r @ [v]"
  "set_cookies (status_response code) = []" "set_cookies (html_response code html) = []"
  "set_cookies (cors_for H h r) = set_cookies r"
  "set_cookies (with_headers (cors H o') r) = set_cookies r"
  "set_cookies (policy_header H policy r) = set_cookies r"
  "set_cookies (drop_body rq r) = set_cookies r"
  by (simp_all add: set_cookies_def sensitive_def sensitive_headers_def public_security_def status_response_def
      html_response_def cors_for_def cors_def policy_header_def drop_body_def split: option.splits)

lemma set_cookies_json [simp]: "set_cookies (json_sensitive_status code v) = []"
  using set_cookies_simps(1) [of "\<lparr>rs_status = code, rs_headers = [(''content-type'', ''application/json'')], rs_body = JsonBody v\<rparr>"]
  by (simp add: json_sensitive_status_def sensitive_def set_cookies_def)

lemma set_cookies_answers [simp]:
  "set_cookies (local_error m) = []" "set_cookies (json_sensitive v) = []"
  "set_cookies (token_error c) = []" "set_cookies bearer_error = []" "set_cookies not_found = []"
  "set_cookies (strict_referrer html) = []" "set_cookies (form_page L H html redirect) = []"
  "set_cookies (login_page L H html google redirect) = []" "set_cookies (public_json b) = []"
proof -
  show "set_cookies bearer_error = []"
    using set_cookies_json [of 401 "json_error ''invalid_token''"] by (simp add: bearer_error_def set_cookies_def)
  show strict: "set_cookies (strict_referrer html) = []" for html
    using set_cookies_simps(1) [of "html_response 200 html"] by (simp add: strict_referrer_def set_cookies_def html_response_def)
  show "set_cookies (form_page L H html redirect) = []" "set_cookies (login_page L H html google redirect) = []"
    by (simp_all add: form_page_def login_page_def strict split: option.splits)
  show "set_cookies (public_json b) = []"
    by (simp add: public_json_def set_cookies_def public_security_def)
qed (simp_all add: local_error_def json_sensitive_def token_error_def not_found_def)

lemma set_cookies_framework [simp]:
  "framework_laws H \<Longrightarrow> set_cookies (hl_redirect H u) = []" "framework_laws H \<Longrightarrow> set_cookies (hl_body_rejection H) = []"
proof -
  have none: "header_get n h = None \<Longrightarrow> header_get_all n h = []" for n h
    by (auto simp: header_get_def header_get_all_def map_of_eq_None_iff filter_empty_conv)
  assume laws: "framework_laws H"
  then show "set_cookies (hl_redirect H u) = []"
    by (cases "hl_header_ok H u") (auto simp: framework_laws_def code_headers_def set_cookies_def none)
  show "set_cookies (hl_body_rejection H) = []"
    using laws by (auto simp: framework_laws_def code_headers_def set_cookies_def none)
qed

lemma set_cookies_redirects [simp]:
  assumes "framework_laws H"
  shows "set_cookies (redirect_params L H base items) = []" "set_cookies (oauth_redirect L H base state issuer code) = []"
    "set_cookies (code_redirect L H base state issuer code) = []" "set_cookies (consent_return L H base items) = []"
  using assms by (simp_all add: redirect_params_def oauth_redirect_def code_redirect_def consent_return_def Let_def)

lemma cookies_ok_none [simp]: "set_cookies r = [] \<Longrightarrow> cookies_ok secure r"
  by (simp add: cookies_ok_def)

lemma cookies_ok_sensitive [simp]: "cookies_ok secure (sensitive r) = cookies_ok secure r"
  by (simp add: cookies_ok_def)

section \<open>The cookies the code builds\<close>

definition cookie_text :: "bool \<Rightarrow> string \<Rightarrow> string \<Rightarrow> string \<Rightarrow> string" where
  "cookie_text secure name x age = name @ ''='' @ x @ ''; Path=/; HttpOnly; SameSite=Lax'' @ age @ secure_attribute secure"

lemma hardened_text:
  assumes "cookie_name secure name" "list_all b64url_char x" "age \<in> {[], ''; Max-Age=600'', ''; Max-Age=0''}"
  shows "hardened_cookie secure (cookie_text secure name x age)"
  using assms unfolding hardened_cookie_def cookie_text_def by blast

lemma cookie_texts:
  "cleared_cookie name secure = cookie_text secure name [] ''; Max-Age=0''"
  "binding_cookie L start secure = cookie_text secure (tx_cookie L (bs_transaction_id start) secure) (bs_browser_binding start) ''; Max-Age=600''"
  by (simp_all add: cleared_cookie_def binding_cookie_def cookie_text_def)

lemma cookie_name_session: "cookie_name secure (session_cookie secure)"
  by (simp add: cookie_name_def session_cookie_def field_char_def)

lemma cookie_name_transaction:
  assumes "header_text_laws L H"
  shows "cookie_name secure (tx_cookie L tid secure)"
proof -
  have shown: "list_all (\<lambda>c. is_ascii_alphanumeric c \<or> c = CHR ''-'') (uuid_show L tid)"
    using assms by (simp add: header_text_laws_def)
  have "field_char c \<and> c \<noteq> CHR '';'' \<and> c \<noteq> CHR ''=''" if "c \<in> set (uuid_show L tid)" for c
  proof -
    have "is_ascii_alphanumeric c \<or> c = CHR ''-''" using shown that by (auto simp: list_all_iff)
    then show ?thesis
      by (auto simp: field_char_def is_ascii_alphanumeric_def is_ascii_digit_def is_ascii_upper_def is_ascii_lower_def)
  qed
  then have "list_all field_char (uuid_show L tid)" "CHR '';'' \<notin> set (uuid_show L tid)" "CHR ''='' \<notin> set (uuid_show L tid)"
    by (auto simp: list_all_iff)
  moreover have "list_all field_char (tx_prefix secure)" "CHR '';'' \<notin> set (tx_prefix secure)" "CHR ''='' \<notin> set (tx_prefix secure)"
    by (simp_all add: tx_prefix_def field_char_def)
  ultimately show ?thesis by (auto simp: cookie_name_def tx_cookie_def starts_with_iff)
qed

lemma cookie_name_received:
  assumes "header_text_laws L H" and "(name, binding) \<in> set (transaction_cookies L H h secure)"
  shows "cookie_name secure name"
proof -
  from assms(2) have "(name, binding) \<in> set (cookie_pairs H h)" and prefix: "is_tx_name L secure name"
    by (auto simp: transaction_cookies_def Let_def split: if_splits)
  then obtain shown part v where v: "hl_to_str H v = Some shown" "part \<in> set (split_on (CHR '';'') shown)"
    and split: "split_once (CHR ''='') (trim part) = Some (name, binding)"
    by (auto simp: cookie_pairs_def List.map_filter_def)
  have "set name \<subseteq> set part" using split trim_chars [of part] by (auto simp: split_once_Some_iff)
  moreover have "set part \<subseteq> set shown" "CHR '';'' \<notin> set part"
    using split_on_chars [OF v(2)] split_on_parts [OF v(2)] by auto
  moreover have "list_all field_char shown" using assms(1) v(1) by (auto simp: header_text_laws_def)
  moreover have "CHR ''='' \<notin> set name" using split by (simp add: split_once_Some_iff)
  ultimately have "list_all field_char name" "CHR '';'' \<notin> set name" "CHR ''='' \<notin> set name"
    by (auto simp: list_all_iff)
  then show ?thesis using prefix by (auto simp: cookie_name_def is_tx_name_def is_some_and_iff strip_prefix_Some_iff starts_with_iff)
qed

lemma cookies_ok_clear [simp]:
  "cookie_name secure name \<Longrightarrow> cookies_ok secure (clear_transaction_cookie r (Some name) secure) = cookies_ok secure r"
  using hardened_text [of secure name "[]" "''; Max-Age=0''"]
  by (auto simp: cookies_ok_def clear_transaction_cookie_def cookie_texts)

section \<open>The handlers\<close>

lemma with_policy_done:
  assumes "with_policy I p k expired client operation w = (Done v, w')"
  shows "\<exists>n registry d. fst (operation n registry d) = Inr v"
proof -
  have once: "\<exists>n registry d. fst (operation n registry d) = Inr v"
    if "attempt_once I p n client (operation n) w1 = (Done v, w2)" for n w1 w2
    using that by (cases rule: attempt_once_cases) (auto, metis fst_conv)
  show ?thesis using assms once by (auto simp: with_policy_def split: prod.splits resolved.splits if_splits)
qed

text \<open>The laws of the libraries that the texts of the cookies rest on.\<close>

definition text_laws :: "io \<Rightarrow> bool" where
  "text_laws I \<longleftrightarrow> framework_laws (io_http I) \<and> header_text_laws (io_libs I) (io_http I) \<and> base64_laws (io_libs I)"

lemma text_lawsD: "text_laws I \<Longrightarrow> framework_laws (io_http I)" "text_laws I \<Longrightarrow> header_text_laws (io_libs I) (io_http I)"
  "text_laws I \<Longrightarrow> base64_laws (io_libs I)"
  by (simp_all add: text_laws_def)

abbreviation answer_ok :: "provider \<Rightarrow> response \<Rightarrow> bool" where
  "answer_ok p \<equiv> cookies_ok (pr_secure p)"

lemma random_text:
  assumes laws: "text_laws I"
  shows "list_all b64url_char (random_credential (io_libs I) e k)"
  using text_lawsD(3) [OF laws] by (simp add: base64_laws_def random_credential_def)

lemma uncookied [simp]:
  assumes laws: "text_laws I"
  shows "answer_ok p (hl_redirect (io_http I) u)" "answer_ok p (hl_body_rejection (io_http I))"
  "answer_ok p (redirect_params L (io_http I) base items)" "answer_ok p (oauth_redirect L (io_http I) base state issuer code)"
  "answer_ok p (code_redirect L (io_http I) base state issuer code)" "answer_ok p (consent_return L (io_http I) base items)"
  using text_lawsD(1) [OF laws] by simp_all

lemma ok_consent_page [simp]: "answer_ok p (fst (consent_page I p k session handle w))"
  by (auto simp: consent_page_def split: sum.splits prod.splits resolved.splits)

lemma ok_login:
  assumes laws: "text_laws I" and "login_response I p registry a pending allow start = Inr r" and "list_all b64url_char (bs_browser_binding start)"
  shows "answer_ok p r"
proof -
  from assms(2) obtain r0 where "r = sensitive (with_headers (header_insert ''set-cookie'' (binding_cookie (io_libs I) start (pr_secure p))) r0)"
    by (auto simp: login_response_def Let_def and_then_Inr_iff)
  moreover have "hardened_cookie (pr_secure p) (binding_cookie (io_libs I) start (pr_secure p))"
    unfolding cookie_texts by (rule hardened_text [OF cookie_name_transaction [OF text_lawsD(2) [OF laws]] assms(3)]) simp
  ultimately show ?thesis by (simp add: cookies_ok_def)
qed

lemma begun_binding:
  assumes laws: "text_laws I" and "begin_google_with_pre_authorization (io_libs I) B e d pending downstream nonce allow = (Inr start, d')"
  shows "list_all b64url_char (bs_browser_binding start)"
  using assms random_text [OF laws]
  by (auto simp: begin_google_with_pre_authorization_def Let_def checked_def insert_or_def split: sum.splits option.splits)

lemma ok_without_session:
  assumes laws: "text_laws I" and "authorize_without_session I p k registry h a pending allow w = (Inr r, w')"
  shows "answer_ok p r"
proof -
  from assms obtain start w1 where begun: "run_db (\<lambda>d. begin_google_with_pre_authorization (io_libs I) (io_codec I) (io_env I (k + 2)) d
      pending (ap_downstream a) (ap_nonce a) allow) w = (Inr start, w1)"
    and rest: "(if allow then
          or_answer (run_db (\<lambda>d. start_google (io_libs I) (io_env I (k + 3)) d (bs_transaction_id start)
                       (bs_upstream_state start) (bs_browser_binding start)) w1) (\<lambda>_. Inl ''server_error'')
            (\<lambda>_ w. (login_response I p registry a pending allow start, w))
        else (login_response I p registry a pending allow start, w1)) = (Inr r, w')"
    unfolding authorize_without_session_def by (auto elim!: or_answer_Inr split: if_splits)
  from rest have "login_response I p registry a pending allow start = Inr r"
    by (auto elim!: or_answer_Inr split: if_splits)
  from ok_login [OF laws this] begun_binding [OF laws] run_db_Inr [OF begun] show ?thesis by blast
qed

lemma ok_page: "(apfst Inr (consent_page I p k session handle w) :: (string + response) \<times> world) = (Inr r, w') \<Longrightarrow> answer_ok p r"
  using ok_consent_page [of p I k session handle w] by (cases "consent_page I p k session handle w") auto

lemma ok_with_session:
  assumes laws: "text_laws I" and "authorize_with_session I p k registry a pending allow session w = (Inr r, w')"
  shows "answer_ok p r"
  using assms unfolding authorize_with_session_def
  by (auto elim!: or_answer_Inr split: if_splits option.splits) (rule ok_page, assumption)+

lemma ok_valid:
  assumes laws: "text_laws I" and "authorize_valid I p k q h registry w = (Inr r, w')"
  shows "answer_ok p r"
  using assms by (auto simp: authorize_valid_def Let_def intro: ok_with_session [OF laws] ok_without_session [OF laws]
    split: sum.splits option.splits if_splits)

lemma ok_pass:
  assumes laws: "text_laws I" and "authorize_pass I p k final q h client redirect w = (Some r, w')"
  shows "answer_ok p r"
  using assms by (auto simp: authorize_pass_def intro: ok_valid [OF laws] split: prod.splits sum.splits if_splits)

lemma ok_authorize:
  assumes laws: "text_laws I"
  shows "answer_ok p (fst (authorize I p raw h w))"
  by (auto simp: authorize_def intro: ok_pass [OF laws] split: sum.splits prod.splits option.splits)

lemma ok_google_start:
  assumes laws: "text_laws I"
  shows "answer_ok p (fst (google_start I p h bytes w))"
proof -
  have "answer_ok p (fst (google_cancel I p tid state binding (tx_cookie (io_libs I) tid (pr_secure p)) w))" for tid state binding
    using laws cookie_name_transaction [OF text_lawsD(2) [OF laws]] by (auto simp: google_cancel_def split: sum.splits prod.splits resolved.splits)
  moreover have "answer_ok p (fst (google_continue I p tid state binding w))" for tid state binding
    using laws by (auto simp: google_continue_def or_answer_def split: sum.splits prod.splits)
  ultimately show ?thesis by (auto simp: google_start_def Let_def split: sum.splits option.splits)
qed

lemma ok_opened:
  assumes laws: "text_laws I" and "list_all b64url_char (pv_raw (lgc_session completion))" and "cookie_name (pr_secure p) name"
  shows "answer_ok p (opened_session p completion name r)"
proof -
  have "hardened_cookie (pr_secure p) (session_cookie (pr_secure p) @ ''='' @ pv_raw (lgc_session completion)
      @ ''; Path=/; HttpOnly; SameSite=Lax'' @ secure_attribute (pr_secure p))"
    using hardened_text [OF cookie_name_session assms(2), of "[]"] by (simp add: cookie_text_def)
  then have "cookies_ok (pr_secure p) (with_headers (header_insert ''set-cookie'' (session_cookie (pr_secure p) @ ''='' @ pv_raw (lgc_session completion)
      @ ''; Path=/; HttpOnly; SameSite=Lax'' @ secure_attribute (pr_secure p))) r)"
    unfolding cookies_ok_def set_cookies_simps by simp
  with assms(3) show ?thesis unfolding opened_session_def by simp
qed

lemma ok_finish_login:
  assumes laws: "text_laws I" and "list_all b64url_char (pv_raw (lgc_session completion))" and "cookie_name (pr_secure p) name"
  shows "answer_ok p (fst (finish_login I p completion name w))"
  using ok_opened [OF assms] assms(3)
  by (auto simp: finish_login_def Let_def split: prod.splits resolved.splits option.splits)

lemma completed_session:
  assumes laws: "text_laws I" and "fst (complete_callback_with_registry (io_libs I) B e d claim identity lifetime registry) = Inr completion"
  shows "list_all b64url_char (pv_raw (lgc_session completion))"
  using assms random_text [OF laws]
  by (auto simp: complete_callback_with_registry_def complete_callback_bound_def stage_login_def checked_def Let_def
      bind_eq_Some_conv split: sum.splits option.splits if_splits)

lemma ok_callback_answers:
  assumes laws: "text_laws I" and "cookie_name (pr_secure p) name"
  shows "answer_ok p (fst (failed_callback I p claim name message w))" "answer_ok p (fst (denied_callback I p claim name w))"
    "answer_ok p (fst (completed_callback I p claim name identity w))"
proof -
  show "answer_ok p (fst (failed_callback I p claim name message w))" "answer_ok p (fst (denied_callback I p claim name w))"
    using assms by (auto simp: failed_callback_def denied_callback_def split: prod.splits resolved.splits)
  show "answer_ok p (fst (completed_callback I p claim name identity w))"
  proof (cases "callback_client_id (io_libs I) (wd_db w) claim")
    case (Inr client)
    let ?op = "\<lambda>n registry d. complete_callback_with_registry (io_libs I) (io_codec I) (io_env I n) d claim identity month registry"
    obtain out w1 where out: "with_policy I p 20 BrMetadataExpired client ?op w = (out, w1)" by fastforce
    show ?thesis
    proof (cases out)
      case (Done completion)
      from with_policy_done [OF out [unfolded Done]] completed_session [OF laws]
      have "list_all b64url_char (pv_raw (lgc_session completion))" by blast
      from ok_finish_login [OF laws this assms(2)] show ?thesis by (simp add: completed_callback_def Inr out Done)
    qed (use assms in \<open>simp_all add: completed_callback_def Inr out\<close>)
  qed (use assms in \<open>simp add: completed_callback_def\<close>)
qed

lemma claim_first_name:
  "claim_first I k state cookies w = (Some (name, claim, verifier, nonce), w') \<Longrightarrow> \<exists>binding. (name, binding) \<in> set cookies"
proof (induction cookies arbitrary: k w)
  case (Cons c cookies)
  then show ?case by (cases c) (auto split: prod.splits sum.splits)
qed simp

lemma ok_callback:
  assumes laws: "text_laws I"
  shows "answer_ok p (fst (callback I p raw h w))"
proof -
  have claimed: "answer_ok p (fst (callback_claimed I p c (name, claim, verifier, nonce) w))"
    if "cookie_name (pr_secure p) name" for c name claim verifier nonce w
    using ok_callback_answers [OF laws that] by (auto simp: callback_claimed_def split: option.splits sum.splits prod.splits)
  show ?thesis
  proof (cases "Option.bind (case pairs (io_libs I) (or_default raw []) 4096 of Inr q \<Rightarrow> Some q | Inl _ \<Rightarrow> None) callback_params_of")
    case (Some c)
    obtain winner w1 where winner: "claim_first I 0 (cb_state c)
        (transaction_cookies (io_libs I) (io_http I) h (pr_secure p)) w = (winner, w1)" by fastforce
    show ?thesis
    proof (cases winner)
      case (Some x)
      obtain name claim verifier nonce where x: "x = (name, claim, verifier, nonce)" by (cases x) auto
      have "cookie_name (pr_secure p) name"
        using claim_first_name [OF winner [unfolded Some x]] cookie_name_received [OF text_lawsD(2) [OF laws]] by blast
      from claimed [OF this] show ?thesis
        using winner by (simp add: callback_def \<open>_ = Some c\<close> Some x)
    qed (simp add: callback_def Some winner)
  qed (simp add: callback_def)
qed

lemma ok_consent:
  assumes laws: "text_laws I"
  shows "answer_ok p (fst (consent_get I p raw h w))" "answer_ok p (fst (consent_post I p h bytes w))"
proof -
  have "answer_ok p (fst (consent_decision I p action session handle w))" for action session handle
    using laws by (auto simp: consent_decision_def split: sum.splits prod.splits resolved.splits)
  then show "answer_ok p (fst (consent_post I p h bytes w))" by (auto simp: consent_post_def split: sum.splits option.splits)
qed (auto simp: consent_get_def split: sum.splits option.splits)

lemma ok_logout_response [simp]:
  assumes laws: "text_laws I"
  shows "answer_ok p (logout_response I p v)"
proof -
  have "hardened_cookie (pr_secure p) (cleared_cookie (session_cookie (pr_secure p)) (pr_secure p))"
    unfolding cookie_texts by (rule hardened_text [OF cookie_name_session]) simp_all
  then show ?thesis using text_lawsD(1) [OF laws] by (simp add: logout_response_def cookies_ok_def)
qed

lemma ok_logout:
  assumes laws: "text_laws I"
  shows "answer_ok p (fst (logout_rp I keys p h q w))" "answer_ok p (fst (logout_confirmed I p h q w))"
  using laws ok_logout_response [OF laws]
  by (auto simp: logout_rp_def logout_confirmed_def logout_confirm_def or_answer_def
      split: prod.splits option.splits sum.splits)

lemma ok_machine:
  assumes laws: "text_laws I"
  shows "answer_ok p (fst (token_endpoint I keys p h bytes w))" "answer_ok p (fst (userinfo_endpoint I keys p h bytes w))"
  "answer_ok p (fst (revoke_endpoint I p h bytes w))" "answer_ok p (api_options I p h)"
proof -
  have answer: "set_cookies (token_response_of I keys p outcome) = []" for outcome
    by (auto simp: token_response_of_def split: resolved.splits prod.splits sum.splits)
  show "answer_ok p (fst (token_endpoint I keys p h bytes w))"
    by (auto simp: token_endpoint_def answer split: sum.splits prod.splits resolved.splits)
  show "answer_ok p (fst (userinfo_endpoint I keys p h bytes w))" "answer_ok p (fst (revoke_endpoint I p h bytes w))" "answer_ok p (api_options I p h)"
    by (auto simp: userinfo_endpoint_def revoke_endpoint_def api_options_def Let_def split: sum.splits prod.splits option.splits)
qed

lemma ok_handler:
  assumes laws: "text_laws I"
  shows "\<forall>r. endpoint = Answer r \<longrightarrow> answer_ok p r \<Longrightarrow> answer_ok p (fst (run_handler I keys p rq endpoint w))"
  using laws ok_authorize [OF laws] ok_google_start [OF laws] ok_callback [OF laws] ok_consent [OF laws] ok_logout [OF laws] ok_machine [OF laws]
  by (cases endpoint)
    (auto simp: with_body_def authorize_get_def authorize_post_def logout_get_def logout_post_def split: sum.splits)

section \<open>Every response\<close>

lemma route_answers_uncookied:
  "base_route I s rq = Some endpoint \<Longrightarrow> \<exists>r. endpoint = Answer r \<and> set_cookies r = []"
  "api_route rq \<noteq> Some (Answer r)" "browser_route p rq = Some (Answer r) \<Longrightarrow> set_cookies r = []"
proof -
  have css: "set_cookies css_endpoint = []" by (simp add: css_endpoint_def) (simp add: set_cookies_def)
  show "base_route I s rq = Some endpoint \<Longrightarrow> \<exists>r. endpoint = Answer r \<and> set_cookies r = []"
    using css by (auto simp: base_route_def live_def ready_def jwks_endpoint_def split: if_splits)
  show "api_route rq \<noteq> Some (Answer r)" by (auto simp: api_route_def Let_def)
  show "browser_route p rq = Some (Answer r) \<Longrightarrow> set_cookies r = []"
    by (auto simp: browser_route_def signed_out_def discovery_def json_public_def split: if_splits)
qed

lemma dispatch_cookies:
  assumes "text_laws I" and "v \<in> set (set_cookies (fst (dispatch I s rq w)))"
  shows "\<exists>p. as_provider s = Some p \<and> hardened_cookie (pr_secure p) v"
proof -
  from assms(2) obtain p endpoint where p: "as_provider s = Some p"
    and run: "dispatch I s rq w = run_handler I (as_keys s) p rq endpoint w"
    and route: "api_route rq = Some endpoint \<or> browser_route p rq = Some endpoint"
    using route_answers_uncookied(1) [of I s rq]
    by (fastforce simp: dispatch_def split: option.splits handler.splits)
  have "answer_ok p (fst (run_handler I (as_keys s) p rq endpoint w))"
    using route route_answers_uncookied(2) [of rq] route_answers_uncookied(3) [of p rq]
    by (intro ok_handler [OF assms(1)]) auto
  with assms(2) p run show ?thesis by (auto simp: cookies_ok_def)
qed

text \<open>C37: Every cookie the service ever sets is hardened and legal: it is the session cookie or a
  transaction's, with a base64url value or none, \<open>Path=/\<close>, \<open>HttpOnly\<close>, \<open>SameSite=Lax\<close>, and in production
  \<open>Secure\<close> under the \<open>__Host-\<close> prefix; no part of a request can add an attribute to it or make it an
  illegal header value, so that the conversions the code unwraps do not panic.\<close>

theorem cookies_hardened:
  assumes "serve I s rq w = (r, w')" and "text_laws I" and "v \<in> set (set_cookies r)"
  shows "hl_header_ok (io_http I) v \<and> (\<exists>p. as_provider s = Some p \<and> hardened_cookie (pr_secure p) v)"
proof -
  obtain r0 where r0: "dispatch I s rq w = (r0, w')" "r = drop_body rq (security_middleware (rq_path rq) r0)"
    using assms(1) by (cases "dispatch I s rq w") (auto simp: serve_def)
  then have "set_cookies r = set_cookies r0" by (simp add: security_middleware_def)
  with dispatch_cookies [OF assms(2), of v s rq w] assms(3) r0(1) obtain p where
    p: "as_provider s = Some p" "hardened_cookie (pr_secure p) v" by auto
  from hardened_legal [OF p(2)] assms(2) have "hl_header_ok (io_http I) v"
    by (simp add: text_laws_def header_text_laws_def)
  with p show ?thesis by blast
qed

text \<open>The other unwrap of the login: a verifier drawn by \<open>begin_google\<close> always has a challenge.\<close>

lemma begun_login_has_challenge:
  assumes "begin_google_with_pre_authorization L B e d pending downstream nonce allow = (Inr start, d')"
    and "base64_laws L" and "length (env_random e 3) = 32"
  shows "upstream_challenge L start \<noteq> None"
proof -
  have verifier: "bs_upstream_verifier start = b64_encode L (env_random e 3)"
    using assms(1) by (auto simp: begin_google_with_pre_authorization_def Let_def checked_def insert_or_def random_credential_def
      split: sum.splits option.splits)
  have "length (bs_upstream_verifier start) = 43" "list_all b64url_char (bs_upstream_verifier start)"
    using assms(2,3) by (simp_all add: verifier base64_laws_def)
  then have "validate_pkce_verifier (bs_upstream_verifier start) = Inr ()"
    by (auto simp: validate_pkce_verifier_def pkce_verifier_char_def b64url_char_def list_all_iff)
  then show ?thesis by (simp add: upstream_challenge_def s256_challenge_def and_then_def)
qed

section \<open>A logout that clears its cookie\<close>

definition text_http :: http_libs where
  "text_http = \<lparr>hl_header_ok = list_all field_char, hl_to_str = (\<lambda>v. if list_all field_char v then Some v else None),
     hl_redirect = (\<lambda>u. if list_all field_char u then \<lparr>rs_status = 303, rs_headers = [(''location'', u)], rs_body = NoBody\<rparr>
       else status_response 500),
     hl_body_rejection = status_response 413\<rparr>"

definition text_io :: io where
  "text_io = bye_io\<lparr>io_http := text_http\<rparr>"

lemma text_io_laws: "text_laws text_io"
proof -
  have parts: "io_libs text_io = ref_libs" "io_http text_io = text_http" by (simp_all add: text_io_def bye_io_def ref_io_def)
  have "framework_laws text_http" by (auto simp: framework_laws_def text_http_def status_response_def)
  moreover have "header_text_laws ref_libs text_http"
    by (auto simp: header_text_laws_def text_http_def ref_libs_def is_ascii_alphanumeric_def is_ascii_lower_def split: if_splits)
  ultimately show ?thesis by (simp add: text_laws_def parts)
qed

theorem cookies_hardened_witness:
  "\<exists>v. set_cookies (fst (serve text_io ref_app bye_request (ref_world (snd lg_begin)))) = [v]
     \<and> list_all field_char v \<and> hardened_cookie True v"
proof -
  obtain r w' where run: "serve text_io ref_app bye_request (ref_world (snd lg_begin)) = (r, w')" by fastforce
  have parts: "io_libs text_io = ref_libs" "io_http text_io = text_http" "io_env text_io = io_env bye_io"
    by (simp_all add: text_io_def bye_io_def ref_io_def)
  have received: "cookie text_http bye_headers (session_cookie True) = Some (sc_secret 40)" "form_content_type text_http bye_headers"
    by code_simp+
  obtain d where "dispatch text_io ref_app bye_request (ref_world (snd lg_begin)) = (logout_response text_io ref_provider lg_outcome, ref_world d)"
    using bye_run [of text_io] received by (auto simp: parts)
  then have "set_cookies r = [cleared_cookie (session_cookie True) True]"
    using run text_lawsD(1) [OF text_io_laws]
    by (auto simp: serve_def security_middleware_def logout_response_def ref_provider_def)
  with cookies_hardened [OF run text_io_laws] run show ?thesis
    by (simp add: parts text_http_def ref_app_def ref_provider_def)
qed

end
