(* ===== verification/Grant_Flow.thy ===== *)
theory Grant_Flow
  imports Session_Properties
begin

text \<open>
  What the store must not refuse.  The other theories show that a code or a refresh token is
  accepted only when it should be; here the converse: a code that consent issued, and every
  refresh token that follows from it, is accepted as long as nothing has used it, revoked it or
  let it expire, the registry is the one that granted it, and the new identifiers are new.
\<close>

section \<open>The policy that granted accepts again\<close>

lemma registry_fresh_all: "reg_dynamic reg = None \<Longrightarrow> registry_ensure_fresh t reg = Inr ()"
  by (simp add: registry_ensure_fresh_def)

text \<open>A binding written for the registry's own client is accepted by this registry.\<close>

lemma own_binding_accepted:
  assumes "binding_laws B" and "registry_ensure_fresh t reg = Inr ()" and "contains_client reg cid"
  shows "check_binding B t (Some reg) cid
    (map_option (jsonb_text B) (map_option (\<lambda>d. binding_to_json B (rcp_binding d)) (dynamic_for reg cid))) = Inr ()"
  using assms by (cases "dynamic_for reg cid") (simp_all add: check_binding_def validate_binding_def binding_laws_def)

text \<open>The grant a registry made: validated, then approved.\<close>

definition granted_by :: "libs \<Rightarrow> client_registry \<Rightarrow> validated_authorization_grant \<Rightarrow> bool" where
  "granted_by L reg grant \<longleftrightarrow> (\<exists>t cid redirect challenge scopes resource p now. validate_pending_parts L t reg cid redirect
      ''code'' ''S256'' challenge scopes resource = Inr p \<and> approve_grant now p True = Inr grant)"

lemma approve_grant_fields:
  "approve_grant now p consent = Inr g \<Longrightarrow> vg_client_id g = pg_client_id p \<and> vg_redirect_uri g = pg_redirect_uri p
     \<and> vg_scopes g = pg_scopes p \<and> vg_resource g = pg_resource p \<and> vg_code_challenge g = pg_code_challenge p
     \<and> vg_dynamic g = pg_dynamic p \<and> vg_issue_refresh_token g = (''offline_access'' \<in> set (pg_scopes p))"
  by (auto simp: approve_grant_def and_then_Inr_iff Let_def split: if_splits)

lemma granted_again:
  assumes "registry_wf reg" and "granted_by L reg grant"
  shows "vg_dynamic grant = dynamic_for reg (vg_client_id grant)" "contains_client reg (vg_client_id grant)"
    "permits_refresh reg (vg_client_id grant) (vg_scopes grant) (vg_resource grant)"
    "registry_ensure_fresh t reg = Inr () \<Longrightarrow> is_ok (validate_pending_parts L t reg (vg_client_id grant)
       (vg_redirect_uri grant) ''code'' ''S256'' (vg_code_challenge grant) (vg_scopes grant) (Some (vg_resource grant)))"
proof -
  from assms(2) obtain t0 cid redirect challenge scopes resource p now where
    p: "validate_pending_parts L t0 reg cid redirect ''code'' ''S256'' challenge scopes resource = Inr p"
    and g: "approve_grant now p True = Inr grant" unfolding granted_by_def by blast
  note wf = validate_pending_parts_wf [OF assms(1) p] and f = approve_grant_fields [OF g]
  show "vg_dynamic grant = dynamic_for reg (vg_client_id grant)" using wf f by simp
  show "contains_client reg (vg_client_id grant)" using wf f by (auto simp: contains_client_def grant_conditions_def)
  show "permits_refresh reg (vg_client_id grant) (vg_scopes grant) (vg_resource grant)"
    using wf f by (auto simp: permits_refresh_def grant_conditions_def card_length_iff_distinct)
  show "is_ok (validate_pending_parts L t reg (vg_client_id grant) (vg_redirect_uri grant) ''code'' ''S256''
      (vg_code_challenge grant) (vg_scopes grant) (Some (vg_resource grant)))" if "registry_ensure_fresh t reg = Inr ()"
    using validate_pending_parts_again [OF assms(1) p, of t] that wf f by (simp add: is_ok_iff)
qed

section \<open>Redeeming a code\<close>

text \<open>The new rows of a refresh token collide with none: fresh identifiers and a new hash.\<close>

definition fresh_member :: "libs \<Rightarrow> env \<Rightarrow> nat \<Rightarrow> db \<Rightarrow> bool" where
  "fresh_member L e k d \<longleftrightarrow> env_uuid e k \<notin> rm_id ` set (db_members d)
     \<and> hash L (random_credential L e k) \<notin> rm_token_hash ` set (db_members d)
     \<and> length (hash L (random_credential L e k)) = 32"

text \<open>A code nobody has used, under a session nobody has ended.\<close>

definition usable_code :: "libs \<Rightarrow> int \<Rightarrow> db \<Rightarrow> string \<Rightarrow> bool" where
  "usable_code L now d raw \<longleftrightarrow> (\<exists>c s. code_by_hash d (hash L raw) = Some c
     \<and> session_by_id d (ac_session_id c) = Some s \<and> ac_consumed_at c = None \<and> now < ac_expires_at c
     \<and> ps_revoked_at s = None \<and> ps_user_id s \<in> set (db_users d))"

lemma unused_code_has_no_family:
  assumes "cred_inv d" and "c \<in> set (db_codes d)" and "ac_consumed_at c = None"
  shows "ac_id c \<notin> rf_source_code_id ` set (db_families d)"
proof
  assume "ac_id c \<in> rf_source_code_id ` set (db_families d)"
  then obtain f where f: "f \<in> set (db_families d)" "rf_source_code_id f = ac_id c" by auto
  with assms(1) obtain c' where c': "c' \<in> set (db_codes d)" "descends_from f c'"
    unfolding cred_inv_def families_wf_def by blast
  then have "ac_id c' = ac_id c" "ac_consumed_at c' \<noteq> None" using f(2) by (auto simp: descends_from_def)
  moreover from this(1) have "c' = c"
    using by_key_SomeI(2) [OF assms(1) c'(1)] by_key_SomeI(2) [OF assms(1,2)] by (metis option.inject)
  ultimately show False using assms(3) by simp
qed

lemma redeem_code_some:
  assumes "cred_inv d" and "c \<in> set (db_codes d)" and "session_by_id d (ac_session_id c) = Some s"
    and "ac_consumed_at c = None" and "ps_user_id s \<in> set (db_users d)"
    and "env_uuid e 0 \<notin> rf_id ` set (db_families d)" and "fresh_member L e 1 d"
  shows "\<exists>rt d'. redeem_code L e now d c s = Some (rt, d') \<and> (rt \<noteq> None \<longleftrightarrow> ac_issue_refresh_token c)"
proof (cases "ac_issue_refresh_token c")
  case True
  let ?d1 = "consume_code (ac_id c) now d" and ?f = "family_of_code (env_uuid e 0) c s now"
  have "c\<lparr>ac_consumed_at := Some now\<rparr> \<in> set (db_codes ?d1)"
    using consume_code_member [OF assms(2), of "ac_id c" now] by simp
  then have "ac_id c \<in> ac_id ` set (db_codes ?d1)" by (intro image_eqI) simp_all
  moreover have "ac_session_id c \<in> ps_id ` set (db_sessions d)" using by_key_SomeD(1) [OF assms(3)] by force
  ultimately have fam: "insert_family ?d1 ?f = Some (?d1\<lparr>db_families := db_families d @ [?f]\<rparr>)"
    using assms(5,6) unused_code_has_no_family [OF assms(1,2,4)]
    by (simp add: insert_family_def family_of_code_def consume_code_def)
  have "rf_id ?f = env_uuid e 0" by (simp add: family_of_code_def)
  then show ?thesis
    using True assms(7) by (simp add: redeem_code_def fam insert_refresh_def insert_member_def Let_def fresh_member_def)
qed (simp add: redeem_code_def)

lemma exchange_accepts:
  assumes "cred_inv d" and "code_by_hash d0 (hash L raw) = Some c0" and "creds_le d0 d"
    and "code_by_hash d (hash L raw) = Some c" and "code_matches L c client redirect resource verifier"
    and "session_by_id d (ac_session_id c) = Some s"
    and "exchange_policy L B e registry c client redirect resource = Inr ()"
    and "check_binding B (env_instant e 3) registry client (ac_cimd_binding c) = Inr ()"
    and "ac_consumed_at c = None" and "env_clock e 0 < ac_expires_at c" and "ps_revoked_at s = None"
    and "redeem_code L e (env_clock e 0) d c s = Some (rt, d')"
  shows "exchange_code_bound L B e d0 d raw client redirect resource verifier registry =
    (Inr \<lparr>ex_session_id = ac_session_id c, ex_user_id = ps_user_id s, ex_client_id = ac_client_id c,
          ex_scopes = ac_scopes c, ex_resource = ac_resource c, ex_refresh_token = rt,
          ex_oidc_nonce = ac_oidc_nonce c, ex_upstream_auth_time = ac_upstream_auth_time c\<rparr>, d')"
proof -
  from by_key_later(3) [OF assms(3,1,2)] assms(4) have le: "code_le c0 c" by simp
  note same = code_leD [OF le]
  have m0: "code_matches L c0 client redirect resource verifier" using assms(5) same by (simp add: code_matches_def)
  note c = by_key_SomeD(3) [OF assms(4)]
  have id: "code_by_id d (ac_id c) = Some c" using by_key_SomeI(2) [OF assms(1)] c by blast
  have "code_ok (db_sessions d) c" using assms(1) c by (auto simp: cred_inv_def codes_wf_def)
  then obtain s' where "s' \<in> set (db_sessions d)" "ps_id s' = ac_session_id c" "ac_expires_at c \<le> ps_expires_at s'"
    by (auto simp: code_ok_def)
  with by_key_SomeI(1) [OF assms(1)] assms(6) have "ac_expires_at c \<le> ps_expires_at s" by fastforce
  then show ?thesis
    using assms m0 same id by (simp add: exchange_code_bound_def)
qed


section \<open>From consent to tokens\<close>

text \<open>The row of a code carries the grant it was issued for.\<close>

definition code_of_grant :: "binding_codec \<Rightarrow> validated_authorization_grant \<Rightarrow> authorization_code_row \<Rightarrow> bool" where
  "code_of_grant B grant c \<longleftrightarrow> ac_client_id c = vg_client_id grant \<and> ac_redirect_uri c = vg_redirect_uri grant
     \<and> ac_scopes c = vg_scopes grant \<and> ac_resource c = vg_resource grant
     \<and> ac_code_challenge c = vg_code_challenge grant \<and> ac_issue_refresh_token c = vg_issue_refresh_token grant
     \<and> ac_cimd_binding c = map_option (jsonb_text B) (grant_cimd_binding_json B grant)"

lemma code_of_grant_later: "code_of_grant B grant c \<Longrightarrow> code_le c c' \<Longrightarrow> code_of_grant B grant c'"
  using code_leD by (auto simp: code_of_grant_def)

text \<open>The registry and its lease, at every reading an exchange makes.\<close>

definition policy_lasts :: "env \<Rightarrow> client_registry \<Rightarrow> bool" where
  "policy_lasts e reg \<longleftrightarrow> (\<forall>k \<le> 3. registry_ensure_fresh (env_instant e k) reg = Inr ())"

lemma granted_binding:
  assumes "registry_wf reg" "binding_laws B" "granted_by L reg grant" "code_of_grant B grant c" "policy_lasts e reg" "k \<le> 3"
  shows "check_binding B (env_instant e k) (Some reg) (ac_client_id c) (ac_cimd_binding c) = Inr ()"
  using own_binding_accepted [OF assms(2) _ granted_again(2) [OF assms(1,3)], of "env_instant e k"] assms(4-6)
    granted_again(1) [OF assms(1,3)]
  by (simp add: grant_cimd_binding_json_def code_of_grant_def policy_lasts_def)

lemma granted_policy:
  assumes "registry_wf reg" "binding_laws B" "granted_by L reg grant" "code_of_grant B grant c" "policy_lasts e reg"
  shows "exchange_policy L B e (Some reg) c (ac_client_id c) (ac_redirect_uri c) (ac_resource c) = Inr ()"
  using granted_binding [OF assms, of 0] granted_binding [OF assms, of 2] assms(4,5)
    granted_again(4) [OF assms(1,3), of "env_instant e 1"]
  by (auto simp: exchange_policy_def is_ok_iff map_ok_def code_of_grant_def policy_lasts_def)

lemma granted_code_exchanges:
  assumes "registry_wf reg" "binding_laws B" "granted_by L reg grant" "code_of_grant B grant c" "policy_lasts e reg"
    and "cred_inv d" and "code_by_hash d0 (hash L raw) = Some c0" and "creds_le d0 d"
    and "code_by_hash d (hash L raw) = Some c" and "usable_code L (env_clock e 0) d raw"
    and "verify_s256 L verifier (ac_code_challenge c)"
    and "env_uuid e 0 \<notin> rf_id ` set (db_families d)" and "fresh_member L e 1 d"
  shows "\<exists>r d'. exchange_code_bound L B e d0 d raw (ac_client_id c) (ac_redirect_uri c) (ac_resource c) verifier (Some reg) = (Inr r, d')
    \<and> ex_client_id r = ac_client_id c \<and> ex_scopes r = ac_scopes c \<and> ex_resource r = ac_resource c
    \<and> (ex_refresh_token r \<noteq> None \<longleftrightarrow> ac_issue_refresh_token c)"
proof -
  from assms(9,10) obtain s where c: "session_by_id d (ac_session_id c) = Some s" "ac_consumed_at c = None"
      "env_clock e 0 < ac_expires_at c" "ps_revoked_at s = None" "ps_user_id s \<in> set (db_users d)"
    unfolding usable_code_def by auto
  have member: "c \<in> set (db_codes d)" using by_key_SomeD(3) [OF assms(9)] by simp
  from redeem_code_some [OF assms(6) member c(1,2,5) assms(12,13), of "env_clock e 0"] obtain rt d' where
    rt: "redeem_code L e (env_clock e 0) d c s = Some (rt, d')" "rt \<noteq> None \<longleftrightarrow> ac_issue_refresh_token c" by blast
  have "code_matches L c (ac_client_id c) (ac_redirect_uri c) (ac_resource c) verifier"
    using assms(11) by (simp add: code_matches_def)
  from exchange_accepts [OF assms(6,7,8,9) this c(1) granted_policy [OF assms(1-5)] granted_binding [OF assms(1-5), of 3] c(2,3,4) rt(1)]
  show ?thesis using rt(2) by simp
qed

lemma granted_code_requests:
  assumes "registry_wf reg" "binding_laws B" "granted_by L reg grant" "code_of_grant B grant c" "policy_lasts e reg"
    and "registry_ensure_fresh now reg = Inr ()"
    and "cred_inv dq" and "code_by_hash dq (hash L raw) = Some cq" and "code_of_grant B grant cq"
    and "exchange_code_bound L B e d0 d raw (ac_client_id c) (ac_redirect_uri c) (ac_resource c) verifier (Some reg) = (Inr r, d')"
  shows "exchange_code_request L B now e dq d0 d raw (ac_client_id c) (ac_redirect_uri c) None verifier None reg = (Inr r, d')"
proof -
  have same: "ac_client_id cq = ac_client_id c" "ac_redirect_uri cq = ac_redirect_uri c" "ac_resource cq = ac_resource c"
    using assms(4,9) by (simp_all add: code_of_grant_def)
  note cq = by_key_SomeD(3) [OF assms(8)]
  have "find (\<lambda>x. ac_code_hash x = hash L raw \<and> ac_client_id x = ac_client_id c \<and> ac_redirect_uri x = ac_redirect_uri c)
      (db_codes dq) = Some cq"
    using find_unique_key [OF cred_inv_distinct(3) [OF assms(7)], of cq] cq same
    by (auto simp: find_Some_iff)
  moreover have "is_ok (validate_pending_parts L now reg (ac_client_id c) (ac_redirect_uri c) ''code'' ''S256''
      (ac_code_challenge cq) (ac_scopes cq) (Some (ac_resource cq)))"
    using granted_again(4) [OF assms(1,3,6)] assms(4,9) by (simp add: code_of_grant_def)
  ultimately show ?thesis
    using assms(10) same by (auto simp: exchange_code_request_def is_ok_iff)
qed

lemma approved_code:
  assumes "approve L B e d session handle reg = (Inr out, d1)"
  shows "\<exists>row grant code. row \<in> set (db_browser d) \<and> ba_id row = ch_transaction_id handle \<and> granted_by L reg grant
    \<and> code \<in> set (db_codes d1) \<and> ac_code_hash code = hash L (co_code out) \<and> code_of_grant B grant code
    \<and> (registry_wf reg \<longrightarrow> vg_client_id grant = ba_client_id row \<and> vg_redirect_uri grant = ba_redirect_uri row
         \<and> set (vg_scopes grant) = set (ba_scopes row) \<and> vg_resource grant = ba_resource row
         \<and> vg_code_challenge grant = ba_code_challenge row
         \<and> vg_issue_refresh_token grant = (''offline_access'' \<in> set (ba_scopes row)))"
proof -
  from approve_Inr [OF assms] obtain row pending grant and s :: provider_session_row and d0 where
    a: "row \<in> set (db_browser d)" "ba_id row = ch_transaction_id handle"
      "revalidate L B e 0 reg row = Inr pending" "approve_grant (env_instant e 2) pending True = Inr grant"
    and ins: "insert_authorization_code_tx L B e 0 (env_clock e 1) d (pv_id session) grant (ba_oidc_nonce row)
        (ps_upstream_auth_time s) 60 = Some (co_code out, d0)"
    and d1: "d1 = mark_approved (ch_transaction_id handle) d0" by blast
  from a(3) have "validate_pending_parts L (env_instant e 1) reg (ba_client_id row) (ba_redirect_uri row)
       ''code'' ''S256'' (ba_code_challenge row) (ba_scopes row) (Some (ba_resource row)) = Inr pending"
    by (auto simp: revalidate_def and_then_Inr_iff)
  with a(4) have "granted_by L reg grant" unfolding granted_by_def by blast
  moreover from insert_authorization_code_txD [OF ins] obtain code where
    "ac_code_hash code = hash L (co_code out)" "code_of_grant B grant code" "db_codes d0 = db_codes d @ [code]"
    unfolding code_of_grant_def by blast
  ultimately show ?thesis
    using a(1,2) approved_grant [OF _ a(3,4)]
    by (intro exI [of _ row] exI [of _ grant] exI [of _ code]) (simp add: d1 mark_approved_def set_browser_def)
qed

text \<open>A state reached from another by any number of committed transactions.\<close>

abbreviation later :: "db \<Rightarrow> db \<Rightarrow> bool" where
  "later d d' \<equiv> db_le d d' \<and> db_inv d'"

lemma code_row_later:
  assumes "later d d'" and "code_by_hash d h = Some c" and "code_of_grant B grant c"
  shows "\<exists>c'. code_by_hash d' h = Some c' \<and> code_of_grant B grant c' \<and> code_le c c'"
  using by_key_later(3) [of d d' h c] db_leD(1) [of d d'] db_invD(1) [of d'] assms code_of_grant_later by blast

text \<open>What the user approved the client obtains: once consent issued a code, whoever presents it with the
  request's client and redirect URI and the verifier of its challenge is answered with exactly the
  approved scopes and resource, and with a refresh token exactly when \<open>offline_access\<close> was approved.
  Nothing refuses it, whatever ran in between and whatever snapshots the exchange read, as long as the code is
  unused and unexpired, its session lives, and the registry is the one that granted it, its lease not run out.\<close>

theorem approved_code_redeems:
  assumes "registry_wf reg" and "binding_laws B" and "db_inv d"
    and "approve L B e d session handle reg = (Inr out, d1)"
    and "row \<in> set (db_browser d)" and "ba_id row = ch_transaction_id handle"
    and "later d1 dq" and "later dq d2" and "later d1 d0" and "later d0 d2"
    and "usable_code L (env_clock e' 0) d2 (co_code out)" and "verify_s256 L verifier (ba_code_challenge row)"
    and "registry_ensure_fresh now reg = Inr ()" and "policy_lasts e' reg"
    and "env_uuid e' 0 \<notin> rf_id ` set (db_families d2)" and "fresh_member L e' 1 d2"
  shows "\<exists>r d3. exchange_code_request L B now e' dq d0 d2 (co_code out) (ba_client_id row) (ba_redirect_uri row)
        None verifier None reg = (Inr r, d3)
    \<and> ex_client_id r = ba_client_id row \<and> set (ex_scopes r) = set (ba_scopes row) \<and> ex_resource r = ba_resource row
    \<and> (ex_refresh_token r \<noteq> None \<longleftrightarrow> ''offline_access'' \<in> set (ba_scopes row))"
proof -
  from approved_code [OF assms(4)] assms(1) obtain row' grant c1 where row': "row' \<in> set (db_browser d)"
      "ba_id row' = ch_transaction_id handle" and g: "granted_by L reg grant"
    and c1: "c1 \<in> set (db_codes d1)" "ac_code_hash c1 = hash L (co_code out)" "code_of_grant B grant c1"
    and fields: "vg_client_id grant = ba_client_id row'" "vg_redirect_uri grant = ba_redirect_uri row'"
      "set (vg_scopes grant) = set (ba_scopes row')" "vg_resource grant = ba_resource row'"
      "vg_code_challenge grant = ba_code_challenge row'"
      "vg_issue_refresh_token grant = (''offline_access'' \<in> set (ba_scopes row'))" by blast
  have row: "row' = row" using browser_inv_same_row [OF db_invD(2) [OF assms(3)] row'(1) assms(5)] row'(2) assms(6) by simp
  have inv: "db_inv d1" using sound_approve [of d L B e session handle reg] assms(3,4) by (simp add: sound_step_def)
  have h1: "code_by_hash d1 (hash L (co_code out)) = Some c1"
    using by_key_SomeI(3) [OF db_invD(1) [OF inv] c1(1)] c1(2) by simp
  from code_row_later [OF _ h1 c1(3)] assms(7,9) obtain cq c0 where
    cq: "code_by_hash dq (hash L (co_code out)) = Some cq" "code_of_grant B grant cq"
    and c0: "code_by_hash d0 (hash L (co_code out)) = Some c0" by meson
  from code_row_later [OF assms(8) cq] obtain c where
    c: "code_by_hash d2 (hash L (co_code out)) = Some c" "code_of_grant B grant c" by blast
  have cred: "cred_inv dq" "creds_le d0 d2" "cred_inv d2" using assms(7,8,10) db_invD(1) db_leD(1) by blast+
  have verifier: "verify_s256 L verifier (ac_code_challenge c)"
    using assms(12) c(2) fields row by (simp add: code_of_grant_def)
  from granted_code_exchanges [OF assms(1,2) g c(2) assms(14) cred(3) c0 cred(2) c(1) assms(11) verifier assms(15,16)]
  obtain r d3 where r: "exchange_code_bound L B e' d0 d2 (co_code out) (ac_client_id c) (ac_redirect_uri c) (ac_resource c)
      verifier (Some reg) = (Inr r, d3)" "ex_client_id r = ac_client_id c" "ex_scopes r = ac_scopes c"
      "ex_resource r = ac_resource c" "ex_refresh_token r \<noteq> None \<longleftrightarrow> ac_issue_refresh_token c" by blast
  from granted_code_requests [OF assms(1,2) g c(2) assms(14,13) cred(1) cq r(1)] r(2-5) show ?thesis
    using c(2) fields by (intro exI [of _ r] exI [of _ d3]) (simp add: code_of_grant_def row)
qed


section \<open>A request approved and redeemed\<close>

definition bw_code :: string where
  "bw_code = co_code (projr (fst bw_approve))"

definition bw_row :: browser_row where
  "bw_row = hd (db_browser (snd bw_consent))"

lemma bw_code_usable: "usable_code ref_libs (seconds 1010) (snd bw_approve) bw_code"
proof -
  have "is_some_and (code_by_hash (snd bw_approve) (hash ref_libs bw_code)) (\<lambda>c.
      is_some_and (session_by_id (snd bw_approve) (ac_session_id c)) (\<lambda>s. ac_consumed_at c = None
        \<and> seconds 1010 < ac_expires_at c \<and> ps_revoked_at s = None \<and> ps_user_id s \<in> set (db_users (snd bw_approve))))"
    by code_simp
  then show ?thesis by (auto simp: usable_code_def is_some_and_iff)
qed

theorem approved_code_redeems_witness:
  "\<exists>r d3. exchange_code_request ref_libs ref_codec 10 (env_at (seconds 1010) 60) (snd bw_approve) (snd bw_approve)
       (snd bw_approve) bw_code ''app'' sc_redirect None ref_verifier None ref_registry = (Inr r, d3)
     \<and> set (ex_scopes r) = {''offline_access'', ''openid''} \<and> ex_refresh_token r \<noteq> None"
proof -
  have row: "bw_row \<in> set (db_browser (snd bw_consent))"
  proof -
    have "db_browser (snd bw_consent) \<noteq> []" by code_simp
    then show ?thesis by (simp add: bw_row_def)
  qed
  have facts: "ba_id bw_row = ch_transaction_id bw_handle" "ba_client_id bw_row = ''app''"
    "ba_redirect_uri bw_row = sc_redirect" "ba_scopes bw_row = [''offline_access'', ''openid'']"
    "verify_s256 ref_libs ref_verifier (ba_code_challenge bw_row)" by code_simp+
  have clock: "env_clock (env_at (seconds 1010) 60) 0 = seconds 1010" by (simp add: env_at_def)
  have static: "reg_dynamic ref_registry = None" by code_simp
  have lasts: "policy_lasts (env_at (seconds 1010) 60) ref_registry"
    using registry_fresh_all [OF static] by (simp add: policy_lasts_def)
  have fresh: "env_uuid (env_at (seconds 1010) 60) 0 \<notin> rf_id ` set (db_families (snd bw_approve))"
    "fresh_member ref_libs (env_at (seconds 1010) 60) 1 (snd bw_approve)" by code_simp+
  have later: "later (snd bw_approve) (snd bw_approve)" by simp
  have usable: "usable_code ref_libs (env_clock (env_at (seconds 1010) 60) 0) (snd bw_approve) (co_code (projr (fst bw_approve)))"
    using bw_code_usable by (simp only: clock bw_code_def)
  obtain r d3 where "exchange_code_request ref_libs ref_codec 10 (env_at (seconds 1010) 60) (snd bw_approve) (snd bw_approve)
       (snd bw_approve) bw_code (ba_client_id bw_row) (ba_redirect_uri bw_row) None ref_verifier None ref_registry = (Inr r, d3)"
    "set (ex_scopes r) = set (ba_scopes bw_row)"
    "ex_refresh_token r \<noteq> None \<longleftrightarrow> ''offline_access'' \<in> set (ba_scopes bw_row)"
    using approved_code_redeems [where e' = "env_at (seconds 1010) 60" and verifier = ref_verifier and now = 10,
        OF ref_registry_wf ref_codec_laws bw_inv(1) bw_approve_run row facts(1) later later later later
        usable facts(5) registry_fresh_all [OF static] lasts fresh]
    unfolding bw_code_def by blast
  then show ?thesis unfolding facts(2,3,4) by (intro exI [of _ r] exI [of _ d3]) simp
qed

end
