(* ===== verification/Refresh_Flow.thy ===== *)
theory Refresh_Flow
  imports Grant_Flow Endpoint_Properties
begin

text \<open>
  The life of a grant at the token endpoint: the refresh token of an answer is accepted in its
  turn, with the same client, scopes, resource and user, as long as its family lives.
\<close>

section \<open>The family behind an answer\<close>

text \<open>The registry accepts the family, and the answer's refresh token is a member of it.\<close>

definition refreshable ::
  "libs \<Rightarrow> binding_codec \<Rightarrow> client_registry \<Rightarrow> db \<Rightarrow> exchange_result \<Rightarrow> string \<Rightarrow> bool" where
  "refreshable L B reg d r raw \<longleftrightarrow> (\<exists>m f t. member_by_hash d (hash L raw) = Some m
     \<and> family_by_id d (rm_family_id m) = Some f
     \<and> rf_client_id f = ex_client_id r \<and> rf_scopes f = ex_scopes r \<and> rf_resource f = ex_resource r
     \<and> rf_session_id f = ex_session_id r \<and> rf_user_id f = ex_user_id r
     \<and> check_binding B t (Some reg) (ex_client_id r) (rf_cimd_binding f) = Inr ()
     \<and> permits_refresh reg (ex_client_id r) (ex_scopes r) (ex_resource r))"

lemma refreshable_later:
  assumes "refreshable L B reg d r raw" and "later d d'"
  shows "refreshable L B reg d' r raw"
proof -
  from assms(1) obtain m f t where m: "member_by_hash d (hash L raw) = Some m" and f: "family_by_id d (rm_family_id m) = Some f"
    and rest: "rf_client_id f = ex_client_id r" "rf_scopes f = ex_scopes r" "rf_resource f = ex_resource r"
      "rf_session_id f = ex_session_id r" "rf_user_id f = ex_user_id r"
      "check_binding B t (Some reg) (ex_client_id r) (rf_cimd_binding f) = Inr ()"
      "permits_refresh reg (ex_client_id r) (ex_scopes r) (ex_resource r)" unfolding refreshable_def by blast
  have le: "creds_le d d'" "cred_inv d'" using assms(2) db_leD(1) db_invD(1) by blast+
  from by_key_later(6) [OF le m] by_key_later(4) [OF le f] obtain m' f' where
    "member_by_hash d' (hash L raw) = Some m'" "member_le m m'"
    "family_by_id d' (rm_family_id m) = Some f'" "family_le f f'" by blast
  with rest member_leD [OF this(2)] family_leD [OF this(4)] show ?thesis
    unfolding refreshable_def by (intro exI [of _ m'] exI [of _ f'] exI [of _ t]) simp
qed

lemma validated_permits_refresh:
  "validate_pending_parts L t reg cid redirect rt method challenge scopes (Some res) = Inr p \<Longrightarrow> permits_refresh reg cid scopes res"
  by (auto simp: validate_pending_parts_Inr effective_resource_def permits_refresh_def grant_conditions_def
      card_length_iff_distinct)

lemma exchange_refreshable:
  assumes "cred_inv d"
    and "exchange_code_bound L B e d d raw client redirect resource verifier (Some reg) = (Inr r, d')"
    and "ex_refresh_token r = Some token"
  shows "refreshable L B reg d' r token"
proof -
  from exchange_cases [OF assms(2)] obtain code session rt where
    ready: "exchange_ready L B e d d raw client redirect resource verifier (Some reg) code session"
    and bind: "check_binding B (env_instant e 3) (Some reg) client (ac_cimd_binding code) = Inr ()"
    and live: "ac_consumed_at code = None" "ps_revoked_at session = None"
    and redeem: "redeem_code L e (env_clock e 0) d code session = Some (rt, d')"
    and r: "r = \<lparr>ex_session_id = ac_session_id code, ex_user_id = ps_user_id session, ex_client_id = ac_client_id code,
      ex_scopes = ac_scopes code, ex_resource = ac_resource code, ex_refresh_token = rt,
      ex_oidc_nonce = ac_oidc_nonce code, ex_upstream_auth_time = ac_upstream_auth_time code\<rparr>" by auto
  have match: "ac_client_id code = client" "ac_resource code = resource"
    and s: "session_by_id d (ac_session_id code) = Some session" and id: "code_by_id d (ac_id code) = Some code"
    using ready by (simp_all add: exchange_ready_def code_matches_def)
  from ready have "exchange_policy L B e (Some reg) code client redirect resource = Inr ()" by (simp add: exchange_ready_def)
  from exchange_policy_Inr [OF this] validated_permits_refresh
  have permits: "permits_refresh reg client (ac_scopes code) resource" by auto
  have inv': "cred_inv d'" using redeem_code_safe [OF redeem assms(1) _ _ live] s id by simp
  let ?f = "family_of_code (env_uuid e 0) code session (env_clock e 0)"
  have "rt = Some token" using assms(3) r by simp
  with redeem_codeD [OF redeem] obtain d2 n where
    "insert_family (consume_code (ac_id code) (env_clock e 0) d) ?f = Some d2" "insert_member d2 n = Some d'"
    and n: "rm_family_id n = env_uuid e 0" "rm_token_hash n = hash L token" by (auto split: if_splits)
  then have rows: "?f \<in> set (db_families d')" "n \<in> set (db_members d')"
    by (auto simp: insert_family_def insert_member_def split: if_splits)
  from by_key_SomeI(4,6) [OF inv'] rows n have
    "family_by_id d' (env_uuid e 0) = Some ?f" "member_by_hash d' (hash L token) = Some n"
    by (fastforce simp: family_of_code_def)+
  with n(1) bind permits match show ?thesis
    unfolding refreshable_def r by (intro exI [of _ n] exI [of _ ?f] exI [of _ "env_instant e 3"]) (simp add: family_of_code_def)
qed

lemma rotation_refreshable:
  assumes "cred_inv d" and "rotate_refresh_bound L B e d d raw client resource (Some reg) = (Inr r, d')"
    and "ex_refresh_token r = Some token"
  shows "refreshable L B reg d' r token"
proof -
  from rotation_cases [OF assms(2)] obtain member f0 family session rt where
    ready: "rotation_ready L B e d d raw client resource (Some reg) member f0 family session"
    and bind: "check_binding B (env_instant e 2) (Some reg) client (rf_cimd_binding family) = Inr ()"
    and rot: "rotate_member L e (env_clock e 0) d (rm_id member) (rf_id family) = Some (rt, d')"
    and r: "r = \<lparr>ex_session_id = rf_session_id f0, ex_user_id = ps_user_id session, ex_client_id = rf_client_id family,
      ex_scopes = rf_scopes family, ex_resource = rf_resource family, ex_refresh_token = Some rt,
      ex_oidc_nonce = None, ex_upstream_auth_time = rf_upstream_auth_time family\<rparr>" by auto
  note k = rotation_consistent [OF ready assms(1) creds_le_refl]
  from rotation_replaces_live_member [OF assms(1) creds_le_refl assms(2)] assms(3) obtain old new where
    old: "member_by_hash d' (hash L raw) = Some old" and new: "member_by_hash d' (hash L token) = Some new"
    and live: "live_members (db_members d') (rm_family_id old) = [new]" by auto
  have later: "cred_inv d'" "creds_le d d'" using rotation_safe [OF assms(1) creds_le_refl] assms(2) by (metis snd_conv)+
  have "member_by_hash d (hash L raw) = Some member" using by_key_SomeI(6) [OF assms(1) k(5)] k(2) by simp
  from by_key_later(6) [OF later(2,1) this] old member_leD k(1) have "rm_family_id old = rf_id family" by fastforce
  moreover have "new \<in> set (live_members (db_members d') (rm_family_id old))" using live by simp
  ultimately have fam: "rm_family_id new = rf_id family" by (simp add: live_members_def)
  have "family_by_id d (rf_id family) = Some family" using ready by (simp add: rotation_ready_def)
  from by_key_later(4) [OF later(2,1) this] obtain f where f: "family_by_id d' (rf_id family) = Some f" "family_le family f" by blast
  have user: "rf_user_id family = ps_user_id session"
  proof -
    from assms(1) k(6) obtain s where "s \<in> set (db_sessions d)" "under_session family s"
      unfolding cred_inv_def families_wf_def by blast
    with by_key_SomeI(1) [OF assms(1)] ready k(4) show ?thesis
      unfolding under_session_def rotation_ready_def by (metis option.inject)
  qed
  have "rf_client_id family = client" "permits_refresh reg client (rf_scopes family) (rf_resource family)"
    using ready by (auto simp: rotation_ready_def)
  with bind user k(4) fam f new family_leD [OF f(2)] show ?thesis
    unfolding refreshable_def r by (intro exI [of _ new] exI [of _ f] exI [of _ "env_instant e 2"]) simp
qed


section \<open>Rotating a live token\<close>

text \<open>A refresh token nobody has used, of a family nobody has revoked.\<close>

definition usable_refresh :: "libs \<Rightarrow> int \<Rightarrow> db \<Rightarrow> string \<Rightarrow> bool" where
  "usable_refresh L now d raw \<longleftrightarrow> (\<exists>m f. member_by_hash d (hash L raw) = Some m \<and> rm_consumed_at m = None
     \<and> family_by_id d (rm_family_id m) = Some f \<and> rf_revoked_at f = None \<and> now < rf_expires_at f)"

lemma check_binding_time:
  "check_binding B t (Some reg) cid binding = Inr () \<Longrightarrow> registry_ensure_fresh t' reg = Inr () \<Longrightarrow>
     check_binding B t' (Some reg) cid binding = Inr ()"
  by (auto simp: check_binding_def validate_binding_def map_err_def and_then_Inr_iff split: sum.splits)

lemma rotate_member_some:
  assumes "fresh_member L e 0 d" and "f \<in> set (db_families d)"
  shows "\<exists>token d'. rotate_member L e now d mid (rf_id f) = Some (token, d')"
proof -
  let ?n = "\<lparr>rm_id = env_uuid e 0, rm_family_id = rf_id f, rm_token_hash = hash L (random_credential L e 0),
             rm_issued_at = now, rm_consumed_at = None, rm_successor_id = None\<rparr>"
  have ins: "insert_member d ?n = Some (d\<lparr>db_members := db_members d @ [?n]\<rparr>)"
    using assms by (simp add: insert_member_def fresh_member_def)
  have "member_by_hash (d\<lparr>db_members := db_members d @ [?n]\<rparr>) (hash L (random_credential L e 0)) \<noteq> None"
    by (simp add: member_by_hash_def find_None_iff) (rule exI [of _ ?n], simp)
  with ins show ?thesis by (auto simp: rotate_member_def insert_refresh_def Let_def)
qed

lemma refreshable_rotates:
  assumes "refreshable L B reg d r raw" and "cred_inv d" and "usable_refresh L (env_clock e 0) d raw"
    and "policy_lasts e reg" and "fresh_member L e 0 d"
  shows "\<exists>r' d'. rotate_refresh_request L B e d d d raw (ex_client_id r) None None reg = (Inr r', d')
    \<and> ex_client_id r' = ex_client_id r \<and> ex_scopes r' = ex_scopes r \<and> ex_resource r' = ex_resource r
    \<and> ex_session_id r' = ex_session_id r \<and> ex_user_id r' = ex_user_id r \<and> ex_refresh_token r' \<noteq> None"
proof -
  from assms(1,3) obtain m f t where m: "member_by_hash d (hash L raw) = Some m" "rm_consumed_at m = None"
    and f: "family_by_id d (rm_family_id m) = Some f" "rf_revoked_at f = None" "env_clock e 0 < rf_expires_at f"
    and r: "rf_client_id f = ex_client_id r" "rf_scopes f = ex_scopes r" "rf_resource f = ex_resource r"
      "rf_session_id f = ex_session_id r" "rf_user_id f = ex_user_id r"
    and bind: "check_binding B t (Some reg) (ex_client_id r) (rf_cimd_binding f) = Inr ()"
    and permits: "permits_refresh reg (ex_client_id r) (ex_scopes r) (ex_resource r)"
    unfolding refreshable_def usable_refresh_def by auto
  note fam = by_key_SomeD(4) [OF f(1)] and mem = by_key_SomeD(6) [OF m(1)]
  from assms(2) fam obtain s where s: "s \<in> set (db_sessions d)" "under_session f s"
    unfolding cred_inv_def families_wf_def by blast
  have session: "session_by_id d (rf_session_id f) = Some s" "ps_revoked_at s = None" "env_clock e 0 < ps_expires_at s"
    "ps_user_id s = rf_user_id f"
    using by_key_SomeI(1) [OF assms(2) s(1)] s(2) f(2,3) by (auto simp: under_session_def)
  have "member_by_id d (rm_id m) = Some m" using by_key_SomeI(5) [OF assms(2)] mem by blast
  moreover obtain token d' where "rotate_member L e (env_clock e 0) d (rm_id m) (rm_family_id m) = Some (token, d')"
    using rotate_member_some [OF assms(5), of f "env_clock e 0" "rm_id m"] fam by auto
  moreover have "check_binding B (env_instant e k) (Some reg) (ex_client_id r) (rf_cimd_binding f) = Inr ()" if "k \<le> 3" for k
    using check_binding_time [OF bind] assms(4) that by (simp add: policy_lasts_def)
  from this [of 0] this [of 1] this [of 2]
  have "check_binding B (env_instant e 0) (Some reg) (ex_client_id r) (rf_cimd_binding f) = Inr ()"
    "check_binding B (env_instant e 1) (Some reg) (ex_client_id r) (rf_cimd_binding f) = Inr ()"
    "check_binding B (env_instant e 2) (Some reg) (ex_client_id r) (rf_cimd_binding f) = Inr ()" by simp_all
  ultimately show ?thesis
    using m f(1,2,3) r permits session not_le
    by (simp add: rotate_refresh_request_def family_of_token_def rotate_refresh_bound_def)
qed

lemma redeemed_refreshable:
  assumes "redeem_grant I t grant n reg d = (Inr (r, initial), d1)" and "cred_inv d" and "ex_refresh_token r = Some raw"
  shows "refreshable (io_libs I) (io_codec I) reg d1 r raw"
proof (cases grant)
  case (CodeGrant code redirect verifier)
  with assms(1) have "exchange_code_request (io_libs I) (io_codec I) (env_instant (io_env I n) 9) (io_env I n) d d d code
      (tp_client t) redirect (tp_resource t) verifier (tp_scope t) reg = (Inr r, d1)"
    by (auto simp: map_ok_def apfst_def map_prod_def split: prod.splits sum.splits)
  from request_success [OF this] exchange_refreshable [OF assms(2) _ assms(3)] show ?thesis by blast
next
  case (RefreshGrant refresh)
  with assms(1) have "rotate_refresh_request (io_libs I) (io_codec I) (io_env I n) d d d refresh
      (tp_client t) (tp_resource t) (tp_scope t) reg = (Inr r, d1)"
    by (auto simp: map_ok_def apfst_def map_prod_def split: prod.splits sum.splits)
  then obtain resource where "rotate_refresh_bound (io_libs I) (io_codec I) (io_env I n) d d refresh (tp_client t) resource (Some reg)
      = (Inr r, d1)" by (auto simp: rotate_refresh_request_def split: option.splits if_splits)
  from rotation_refreshable [OF assms(2) this assms(3)] show ?thesis .
qed

text \<open>A grant stays usable: the refresh token of any answer of the token endpoint, to a code or to an earlier
  refresh token, is itself redeemed, for the same client, scopes, resource, session and user, and
  answered with the next refresh token.  Whatever ran in between, nothing refuses it as long as the
  token is unused, its family unrevoked and unexpired, and the registry the same, its lease not run out.\<close>

theorem refresh_token_redeems:
  assumes "redeem_grant I t grant n reg d = (Inr (r, initial), d1)" and "ex_refresh_token r = Some raw" and "db_inv d"
    and "later d1 d2" and "io_libs J = io_libs I" and "io_codec J = io_codec I"
    and "usable_refresh (io_libs I) (env_clock (io_env J m) 0) d2 raw" and "policy_lasts (io_env J m) reg"
    and "fresh_member (io_libs I) (io_env J m) 0 d2"
  shows "\<exists>r' d3. redeem_grant J \<lparr>tp_client = ex_client_id r, tp_resource = None, tp_scope = None\<rparr> (RefreshGrant raw) m reg d2
        = (Inr (r', False), d3)
    \<and> ex_client_id r' = ex_client_id r \<and> ex_scopes r' = ex_scopes r \<and> ex_resource r' = ex_resource r
    \<and> ex_session_id r' = ex_session_id r \<and> ex_user_id r' = ex_user_id r \<and> ex_refresh_token r' \<noteq> None"
proof -
  have "refreshable (io_libs I) (io_codec I) reg d2 r raw"
    using refreshable_later [OF redeemed_refreshable [OF assms(1) db_invD(1) [OF assms(3)] assms(2)] assms(4)] .
  from refreshable_rotates [OF this _ assms(7,8,9)] assms(4) db_invD(1) obtain r' d3 where
    "rotate_refresh_request (io_libs I) (io_codec I) (io_env J m) d2 d2 d2 raw (ex_client_id r) None None reg = (Inr r', d3)"
    "ex_client_id r' = ex_client_id r \<and> ex_scopes r' = ex_scopes r \<and> ex_resource r' = ex_resource r
      \<and> ex_session_id r' = ex_session_id r \<and> ex_user_id r' = ex_user_id r \<and> ex_refresh_token r' \<noteq> None" by blast
  then show ?thesis using assms(5,6) by (intro exI [of _ r'] exI [of _ d3]) (simp add: map_ok_def)
qed


section \<open>A token refreshed\<close>

definition refresh_io :: io where
  "refresh_io = ref_io\<lparr>io_env := (\<lambda>n. env_at (seconds 1020) 70)\<rparr>"

lemma code_redeemed: "redeem_grant code_io \<lparr>tp_client = ''app'', tp_resource = None, tp_scope = None\<rparr>
    (CodeGrant (sc_secret 50) sc_redirect ref_verifier) n ref_registry sc_db2 = (Inr (sc_result 61, True), sc_db3)"
  using code_form_redeems by (simp add: code_io_def ref_io_def map_ok_def)

lemma code_redeemed_later: "later sc_db2 sc_db3"
  using sound_credential [of sc_db2 sc_db2 sc_db2 ref_libs ref_codec
      "ExchangeBound (env_at (seconds 1010) 60) (sc_secret 50) ''app'' sc_redirect sc_resource ref_verifier"]
    sc_exchange sc_db2_db_inv by (simp add: sound_step_def exchange_code_def)

lemma first_refresh_usable: "usable_refresh ref_libs (seconds 1020) sc_db3 (sc_secret 61)"
proof -
  have "member_by_hash sc_db3 (hash ref_libs (sc_secret 61)) = Some sc_member_row" by code_simp
  moreover have "family_by_id sc_db3 (rm_family_id sc_member_row) = Some sc_family_row" by code_simp
  ultimately show ?thesis
    by (simp add: usable_refresh_def) (simp add: sc_member_row_def sc_family_row_def seconds_def)
qed

theorem refresh_token_redeems_witness:
  "\<exists>r' d3. redeem_grant refresh_io \<lparr>tp_client = ''app'', tp_resource = None, tp_scope = None\<rparr>
       (RefreshGrant (sc_secret 61)) 0 ref_registry sc_db3 = (Inr (r', False), d3)
     \<and> ex_scopes r' = [''offline_access'', ''openid''] \<and> ex_refresh_token r' \<noteq> None"
proof -
  have parts: "io_libs code_io = ref_libs" "io_libs refresh_io = io_libs code_io" "io_codec refresh_io = io_codec code_io"
    "io_env refresh_io 0 = env_at (seconds 1020) 70" "ex_refresh_token (sc_result 61) = Some (sc_secret 61)"
    "ex_client_id (sc_result 61) = ''app''" "ex_scopes (sc_result 61) = [''offline_access'', ''openid'']"
    by (simp_all add: code_io_def refresh_io_def ref_io_def sc_result_def)
  have clock: "env_clock (env_at (seconds 1020) 70) 0 = seconds 1020" by (simp add: env_at_def)
  have static: "reg_dynamic ref_registry = None" by code_simp
  have lasts: "policy_lasts (io_env refresh_io 0) ref_registry"
    using registry_fresh_all [OF static] by (simp add: policy_lasts_def)
  have fresh: "fresh_member ref_libs (env_at (seconds 1020) 70) 0 sc_db3" by code_simp
  have later: "later sc_db3 sc_db3" using code_redeemed_later by simp
  have usable: "usable_refresh (io_libs code_io) (env_clock (io_env refresh_io 0) 0) sc_db3 (sc_secret 61)"
    "fresh_member (io_libs code_io) (io_env refresh_io 0) 0 sc_db3"
    using first_refresh_usable fresh by (simp_all only: parts clock)
  show ?thesis
    using refresh_token_redeems [OF code_redeemed parts(5) sc_db2_db_inv later parts(2,3) usable(1) lasts usable(2)]
    unfolding parts by blast
qed

end
