(* ===== verification/Client_Flow.thy ===== *)
theory Client_Flow
  imports Refresh_Flow
begin

text \<open>
  A grant over HTTP: the answer to an approval carries a code, the token endpoint answers the client that presents it,
  and goes on answering the refresh tokens it gave.
\<close>

section \<open>The answer to an approval\<close>

text \<open>An approval that took effect issued a code, under the registry of a configured client, and hands it to the browser.\<close>

lemma approval_took_effect:
  assumes "consent_decision I p ''approve'' session handle w = (r, w1)" and "wd_db w1 \<noteq> wd_db w"
    and "db_inv (wd_db w)" and "row \<in> set (db_browser (wd_db w))" and "ba_id row = ch_transaction_id handle"
    and "contains_client (pr_registry p) (ba_client_id row)"
  shows "\<exists>n out. approve (io_libs I) (io_codec I) (io_env I n) (wd_db w) session handle (pr_registry p) = (Inr out, wd_db w1)
    \<and> r = consent_return (io_libs I) (io_http I) (ba_redirect_uri row)
        [(''code'', Some (co_code out)), (''state'', ba_downstream_state row), (''iss'', Some (pr_issuer p))]"
proof -
  obtain client where client: "transaction_client_id (wd_db w) (ch_transaction_id handle) = Inr client"
    using assms(1,2) by (cases "transaction_client_id (wd_db w) (ch_transaction_id handle)") (auto simp: consent_decision_def)
  then obtain row' where row': "row' \<in> set (db_browser (wd_db w))" "ba_id row' = ch_transaction_id handle" "client = ba_client_id row'"
    by (auto simp: transaction_client_id_def dest: find_Some_set)
  have same: "row' = row" using browser_inv_same_row [OF db_invD(2) [OF assms(3)] row'(1) assms(4)] row'(2) assms(5) by simp
  obtain outcome w2 where run: "with_policy I p 1 BrMetadataExpired client (decide I p ''approve'' session handle) w = (outcome, w2)"
    by fastforce
  have w2: "w2 = w1" using assms(1) client run by (auto simp: consent_decision_def split: resolved.splits)
  from decision.changed [OF run] assms(2) w2 obtain v where v: "outcome = Done v" by blast
  obtain redirect items where items: "v = (redirect, items)" by (cases v)
  from decision.succeeded [OF run [unfolded v items]] obtain n registry u1 u2 where
    resolved: "resolve_client I p n client u1 = (Inr registry, u2)"
    and decided: "decide I p ''approve'' session handle n registry (wd_db w) = (Inr (redirect, items), wd_db w2)" by blast
  have registry: "registry = pr_registry p"
    using resolved assms(6) row'(3) same by (simp add: resolve_client_def)
  from decided obtain out where out: "approve (io_libs I) (io_codec I) (io_env I n) (wd_db w) session handle (pr_registry p) = (Inr out, wd_db w1)"
    and answer: "redirect = co_redirect_uri out"
      "items = [(''code'', Some (co_code out)), (''state'', co_downstream_state out), (''iss'', Some (pr_issuer p))]"
    unfolding registry w2 by (auto simp: decide_def apfst_Inr_iff)
  from approve_Inr [OF out] obtain row'' where row'': "row'' \<in> set (db_browser (wd_db w))" "ba_id row'' = ch_transaction_id handle"
    "co_redirect_uri out = ba_redirect_uri row''" "co_downstream_state out = ba_downstream_state row''" by blast
  have "row'' = row" using browser_inv_same_row [OF db_invD(2) [OF assms(3)] row''(1) assms(4)] row''(2) assms(5) by simp
  moreover have "r = consent_return (io_libs I) (io_http I) redirect items"
    using assms(1) client run v items by (simp add: consent_decision_def)
  ultimately show ?thesis using out answer row''(3,4) by (intro exI [of _ n] exI [of _ out]) simp
qed

section \<open>A request that is redeemed is answered\<close>

text \<open>The encoder signs what it is given.\<close>

definition signing_works :: "crypto \<Rightarrow> signing_keys \<Rightarrow> bool" where
  "signing_works C keys \<longleftrightarrow> (\<forall>claims. cr_encode_access C (sign_header keys ''at+jwt'') claims (sk_encoding keys) \<noteq> None)
     \<and> (\<forall>claims. cr_encode_id C (sign_header keys ''JWT'') claims (sk_encoding keys) \<noteq> None)"

lemma issue_works:
  assumes "signing_works C keys"
  shows "\<exists>answer. issue L C e keys issuer userinfo v initial = Inr answer
    \<and> tr_scope answer = join_with '' '' (ex_scopes v) \<and> tr_refresh_token answer = ex_refresh_token v
    \<and> (tr_id_token answer \<noteq> None \<longleftrightarrow> initial \<and> ''openid'' \<in> set (ex_scopes v))"
proof -
  obtain a where a: "cr_encode_access C (sign_header keys ''at+jwt'') (access_claims_of e L issuer userinfo v) (sk_encoding keys) = Some a"
    using assms unfolding signing_works_def by blast
  obtain b where b: "cr_encode_id C (sign_header keys ''JWT'') (id_claims_of e issuer v) (sk_encoding keys) = Some b"
    using assms unfolding signing_works_def by blast
  show ?thesis by (cases "initial \<and> ''openid'' \<in> set (ex_scopes v)") (auto simp: issue_def sign_def sign_id_def a b)
qed

lemma redeemed_answered:
  assumes "pairs_bytes (io_libs I) bytes 8192 = Inr q" and "token_params_of (io_libs I) (io_http I) p h q = Inr t"
    and "grant_of q = Inr g" and "contains_client (pr_registry p) (tp_client t)"
    and "redeem_grant I t g 0 (pr_registry p) (wd_db w) = (Inr (v, initial), d)"
    and "issue (io_libs I) (io_crypto I) (io_env I 2) keys (pr_issuer p) (pr_userinfo p) v initial = Inr answer"
  shows "token_endpoint I keys p h bytes w
    = (cors_for (io_http I) h (json_sensitive (token_json answer)), w\<lparr>wd_db := d\<rparr>)"
  using assms
  by (simp add: token_endpoint_def with_policy_def attempt_once_def resolve_client_def run_db_def token_response_of_def)

text \<open>C7: What the user approved the client obtains.  When posting the consent form took effect, the browser is sent back to
  the redirect URI of the request with a code, the client's state and the issuer; and when a configured
  client presents that code, the redirect URI and the verifier of its challenge, the token endpoint answers
  with tokens for exactly the approved scopes, a refresh token exactly when \<open>offline_access\<close> and an identity
  token exactly when \<open>openid\<close> was approved.  Nothing refuses it, whatever ran in between, as long as the code is unused
  and unexpired, its session lives, and signing works.\<close>

theorem consent_leads_to_tokens:
  assumes "consent_decision I p ''approve'' session handle w = (r, w1)" and "wd_db w1 \<noteq> wd_db w" and "db_inv (wd_db w)"
    and "row \<in> set (db_browser (wd_db w))" and "ba_id row = ch_transaction_id handle"
    and "contains_client (pr_registry p) (ba_client_id row)" and "registry_wf (pr_registry p)" and "reg_dynamic (pr_registry p) = None"
    and "binding_laws (io_codec I)" and "later (wd_db w1) (wd_db w2)"
    and "io_libs J = io_libs I" and "io_codec J = io_codec I" and "signing_works (io_crypto J) keys"
    and "pairs_bytes (io_libs J) bytes 8192 = Inr q"
    and "token_params_of (io_libs J) (io_http J) p h q = Inr \<lparr>tp_client = ba_client_id row, tp_resource = None, tp_scope = None\<rparr>"
    and "grant_of q = Inr (CodeGrant code (ba_redirect_uri row) verifier)"
    and "verify_s256 (io_libs J) verifier (ba_code_challenge row)"
    and "env_uuid (io_env J 0) 0 \<notin> rf_id ` set (db_families (wd_db w2))" and "fresh_member (io_libs J) (io_env J 0) 1 (wd_db w2)"
  shows "\<exists>n out. approve (io_libs I) (io_codec I) (io_env I n) (wd_db w) session handle (pr_registry p) = (Inr out, wd_db w1)
    \<and> r = consent_return (io_libs I) (io_http I) (ba_redirect_uri row)
      [(''code'', Some (co_code out)), (''state'', ba_downstream_state row), (''iss'', Some (pr_issuer p))]
    \<and> (code = co_code out \<and> usable_code (io_libs J) (env_clock (io_env J 0) 0) (wd_db w2) code
      \<longrightarrow> (\<exists>answer scopes w3. token_endpoint J keys p h bytes w2
            = (cors_for (io_http J) h (json_sensitive (token_json answer)), w3)
          \<and> tr_scope answer = join_with '' '' scopes \<and> set scopes = set (ba_scopes row)
          \<and> (tr_refresh_token answer \<noteq> None \<longleftrightarrow> ''offline_access'' \<in> set (ba_scopes row))
          \<and> (tr_id_token answer \<noteq> None \<longleftrightarrow> ''openid'' \<in> set (ba_scopes row))))"
proof -
  from approval_took_effect [OF assms(1-6)] obtain n out where
    out: "approve (io_libs I) (io_codec I) (io_env I n) (wd_db w) session handle (pr_registry p) = (Inr out, wd_db w1)"
    and r: "r = consent_return (io_libs I) (io_http I) (ba_redirect_uri row)
        [(''code'', Some (co_code out)), (''state'', ba_downstream_state row), (''iss'', Some (pr_issuer p))]" by blast
  have "\<exists>answer scopes w3. token_endpoint J keys p h bytes w2
            = (cors_for (io_http J) h (json_sensitive (token_json answer)), w3)
          \<and> tr_scope answer = join_with '' '' scopes \<and> set scopes = set (ba_scopes row)
          \<and> (tr_refresh_token answer \<noteq> None \<longleftrightarrow> ''offline_access'' \<in> set (ba_scopes row))
          \<and> (tr_id_token answer \<noteq> None \<longleftrightarrow> ''openid'' \<in> set (ba_scopes row))"
    if code: "code = co_code out" and usable: "usable_code (io_libs J) (env_clock (io_env J 0) 0) (wd_db w2) code"
  proof -
    have lasts: "policy_lasts (io_env J 0) (pr_registry p)" "registry_ensure_fresh (env_instant (io_env J 0) 9) (pr_registry p) = Inr ()"
      using registry_fresh_all [OF assms(8)] by (simp_all add: policy_lasts_def)
    have refl: "later (wd_db w2) (wd_db w2)" using assms(10) by simp
    from approved_code_redeems [where e' = "io_env J 0" and verifier = verifier and now = "env_instant (io_env J 0) 9",
      OF assms(7,9,3) out assms(4,5) assms(10) refl assms(10) refl] usable assms(17,18,19) lasts
    obtain v d3 where v: "exchange_code_request (io_libs J) (io_codec J) (env_instant (io_env J 0) 9) (io_env J 0) (wd_db w2) (wd_db w2)
        (wd_db w2) code (ba_client_id row) (ba_redirect_uri row) None verifier None (pr_registry p) = (Inr v, d3)"
      and scopes: "set (ex_scopes v) = set (ba_scopes row)"
        "ex_refresh_token v \<noteq> None \<longleftrightarrow> ''offline_access'' \<in> set (ba_scopes row)"
      unfolding code assms(11,12) by blast
    from v have redeem: "redeem_grant J \<lparr>tp_client = ba_client_id row, tp_resource = None, tp_scope = None\<rparr>
        (CodeGrant code (ba_redirect_uri row) verifier) 0 (pr_registry p) (wd_db w2) = (Inr (v, True), d3)"
      by (simp add: map_ok_def)
    from issue_works [OF assms(13), of "io_libs J" "io_env J 2" "pr_issuer p" "pr_userinfo p" v True] obtain answer where
      issued: "issue (io_libs J) (io_crypto J) (io_env J 2) keys (pr_issuer p) (pr_userinfo p) v True = Inr answer"
      and fields: "tr_scope answer = join_with '' '' (ex_scopes v)" "tr_refresh_token answer = ex_refresh_token v"
        "tr_id_token answer \<noteq> None \<longleftrightarrow> True \<and> ''openid'' \<in> set (ex_scopes v)"
      by (elim exE conjE) (rule that; assumption)
    have client: "contains_client (pr_registry p) (tp_client \<lparr>tp_client = ba_client_id row, tp_resource = None, tp_scope = None\<rparr>)"
      using assms(6) by simp
    from redeemed_answered [OF assms(14,15,16) client redeem issued] fields scopes show ?thesis
      by (intro exI [of _ answer] exI [of _ "ex_scopes v"] exI [of _ "w2\<lparr>wd_db := d3\<rparr>"] conjI) simp_all
  qed
  with out r show ?thesis by (intro exI [of _ n] exI [of _ out]) blast
qed

section \<open>A form approved and its code presented\<close>

definition consent_io :: io where
  "consent_io = ref_io\<lparr>io_env := (\<lambda>n. env_at (seconds 1003) 46)\<rparr>"

definition approved_body :: string where
  "approved_body = ''grant_type=authorization_code&code='' @ sc_secret 46 @ ''&client_id=app&redirect_uri='' @ sc_redirect
     @ ''&code_verifier='' @ ref_verifier"

definition approved_form :: form where
  "approved_form = [(''grant_type'', ''authorization_code''), (''code'', sc_secret 46), (''client_id'', ''app''),
     (''redirect_uri'', sc_redirect), (''code_verifier'', ref_verifier)]"

lemma bw_code_is: "bw_code = sc_secret 46" by code_simp

lemma approved_body_ascii: "list_all (\<lambda>c. \<not> digit7 c) approved_body" by code_simp

lemma approved_body_percent: "CHR ''%'' \<notin> set approved_body" by code_simp

lemma approved_body_parsed: "form_parse ref_libs approved_body = approved_form" by code_simp

lemma approved_body_short: "length approved_body \<le> 8192" by code_simp

lemma approved_form_short: "list_all (\<lambda>(k, x). length k \<le> 128 \<and> length x \<le> 2048) approved_form" by code_simp

lemma plain_body_pairs:
  assumes "list_all (\<lambda>c. \<not> digit7 c) body" and "CHR ''%'' \<notin> set body" and "form_parse L body = q" and "length body \<le> 8192"
    and "list_all (\<lambda>(k, x). length k \<le> 128 \<and> length x \<le> 2048) q" and "length q \<le> 32"
  shows "pairs_bytes L body 8192 = Inr q"
proof -
  have "\<not> list_ex (\<lambda>(k, x). 128 < length k \<or> 2048 < length x) q"
    using assms(5) by (auto simp: list_ex_iff list_all_iff)
  then show ?thesis
    using plain_utf8 [OF assms(1)] plain_percent [OF assms(2), of 0] assms(3,4,6)
    by (simp add: pairs_bytes_def pairs_def valid_percent_def Let_def)
qed

lemma approved_body_pairs: "pairs_bytes ref_libs approved_body 8192 = Inr approved_form"
  by (rule plain_body_pairs [OF approved_body_ascii approved_body_percent approved_body_parsed approved_body_short approved_form_short])
    (simp add: approved_form_def)

lemma approved_form_params: "token_params_of ref_libs ref_http ref_provider [] approved_form
    = Inr \<lparr>tp_client = ''app'', tp_resource = None, tp_scope = None\<rparr>"
  by code_simp

lemma approved_form_grant: "grant_of approved_form = Inr (CodeGrant (sc_secret 46) sc_redirect ref_verifier)"
  by code_simp

lemma bw_transaction: "transaction_client_id (snd bw_consent) (ch_transaction_id bw_handle) = Inr ''app''" by code_simp

lemma bw_changed: "db_codes (snd bw_approve) \<noteq> db_codes (snd bw_consent)"
proof -
  have "length (db_codes (snd bw_approve)) \<noteq> length (db_codes (snd bw_consent))" by code_simp
  then show ?thesis by auto
qed

lemma bw_decided: "\<exists>r. consent_decision consent_io ref_provider ''approve'' sc_session bw_handle (ref_world (snd bw_consent))
    = (r, ref_world (snd bw_approve))"
proof -
  obtain out where out: "approve ref_libs ref_codec (env_at (seconds 1003) 46) (snd bw_consent) sc_session bw_handle ref_registry
      = (Inr out, snd bw_approve)" using bw_approve_run by blast
  have parts: "io_libs consent_io = ref_libs" "io_codec consent_io = ref_codec" "io_env consent_io n = env_at (seconds 1003) 46" for n
    by (simp_all add: consent_io_def ref_io_def)
  have "decide consent_io ref_provider ''approve'' sc_session bw_handle 1 ref_registry (snd bw_consent)
      = (Inr (co_redirect_uri out, [(''code'', Some (co_code out)), (''state'', co_downstream_state out), (''iss'', Some (pr_issuer ref_provider))]),
         snd bw_approve)" by (simp add: decide_def parts out map_ok_def)
  then have "with_policy consent_io ref_provider 1 BrMetadataExpired ''app'' (decide consent_io ref_provider ''approve'' sc_session bw_handle)
      (ref_world (snd bw_consent))
      = (Done (co_redirect_uri out, [(''code'', Some (co_code out)), (''state'', co_downstream_state out), (''iss'', Some (pr_issuer ref_provider))]),
         ref_world (snd bw_approve))"
    using app_known
    by (simp add: with_policy_def attempt_once_def resolve_client_def run_db_def ref_world_def ref_provider_def)
  then show ?thesis using bw_transaction by (simp add: consent_decision_def ref_world_def)
qed

theorem consent_leads_to_tokens_witness:
  "\<exists>r answer w3. consent_decision consent_io ref_provider ''approve'' sc_session bw_handle (ref_world (snd bw_consent))
       = (r, ref_world (snd bw_approve))
     \<and> token_endpoint code_io ref_keys ref_provider [] approved_body (ref_world (snd bw_approve))
         = (cors_for ref_http [] (json_sensitive (token_json answer)), w3)
     \<and> tr_id_token answer \<noteq> None \<and> tr_refresh_token answer \<noteq> None"
proof -
  obtain r where run: "consent_decision consent_io ref_provider ''approve'' sc_session bw_handle (ref_world (snd bw_consent))
    = (r, ref_world (snd bw_approve))" using bw_decided by blast
  have db: "wd_db (ref_world d) = d" for d by (simp add: ref_world_def)
  have parts: "io_libs consent_io = ref_libs" "io_codec consent_io = ref_codec" "io_env consent_io n = env_at (seconds 1003) 46"
    "io_libs code_io = ref_libs" "io_codec code_io = ref_codec" "io_http code_io = ref_http" "io_crypto code_io = ref_crypto"
    "io_env code_io n = env_at (seconds 1010) 60" "pr_registry ref_provider = ref_registry" for n
    by (simp_all add: consent_io_def code_io_def ref_io_def ref_provider_def)
  have changed: "wd_db (ref_world (snd bw_approve)) \<noteq> wd_db (ref_world (snd bw_consent))" using bw_changed by (auto simp: db)
  have row: "bw_row \<in> set (db_browser (wd_db (ref_world (snd bw_consent))))"
  proof -
    have "db_browser (snd bw_consent) \<noteq> []" by code_simp
    then show ?thesis by (simp add: bw_row_def db)
  qed
  have facts: "ba_id bw_row = ch_transaction_id bw_handle" "ba_client_id bw_row = ''app''"
    "ba_redirect_uri bw_row = sc_redirect" "ba_scopes bw_row = [''offline_access'', ''openid'']"
    "verify_s256 ref_libs ref_verifier (ba_code_challenge bw_row)" by code_simp+
  have static: "reg_dynamic (pr_registry ref_provider) = None" by code_simp
  have known: "contains_client (pr_registry ref_provider) (ba_client_id bw_row)" using app_known by (simp add: facts parts)
  have wf: "registry_wf (pr_registry ref_provider)" by (simp add: parts)
  have laws: "binding_laws (io_codec consent_io)" using ref_codec_laws by (simp add: parts)
  have later: "later (wd_db (ref_world (snd bw_approve))) (wd_db (ref_world (snd bw_approve)))" by (simp add: db)
  have signs: "signing_works (io_crypto code_io) ref_keys" by (simp add: signing_works_def parts ref_crypto_def)
  have inv: "db_inv (wd_db (ref_world (snd bw_consent)))" by (simp add: db)
  have pairs: "pairs_bytes (io_libs code_io) approved_body 8192 = Inr approved_form" using approved_body_pairs by (simp add: parts)
  have params: "token_params_of (io_libs code_io) (io_http code_io) ref_provider [] approved_form
      = Inr \<lparr>tp_client = ba_client_id bw_row, tp_resource = None, tp_scope = None\<rparr>" using approved_form_params by (simp add: parts facts)
  have grant: "grant_of approved_form = Inr (CodeGrant (sc_secret 46) (ba_redirect_uri bw_row) ref_verifier)"
    using approved_form_grant by (simp add: facts)
  have verifier: "verify_s256 (io_libs code_io) ref_verifier (ba_code_challenge bw_row)" using facts(5) by (simp add: parts)
  have fresh: "env_uuid (io_env code_io 0) 0 \<notin> rf_id ` set (db_families (wd_db (ref_world (snd bw_approve))))"
    "fresh_member (io_libs code_io) (io_env code_io 0) 1 (wd_db (ref_world (snd bw_approve)))"
    unfolding parts db by code_simp+
  have usable: "usable_code (io_libs code_io) (env_clock (io_env code_io 0) 0) (wd_db (ref_world (snd bw_approve))) (sc_secret 46)"
    using bw_code_usable by (simp add: parts db bw_code_is env_at_def)
  have same: "io_libs code_io = io_libs consent_io" "io_codec code_io = io_codec consent_io" by (simp_all only: parts)
  from consent_leads_to_tokens [OF run changed inv row facts(1) known wf static laws later same signs pairs params grant verifier fresh]
  obtain n out where out: "approve (io_libs consent_io) (io_codec consent_io) (io_env consent_io n) (wd_db (ref_world (snd bw_consent)))
      sc_session bw_handle (pr_registry ref_provider) = (Inr out, wd_db (ref_world (snd bw_approve)))"
    and tokens: "sc_secret 46 = co_code out \<and> usable_code (io_libs code_io) (env_clock (io_env code_io 0) 0)
        (wd_db (ref_world (snd bw_approve))) (sc_secret 46)
      \<longrightarrow> (\<exists>answer scopes w3. token_endpoint code_io ref_keys ref_provider [] approved_body (ref_world (snd bw_approve))
            = (cors_for (io_http code_io) [] (json_sensitive (token_json answer)), w3)
          \<and> tr_scope answer = join_with '' '' scopes \<and> set scopes = set (ba_scopes bw_row)
          \<and> (tr_refresh_token answer \<noteq> None \<longleftrightarrow> ''offline_access'' \<in> set (ba_scopes bw_row))
          \<and> (tr_id_token answer \<noteq> None \<longleftrightarrow> ''openid'' \<in> set (ba_scopes bw_row)))"
    by (elim exE conjE) (rule that; assumption)
  from out have "out = projr (fst bw_approve)" unfolding parts db using bw_approve_run by simp
  then have "co_code out = sc_secret 46" using bw_code_is by (simp add: bw_code_def)
  with tokens usable obtain answer w3 where "token_endpoint code_io ref_keys ref_provider [] approved_body (ref_world (snd bw_approve))
        = (cors_for ref_http [] (json_sensitive (token_json answer)), w3)"
    "tr_refresh_token answer \<noteq> None" "tr_id_token answer \<noteq> None"
    unfolding parts facts by auto
  with run show ?thesis by (intro exI conjI)
qed

section \<open>The next answer\<close>

lemma token_json_refresh: "json_get ''refresh_token'' (token_json answer) = map_option JString (tr_refresh_token answer)"
  by (cases "tr_refresh_token answer"; cases "tr_id_token answer") (simp_all add: token_json_def optional_field_def)

lemma token_json_scope: "json_get ''scope'' (token_json answer) = Some (JString (tr_scope answer))"
  by (simp add: token_json_def)

text \<open>C8: A grant stays usable over HTTP: the refresh token in any answer of the token endpoint, to a code or to an earlier
  refresh token, is answered in its turn when the same configured client presents it, with the same scopes and
  with the next refresh token.  Whatever ran in between, nothing refuses it as long as it is unused, its family
  unrevoked and unexpired, and signing works.\<close>

theorem refresh_keeps_answering:
  assumes "token_endpoint I keys p h bytes w = (r, w1)" and "rs_status r = 200" and "rs_body r = JsonBody answer"
    and "json_get ''refresh_token'' answer = Some (JString raw)" and "db_inv (wd_db w)"
    and "pairs_bytes (io_libs I) bytes 8192 = Inr q" and "token_params_of (io_libs I) (io_http I) p h q = Inr t"
    and "contains_client (pr_registry p) (tp_client t)" and "reg_dynamic (pr_registry p) = None"
    and "later (wd_db w1) (wd_db w2)" and "io_libs J = io_libs I" and "io_codec J = io_codec I"
    and "signing_works (io_crypto J) keys'"
    and "pairs_bytes (io_libs J) bytes' 8192 = Inr q'"
    and "token_params_of (io_libs J) (io_http J) p h' q' = Inr \<lparr>tp_client = tp_client t, tp_resource = None, tp_scope = None\<rparr>"
    and "grant_of q' = Inr (RefreshGrant raw)"
    and "usable_refresh (io_libs J) (env_clock (io_env J 0) 0) (wd_db w2) raw" and "fresh_member (io_libs J) (io_env J 0) 0 (wd_db w2)"
  shows "\<exists>answer' w3. token_endpoint J keys' p h' bytes' w2 = (cors_for (io_http J) h' (json_sensitive (token_json answer')), w3)
    \<and> json_get ''scope'' answer = Some (JString (tr_scope answer')) \<and> tr_refresh_token answer' \<noteq> None \<and> tr_id_token answer' = None"
proof -
  from token_endpoint_cases [OF assms(1)] assms(2,3,6,7) obtain g n registry v initial tok u1 u2 where
    resolved: "resolve_client I p n (tp_client t) u1 = (Inr registry, u2)"
    and redeem: "redeem_grant I t g n registry (wd_db w) = (Inr (v, initial), wd_db w1)"
    and issued: "issue (io_libs I) (io_crypto I) (io_env I 2) keys (pr_issuer p) (pr_userinfo p) v initial = Inr tok"
    and answer: "answer = token_json tok" by auto
  have registry: "registry = pr_registry p" using resolved assms(8) by (simp add: resolve_client_def)
  have client: "ex_client_id v = tp_client t" using redeemed_entitled [OF db_invD(1) [OF assms(5)] redeem] by simp
  have tok: "tr_scope tok = join_with '' '' (ex_scopes v)" "tr_refresh_token tok = ex_refresh_token v"
    using issued by (auto simp: issue_def and_then_Inr_iff)
  have raw: "ex_refresh_token v = Some raw" using assms(4) tok(2) by (auto simp: answer token_json_refresh)
  have lasts: "policy_lasts (io_env J 0) registry"
    using registry_fresh_all [OF assms(9)] by (simp add: policy_lasts_def registry)
  from refresh_token_redeems [OF redeem raw assms(5,10,11,12) assms(17) [unfolded assms(11)] lasts assms(18) [unfolded assms(11)]]
  obtain v' d3 where v': "redeem_grant J \<lparr>tp_client = ex_client_id v, tp_resource = None, tp_scope = None\<rparr> (RefreshGrant raw) 0 registry (wd_db w2)
        = (Inr (v', False), d3)" "ex_scopes v' = ex_scopes v" "ex_refresh_token v' \<noteq> None" by blast
  from issue_works [OF assms(13), of "io_libs J" "io_env J 2" "pr_issuer p" "pr_userinfo p" v' False] obtain answer' where
    issued': "issue (io_libs J) (io_crypto J) (io_env J 2) keys' (pr_issuer p) (pr_userinfo p) v' False = Inr answer'"
    and fields: "tr_scope answer' = join_with '' '' (ex_scopes v')" "tr_refresh_token answer' = ex_refresh_token v'"
      "tr_id_token answer' \<noteq> None \<longleftrightarrow> False \<and> ''openid'' \<in> set (ex_scopes v')"
    by (elim exE conjE) (rule that; assumption)
  have known: "contains_client (pr_registry p) (tp_client \<lparr>tp_client = tp_client t, tp_resource = None, tp_scope = None\<rparr>)"
    using assms(8) by simp
  have "json_get ''scope'' answer = Some (JString (tr_scope answer'))"
    unfolding answer token_json_scope fields(1) tok(1) v'(2) ..
  with redeemed_answered [OF assms(14,15,16) known v'(1) [unfolded client registry] issued'] fields v'(3) show ?thesis
    by (intro exI [of _ answer'] exI [of _ "w2\<lparr>wd_db := d3\<rparr>"]) simp
qed

definition refresh_body :: string where
  "refresh_body = ''grant_type=refresh_token&refresh_token='' @ sc_secret 61 @ ''&client_id=app''"

definition refresh_form :: form where
  "refresh_form = [(''grant_type'', ''refresh_token''), (''refresh_token'', sc_secret 61), (''client_id'', ''app'')]"

lemma refresh_body_ascii: "list_all (\<lambda>c. \<not> digit7 c) refresh_body" by code_simp

lemma refresh_body_percent: "CHR ''%'' \<notin> set refresh_body" by code_simp

lemma refresh_body_parsed: "form_parse ref_libs refresh_body = refresh_form" by code_simp

lemma refresh_body_short: "length refresh_body \<le> 8192" by code_simp

lemma refresh_form_short: "list_all (\<lambda>(k, x). length k \<le> 128 \<and> length x \<le> 2048) refresh_form" by code_simp

lemma refresh_body_pairs: "pairs_bytes ref_libs refresh_body 8192 = Inr refresh_form"
  by (rule plain_body_pairs [OF refresh_body_ascii refresh_body_percent refresh_body_parsed refresh_body_short refresh_form_short])
    (simp add: refresh_form_def)

lemma refresh_form_params: "token_params_of ref_libs ref_http ref_provider [] refresh_form
    = Inr \<lparr>tp_client = ''app'', tp_resource = None, tp_scope = None\<rparr>"
  by code_simp

lemma refresh_form_grant: "grant_of refresh_form = Inr (RefreshGrant (sc_secret 61))"
  by code_simp

lemma code_answer: "\<exists>r answer. token_endpoint code_io ref_keys ref_provider [] code_body (ref_world sc_db2) = (r, ref_world sc_db3)
    \<and> rs_status r = 200 \<and> rs_body r = JsonBody answer \<and> json_get ''refresh_token'' answer = Some (JString (sc_secret 61))"
proof -
  have parts: "io_libs code_io = ref_libs" "io_http code_io = ref_http" "io_crypto code_io = ref_crypto"
    "io_env code_io n = env_at (seconds 1010) 60" for n by (simp_all add: code_io_def ref_io_def)
  obtain answer where issued: "issue ref_libs ref_crypto (env_at (seconds 1010) 60) ref_keys (pr_issuer ref_provider) (pr_userinfo ref_provider)
    (sc_result 61) True = Inr answer" using code_form_issued by (auto simp: ref_provider_def)
  have "tr_refresh_token answer = Some (sc_secret 61)"
    using issued by (auto simp: issue_def and_then_Inr_iff sc_result_def)
  moreover have "token_endpoint code_io ref_keys ref_provider [] code_body (ref_world sc_db2)
      = (cors_for ref_http [] (json_sensitive (token_json answer)), ref_world sc_db3)"
    using code_body_pairs code_form_params code_form_grant code_form_policy issued
    by (simp add: token_endpoint_def token_response_of_def parts)
  ultimately show ?thesis by (simp add: token_json_refresh)
qed

theorem refresh_keeps_answering_witness:
  "\<exists>answer' w3. token_endpoint refresh_io ref_keys ref_provider [] refresh_body (ref_world sc_db3)
      = (cors_for (io_http refresh_io) [] (json_sensitive (token_json answer')), w3) \<and> tr_refresh_token answer' \<noteq> None"
proof -
  obtain r answer where first: "token_endpoint code_io ref_keys ref_provider [] code_body (ref_world sc_db2) = (r, ref_world sc_db3)"
    "rs_status r = 200" "rs_body r = JsonBody answer" "json_get ''refresh_token'' answer = Some (JString (sc_secret 61))"
    using code_answer by blast
  have parts: "io_libs code_io = ref_libs" "io_http code_io = ref_http" "io_libs refresh_io = ref_libs" "io_codec refresh_io = io_codec code_io"
    "io_env refresh_io n = env_at (seconds 1020) 70" "io_http refresh_io = ref_http" "io_crypto refresh_io = ref_crypto"
    "pr_registry ref_provider = ref_registry" "wd_db (ref_world d) = d" for n d
    by (simp_all add: code_io_def refresh_io_def ref_io_def ref_provider_def ref_world_def)
  have inv: "db_inv (wd_db (ref_world sc_db2))" using sc_db2_db_inv by (simp add: parts)
  have pairs: "pairs_bytes (io_libs code_io) code_body 8192 = Inr code_form"
    "token_params_of (io_libs code_io) (io_http code_io) ref_provider [] code_form = Inr \<lparr>tp_client = ''app'', tp_resource = None, tp_scope = None\<rparr>"
    using code_body_pairs code_form_params by (simp_all add: parts)
  have known: "contains_client (pr_registry ref_provider) (tp_client \<lparr>tp_client = ''app'', tp_resource = None, tp_scope = None\<rparr>)"
    using app_known by (simp add: parts)
  have static: "reg_dynamic (pr_registry ref_provider) = None" by code_simp
  have later: "later (wd_db (ref_world sc_db3)) (wd_db (ref_world sc_db3))" using code_redeemed_later by (simp add: parts)
  have same: "io_libs refresh_io = io_libs code_io" by (simp add: parts)
  have signs: "signing_works (io_crypto refresh_io) ref_keys" by (simp add: signing_works_def parts ref_crypto_def)
  have pairs': "pairs_bytes (io_libs refresh_io) refresh_body 8192 = Inr refresh_form"
    "token_params_of (io_libs refresh_io) (io_http refresh_io) ref_provider [] refresh_form
      = Inr \<lparr>tp_client = tp_client \<lparr>tp_client = ''app'', tp_resource = None, tp_scope = None\<rparr>, tp_resource = None, tp_scope = None\<rparr>"
    using refresh_body_pairs refresh_form_params by (simp_all add: parts)
  have clock: "env_clock (env_at (seconds 1020) 70) 0 = seconds 1020" by (simp add: env_at_def)
  have usable: "usable_refresh (io_libs refresh_io) (env_clock (io_env refresh_io 0) 0) (wd_db (ref_world sc_db3)) (sc_secret 61)"
    using first_refresh_usable by (simp add: parts clock)
  have "fresh_member ref_libs (env_at (seconds 1020) 70) 0 sc_db3" by code_simp
  then have fresh: "fresh_member (io_libs refresh_io) (io_env refresh_io 0) 0 (wd_db (ref_world sc_db3))" by (simp add: parts)
  show ?thesis
    using refresh_keeps_answering [OF first inv pairs known static later same parts(4) signs pairs' refresh_form_grant usable fresh]
    by blast
qed

end
