(* ===== verification/Config_Properties.thy ===== *)
theory Config_Properties
  imports Config Registry_Facts Google
begin

text \<open>
  What a validated configuration guarantees: the registry it declares, and that the parts built
  from it (the registry, the Google adapter, the policy for metadata clients) accept it.
\<close>

section \<open>Declared clients\<close>

lemma declared_client_Inr:
  assumes "declared_client L d = Inr client"
  shows "fpc_id client = cd_id d \<and> cd_id d \<noteq> [] \<and> fpc_scopes client = set (cd_scopes d)
    \<and> fpc_resources client = set (cd_resources d) \<and> fpc_default_resource client = cd_default_resource d
    \<and> fpc_browser_origins client = set (cd_browser_origins d)
    \<and> fpc_post_logout_redirects client = set (cd_post_logout_redirects d)
    \<and> fpc_authorization_flow client = authorization_flow_of (cd_authorization_flow d)
    \<and> fpc_logout_flow client = logout_flow_of (cd_logout_flow d)
    \<and> collect_results (map (\<lambda>r. new_registered_redirect L (rd_uri r) (redirect_kind_of (rd_kind r))) (cd_redirects d))
        = Inr (fpc_redirects client)
    \<and> fpc_redirects client \<noteq> [] \<and> cd_scopes d \<noteq> [] \<and> (\<forall>s \<in> set (cd_scopes d). valid_scope_token s)
    \<and> (\<forall>r \<in> set (cd_resources d). safe_security_identifier L r)
    \<and> (\<forall>r. cd_default_resource d = Some r \<longrightarrow> r \<in> set (cd_resources d))
    \<and> (\<forall>uri \<in> set (cd_post_logout_redirects d). safe_redirect L uri \<noteq> None)"
  using assms
  by (auto simp: declared_client_def declared_redirects_def and_then_Inr_iff map_ok_Inr_iff
    with_authorization_flow_def with_logout_flow_def is_some_and_iff)

lemma collect_declared_ids:
  assumes "collect_results (map (declared_client L) ds) = Inr clients"
  shows "map fpc_id clients = map cd_id ds"
  using collect_results_map_Inr [OF assms]
  by (induction rule: list_all2_induct) (auto dest: declared_client_Inr)

lemma collect_declared_mem:
  assumes "collect_results (map (declared_client L) ds) = Inr clients" and "d \<in> set ds"
  shows "\<exists>client \<in> set clients. declared_client L d = Inr client"
  using collect_results_map_Inr [OF assms(1)] assms(2)
  by (induction rule: list_all2_induct) auto

lemma config_validate_Inr:
  "config_validate L c = Inr () \<longleftrightarrow> issuer_check c = Inr () \<and> bind_check c = Inr ()
     \<and> database_check (cf_database c) = Inr () \<and> authorization_check L c = Inr ()"
  by (auto simp: config_validate_def and_then_Inr_iff)

lemma validated_authorization:
  assumes "config_validate L c = Inr ()" and "cf_authorization c = Some auth"
  obtains reg google where "authorization_registry L c = Inr (Some reg)" "ac_clients auth \<noteq> []"
    "ac_google auth = Some google" "gcc_client_id google \<noteq> []" "gcc_client_secret_env google \<noteq> []"
    "\<forall>policy. ac_cimd auth = Some policy \<longrightarrow> policy_validate L policy = Inr ()"
proof -
  from assms have check: "authorization_check L c = Inr ()" by (simp add: config_validate_Inr)
  then obtain reg google where "authorization_registry L c = Inr reg" "ac_clients auth \<noteq> []"
    "ac_google auth = Some google" "trim (gcc_client_id google) \<noteq> []" "trim (gcc_client_secret_env google) \<noteq> []"
    using assms(2) by (cases "ac_google auth") (auto simp: authorization_check_def is_ok_iff split: if_splits)
  moreover from this have "\<exists>r. reg = Some r"
    using assms(2) by (auto simp: authorization_registry_def map_ok_Inr_iff)
  moreover have "policy_validate L policy = Inr ()" if "ac_cimd auth = Some policy" for policy
    using check assms(2) that by (auto simp: authorization_check_def split: if_splits)
  ultimately show ?thesis using that by fastforce
qed

section \<open>An example configuration\<close>

definition cfg_libs :: libs where
  "cfg_libs = ref_libs\<lparr>url_join := (\<lambda>u path. Some (u\<lparr>url_path := url_path u @ path, url_as_str := url_as_str u @ path\<rparr>))\<rparr>"

definition ref_declaration :: client_declaration where
  "ref_declaration = \<lparr>cd_id = ''app'', cd_display_name = ''App'',
     cd_redirects = [\<lparr>rd_uri = ''https://app.shocker.cl/cb'', rd_kind = CfgAppClaimedHttps\<rparr>],
     cd_scopes = [''openid'', ''offline_access''], cd_resources = [''https://api.shocker.cl/r''],
     cd_default_resource = Some ''https://api.shocker.cl/r'', cd_browser_origins = [],
     cd_post_logout_redirects = [''https://app.shocker.cl/bye''],
     cd_authorization_flow = CfgGooglePreauthorized, cd_logout_flow = CfgIdTokenHint\<rparr>"

definition ref_authorization :: authorization_config where
  "ref_authorization = \<lparr>ac_google = Some \<lparr>gcc_client_id = ''g'', gcc_client_secret_env = ''S''\<rparr>,
     ac_clients = [ref_declaration], ac_cimd = None\<rparr>"

definition ref_database :: database_config where
  "ref_database = database_of_declared \<lparr>dd_url = None, dd_url_env = None, dd_max_connections = None,
     dd_min_connections = None, dd_connect_timeout_seconds = None, dd_acquire_timeout_seconds = None,
     dd_readiness_timeout_milliseconds = None\<rparr>"

definition ref_config :: config where
  "ref_config = \<lparr>cf_mode = Production, cf_issuer = the (url_parse ref_libs ''https://auth.shocker.cl/''),
     cf_bind = (V4 (127, 0, 0, 1), 8080), cf_database = ref_database, cf_signing_manifest = ''keys.toml'',
     cf_authorization = Some ref_authorization\<rparr>"

lemma ref_config_valid: "config_validate cfg_libs ref_config = Inr ()"
proof -
  have "issuer_check ref_config = Inr ()" "bind_check ref_config = Inr ()" by code_simp+
  moreover have "database_check (cf_database ref_config) = Inr ()" by code_simp
  moreover have "authorization_check cfg_libs ref_config = Inr ()" by code_simp
  ultimately show ?thesis by (simp add: config_validate_Inr)
qed

lemma ref_config_authorization: "cf_authorization ref_config = Some ref_authorization"
  by (simp add: ref_config_def)

section \<open>The declared registry\<close>

text \<open>C39: A validated configuration declares a well-typed registry: no dynamic client, every client stored
  under its own identifier exactly once, and exactly the declared clients, each with the declared
  scopes (all valid tokens, at least one), resources (all https identifiers, the default one
  among them), redirects (each accepted for its declared kind, at least one), origins,
  post-logout redirects and flows.\<close>

theorem configured_registry_typed:
  assumes "config_validate L c = Inr ()" and "cf_authorization c = Some auth"
  shows "\<exists>reg. authorization_registry L c = Inr (Some reg) \<and> registry_wf reg \<and> reg_dynamic reg = None
    \<and> distinct (map cd_id (ac_clients auth))
    \<and> (\<forall>k. contains_client reg k = (k \<in> cd_id ` set (ac_clients auth)))
    \<and> (\<forall>d \<in> set (ac_clients auth). \<exists>client. client_of reg (cd_id d) = Some client
         \<and> fpc_scopes client = set (cd_scopes d) \<and> fpc_scopes client \<noteq> {} \<and> (\<forall>s \<in> fpc_scopes client. valid_scope_token s)
         \<and> fpc_resources client = set (cd_resources d) \<and> (\<forall>r \<in> fpc_resources client. safe_security_identifier L r)
         \<and> fpc_default_resource client = cd_default_resource d
         \<and> (\<forall>r. cd_default_resource d = Some r \<longrightarrow> r \<in> fpc_resources client)
         \<and> fpc_redirects client \<noteq> []
         \<and> collect_results (map (\<lambda>r. new_registered_redirect L (rd_uri r) (redirect_kind_of (rd_kind r))) (cd_redirects d))
             = Inr (fpc_redirects client)
         \<and> fpc_browser_origins client = set (cd_browser_origins d)
         \<and> fpc_post_logout_redirects client = set (cd_post_logout_redirects d)
         \<and> fpc_authorization_flow client = authorization_flow_of (cd_authorization_flow d)
         \<and> fpc_logout_flow client = logout_flow_of (cd_logout_flow d))"
proof -
  obtain reg google where reg: "authorization_registry L c = Inr (Some reg)"
    by (rule validated_authorization [OF assms])
  then obtain clients where clients: "collect_results (map (declared_client L) (ac_clients auth)) = Inr clients"
    and "registry_with_issuer L clients (cf_issuer c) = Inr reg"
    using assms(2) by (auto simp: authorization_registry_def map_ok_Inr_iff and_then_Inr_iff)
  then obtain u where built: "build_registry clients (Some u) = Inr reg"
    by (auto simp: registry_with_issuer_def and_then_Inr_iff)
  then have ins: "insert_clients [] clients = Inr (reg_clients reg)" and dyn: "reg_dynamic reg = None"
    by (auto simp: build_registry_def and_then_Inr_iff)
  note ids = collect_declared_ids [OF clients]
  have found: "client_of reg k = find (\<lambda>c. fpc_id c = k) clients" and dist: "distinct (map fpc_id clients)" for k
    using insert_clients_lookup [OF ins, of k] by (auto simp: client_of_def split: option.splits)
  have "contains_client reg k = (k \<in> cd_id ` set (ac_clients auth))" for k
  proof -
    have "contains_client reg k \<longleftrightarrow> k \<in> set (map fpc_id clients)"
      by (cases "find (\<lambda>c. fpc_id c = k) clients")
        (auto simp: contains_client_def found find_None_iff find_Some_iff)
    then show ?thesis by (simp add: ids)
  qed
  moreover have "\<exists>client. client_of reg (cd_id d) = Some client \<and> declared_client L d = Inr client"
    if d: "d \<in> set (ac_clients auth)" for d
  proof -
    obtain client where client: "client \<in> set clients" "declared_client L d = Inr client"
      using collect_declared_mem [OF clients d] by blast
    have id: "fpc_id client = cd_id d" using declared_client_Inr [OF client(2)] by simp
    then obtain other where "find (\<lambda>c. fpc_id c = cd_id d) clients = Some other"
      using client(1) by (cases "find (\<lambda>c. fpc_id c = cd_id d) clients") (auto simp: find_None_iff)
    moreover from this have "other \<in> set clients" "fpc_id other = cd_id d" by (auto simp: find_Some_iff)
    ultimately show ?thesis using dist client id by (auto simp: found distinct_map inj_on_def)
  qed
  ultimately show ?thesis
    using reg build_registry_wf [OF built] dyn dist ids declared_client_Inr
    by (intro exI [of _ reg]) (fastforce simp: distinct_map)
qed

theorem configured_registry_typed_witness:
  "\<exists>reg. authorization_registry cfg_libs ref_config = Inr (Some reg) \<and> registry_wf reg \<and> contains_client reg ''app''"
proof -
  from configured_registry_typed [OF ref_config_valid ref_config_authorization]
  obtain reg where "authorization_registry cfg_libs ref_config = Inr (Some reg)" "registry_wf reg"
    "\<forall>k. contains_client reg k = (k \<in> cd_id ` set (ac_clients ref_authorization))"
    by (elim exE conjE)
  moreover have "''app'' \<in> cd_id ` set (ac_clients ref_authorization)" by code_simp
  ultimately show ?thesis by blast
qed

section \<open>A validated configuration starts\<close>

lemma issuer_check_Inr:
  assumes "issuer_check c = Inr ()"
  shows "url_path (cf_issuer c) = ''/'' \<and> url_username (cf_issuer c) = [] \<and> url_password (cf_issuer c) = None
    \<and> url_query (cf_issuer c) = None \<and> url_fragment (cf_issuer c) = None \<and> url_host_of (cf_issuer c) \<noteq> None
    \<and> (url_scheme (cf_issuer c) = ''https''
       \<or> cf_mode c = Development \<and> url_scheme (cf_issuer c) = ''http'' \<and> is_loopback_url (cf_issuer c))"
  using assms by (auto simp: issuer_check_def Let_def simp del: is_loopback_url.simps split: if_splits mode.splits)

lemma loopback_hosts_agree: "is_loopback_url u \<Longrightarrow> loopback_host (url_host_of u)"
  by (auto split: option.splits url_host.splits)

text \<open>A validated configuration always listens on a loopback address and a real port, publishes an
  https issuer (or, in development only, one on a loopback IP), and is never refused later: the
  Google adapter accepts its issuer and client, as far as the callback URL can be joined and the
  HTTP client built, so start-up can fail only for the secret, which is read from the
  environment, and for those two.\<close>

theorem validated_config_starts:
  assumes "config_validate L c = Inr ()" and "cf_authorization c = Some auth"
    and "url_join L (cf_issuer c) ''federation/google/callback'' = Some callback" and "gn_client_built N"
  shows "ip_is_loopback (fst (cf_bind c)) \<and> snd (cf_bind c) \<noteq> 0
    \<and> (url_scheme (cf_issuer c) = ''https''
       \<or> cf_mode c = Development \<and> url_scheme (cf_issuer c) = ''http'' \<and> is_loopback_url (cf_issuer c))
    \<and> (\<exists>google adapter cache. ac_google auth = Some google
         \<and> new_google L N e (gcc_client_id google) (gcc_client_secret_env google) (cf_issuer c) = Inr (adapter, cache)
         \<and> ga_client_id adapter = gcc_client_id google \<and> ga_callback adapter = url_as_str callback)"
proof -
  obtain google where google: "ac_google auth = Some google" "gcc_client_id google \<noteq> []" "gcc_client_secret_env google \<noteq> []"
    by (rule validated_authorization [OF assms(1,2)])
  from assms(1) have "bind_check c = Inr ()" and "issuer_check c = Inr ()" by (simp_all add: config_validate_Inr)
  then have bind: "ip_is_loopback (fst (cf_bind c)) \<and> snd (cf_bind c) \<noteq> 0"
    and issuer: "issuer_check c = Inr ()" by (auto simp: bind_check_def split: if_splits)
  note i = issuer_check_Inr [OF issuer]
  then have "url_scheme (cf_issuer c) = ''https'' \<or> url_scheme (cf_issuer c) = ''http'' \<and> loopback_host (url_host_of (cf_issuer c))"
    using loopback_hosts_agree by blast
  with i google assms(3,4) have "\<exists>adapter cache.
      new_google L N e (gcc_client_id google) (gcc_client_secret_env google) (cf_issuer c) = Inr (adapter, cache)
      \<and> ga_client_id adapter = gcc_client_id google \<and> ga_callback adapter = url_as_str callback"
    by (auto simp: new_google_def Let_def)
  with bind i google(1) show ?thesis by blast
qed

definition start_net :: google_net where
  "start_net = \<lparr>gn_post = (\<lambda>u f. None), gn_get = (\<lambda>u. None), gn_permit = (\<lambda>k. True), gn_header_text = Some,
     gn_client_built = True, gn_var = (\<lambda>v. Some ''secret''), gn_system_secs = Some 1000,
     gn_append_pairs = (\<lambda>u ps. u), gn_token_response = (\<lambda>s. None), gn_jwks = (\<lambda>s. None),
     gn_rsa_new = (\<lambda>n x. None), gn_from_components = (\<lambda>n x. None), gn_decode_header = (\<lambda>t. None),
     gn_decode_claims = (\<lambda>t k v. None)\<rparr>"

lemma start_built: "gn_client_built start_net"
  by (simp add: start_net_def)

theorem validated_config_starts_witness:
  "\<exists>adapter cache. new_google cfg_libs start_net ref_env ''g'' ''S'' (cf_issuer ref_config) = Inr (adapter, cache)
     \<and> ga_client_id adapter = ''g''"
proof -
  have "url_join cfg_libs (cf_issuer ref_config) ''federation/google/callback''
      = Some ((cf_issuer ref_config)\<lparr>url_path := url_path (cf_issuer ref_config) @ ''federation/google/callback'',
          url_as_str := url_as_str (cf_issuer ref_config) @ ''federation/google/callback''\<rparr>)"
    by (simp add: cfg_libs_def)
  from validated_config_starts [OF ref_config_valid ref_config_authorization this start_built, of ref_env]
  obtain google adapter cache where "ac_google ref_authorization = Some google"
    "new_google cfg_libs start_net ref_env (gcc_client_id google) (gcc_client_secret_env google) (cf_issuer ref_config)
       = Inr (adapter, cache)" "ga_client_id adapter = gcc_client_id google"
    by (elim exE conjE)
  moreover from this have "google = \<lparr>gcc_client_id = ''g'', gcc_client_secret_env = ''S''\<rparr>"
    by (simp add: ref_authorization_def)
  ultimately show ?thesis by (intro exI [of _ adapter] exI [of _ cache]) simp
qed

end
