(* ===== verification/Startup.thy ===== *)
theory Startup
  imports Router Config_Properties Token_Properties
begin

text \<open>
  \<open>src/src/main.rs\<close> and the connection of \<open>src/src/database.rs\<close>: from the command line to a serving
  process.  The outside (\<open>host\<close>) is a parameter: files, the TOML parser, the environment and the
  clients of \<open>google_net\<close>, the \<open>sqlx\<close> pool and migrator, the listener and \<open>axum::serve\<close>.  A run is the list of its effects in
  order and its outcome; an effect is recorded when it is attempted, and what fails stops the run.
\<close>

section \<open>The outside\<close>

record args =
  ar_config :: string
  ar_check_config :: bool

record pool_options =
  po_max_connections :: nat
  po_min_connections :: nat
  po_acquire_timeout :: duration

text \<open>\<open>'p\<close> is the type of pools and \<open>'l\<close> that of listeners, which the code only passes on.\<close>

record ('p, 'l) host =
  ho_libs :: libs
  ho_crypto :: crypto
  ho_files :: files
  ho_toml :: "string \<Rightarrow> config option"
  ho_google :: google_net
  ho_env :: env
  ho_connect_lazy :: "pool_options \<Rightarrow> string \<Rightarrow> 'p option"
  ho_acquire :: "'p \<Rightarrow> duration \<Rightarrow> unit option timed"
  ho_migrate :: "'p \<Rightarrow> bool"
  ho_bind :: "ip_addr \<times> nat \<Rightarrow> 'l option"
  ho_serve :: "'l \<Rightarrow> app_state \<Rightarrow> bool"

section \<open>Connecting\<close>

text \<open>The two fields of \<open>Database\<close>.\<close>

record 'p database =
  dp_pool :: 'p
  dp_readiness_timeout :: duration

datatype connect_error = ConnectConfig config_error | ConnectUrl | ConnectTimedOut | ConnectFailed

definition pool_options_of :: "database_config \<Rightarrow> pool_options" where
  "pool_options_of c = \<lparr>po_max_connections = dc_max_connections c, po_min_connections = dc_min_connections c,
     po_acquire_timeout = acquire_timeout c\<rparr>"

definition connect :: "('p, 'l) host \<Rightarrow> database_config \<Rightarrow> connect_error + 'p database" where
  "connect H c =
     and_then (map_err ConnectConfig (resolved_url (gn_var (ho_google H)) c)) (\<lambda>url.
     and_then (ok_or ConnectUrl (ho_connect_lazy H (pool_options_of c) url)) (\<lambda>pool.
       (case ho_acquire H pool (connect_timeout c) of
          Elapsed \<Rightarrow> Inl ConnectTimedOut
        | Finished None \<Rightarrow> Inl ConnectFailed
        | Finished (Some _) \<Rightarrow> Inr \<lparr>dp_pool = pool, dp_readiness_timeout = readiness_timeout c\<rparr>)))"

section \<open>The run\<close>

datatype ('p, 'l) effect =
    ReadConfig string
  | LoadKeys string
  | Connect database_config
  | Migrate 'p
  | Bind "ip_addr \<times> nat"
  | Serve 'l app_state 'p

datatype run_error =
    RunConfig config_error | RunKeys key_error | RunConnect connect_error | RunMigrate | RunBind
  | RunStart start_error | RunServe

datatype exit = Checked | Stopped

definition serve_app :: "('p, 'l) host \<Rightarrow> config \<Rightarrow> signing_keys \<Rightarrow> 'p database \<Rightarrow> 'l \<Rightarrow> (('p, 'l) effect, run_error, exit) attempt" where
  "serve_app H c keys database listener =
     (case new_app_state (ho_libs H) (ho_google H) (ho_env H) c keys of
        Inl err \<Rightarrow> ([], Inl (RunStart err))
      | Inr (state, _) \<Rightarrow>
          attempt (Serve listener state (dp_pool database)) (if ho_serve H listener state then Inr () else Inl RunServe)
            (\<lambda>_. ([], Inr Stopped)))"

definition main :: "('p, 'l) host \<Rightarrow> args \<Rightarrow> (('p, 'l) effect, run_error, exit) attempt" where
  "main H a =
     attempt (ReadConfig (ar_config a))
       (map_err RunConfig (load_config (ho_libs H) (fl_read_to_string (ho_files H)) (ho_toml H) (ar_config a))) (\<lambda>c.
     if ar_check_config a then ([], Inr Checked)
     else attempt (LoadKeys (cf_signing_manifest c))
            (map_err RunKeys (load_keys (ho_libs H) (ho_crypto H) (ho_files H) (cf_signing_manifest c))) (\<lambda>keys.
          attempt (Connect (cf_database c)) (map_err RunConnect (connect H (cf_database c))) (\<lambda>database.
          attempt (Migrate (dp_pool database)) (if ho_migrate H (dp_pool database) then Inr () else Inl RunMigrate) (\<lambda>_.
          attempt (Bind (cf_bind c)) (ok_or RunBind (ho_bind H (cf_bind c))) (\<lambda>listener.
            serve_app H c keys database listener)))))"

section \<open>What a run tells\<close>

abbreviation loaded_config :: "('p, 'l) host \<Rightarrow> args \<Rightarrow> config_error + config" where
  "loaded_config H a \<equiv> load_config (ho_libs H) (fl_read_to_string (ho_files H)) (ho_toml H) (ar_config a)"

abbreviation loaded_keys :: "('p, 'l) host \<Rightarrow> config \<Rightarrow> key_error + signing_keys" where
  "loaded_keys H c \<equiv> load_keys (ho_libs H) (ho_crypto H) (ho_files H) (cf_signing_manifest c)"

lemma loaded_validated: "load_config L read_file toml path = Inr c \<Longrightarrow> config_validate L c = Inr ()"
  by (auto simp: load_config_def and_then_Inr_iff Let_def)

lemma validated_bind: "config_validate L c = Inr () \<Longrightarrow> ip_is_loopback (fst (cf_bind c)) \<and> snd (cf_bind c) \<noteq> 0"
  by (auto simp: config_validate_Inr bind_check_def split: if_splits)

lemma attempt_conv: "attempt ev outcome rest = (effects, out) \<longleftrightarrow>
    (\<exists>err. outcome = Inl err \<and> effects = [ev] \<and> out = Inl err)
    \<or> (\<exists>v effects'. outcome = Inr v \<and> rest v = (effects', out) \<and> effects = ev # effects')"
  by (cases outcome; cases "rest (projr outcome)") (auto simp: attempt_def)

lemma serve_app_conv: "serve_app H c keys database listener = (effects, out) \<longleftrightarrow>
    (\<exists>err. new_app_state (ho_libs H) (ho_google H) (ho_env H) c keys = Inl err \<and> effects = [] \<and> out = Inl (RunStart err))
    \<or> (\<exists>state cache. new_app_state (ho_libs H) (ho_google H) (ho_env H) c keys = Inr (state, cache)
        \<and> effects = [Serve listener state (dp_pool database)]
        \<and> out = (if ho_serve H listener state then Inr Stopped else Inl RunServe))"
  by (auto simp: serve_app_def attempt_def split: sum.splits prod.splits)

lemma new_app_state_parts:
  assumes "new_app_state L N e c keys = Inr (state, cache)"
  shows "as_keys state = keys"
    and "as_provider state = Some p \<Longrightarrow> (\<exists>auth. cf_authorization c = Some auth
      \<and> authorization_registry L c = Inr (Some (pr_registry p)) \<and> pr_secure p = (cf_mode c = Production)
      \<and> pr_issuer p = trim_end_slashes (url_as_str (cf_issuer c)))"
    and "as_provider state = None \<longleftrightarrow> cf_authorization c = None"
  using assms
  by (auto simp: new_app_state_def new_provider_def and_then_Inr_iff map_ok_Inr_iff Let_def split: option.splits if_splits)

text \<open>C32: A process serves requests only after everything it rests on is in place, in this order: the
  configuration was read and is valid, the signing keys loaded, the database reached and its schema
  migrated, the listener bound to a loopback address and a real port; the state it serves has these keys
  and, exactly when authorization is configured, a provider with the registry of that very
  configuration and secure cookies exactly in production.\<close>

theorem served_process_is_ready:
  assumes "main H a = (effects, out)" and "Serve listener state pool \<in> set effects"
  shows "\<exists>c keys database. effects = [ReadConfig (ar_config a), LoadKeys (cf_signing_manifest c), Connect (cf_database c),
       Migrate pool, Bind (cf_bind c), Serve listener state pool]
    \<and> \<not> ar_check_config a \<and> loaded_config H a = Inr c \<and> config_validate (ho_libs H) c = Inr ()
    \<and> loaded_keys H c = Inr keys \<and> as_keys state = keys
    \<and> connect H (cf_database c) = Inr database \<and> dp_pool database = pool \<and> ho_migrate H pool
    \<and> ho_bind H (cf_bind c) = Some listener \<and> ip_is_loopback (fst (cf_bind c)) \<and> snd (cf_bind c) \<noteq> 0
    \<and> (as_provider state = None \<longleftrightarrow> cf_authorization c = None)
    \<and> (case as_provider state of None \<Rightarrow> True | Some p \<Rightarrow>
         authorization_registry (ho_libs H) c = Inr (Some (pr_registry p)) \<and> pr_secure p = (cf_mode c = Production))"
proof -
  obtain c keys database cache where run: "effects = [ReadConfig (ar_config a), LoadKeys (cf_signing_manifest c), Connect (cf_database c),
       Migrate pool, Bind (cf_bind c), Serve listener state pool]"
    and facts: "\<not> ar_check_config a" "loaded_config H a = Inr c" "loaded_keys H c = Inr keys"
      "connect H (cf_database c) = Inr database" "dp_pool database = pool" "ho_migrate H pool"
      "ho_bind H (cf_bind c) = Some listener"
    and state: "new_app_state (ho_libs H) (ho_google H) (ho_env H) c keys = Inr (state, cache)"
    using assms by (auto simp: main_def attempt_conv serve_app_conv split: if_splits)
  note valid = loaded_validated [OF facts(2)]
  show ?thesis
    using run facts valid validated_bind [OF valid] new_app_state_parts [OF state]
    by (intro exI [of _ c] exI [of _ keys] exI [of _ database]) (auto split: option.splits)
qed

text \<open>What a start needs from the environment beside the configuration file.\<close>

definition environment_ready :: "('p, 'l) host \<Rightarrow> config \<Rightarrow> bool" where
  "environment_ready H c \<longleftrightarrow> (case cf_authorization c of None \<Rightarrow> True | Some auth \<Rightarrow>
     (case ac_google auth of None \<Rightarrow> True | Some google \<Rightarrow>
        is_some_and (gn_var (ho_google H) (gcc_client_secret_env google)) (\<lambda>v. v \<noteq> [])
        \<and> url_join (ho_libs H) (cf_issuer c) ''federation/google/callback'' \<noteq> None \<and> gn_client_built (ho_google H)))"

lemma validated_app_state:
  assumes "config_validate (ho_libs H) c = Inr ()" and "environment_ready H c"
  shows "\<exists>state cache. new_app_state (ho_libs H) (ho_google H) (ho_env H) c keys = Inr (state, cache)"
proof (cases "cf_authorization c")
  case (Some auth)
  obtain reg google where reg: "authorization_registry (ho_libs H) c = Inr (Some reg)" "ac_google auth = Some google"
    by (rule validated_authorization [OF assms(1) Some])
  obtain v callback where env: "gn_var (ho_google H) (gcc_client_secret_env google) = Some v" "v \<noteq> []"
    "url_join (ho_libs H) (cf_issuer c) ''federation/google/callback'' = Some callback" "gn_client_built (ho_google H)"
    using assms(2) Some reg(2) by (auto simp: environment_ready_def is_some_and_iff)
  from validated_config_starts [OF assms(1) Some env(3,4), of "ho_env H"] reg(2) obtain adapter cache where
    "new_google (ho_libs H) (ho_google H) (ho_env H) (gcc_client_id google) (gcc_client_secret_env google) (cf_issuer c)
       = Inr (adapter, cache)" by auto
  with Some reg env(1,2) show ?thesis
    by (simp add: new_app_state_def new_provider_def is_none_or_def map_ok_def Let_def)
qed (simp add: new_app_state_def)

text \<open>C33: \<open>--check-config\<close> reads the configuration file and does nothing else, and what it accepts
  starts: the same command line without the switch serves requests as soon as the keys load, the
  database is reached and migrated, the address is free, and the environment holds the secret and
  lets the HTTP client be built; nothing in an accepted file is refused later.\<close>

theorem checked_config_starts:
  "fst (main H (a\<lparr>ar_check_config := True\<rparr>)) = [ReadConfig (ar_config a)]
   \<and> (snd (main H (a\<lparr>ar_check_config := True\<rparr>)) = Inr Checked \<longrightarrow>
       (\<exists>c. loaded_config H a = Inr c
         \<and> (\<forall>keys database listener. loaded_keys H c = Inr keys \<and> connect H (cf_database c) = Inr database
              \<and> ho_migrate H (dp_pool database) \<and> ho_bind H (cf_bind c) = Some listener \<and> environment_ready H c
            \<longrightarrow> (\<exists>state. Serve listener state (dp_pool database)
                    \<in> set (fst (main H (a\<lparr>ar_check_config := False\<rparr>)))))))"
proof (cases "loaded_config H a")
  case (Inl err)
  then show ?thesis by (simp add: main_def attempt_def)
next
  case (Inr c)
  note valid = loaded_validated [OF Inr]
  have "\<exists>state. Serve listener state (dp_pool database) \<in> set (fst (main H (a\<lparr>ar_check_config := False\<rparr>)))"
    if ready: "loaded_keys H c = Inr keys" "connect H (cf_database c) = Inr database" "ho_migrate H (dp_pool database)"
      "ho_bind H (cf_bind c) = Some listener" "environment_ready H c"
    for keys and database :: "'a database" and listener
  proof -
    obtain state cache where "new_app_state (ho_libs H) (ho_google H) (ho_env H) c keys = Inr (state, cache)"
      using validated_app_state [OF valid ready(5)] by blast
    with Inr ready show ?thesis
      by (intro exI [of _ state]) (auto simp: main_def attempt_def serve_app_def)
  qed
  with Inr show ?thesis by (auto simp: main_def attempt_def)
qed

section \<open>A host on which the service starts\<close>

definition ref_host :: "(nat, nat) host" where
  "ref_host = \<lparr>ho_libs = cfg_libs, ho_crypto = ref_crypto, ho_files = ref_files, ho_toml = (\<lambda>text. Some ref_config),
     ho_google = start_net, ho_env = ref_env, ho_connect_lazy = (\<lambda>options url. Some 1),
     ho_acquire = (\<lambda>pool limit. Finished (Some ())), ho_migrate = (\<lambda>pool. True), ho_bind = (\<lambda>address. Some 7),
     ho_serve = (\<lambda>listener state. True)\<rparr>"

definition ref_args :: args where
  "ref_args = \<lparr>ar_config = ''eri.toml'', ar_check_config = False\<rparr>"

lemma registry_manifest [simp]: "authorization_registry L (c\<lparr>cf_signing_manifest := x\<rparr>) = authorization_registry L c"
  by (simp add: authorization_registry_def split: option.split)

lemma issuer_check_manifest [simp]: "issuer_check (c\<lparr>cf_signing_manifest := x\<rparr>) = issuer_check c"
  by (simp add: issuer_check_def Let_def cong: mode.case_cong)

lemma config_validate_manifest [simp]: "config_validate L (c\<lparr>cf_signing_manifest := x\<rparr>) = config_validate L c"
  by (simp add: config_validate_def bind_check_def authorization_check_def)

lemma ref_host_loads: "\<exists>path. loaded_config ref_host ref_args = Inr (ref_config\<lparr>cf_signing_manifest := path\<rparr>)"
proof -
  have "\<not> starts_with (cf_signing_manifest ref_config) ''/''" by (simp add: ref_config_def)
  then show ?thesis
    using ref_config_valid by (auto simp: load_config_def ref_host_def ref_files_def Let_def ref_args_def)
qed

lemma ref_host_keys: "\<exists>keys. load_keys cfg_libs ref_crypto ref_files path = Inr keys"
proof -
  have size: "validate_size (bit_length (rsa_n (ref_key k))) = Inr ()" for k
    using bit_length_big [of "2 ^ 2047 + k"] by (simp add: ref_key_def validate_size_def)
  have distinct: "rsa_n (ref_key 0) \<noteq> rsa_n (ref_key (Suc 0))" by (simp add: ref_key_def)
  have kids: "check_kid ''k1'' = Inr () \<and> check_kid ''k0'' = Inr ()" by code_simp
  show ?thesis
    using size distinct kids
    by (simp add: load_keys_def load_key_set_def ref_crypto_def ref_files_def ref_manifest_def read_private_key_def
        check_private_permissions_def parse_private_def
        parse_public_def add_public_def empty_key_set_def validate_size_def not_less Let_def)
qed

lemma ref_host_environment: "environment_ready ref_host (ref_config\<lparr>cf_signing_manifest := path\<rparr>)"
  by (simp add: environment_ready_def ref_config_def ref_authorization_def ref_host_def start_net_def cfg_libs_def is_some_and_def)

lemma ref_host_connects: "\<exists>database. connect ref_host (cf_database (ref_config\<lparr>cf_signing_manifest := path\<rparr>)) = Inr database"
  by (simp add: connect_def ref_host_def resolved_url_def start_net_def)

theorem checked_config_starts_witness:
  "\<exists>state pool. Serve 7 state pool \<in> set (fst (main ref_host (ref_args\<lparr>ar_check_config := False\<rparr>)))"
proof -
  obtain path where loaded: "loaded_config ref_host ref_args = Inr (ref_config\<lparr>cf_signing_manifest := path\<rparr>)" (is "_ = Inr ?c")
    using ref_host_loads by blast
  obtain keys database where parts: "loaded_keys ref_host ?c = Inr keys" "connect ref_host (cf_database ?c) = Inr database"
    using ref_host_keys ref_host_connects by (metis host.select_convs(1-3) ref_host_def)
  have host: "ho_migrate ref_host pool" "ho_bind ref_host address = Some 7" for pool address by (simp_all add: ref_host_def)
  have "snd (main ref_host (ref_args\<lparr>ar_check_config := True\<rparr>)) = Inr Checked"
    using loaded by (simp add: main_def attempt_def)
  with checked_config_starts [of ref_host ref_args] loaded parts host ref_host_environment show ?thesis by auto
qed

theorem served_process_is_ready_witness:
  "\<exists>effects state pool. fst (main ref_host ref_args) = effects @ [Serve 7 state pool] \<and> Migrate pool \<in> set effects
     \<and> as_provider state \<noteq> None"
proof -
  obtain path where loaded: "loaded_config ref_host ref_args = Inr (ref_config\<lparr>cf_signing_manifest := path\<rparr>)" (is "_ = Inr ?c")
    using ref_host_loads by blast
  obtain keys database where parts: "loaded_keys ref_host ?c = Inr keys" "connect ref_host (cf_database ?c) = Inr database"
    using ref_host_keys ref_host_connects by (metis host.select_convs(1-3) ref_host_def)
  have host: "ho_migrate ref_host pool" "ho_bind ref_host address = Some 7" for pool address by (simp_all add: ref_host_def)
  have ready: "config_validate (ho_libs ref_host) ?c = Inr ()" using loaded_validated [OF loaded] .
  from validated_app_state [OF this ref_host_environment] obtain state cache where
    "new_app_state (ho_libs ref_host) (ho_google ref_host) (ho_env ref_host) ?c keys = Inr (state, cache)" by blast
  then have "Serve 7 state (dp_pool database) \<in> set (fst (main ref_host ref_args))"
    using loaded parts host by (auto simp: main_def attempt_def serve_app_def ref_args_def)
  moreover obtain effects out where run: "main ref_host ref_args = (effects, out)" by fastforce
  ultimately have "Serve 7 state (dp_pool database) \<in> set effects" by simp
  from served_process_is_ready [OF run this] obtain c where
    effects: "effects = [ReadConfig (ar_config ref_args), LoadKeys (cf_signing_manifest c), Connect (cf_database c),
       Migrate (dp_pool database), Bind (cf_bind c), Serve 7 state (dp_pool database)]"
    and c: "loaded_config ref_host ref_args = Inr c" "as_provider state = None \<longleftrightarrow> cf_authorization c = None"
    by (elim exE conjE)
  have "cf_authorization c = Some ref_authorization"
    using c(1) loaded ref_config_authorization by auto
  with c(2) have "as_provider state \<noteq> None" by simp
  moreover have "fst (main ref_host ref_args) = butlast effects @ [Serve 7 state (dp_pool database)]"
    "Migrate (dp_pool database) \<in> set (butlast effects)" by (simp_all add: run effects)
  ultimately show ?thesis by blast
qed

end
