(* ===== verification/Token_Flow.thy ===== *)
theory Token_Flow
  imports Endpoint_Properties
begin

text \<open>
  From the token endpoint to userinfo: what the JWT library promises of its encoder and decoder, that the
  loaded keys form a pair, and that an access token opens userinfo while it lives.
\<close>

section \<open>The promise of the JWT library\<close>

text \<open>
  \<open>encode\<close> and \<open>decode\<close> are the library's functions at one type of claims.  With the two halves of a key
  pair, decoding returns the header and the claims that were encoded, provided that the validation asks for
  the algorithm of the header and \<open>accepted\<close> holds of the claims; the encoder writes the members of
  the header and no \<open>crit\<close>.
\<close>

definition jwt_round_trip ::
  "libs \<Rightarrow> crypto \<Rightarrow> (jwt_header \<Rightarrow> 'c \<Rightarrow> encoding_key \<Rightarrow> string option)
    \<Rightarrow> (string \<Rightarrow> decoding_key \<Rightarrow> validation \<Rightarrow> int \<Rightarrow> 'c option) \<Rightarrow> ('c \<Rightarrow> validation \<Rightarrow> int \<Rightarrow> bool) \<Rightarrow> bool" where
  "jwt_round_trip L C encode decode accepted \<longleftrightarrow>
     (\<forall>private_pem public_pem sk ek dk h claims token.
        parse_private C private_pem = Inr sk \<and> parse_public C public_pem = Inr (rsa_public_part sk)
        \<and> cr_encoding_key C private_pem = Some ek \<and> cr_decoding_key C public_pem = Some dk
        \<and> encode h claims ek = Some token
      \<longrightarrow> cr_decode_header C token = Some h \<and> \<not> has_unsupported_crit L token
        \<and> (\<forall>v now. va_algorithm v = jh_alg h \<and> accepted claims v now \<longrightarrow> decode token dk v now = Some claims))"

text \<open>What the library checks of access claims: issuer and audience when the validation names them, and the
  expiry with its leeway, in whole seconds.\<close>

definition access_accepted :: "access_claims \<Rightarrow> validation \<Rightarrow> int \<Rightarrow> bool" where
  "access_accepted c v now \<longleftrightarrow> is_none_or (va_iss v) (\<lambda>iss. at_iss c \<in> set iss)
     \<and> is_none_or (va_aud v) (\<lambda>aud. set (at_aud c) \<inter> set aud \<noteq> {})
     \<and> timestamp now - int (va_leeway v) \<le> at_exp c"

section \<open>The loaded keys are a pair\<close>

lemma add_public_lookup:
  assumes "add_public L C kid public pem ks = Inr ks'"
  shows "map_of (ks_decoding ks') kid = cr_decoding_key C pem" "kid \<in> set (ks_seen ks')"
    and "k \<in> set (ks_seen ks) \<Longrightarrow> k \<in> set (ks_seen ks') \<and> map_of (ks_decoding ks') k = map_of (ks_decoding ks) k"
  using assms by (auto simp: add_public_def Let_def and_then_Inr_iff)

lemma add_entries_lookup:
  "add_entries L C F base entries ks = Inr ks' \<Longrightarrow> k \<in> set (ks_seen ks) \<Longrightarrow>
     map_of (ks_decoding ks') k = map_of (ks_decoding ks) k"
proof (induction entries arbitrary: ks)
  case (Cons entry entries)
  then obtain pem public ks1 where add: "add_public L C (pk_kid entry) public pem ks = Inr ks1"
    and rest: "add_entries L C F base entries ks1 = Inr ks'" by (auto simp: and_then_Inr_iff)
  from add_public_lookup(3) [OF add Cons.prems(2)] Cons.IH [OF rest] show ?case by simp
qed simp

lemma loaded_pair:
  assumes "load_keys L C F path = Inr keys"
  obtains private_pem public_pem sk dk where
    "parse_private C private_pem = Inr sk" "parse_public C public_pem = Inr (rsa_public_part sk)"
    "cr_encoding_key C private_pem = Some (sk_encoding keys)" "cr_decoding_key C public_pem = Some dk"
    "map_of (sk_decoding keys) (sk_active_kid keys) = Some dk"
proof -
  from assms obtain mf private_pem ks where load: "load_key_set L C F path = Inr (mf, private_pem, ks)"
    and enc: "cr_encoding_key C private_pem = Some (sk_encoding keys)"
    and keys: "sk_active_kid keys = ak_kid (mf_active mf)" "sk_decoding keys = ks_decoding ks"
    by (auto simp: load_keys_def and_then_Inr_iff)
  let ?base = "case fl_parent F path of Some p \<Rightarrow> p | None \<Rightarrow> ''.''"
  from load obtain sk public_pem ks0 where priv: "parse_private C private_pem = Inr sk"
    and pub: "parse_public C public_pem = Inr (rsa_public_part sk)"
    and add: "add_public L C (ak_kid (mf_active mf)) (rsa_public_part sk) public_pem empty_key_set = Inr ks0"
    and rest: "add_entries L C F ?base (mf_previous mf @ mf_next mf) ks0 = Inr ks"
    unfolding load_key_set_def Let_def by (auto simp: and_then_Inr_iff)
  from add obtain dk where dk: "cr_decoding_key C public_pem = Some dk"
    by (auto simp: add_public_def Let_def and_then_Inr_iff)
  have "map_of (sk_decoding keys) (sk_active_kid keys) = Some dk"
    using add_entries_lookup [OF rest add_public_lookup(2) [OF add]] add_public_lookup(1) [OF add] dk keys by simp
  from that [OF priv pub enc dk this] show ?thesis .
qed

text \<open>So a token signed with the active key is decoded with the key that its header names.\<close>

lemma signed_token_key:
  assumes "load_keys L C F path = Inr keys" and "jwt_round_trip L C encode decode accepted"
    and "encode (sign_header keys typ) claims (sk_encoding keys) = Some token"
    and "map_of (sk_decoding keys') (sk_active_kid keys) = map_of (sk_decoding keys) (sk_active_kid keys)"
  shows "\<exists>dk. token_key L C keys' token typ message = Inr dk
    \<and> (\<forall>v now. va_algorithm v = RS256 \<and> accepted claims v now \<longrightarrow> decode token dk v now = Some claims)"
proof -
  obtain private_pem public_pem sk dk where pair:
    "parse_private C private_pem = Inr sk" "parse_public C public_pem = Inr (rsa_public_part sk)"
    "cr_encoding_key C private_pem = Some (sk_encoding keys)" "cr_decoding_key C public_pem = Some dk"
    and dk: "map_of (sk_decoding keys) (sk_active_kid keys) = Some dk" by (rule loaded_pair [OF assms(1)])
  from assms(2) pair assms(3) have "cr_decode_header C token = Some (sign_header keys typ)"
    "\<not> has_unsupported_crit L token"
    "\<forall>v now. va_algorithm v = RS256 \<and> accepted claims v now \<longrightarrow> decode token dk v now = Some claims"
    unfolding jwt_round_trip_def by (fastforce simp: sign_header_def)+
  with dk assms(4) show ?thesis by (intro exI [of _ dk]) (simp add: token_key_def sign_header_def)
qed

section \<open>Scopes of a resolved client\<close>

text \<open>Every client of the registry has a name and declares scopes that are scope tokens.\<close>

definition registry_scoped :: "client_registry \<Rightarrow> bool" where
  "registry_scoped reg \<longleftrightarrow> (\<forall>k c. client_of reg k = Some c
     \<longrightarrow> k \<noteq> [] \<and> (\<forall>s \<in> fpc_scopes c. valid_scope_token s))"

lemma new_client_scoped:
  "new_first_party_client L cid name redirects scopes resources res origins logouts = Inr c \<Longrightarrow>
     fpc_id c \<noteq> [] \<and> (\<forall>s \<in> fpc_scopes c. valid_scope_token s)"
  by (auto simp: new_first_party_client_def with_authorization_flow_def split: if_splits)

lemma project_cimd_scoped:
  assumes "project_cimd L now reg snap scopes resources allow = Inr reg'" and "registry_scoped reg"
  shows "registry_scoped reg'"
proof -
  from assms(1) obtain client where scoped: "fpc_id client \<noteq> [] \<and> (\<forall>s \<in> fpc_scopes client. valid_scope_token s)"
    and lookup: "\<And>k. client_of reg' k = (if k = fpc_id client then Some client else client_of reg k)"
    by (auto simp: project_cimd_def Let_def and_then_Inr_iff split: if_splits dest!: new_client_scoped)
  show ?thesis
    unfolding registry_scoped_def
  proof (intro allI impI)
    fix k c assume "client_of reg' k = Some c"
    with scoped assms(2) show "k \<noteq> [] \<and> (\<forall>s \<in> fpc_scopes c. valid_scope_token s)"
      unfolding registry_scoped_def lookup by (cases "k = fpc_id client") auto
  qed
qed

lemma resolved_scoped:
  "resolve_client I p k client w = (Inr reg, w') \<Longrightarrow> registry_scoped (pr_registry p) \<Longrightarrow> registry_scoped reg"
  by (auto simp: resolve_client_def dest: project_cimd_scoped split: if_splits option.splits sum.splits prod.splits)

text \<open>The scopes of a redeemed grant are scopes of its client.\<close>

lemma redeemed_scopes:
  assumes "redeem_grant I t g n reg d = (Inr (v, initial), d')"
  shows "\<exists>c. client_of reg (tp_client t) = Some c \<and> set (ex_scopes v) \<subseteq> fpc_scopes c"
proof (cases g)
  case (CodeGrant code redirect verifier)
  with assms have "exchange_code_request (io_libs I) (io_codec I) (env_instant (io_env I n) 9) (io_env I n) d d d code
      (tp_client t) redirect (tp_resource t) verifier (tp_scope t) reg = (Inr v, d')"
    by (auto simp: apfst_Inr_iff)
  from request_success [OF this] obtain resource where
    "exchange_code_bound (io_libs I) (io_codec I) (io_env I n) d d code (tp_client t) redirect resource verifier
       (Some reg) = (Inr v, d')" by blast
  from exchange_cases [OF this] obtain row s where
    ready: "exchange_ready (io_libs I) (io_codec I) (io_env I n) d d code (tp_client t) redirect resource verifier (Some reg) row s"
    and v: "ex_scopes v = ac_scopes row" by auto
  from ready have "exchange_policy (io_libs I) (io_codec I) (io_env I n) (Some reg) row (tp_client t) redirect resource = Inr ()"
    by (simp add: exchange_ready_def)
  from exchange_policy_Inr [OF this] v show ?thesis by (auto simp: validate_pending_parts_Inr grant_conditions_def)
next
  case (RefreshGrant refresh)
  with assms have "rotate_refresh_request (io_libs I) (io_codec I) (io_env I n) d d d refresh
      (tp_client t) (tp_resource t) (tp_scope t) reg = (Inr v, d')"
    by (auto simp: apfst_Inr_iff)
  from rotate_request_success [OF this] obtain resource where
    "rotate_refresh_bound (io_libs I) (io_codec I) (io_env I n) d d refresh (tp_client t) resource (Some reg) = (Inr v, d')" by blast
  from rotation_cases [OF this] obtain m f0 f s where
    "rotation_ready (io_libs I) (io_codec I) (io_env I n) d d refresh (tp_client t) resource (Some reg) m f0 f s"
    "ex_scopes v = rf_scopes f" by auto
  then show ?thesis by (auto simp: rotation_ready_def permits_refresh_def split: option.splits if_splits)
qed

lemma scope_char_cases:
  assumes "scope_char b"
  shows "b = CHR ''!'' \<or> byte (CHR ''#'') \<le> byte b \<and> byte b \<le> byte (CHR ''['')
    \<or> byte (CHR '']'') \<le> byte b \<and> byte b \<le> byte (CHR ''~'')" and "b \<noteq> CHR '' ''"
proof -
  have "b = CHR ''!''" if "byte b = byte (CHR ''!'')" using that by (simp only: of_char_eq_iff)
  moreover have "byte (CHR ''!'') = 33" "byte (CHR ''#'') = 35" "byte (CHR ''['') = 91" "byte (CHR '']'') = 93"
    "byte (CHR ''~'') = 126" by simp_all
  ultimately show "b = CHR ''!'' \<or> byte (CHR ''#'') \<le> byte b \<and> byte b \<le> byte (CHR ''['')
    \<or> byte (CHR '']'') \<le> byte b \<and> byte b \<le> byte (CHR ''~'')"
    using assms unfolding scope_char_def by presburger
  show "b \<noteq> CHR '' ''" using assms by (auto simp: scope_char_def)
qed

lemma valid_token_scope: "valid_scope_token s \<Longrightarrow> valid_scope s \<and> CHR '' '' \<notin> set s"
  using scope_char_cases unfolding valid_scope_token_def valid_scope_def list_all_iff by blast

section \<open>From an answer to userinfo\<close>

lemma issue_Inr:
  "issue L C e keys issuer userinfo v initial = Inr answer \<Longrightarrow>
     sign C keys (access_claims_of e L issuer userinfo v) = Inr (tr_access_token answer)
     \<and> tr_scope answer = join_with '' '' (ex_scopes v)"
  by (auto simp: issue_def and_then_Inr_iff)

lemma token_json_fields:
  "json_get ''access_token'' (token_json answer) = Some (JString (tr_access_token answer))"
  "json_get ''scope'' (token_json answer) = Some (JString (tr_scope answer))"
  by (simp_all add: token_json_def)

lemma issued_verifies:
  assumes "load_keys L C F path = Inr keys" and "jwt_round_trip L C (cr_encode_access C) (cr_decode_access C) access_accepted"
    and "issue L C e keys issuer userinfo v initial = Inr answer" and "''openid'' \<in> set (ex_scopes v)"
    and "map_of (sk_decoding keys') (sk_active_kid keys) = map_of (sk_decoding keys) (sk_active_kid keys)"
    and "timestamp now \<le> timestamp (env_clock e 0) + 330"
  shows "verify L C now keys' (tr_access_token answer) issuer userinfo = Inr (access_claims_of e L issuer userinfo v)"
proof -
  let ?claims = "access_claims_of e L issuer userinfo v"
  let ?v = "(new_validation RS256)\<lparr>va_iss := Some [issuer], va_aud := Some [userinfo],
          va_required := [''exp'', ''iss'', ''aud''], va_leeway := CLOCK_SKEW_SECONDS\<rparr>"
  have "cr_encode_access C (sign_header keys ''at+jwt'') ?claims (sk_encoding keys) = Some (tr_access_token answer)"
    using issue_Inr [OF assms(3)] by (simp add: sign_def)
  from signed_token_key [OF assms(1), OF assms(2), OF this assms(5),
      of "''token algorithm or type is invalid''"] obtain dk where
    dk: "token_key L C keys' (tr_access_token answer) ''at+jwt'' ''token algorithm or type is invalid'' = Inr dk"
    and decode: "\<forall>v now. va_algorithm v = RS256 \<and> access_accepted ?claims v now
      \<longrightarrow> cr_decode_access C (tr_access_token answer) dk v now = Some ?claims"
    by (elim exE conjE) (rule that; assumption)
  have "va_algorithm ?v = RS256 \<and> access_accepted ?claims ?v now"
    using assms(4,6)
    by (auto simp: access_accepted_def access_claims_of_def token_audiences_def new_validation_def CLOCK_SKEW_SECONDS_def)
  with decode dk show ?thesis by (simp add: verify_def)
qed

text \<open>C15: The access token of any answer of the token endpoint with the scope \<open>openid\<close> opens userinfo: presented as
  a bearer token before it expires, give or take thirty seconds, to a process that publishes the key it was
  signed with, be it no longer the active one, it is answered with the subject of the redeemed grant and
  the members of the profile that the scopes of the answer allow.  It rests on the promise of the JWT library
  and on non-empty texts of UUIDs; the clients of the registry have names and scopes that are scope tokens, as those of every
  accepted configuration have, and a browser must come from an origin of the client.\<close>

theorem issued_token_opens_userinfo:
  assumes "jwt_round_trip (io_libs I) (io_crypto I) (cr_encode_access (io_crypto I)) (cr_decode_access (io_crypto I)) access_accepted"
    and "load_keys (io_libs I) (io_crypto I) F path = Inr keys"
    and "map_of (sk_decoding keys') (sk_active_kid keys) = map_of (sk_decoding keys) (sk_active_kid keys)"
    and "\<And>u. uuid_show (io_libs I) u \<noteq> []" and "db_inv (wd_db w)" and "registry_scoped (pr_registry p)"
    and "token_endpoint I keys p h bytes w = (r, w')" and "rs_status r = 200" and "rs_body r = JsonBody answer"
    and "json_get ''access_token'' answer = Some (JString token)" and "json_get ''scope'' answer = Some (JString scope)"
    and "''openid'' \<in> set (split_on (CHR '' '') scope)"
    and "io_libs J = io_libs I" and "io_crypto J = io_crypto I"
    and "timestamp (env_clock (io_env I 2) 0) - 30 \<le> timestamp (io_now J)"
    and "timestamp (io_now J) < timestamp (env_clock (io_env I 2) 0) + 330"
    and "bearer (io_http J) h' [] = Some token"
  shows "\<exists>t g n registry v initial. redeem_grant I t g n registry (wd_db w) = (Inr (v, initial), wd_db w')
    \<and> ex_client_id v = tp_client t
    \<and> (is_none_or (origin (io_http J) h') (valid_browser_origin (pr_registry p) (tp_client t)) \<longrightarrow>
        userinfo_endpoint J keys' p h' [] w2 = (case find_profile (wd_db w2) (ex_user_id v) of
          None \<Rightarrow> (bearer_error, w2)
        | Some profile \<Rightarrow> (cors_for (io_http J) h' (json_sensitive (JObject
            ((''sub'', JString (uuid_show (io_libs J) (ex_user_id v))) # profile_fields (split_on (CHR '' '') scope) profile))), w2)))"
proof -
  from token_endpoint_cases [OF assms(7)] assms(8,9) obtain t g n registry v initial tok w1 w3 where
    resolved: "resolve_client I p n (tp_client t) w1 = (Inr registry, w3)"
    and redeem: "redeem_grant I t g n registry (wd_db w) = (Inr (v, initial), wd_db w')"
    and issued: "issue (io_libs I) (io_crypto I) (io_env I 2) keys (pr_issuer p) (pr_userinfo p) v initial = Inr tok"
    and answer: "answer = token_json tok" by auto
  from redeemed_entitled [OF db_invD(1) [OF assms(5)] redeem] have client: "ex_client_id v = tp_client t" by simp
  have token: "token = tr_access_token tok" and scope: "scope = join_with '' '' (ex_scopes v)"
    using assms(10,11) issue_Inr [OF issued] by (simp_all add: answer token_json_fields)
  from redeemed_scopes [OF redeem] resolved_scoped [OF resolved assms(6)]
  have named: "tp_client t \<noteq> []" and valid: "\<forall>s \<in> set (ex_scopes v). valid_scope_token s"
    unfolding registry_scoped_def by blast+
  have "ex_scopes v \<noteq> []" using assms(12) by (auto simp: scope)
  then have scopes: "split_on (CHR '' '') scope = ex_scopes v"
    unfolding scope by (rule split_on_join) (use valid valid_token_scope in blast)
  let ?claims = "access_claims_of (io_env I 2) (io_libs I) (pr_issuer p) (pr_userinfo p) v"
  have at_scope: "at_scope ?claims = scope" by (simp add: access_claims_of_def scope)
  have openid: "''openid'' \<in> set (ex_scopes v)" using assms(12) by (simp only: scopes)
  from issued_verifies [OF assms(2,1) issued openid assms(3)] assms(16)
  have verified: "verify (io_libs J) (io_crypto J) (io_now J) keys' token (pr_issuer p) (pr_userinfo p) = Inr ?claims"
    by (simp add: token assms(13,14))
  have live: "\<not> claims_refused (timestamp (io_now J)) ?claims"
    using assms(4,15,16) client named by (simp add: claims_refused_def access_claims_of_def)
  have allowed: "\<not> scopes_refused (split_on (CHR '' '') (at_scope ?claims))"
    unfolding at_scope scopes scopes_refused_def list_ex_iff using openid valid valid_token_scope by force
  have "userinfo_endpoint J keys' p h' [] w2 = (case find_profile (wd_db w2) (ex_user_id v) of
          None \<Rightarrow> (bearer_error, w2)
        | Some profile \<Rightarrow> (cors_for (io_http J) h' (json_sensitive (JObject
            ((''sub'', JString (uuid_show (io_libs J) (ex_user_id v))) # profile_fields (split_on (CHR '' '') scope) profile))), w2))"
    if origin: "is_none_or (origin (io_http J) h') (valid_browser_origin (pr_registry p) (tp_client t))"
  proof -
    have "at_client_id ?claims = tp_client t" "at_sub ?claims = ex_user_id v" by (simp_all add: access_claims_of_def client)
    moreover from this origin live allowed verified assms(17) have "userinfo_claims J keys' p h' [] = Some ?claims"
      by (cases "origin (io_http J) h'") (simp_all add: userinfo_claims_def)
    ultimately show ?thesis by (simp add: userinfo_endpoint_def at_scope split: option.split)
  qed
  with redeem client show ?thesis by blast
qed

section \<open>An answer and its use\<close>

definition flow_claims :: access_claims where
  "flow_claims = access_claims_of (env_at (seconds 1010) 60) ref_libs ''https://auth.shocker.cl''
     ''https://auth.shocker.cl/userinfo'' (sc_result 61)"

definition flow_header :: jwt_header where
  "flow_header = \<lparr>jh_alg = RS256, jh_typ = Some ''at+jwt'', jh_kid = Some ''k1''\<rparr>"

text \<open>An encoder that knows one token.\<close>

definition flow_crypto :: crypto where
  "flow_crypto = ref_crypto\<lparr>cr_decode_header := (\<lambda>t. Some flow_header),
     cr_encode_access := (\<lambda>h c k. if h = flow_header \<and> c = flow_claims then Some ''tok'' else None),
     cr_decode_access := (\<lambda>t k v now. if access_accepted flow_claims v now then Some flow_claims else None)\<rparr>"

definition flow_io :: io where
  "flow_io = code_io\<lparr>io_crypto := flow_crypto, io_now := seconds 1100\<rparr>"

definition flow_headers :: header_map where
  "flow_headers = [(''authorization'', ''Bearer tok'')]"

lemma flow_io_parts [simp]:
  "io_libs flow_io = ref_libs" "io_crypto flow_io = flow_crypto" "io_http flow_io = ref_http" "io_now flow_io = seconds 1100"
  "io_env flow_io n = env_at (seconds 1010) 60" "io_codec flow_io = ref_codec"
  by (simp_all add: flow_io_def code_io_def ref_io_def)

lemma flow_no_crit: "\<not> has_unsupported_crit ref_libs t"
proof -
  have "json_parse ref_libs s = None" for s by (simp add: ref_libs_def)
  then have "Option.bind (b64_decode ref_libs (hd (split_on (CHR ''.'') t))) (\<lambda>bytes.
        Option.bind (json_parse ref_libs bytes) (json_get ''crit'')) = None"
    by (cases "b64_decode ref_libs (hd (split_on (CHR ''.'') t))") simp_all
  then show ?thesis by (simp add: has_unsupported_crit_def)
qed

lemma flow_jwt_laws: "jwt_round_trip ref_libs flow_crypto (cr_encode_access flow_crypto) (cr_decode_access flow_crypto) access_accepted"
  using flow_no_crit unfolding jwt_round_trip_def by (simp add: flow_crypto_def split: if_splits)

lemma flow_keys: "\<exists>keys. load_keys ref_libs flow_crypto ref_files ''m'' = Inr keys \<and> sk_active_kid keys = ''k1''"
proof -
  from ref_keys_loaded obtain keys where keys: "load_keys ref_libs ref_crypto ref_files ''m'' = Inr keys" by blast
  then have "sk_active_kid keys = ''k1''"
    by (auto simp: load_keys_def load_key_set_def and_then_Inr_iff Let_def ref_crypto_def ref_manifest_def)
  moreover have same: "cr_utf8 flow_crypto = cr_utf8 ref_crypto" "cr_private_pkcs8 flow_crypto = cr_private_pkcs8 ref_crypto"
    "cr_private_pkcs1 flow_crypto = cr_private_pkcs1 ref_crypto" "cr_public_spki flow_crypto = cr_public_spki ref_crypto"
    "cr_public_pkcs1 flow_crypto = cr_public_pkcs1 ref_crypto" "cr_manifest flow_crypto = cr_manifest ref_crypto"
    "cr_decoding_key flow_crypto = cr_decoding_key ref_crypto" "cr_encoding_key flow_crypto = cr_encoding_key ref_crypto"
    by (simp_all add: flow_crypto_def)
  have parse: "parse_private flow_crypto = parse_private ref_crypto" "parse_public flow_crypto = parse_public ref_crypto"
    unfolding fun_eq_iff parse_private_def parse_public_def same by simp_all
  have add: "add_public L flow_crypto = add_public L ref_crypto" for L unfolding fun_eq_iff add_public_def same by simp
  have entries: "add_entries L flow_crypto F base es = add_entries L ref_crypto F base es" for L F base es
  proof (induction es)
    case (Cons entry es)
    then show ?case by (intro ext) (simp add: parse add)
  qed (simp add: fun_eq_iff)
  have "load_keys L flow_crypto F path = load_keys L ref_crypto F path" for L F path
    unfolding load_keys_def load_key_set_def parse add same entries by (rule refl)
  ultimately show ?thesis using keys by (intro exI [of _ keys]) simp
qed

lemma flow_registry: "registry_scoped (pr_registry ref_provider)"
proof -
  have "list_all valid_scope_token [''openid'', ''offline_access'']" by code_simp
  then have "\<forall>s \<in> fpc_scopes ref_client. valid_scope_token s" by (simp add: ref_client_def)
  moreover have "client_of ref_registry k = (if k = ''app'' then Some ref_client else None)" for k
    by (simp add: client_of_def ref_registry_def)
  ultimately show ?thesis by (simp add: registry_scoped_def ref_provider_def)
qed

lemma flow_policy: "with_policy flow_io ref_provider 0 CredMetadataExpired ''app''
   (redeem_grant flow_io \<lparr>tp_client = ''app'', tp_resource = None, tp_scope = None\<rparr> (CodeGrant (sc_secret 50) sc_redirect ref_verifier))
   (ref_world sc_db2) = (Done (sc_result 61, True), ref_world sc_db3)"
  using app_known code_form_redeems
  by (simp add: with_policy_def attempt_once_def resolve_client_def ref_provider_def run_db_def ref_world_def map_ok_def)

definition flow_answer :: token_response where
  "flow_answer = \<lparr>tr_access_token = ''tok'', tr_token_type = ''Bearer'', tr_expires_in = 300,
     tr_scope = join_with '' '' (ex_scopes (sc_result 61)), tr_refresh_token = ex_refresh_token (sc_result 61),
     tr_id_token = Some ''identity''\<rparr>"

lemma flow_issued:
  assumes "sk_active_kid keys = ''k1''"
  shows "issue ref_libs flow_crypto (env_at (seconds 1010) 60) keys (pr_issuer ref_provider) (pr_userinfo ref_provider)
    (sc_result 61) True = Inr flow_answer"
proof -
  have "sign_header keys ''at+jwt'' = flow_header" using assms by (simp add: sign_header_def flow_header_def)
  moreover have "''openid'' \<in> set (ex_scopes (sc_result 61))" by (simp add: sc_result_def)
  ultimately show ?thesis
    by (simp add: issue_def sign_def sign_id_def flow_claims_def ref_provider_def flow_answer_def)
      (simp add: flow_crypto_def ref_crypto_def flow_claims_def)
qed

lemma flow_answered:
  assumes "sk_active_kid keys = ''k1''"
  shows "\<exists>r. token_endpoint flow_io keys ref_provider [] code_body (ref_world sc_db2) = (r, ref_world sc_db3)
    \<and> rs_status r = 200 \<and> rs_body r = JsonBody (token_json flow_answer)"
proof -
  have "token_endpoint flow_io keys ref_provider [] code_body (ref_world sc_db2)
      = (cors_for ref_http [] (json_sensitive (token_json flow_answer)), ref_world sc_db3)"
    using code_body_pairs code_form_params code_form_grant flow_policy flow_issued [OF assms]
    by (simp add: token_endpoint_def token_response_of_def)
  then show ?thesis by simp
qed

definition flow_world :: world where
  "flow_world = ref_world (sc_db3\<lparr>db_profiles := [\<lparr>upr_user_id = 1, upr_profile = \<lparr>up_name = None, up_given_name = None,
     up_family_name = None, up_picture = None, up_verified_email = Some ''ana@example.org''\<rparr>, upr_updated_at = 0\<rparr>]\<rparr>)"

theorem issued_token_opens_userinfo_witness:
  "\<exists>keys user. load_keys ref_libs flow_crypto ref_files ''m'' = Inr keys
     \<and> userinfo_endpoint flow_io keys ref_provider flow_headers [] flow_world
       = (case find_profile (wd_db flow_world) user of None \<Rightarrow> (bearer_error, flow_world)
          | Some profile \<Rightarrow> (cors_for ref_http flow_headers (json_sensitive (JObject
              ((''sub'', JString ''u'') # profile_fields [''offline_access'', ''openid''] profile))), flow_world))"
proof -
  obtain keys where keys: "load_keys ref_libs flow_crypto ref_files ''m'' = Inr keys" "sk_active_kid keys = ''k1''"
    using flow_keys by blast
  obtain r where r: "token_endpoint flow_io keys ref_provider [] code_body (ref_world sc_db2) = (r, ref_world sc_db3)"
    "rs_status r = 200" "rs_body r = JsonBody (token_json flow_answer)" using flow_answered [OF keys(2)] by blast
  have fields: "json_get ''access_token'' (token_json flow_answer) = Some (JString ''tok'')"
    "json_get ''scope'' (token_json flow_answer) = Some (JString ''offline_access openid'')"
    by (simp_all add: token_json_fields) (simp_all add: flow_answer_def sc_result_def)
  have split: "split_on (CHR '' '') ''offline_access openid'' = [''offline_access'', ''openid'']" by code_simp
  then have openid: "''openid'' \<in> set (split_on (CHR '' '') ''offline_access openid'')" by simp
  have texts: "\<And>u. uuid_show ref_libs u = ''u''" by (simp add: ref_libs_def)
  then have shown: "\<And>u. uuid_show (io_libs flow_io) u \<noteq> []" by simp
  have "bearer ref_http flow_headers [] = Some ''tok''" by code_simp
  then have bearer: "bearer (io_http flow_io) flow_headers [] = Some ''tok''" by (simp only: flow_io_parts)
  have no_origin: "is_none_or (origin (io_http flow_io) flow_headers) P" for P
    by (simp add: flow_headers_def origin_def header_get_all_def)
  have clock: "timestamp (env_clock (io_env flow_io 2) 0) - 30 \<le> timestamp (io_now flow_io)"
    "timestamp (io_now flow_io) < timestamp (env_clock (io_env flow_io 2) 0) + 330" by (simp_all add: env_at_def)
  have inv: "db_inv (wd_db (ref_world sc_db2))" using sc_db2_db_inv by (simp add: ref_world_def)
  have laws: "jwt_round_trip (io_libs flow_io) (io_crypto flow_io) (cr_encode_access (io_crypto flow_io))
      (cr_decode_access (io_crypto flow_io)) access_accepted" using flow_jwt_laws by simp
  have loaded: "load_keys (io_libs flow_io) (io_crypto flow_io) ref_files ''m'' = Inr keys" using keys(1) by simp
  show ?thesis
    using issued_token_opens_userinfo [OF laws loaded refl shown inv flow_registry r fields openid refl refl clock bearer, of flow_world]
      no_origin keys(1) unfolding split flow_io_parts texts by blast
qed

end
