(* ===== verification/Benchmark.thy ===== *)
theory Benchmark
  imports Startup Token_Flow
begin

text \<open>
  \<open>src/examples/staging-benchmark.rs\<close>: the latency diagnostic that runs against the staging deployment.  It
  drives the router in its own process and verifies one token over and over.  What it finds around it
  is the record \<open>bench_host\<close>, which contains the \<open>host\<close> of \<open>Startup\<close>; clocks, the surroundings of a request and the
  polls of the timeouts are read one after the other, so the state counts the readings.
\<close>

section \<open>The outside\<close>

text \<open>\<open>bh_encode_value\<close> and \<open>bh_decode_value\<close> are the JWT library at the type of JSON values, \<open>bh_body\<close> the bytes \<open>axum\<close> sends for a body,
  \<open>bh_world\<close> the tables behind a pool.  \<open>bh_dropped n\<close>: the \<open>n\<close>-th reading is an \<open>await\<close> that is pending when one of the two timeouts has
  elapsed, which drops the future there.\<close>

record ('p, 'l) bench_host =
  bh_host :: "('p, 'l) host"
  bh_current_exe :: "string option"
  bh_canonicalize :: "string \<Rightarrow> string option"
  bh_file_len :: "string \<Rightarrow> nat option"
  bh_encode_value :: "jwt_header \<Rightarrow> json \<Rightarrow> encoding_key \<Rightarrow> string option"
  bh_decode_value :: "string \<Rightarrow> decoding_key \<Rightarrow> validation \<Rightarrow> int \<Rightarrow> json option"
  bh_body :: "body \<Rightarrow> string"
  bh_subject :: uuid
  bh_world :: "'p \<Rightarrow> key_cache option \<Rightarrow> world"
  bh_io :: "nat \<Rightarrow> io"
  bh_instant :: "nat \<Rightarrow> nat"
  bh_utc :: "nat \<Rightarrow> int"
  bh_dropped :: "nat \<Rightarrow> bool"

definition CONFIG :: string where "CONFIG = ''/etc/eri-staging/config.toml''"
definition MANIFEST :: string where "MANIFEST = ''/etc/eri-staging/keys/manifest.json''"
definition ISSUER :: string where "ISSUER = ''https://auth-staging.shocker.cl''"
definition USERINFO :: string where "USERINFO = ''https://auth-staging.shocker.cl/userinfo''"
definition DEADLINE_SECONDS :: nat where "DEADLINE_SECONDS = 120"

datatype bench_error =
    Io | Ensure string | Environment | BadUrl | SettingsError config_error | SigningError key_error
  | PoolError connect_error | StateError start_error | BadBody | BadJson | OutOfRange | BadNumber | TimedOut | Panicked

definition ensure :: "bool \<Rightarrow> string \<Rightarrow> bench_error + unit" where
  "ensure condition message = (if condition then Inr () else Inl (Ensure message))"

lemma ensure_Inr [simp]: "ensure condition message = Inr u \<longleftrightarrow> condition"
  by (simp add: ensure_def)

section \<open>Before anything is touched\<close>

definition is_lower_hex :: "char \<Rightarrow> bool" where
  "is_lower_hex b \<longleftrightarrow> is_ascii_digit b \<or> (byte (CHR ''a'') \<le> byte b \<and> byte b \<le> byte (CHR ''f''))"

definition strip_newline :: "string \<Rightarrow> string" where
  "strip_newline s = (if s \<noteq> [] \<and> last s = CHR 0x0A then butlast s else s)"

definition source_sha :: "('p, 'l) bench_host \<Rightarrow> bench_error + string" where
  "source_sha B =
     and_then (ok_or Io (Option.bind (bh_current_exe B) (bh_canonicalize B))) (\<lambda>executable.
     and_then (ok_or (Ensure ''marker'') (fl_parent (ho_files (bh_host B)) executable)) (\<lambda>parent.
     let path = fl_join (ho_files (bh_host B)) parent ''SOURCE_SHA'' in
     and_then (ok_or Io (bh_file_len B path)) (\<lambda>size.
     and_then (ensure (size \<le> 41) ''marker'') (\<lambda>_.
     and_then (ok_or Io (fl_read_to_string (ho_files (bh_host B)) path)) (\<lambda>marker.
     let sha = strip_newline marker in
     and_then (ensure (length sha = 40 \<and> list_all is_lower_hex sha) ''marker'') (\<lambda>_. Inr sha))))))"

text \<open>Equality of \<open>std::path::Path\<close>s compares the components: repeated slashes, a slash at the end and \<open>.\<close> after the
  first component do not count.\<close>

definition path_components :: "string \<Rightarrow> string list" where
  "path_components s = (case split_on (CHR ''/'') s of
     [] \<Rightarrow> []
   | first # rest \<Rightarrow> (if first = [] then (if s = [] then [] else [''/'']) else [first])
       @ filter (\<lambda>c. c \<noteq> [] \<and> c \<noteq> ''.'') rest)"

definition same_path :: "string \<Rightarrow> string \<Rightarrow> bool" where
  "same_path a b \<longleftrightarrow> path_components a = path_components b"

definition canonical_path :: "('p, 'l) bench_host \<Rightarrow> string \<Rightarrow> string \<Rightarrow> bench_error + unit" where
  "canonical_path B path message =
     and_then (ok_or Io (bh_canonicalize B path)) (\<lambda>real. ensure (same_path real path) message)"

text \<open>\<open>host_str\<close> is one of the three texts of the local host.\<close>

definition local_host :: "url \<Rightarrow> bool" where
  "local_host u = (case url_host_of u of
     Some (Domain d) \<Rightarrow> d = ''127.0.0.1'' \<or> d = ''[::1]'' \<or> d = ''::1''
   | Some (Ipv4 a) \<Rightarrow> a = (127, 0, 0, 1)
   | Some (Ipv6 s) \<Rightarrow> s = ipv6_localhost
   | None \<Rightarrow> False)"

definition staging_database :: "url \<Rightarrow> bool" where
  "staging_database u \<longleftrightarrow> (url_scheme u = ''postgres'' \<or> url_scheme u = ''postgresql'')
     \<and> url_username u = ''eri_staging'' \<and> url_path u = ''/eri_staging'' \<and> local_host u
     \<and> url_query u = None \<and> url_fragment u = None"

definition preflight :: "('p, 'l) bench_host \<Rightarrow> bench_error + config" where
  "preflight B = (let H = bh_host B in
     and_then (canonical_path B CONFIG ''config'') (\<lambda>_.
     and_then (map_err SettingsError (load_config (ho_libs H) (fl_read_to_string (ho_files H)) (ho_toml H) CONFIG)) (\<lambda>c.
     and_then (ensure (cf_mode c = Production \<and> url_as_str (cf_issuer c) = ISSUER @ ''/'') ''config'') (\<lambda>_.
     and_then (ensure (cf_bind c = (V4 (127, 0, 0, 1), 8092)) ''config'') (\<lambda>_.
     and_then (ensure (same_path (cf_signing_manifest c) MANIFEST) ''manifest'') (\<lambda>_.
     and_then (canonical_path B MANIFEST ''manifest'') (\<lambda>_.
     and_then (ensure (is_some_and (cf_authorization c) (\<lambda>a. ac_google a \<noteq> None)) ''provider'') (\<lambda>_.
     and_then (ensure (dc_url (cf_database c) = None \<and> dc_url_env (cf_database c) = ''ERI_DATABASE_URL'') ''database'') (\<lambda>_.
     and_then (ok_or Environment (gn_var (ho_google H) ''ERI_DATABASE_URL'')) (\<lambda>text.
     and_then (ok_or BadUrl (url_parse (ho_libs H) text)) (\<lambda>u.
     and_then (ensure (staging_database u) ''database'') (\<lambda>_. Inr c))))))))))))"

section \<open>Statistics\<close>

text \<open>\<open>u64\<close> samples in nanoseconds; an index outside the vector panics.\<close>

definition div_ceil :: "nat \<Rightarrow> nat \<Rightarrow> nat" where
  "div_ceil n k = (n + k - 1) div k"

definition percentile :: "nat list \<Rightarrow> nat \<Rightarrow> bench_error + nat" where
  "percentile ordered p = (let rank = div_ceil (length ordered * p) 100 in
     if rank = 0 \<or> length ordered < rank then Inl Panicked else Inr (ordered ! (rank - 1)))"

definition nanoseconds :: "string \<Rightarrow> nat \<Rightarrow> string \<times> json" where
  "nanoseconds name v = (name, JNumber (show_nat v))"

definition stats :: "nat list \<Rightarrow> bench_error + json" where
  "stats samples = (let ordered = sort samples in
     and_then (percentile ordered 50) (\<lambda>p50.
     and_then (percentile ordered 95) (\<lambda>p95.
     and_then (percentile ordered 99) (\<lambda>p99.
       Inr (JObject [nanoseconds ''samples'' (length ordered), nanoseconds ''p50_ns'' p50, nanoseconds ''p95_ns'' p95,
         nanoseconds ''p99_ns'' p99])))))"

section \<open>Measuring\<close>

record bench =
  bn_reading :: nat
  bn_world :: world

type_synonym 'a measured = "bench \<Rightarrow> (bench_error + 'a) \<times> bench"

definition yields :: "bench_error + 'a \<Rightarrow> 'a measured" where
  "yields r st = (r, st)"

definition chain :: "'a measured \<Rightarrow> ('a \<Rightarrow> 'b measured) \<Rightarrow> 'b measured" where
  "chain m f st = (case m st of (Inl err, st') \<Rightarrow> (Inl err, st') | (Inr v, st') \<Rightarrow> f v st')"

definition reading :: "(nat \<Rightarrow> 'a) \<Rightarrow> 'a measured" where
  "reading source st = (Inr (source (bn_reading st)), st\<lparr>bn_reading := Suc (bn_reading st)\<rparr>)"

fun times :: "nat \<Rightarrow> 'a measured \<Rightarrow> 'a list measured" where
  "times 0 m = yields (Inr [])"
| "times (Suc n) m = chain m (\<lambda>x. chain (times n m) (\<lambda>xs. yields (Inr (x # xs))))"

definition await :: "('p, 'l) bench_host \<Rightarrow> unit measured" where
  "await B = chain (reading (bh_dropped B)) (\<lambda>dropped. yields (if dropped then Inl TimedOut else Inr ()))"

text \<open>\<open>Instant::elapsed\<close> saturates at zero.\<close>

definition elapsed :: "('p, 'l) bench_host \<Rightarrow> nat \<Rightarrow> nat measured" where
  "elapsed B start = chain (reading (bh_instant B)) (\<lambda>now. yields (Inr (now - start)))"

definition to_u64 :: "nat \<Rightarrow> bench_error + nat" where
  "to_u64 n = (if n \<le> u64_max then Inr n else Inl OutOfRange)"

definition probe_request :: http_request where
  "probe_request = \<lparr>rq_method = ''GET'', rq_path = ''/.well-known/openid-configuration'', rq_query = None,
     rq_headers = [], rq_body = []\<rparr>"

definition dispatched :: "('p, 'l) bench_host \<Rightarrow> app_state \<Rightarrow> response measured" where
  "dispatched B app st = (case serve (bh_io B (bn_reading st)) app probe_request (bn_world st) of
     (r, w) \<Rightarrow> (Inr r, st\<lparr>bn_reading := Suc (bn_reading st), bn_world := w\<rparr>))"

definition MAX_BODY :: nat where "MAX_BODY = 65536"

definition metadata_matches :: "json \<Rightarrow> bool" where
  "metadata_matches metadata \<longleftrightarrow> json_get ''issuer'' metadata = Some (JString ISSUER)
     \<and> json_get ''userinfo_endpoint'' metadata = Some (JString USERINFO)
     \<and> json_get ''authorization_response_iss_parameter_supported'' metadata = Some (JBool True)
     \<and> is_some_and (Option.bind (json_get ''code_challenge_methods_supported'' metadata) as_array)
         (\<lambda>methods. list_ex (\<lambda>m. m = JString ''S256'') methods)"

definition checked_discovery :: "libs \<Rightarrow> nat \<Rightarrow> string \<Rightarrow> bench_error + unit" where
  "checked_discovery L status bytes =
     and_then (ensure (status = 200) ''discovery'') (\<lambda>_.
     and_then (ok_or BadJson (json_parse L bytes)) (\<lambda>metadata. ensure (metadata_matches metadata) ''discovery''))"

definition probe :: "('p, 'l) bench_host \<Rightarrow> app_state \<Rightarrow> nat measured" where
  "probe B app =
     chain (reading (bh_instant B)) (\<lambda>start.
     chain (dispatched B app) (\<lambda>response.
     chain (await B) (\<lambda>_.
     let bytes = bh_body B (rs_body response) in
     chain (await B) (\<lambda>_.
     chain (yields (if length bytes \<le> MAX_BODY then Inr () else Inl BadBody)) (\<lambda>_.
     chain (elapsed B start) (\<lambda>nanos.
     chain (yields (to_u64 nanos)) (\<lambda>elapsed_ns.
     chain (yields (checked_discovery (ho_libs (bh_host B)) (rs_status response) bytes)) (\<lambda>_.
       yields (Inr elapsed_ns)))))))))"

text \<open>\<open>SigningKeys::verify\<close> and \<open>sign\<close> at the type \<open>Value\<close>.\<close>

definition verify_value ::
  "('p, 'l) bench_host \<Rightarrow> signing_keys \<Rightarrow> string \<Rightarrow> string \<Rightarrow> string \<Rightarrow> int \<Rightarrow> key_error + json" where
  "verify_value B keys token issuer audience now =
     and_then (token_key (ho_libs (bh_host B)) (ho_crypto (bh_host B)) keys token ''at+jwt'' ''token algorithm or type is invalid'') (\<lambda>key.
     ok_or KeyJwt (bh_decode_value B token key
       ((new_validation RS256)\<lparr>va_iss := Some [issuer], va_aud := Some [audience],
          va_required := [''exp'', ''iss'', ''aud''], va_leeway := CLOCK_SKEW_SECONDS\<rparr>) now))"

definition verified :: "('p, 'l) bench_host \<Rightarrow> signing_keys \<Rightarrow> string \<Rightarrow> unit measured" where
  "verified B keys token =
     chain (reading (bh_utc B)) (\<lambda>now. yields (map_err SigningError (map_ok (\<lambda>_. ()) (verify_value B keys token ISSUER USERINFO now))))"

definition in_window :: "('p, 'l) bench_host \<Rightarrow> nat \<Rightarrow> unit measured" where
  "in_window B window_start =
     chain (elapsed B window_start) (\<lambda>nanos. yields (ensure (nanos div 1000000000 < DEADLINE_SECONDS) ''deadline''))"

definition warm_up :: "('p, 'l) bench_host \<Rightarrow> nat \<Rightarrow> app_state \<Rightarrow> signing_keys \<Rightarrow> string \<Rightarrow> unit measured" where
  "warm_up B window_start app keys token =
     chain (in_window B window_start) (\<lambda>_. chain (probe B app) (\<lambda>_. verified B keys token))"

definition discovery_sample :: "('p, 'l) bench_host \<Rightarrow> nat \<Rightarrow> app_state \<Rightarrow> nat measured" where
  "discovery_sample B window_start app = chain (in_window B window_start) (\<lambda>_. probe B app)"

definition verification_sample :: "('p, 'l) bench_host \<Rightarrow> nat \<Rightarrow> signing_keys \<Rightarrow> string \<Rightarrow> nat measured" where
  "verification_sample B window_start keys token =
     chain (in_window B window_start) (\<lambda>_.
     chain (reading (bh_instant B)) (\<lambda>start.
     chain (verified B keys token) (\<lambda>_.
     chain (elapsed B start) (\<lambda>nanos.
     chain (yields (to_u64 nanos)) (\<lambda>sample.
     chain (await B) (\<lambda>_. yields (Inr sample)))))))"

section \<open>The run\<close>

fun show_int :: "int \<Rightarrow> string" where
  "show_int n = (if n < 0 then CHR ''-'' # show_nat (nat (- n)) else show_nat (nat n))"

definition probe_claims :: "libs \<Rightarrow> uuid \<Rightarrow> int \<Rightarrow> json" where
  "probe_claims L subject now = JObject
     [(''iss'', JString ISSUER), (''aud'', JArray [JString USERINFO]), (''sub'', JString (uuid_show L subject)),
      (''iat'', JNumber (show_int now)), (''exp'', JNumber (show_int (now + 300))),
      (''client_id'', JString ''eri-staging-cli''), (''scope'', JString ''openid'')]"

definition discovery_scope :: string where
  "discovery_scope = ''in_process_router_dispatch_and_complete_body_excludes_metadata_validation''"

definition verification_scope :: string where
  "verification_scope = ''cached_signingkeys_verify_including_kid_lookup_jose_claims_and_json_excludes_http_jwks_fetch_network''"

definition summary :: "string \<Rightarrow> nat \<Rightarrow> json \<Rightarrow> json \<Rightarrow> json" where
  "summary source warmup discovery_stats verification_stats = JObject
     [(''diagnostic'', JString ''eri-staging-benchmark''), (''result'', JString ''pass''), (''source_sha'', JString source),
      (''concurrency'', JNumber (show_nat 1)), (''warmup_per_phase'', JNumber (show_nat warmup)),
      (''deadline_seconds_after_setup'', JNumber (show_nat DEADLINE_SECONDS)),
      (''discovery'', JObject [(''scope'', JString discovery_scope), (''statistics'', discovery_stats)]),
      (''verification'', JObject [(''scope'', JString verification_scope), (''statistics'', verification_stats)])]"

text \<open>The three phases and their report.\<close>

definition measured ::
  "('p, 'l) bench_host \<Rightarrow> string \<Rightarrow> app_state \<Rightarrow> signing_keys \<Rightarrow> string \<Rightarrow> nat \<Rightarrow> nat \<Rightarrow> json measured" where
  "measured B source app verification token samples warmup =
     chain (reading (bh_instant B)) (\<lambda>window_start.
     chain (times warmup (warm_up B window_start app verification token)) (\<lambda>_.
     chain (times samples (discovery_sample B window_start app)) (\<lambda>discovery_ns.
     chain (times samples (verification_sample B window_start verification token)) (\<lambda>verification_ns.
       yields (and_then (stats discovery_ns) (\<lambda>discovery_stats.
               and_then (stats verification_ns) (\<lambda>verification_stats.
                 Inr (summary source warmup discovery_stats verification_stats))))))))"

text \<open>
  A run and what it attempted, in the effects of \<open>Startup\<close>.  First everything that the measurement rests on; the
  reading of index 0 is the clock for the claims, that of index 1 the pending connection.
\<close>

type_synonym ('p, 'l, 'a) benchmarked = "(('p, 'l) effect, bench_error, 'a) attempt"

definition signed_probe :: "('p, 'l) bench_host \<Rightarrow> signing_keys \<Rightarrow> bench_error + string" where
  "signed_probe B keys = map_err SigningError (ok_or KeyJwt (bh_encode_value B (sign_header keys ''at+jwt'')
     (probe_claims (ho_libs (bh_host B)) (bh_subject B) (timestamp (bh_utc B 0))) (sk_encoding keys)))"

definition assembled ::
  "('p, 'l) bench_host \<Rightarrow> config \<Rightarrow> ('p, 'l, signing_keys \<times> string \<times> 'p \<times> app_state \<times> key_cache option) benchmarked" where
  "assembled B c =
     (let H = bh_host B;
          loaded = map_err SigningError (load_keys (ho_libs H) (ho_crypto H) (ho_files H) (cf_signing_manifest c)) in
      attempt (LoadKeys (cf_signing_manifest c)) loaded (\<lambda>keys.
      attempt (LoadKeys (cf_signing_manifest c)) loaded (\<lambda>verification.
      case signed_probe B keys of
        Inl err \<Rightarrow> ([], Inl err)
      | Inr token \<Rightarrow>
          attempt (Connect (cf_database c))
            (if bh_dropped B 1 then Inl TimedOut else map_err PoolError (connect H (cf_database c))) (\<lambda>database.
            ([], map_ok (\<lambda>(app, cache). (verification, token, dp_pool database, app, cache))
               (map_err StateError (new_app_state (ho_libs H) (ho_google H) (ho_env H) c keys)))))))"

text \<open>The state a run ends in exists once the router does.\<close>

definition run ::
  "('p, 'l) bench_host \<Rightarrow> nat \<Rightarrow> nat \<Rightarrow> ('p, 'l, json) benchmarked \<times> ('p \<times> key_cache option \<times> world) option" where
  "run B samples warmup =
     (case and_then (source_sha B) (\<lambda>source. map_ok (Pair source) (preflight B)) of
        Inl err \<Rightarrow> (([], Inl err), None)
      | Inr (source, c) \<Rightarrow>
          (case assembled B c of
             (effects, Inl err) \<Rightarrow> ((effects, Inl err), None)
           | (effects, Inr (verification, token, pool, app, cache)) \<Rightarrow>
               (case measured B source app verification token samples warmup
                   \<lparr>bn_reading = 2, bn_world = bh_world B pool cache\<rparr> of
                  (result, st) \<Rightarrow> ((effects, result), Some (pool, cache, bn_world st)))))"

section \<open>The command line\<close>

fun parse_pairs :: "string list \<Rightarrow> string list \<Rightarrow> nat \<Rightarrow> nat \<Rightarrow> bench_error + nat \<times> nat" where
  "parse_pairs [] seen samples warmup = Inr (samples, warmup)"
| "parse_pairs [k] seen samples warmup = Inl (Ensure ''arguments'')"
| "parse_pairs (k # v # rest) seen samples warmup =
     (if k \<in> set seen then Inl (Ensure ''arguments'')
      else and_then (ok_or BadNumber (parse_uint u64_max v)) (\<lambda>value.
        if k = ''--samples'' then parse_pairs rest (k # seen) value warmup
        else if k = ''--warmup'' then parse_pairs rest (k # seen) samples value
        else Inl (Ensure ''arguments'')))"

definition arguments :: "string list \<Rightarrow> bench_error + (nat \<times> nat) option" where
  "arguments argv = (if argv = [''--help''] then Inr None
     else and_then (parse_pairs argv [] 10000 1000) (\<lambda>(samples, warmup).
       and_then (ensure (100 \<le> samples \<and> samples \<le> 100000 \<and> 100 \<le> warmup \<and> warmup \<le> 10000) ''arguments'') (\<lambda>_.
         Inr (Some (samples, warmup)))))"

text \<open>What the process prints before it ends; \<open>Failed\<close> is the exit with status 1.\<close>

datatype bench_exit = Usage | Report json | Failed

definition bench_main ::
  "('p, 'l) bench_host \<Rightarrow> string list \<Rightarrow> ('p, 'l) effect list \<times> bench_exit \<times> ('p \<times> key_cache option \<times> world) option" where
  "bench_main B argv = (case arguments argv of
     Inl _ \<Rightarrow> ([], Failed, None)
   | Inr None \<Rightarrow> ([], Usage, None)
   | Inr (Some (samples, warmup)) \<Rightarrow>
       (case run B samples warmup of
          ((effects, Inl _), last_state) \<Rightarrow> (effects, Failed, last_state)
        | ((effects, Inr report), last_state) \<Rightarrow> (effects, Report report, last_state)))"

end
