(* ===== verification/Benchmark_Properties.thy ===== *)
theory Benchmark_Properties
  imports Benchmark
begin

text \<open>
  What the staging benchmark keeps to and what it reports: it attempts nothing before the staging checks passed,
  leaves the tables as they are, and its percentiles are nearest ranks of what it measured.
\<close>

section \<open>Measuring leaves the world alone\<close>

definition quiet :: "'a measured \<Rightarrow> bool" where
  "quiet m \<longleftrightarrow> (\<forall>st. bn_world (snd (m st)) = bn_world st)"

named_theorems quiet_steps \<open>steps that keep the world\<close>

lemma quiet_yields [quiet_steps]: "quiet (yields r)"
  by (simp add: quiet_def yields_def)

lemma quiet_reading [quiet_steps]: "quiet (reading source)"
  by (simp add: quiet_def reading_def)

lemma quiet_chain [quiet_steps]:
  assumes "quiet m" and "\<And>v. quiet (f v)"
  shows "quiet (chain m f)"
  unfolding quiet_def
proof
  fix st
  obtain r st1 where m: "m st = (r, st1)" by fastforce
  then have "bn_world st1 = bn_world st" using assms(1) unfolding quiet_def by (metis snd_conv)
  with m assms(2) show "bn_world (snd (chain m f st)) = bn_world st"
    by (cases r) (simp_all add: chain_def quiet_def)
qed

lemma quiet_times [quiet_steps]: "quiet m \<Longrightarrow> quiet (times n m)"
  by (induction n) (auto intro: quiet_steps)

lemma probe_served:
  "serve I app probe_request w = (drop_body probe_request (security_middleware (rq_path probe_request)
     (case as_provider app of None \<Rightarrow> not_found | Some p \<Rightarrow> discovery p)), w)"
  by (simp add: serve_def dispatch_def base_route_def api_route_def browser_route_def probe_request_def is_get_def
      split: option.split)

lemma quiet_dispatched [quiet_steps]: "quiet (dispatched B app)"
  by (simp add: quiet_def dispatched_def probe_served)

lemma quiet_measured: "quiet (measured B source app verification token samples warmup)"
  unfolding measured_def warm_up_def discovery_sample_def verification_sample_def in_window_def verified_def probe_def
    elapsed_def await_def Let_def
  by (intro quiet_steps)

section \<open>What a preflight tells\<close>

lemma preflight_Inr:
  "preflight B = Inr c \<longleftrightarrow> (\<exists>text u.
     canonical_path B CONFIG ''config'' = Inr () \<and> canonical_path B MANIFEST ''manifest'' = Inr ()
     \<and> load_config (ho_libs (bh_host B)) (fl_read_to_string (ho_files (bh_host B))) (ho_toml (bh_host B)) CONFIG = Inr c
     \<and> cf_mode c = Production \<and> url_as_str (cf_issuer c) = ISSUER @ ''/'' \<and> cf_bind c = (V4 (127, 0, 0, 1), 8092)
     \<and> same_path (cf_signing_manifest c) MANIFEST \<and> is_some_and (cf_authorization c) (\<lambda>a. ac_google a \<noteq> None)
     \<and> dc_url (cf_database c) = None \<and> dc_url_env (cf_database c) = ''ERI_DATABASE_URL''
     \<and> gn_var (ho_google (bh_host B)) ''ERI_DATABASE_URL'' = Some text
     \<and> url_parse (ho_libs (bh_host B)) text = Some u \<and> staging_database u)"
  by (auto simp: preflight_def Let_def and_then_Inr_iff)

lemma connect_pool:
  assumes "connect H c = Inr database"
  shows "\<exists>url. resolved_url (gn_var (ho_google H)) c = Inr url
    \<and> ho_connect_lazy H (pool_options_of c) url = Some (dp_pool database)"
proof -
  from assms obtain url pool where pool: "resolved_url (gn_var (ho_google H)) c = Inr url"
    "ho_connect_lazy H (pool_options_of c) url = Some pool"
    and acquired: "(case ho_acquire H pool (connect_timeout c) of Elapsed \<Rightarrow> Inl ConnectTimedOut
        | Finished None \<Rightarrow> Inl ConnectFailed
        | Finished (Some _) \<Rightarrow> Inr \<lparr>dp_pool = pool, dp_readiness_timeout = readiness_timeout c\<rparr>) = Inr database"
    by (auto simp: connect_def and_then_Inr_iff)
  have "dp_pool database = pool"
  proof (cases "ho_acquire H pool (connect_timeout c)")
    case (Finished x)
    with acquired show ?thesis by (cases x) auto
  qed (use acquired in simp)
  with pool show ?thesis by auto
qed

lemma staging_connection:
  assumes "connect H c = Inr database" and "dc_url c = None" and "dc_url_env c = var" and "gn_var (ho_google H) var = Some text"
  shows "ho_connect_lazy H (pool_options_of c) text = Some (dp_pool database)"
  using connect_pool [OF assms(1)] assms(2-4) by (auto simp: resolved_url_def split: if_splits)

section \<open>Staging only\<close>

abbreviation all_effects :: "config \<Rightarrow> ('p, 'l) effect list" where
  "all_effects c \<equiv> [LoadKeys (cf_signing_manifest c), LoadKeys (cf_signing_manifest c), Connect (cf_database c)]"

lemma assembled_cases:
  assumes "assembled B c = (effects, out)"
  obtains err where "out = Inl err" "effects \<in> {take 1 (all_effects c), take 2 (all_effects c), all_effects c}"
  | keys token database app cache where
      "out = Inr (keys, token, dp_pool database, app, cache)" "effects = all_effects c"
      "load_keys (ho_libs (bh_host B)) (ho_crypto (bh_host B)) (ho_files (bh_host B)) (cf_signing_manifest c) = Inr keys"
      "signed_probe B keys = Inr token" "connect (bh_host B) (cf_database c) = Inr database"
      "new_app_state (ho_libs (bh_host B)) (ho_google (bh_host B)) (ho_env (bh_host B)) c keys = Inr (app, cache)"
proof -
  let ?H = "bh_host B"
  show ?thesis
  proof (cases "load_keys (ho_libs ?H) (ho_crypto ?H) (ho_files ?H) (cf_signing_manifest c)")
    case (Inl err)
    with assms have "out = Inl (SigningError err)" "effects = take 1 (all_effects c)"
      by (auto simp: assembled_def Let_def attempt_def)
    then show ?thesis by (intro that(1)) auto
  next
    case keys: (Inr keys)
    show ?thesis
    proof (cases "signed_probe B keys")
      case (Inl err)
      with keys assms have "out = Inl err" "effects = take 2 (all_effects c)"
        by (auto simp: assembled_def Let_def attempt_def)
      then show ?thesis by (intro that(1)) auto
    next
      case token: (Inr token)
      define connection where "connection = (if bh_dropped B 1 then Inl TimedOut
        else map_err PoolError (connect ?H (cf_database c)))"
      with keys token assms have eq: "(effects, out) = apfst (\<lambda>rest. take 2 (all_effects c) @ rest)
          (attempt (Connect (cf_database c)) connection (\<lambda>database. ([], map_ok (\<lambda>(app, cache). (keys, token, dp_pool database, app, cache))
               (map_err StateError (new_app_state (ho_libs ?H) (ho_google ?H) (ho_env ?H) c keys)))))"
        unfolding assembled_def Let_def connection_def [symmetric]
        by (simp add: attempt_def [where ev = "LoadKeys _"] apfst_def map_prod_def split_def)
      show ?thesis
      proof (cases connection)
        case (Inl err)
        with eq show ?thesis by (intro that(1)) (auto simp: attempt_def)
      next
        case (Inr database)
        then have "connect ?H (cf_database c) = Inr database" by (simp add: connection_def split: if_splits)
        show ?thesis
        proof (cases "new_app_state (ho_libs ?H) (ho_google ?H) (ho_env ?H) c keys")
          case (Inl err)
          with \<open>connection = Inr database\<close> eq show ?thesis by (intro that(1)) (auto simp: attempt_def)
        next
          case (Inr start)
          obtain app cache where "start = (app, cache)" by (cases start)
          with Inr \<open>connection = Inr database\<close> eq keys token \<open>connect ?H (cf_database c) = Inr database\<close> show ?thesis
            by (intro that(2)) (auto simp: attempt_def)
        qed
      qed
    qed
  qed
qed

lemma run_cases:
  assumes "run B samples warmup = ((effects, out), final)"
  obtains "effects = []" "final = None" "is_ok out = False"
  | c where "preflight B = Inr c" "effects \<in> {take 1 (all_effects c), take 2 (all_effects c), all_effects c}"
      "final = None" "is_ok out = False"
  | source c keys token database app cache st where "source_sha B = Inr source" "preflight B = Inr c" "effects = all_effects c"
      "connect (bh_host B) (cf_database c) = Inr database"
      "new_app_state (ho_libs (bh_host B)) (ho_google (bh_host B)) (ho_env (bh_host B)) c keys = Inr (app, cache)"
      "measured B source app keys token samples warmup \<lparr>bn_reading = 2, bn_world = bh_world B (dp_pool database) cache\<rparr> = (out, st)"
      "final = Some (dp_pool database, cache, bn_world st)"
proof (cases "and_then (source_sha B) (\<lambda>source. map_ok (Pair source) (preflight B))")
  case (Inl err)
  with assms have "effects = []" "final = None" "is_ok out = False" by (auto simp: run_def)
  with that(1) show ?thesis by blast
next
  case (Inr sc)
  obtain source c where sc: "sc = (source, c)" by (cases sc)
  with Inr have pre: "source_sha B = Inr source" "preflight B = Inr c" by (auto simp: and_then_Inr_iff map_ok_Inr_iff)
  obtain effects' result where part: "assembled B c = (effects', result)" by fastforce
  from part show ?thesis
  proof (cases rule: assembled_cases)
    case (1 err)
    with assms Inr sc part have "effects' = effects" "final = None" "is_ok out = False" by (auto simp: run_def)
    with 1 that(2) [OF pre(2)] show ?thesis by blast
  next
    case (2 keys token database app cache)
    obtain r st where m: "measured B source app keys token samples warmup
        \<lparr>bn_reading = 2, bn_world = bh_world B (dp_pool database) cache\<rparr> = (r, st)" by fastforce
    with assms Inr sc part 2 have "effects = all_effects c" "out = r" "final = Some (dp_pool database, cache, bn_world st)"
      by (simp_all add: run_def)
    with that(3) [OF pre] m 2 show ?thesis by blast
  qed
qed

text \<open>C34: The benchmark touches nothing but the staging deployment, and changes nothing there.  Whatever the command line, it
  loads keys or opens a pool only after the checks passed: a canonical configuration file that is valid, in production
  mode, for the staging issuer, address and manifest, with Google configured; and a database URL from the
  environment that names the staging user and database on the local host, with no query that could override
  them.  The pool is opened on that very URL, although it is read again; nothing is migrated, bound or
  served; and the tables are as it found them.\<close>

theorem benchmark_is_staging_only:
  assumes "bench_main B argv = (effects, ending, final)"
  shows "(effects = [] \<and> final = None \<and> (ending = Usage \<or> ending = Failed))
    \<or> (\<exists>c text u. load_config (ho_libs (bh_host B)) (fl_read_to_string (ho_files (bh_host B))) (ho_toml (bh_host B)) CONFIG = Inr c
        \<and> config_validate (ho_libs (bh_host B)) c = Inr ()
        \<and> canonical_path B CONFIG ''config'' = Inr () \<and> canonical_path B MANIFEST ''manifest'' = Inr ()
        \<and> cf_mode c = Production \<and> url_as_str (cf_issuer c) = ISSUER @ ''/'' \<and> cf_bind c = (V4 (127, 0, 0, 1), 8092)
        \<and> same_path (cf_signing_manifest c) MANIFEST
        \<and> gn_var (ho_google (bh_host B)) ''ERI_DATABASE_URL'' = Some text
        \<and> url_parse (ho_libs (bh_host B)) text = Some u \<and> staging_database u
        \<and> effects \<in> {take 1 (all_effects c), take 2 (all_effects c), all_effects c}
        \<and> (case final of None \<Rightarrow> ending = Failed
           | Some (pool, cache, w) \<Rightarrow> effects = all_effects c \<and> w = bh_world B pool cache
               \<and> ho_connect_lazy (bh_host B) (pool_options_of (cf_database c)) text = Some pool))"
proof (cases "arguments argv")
  case (Inr a)
  show ?thesis
  proof (cases a)
    case (Some sw)
    obtain samples warmup where sw: "sw = (samples, warmup)" by (cases sw)
    obtain out where run: "run B samples warmup = ((effects, out), final)" and ending: "is_ok out = False \<Longrightarrow> ending = Failed"
      using assms Inr Some sw by (auto simp: bench_main_def split: prod.splits sum.splits)
    from run show ?thesis
    proof (cases rule: run_cases)
      case 1
      then show ?thesis using ending by blast
    next
      case (2 c)
      from 2(1) [unfolded preflight_Inr] loaded_validated 2(2,3) ending [OF 2(4)] show ?thesis by fastforce
    next
      case (3 source c keys token database app cache st)
      from 3(2) [unfolded preflight_Inr] obtain raw u where staged:
        "canonical_path B CONFIG ''config'' = Inr ()" "canonical_path B MANIFEST ''manifest'' = Inr ()"
        "load_config (ho_libs (bh_host B)) (fl_read_to_string (ho_files (bh_host B))) (ho_toml (bh_host B)) CONFIG = Inr c"
        "cf_mode c = Production" "url_as_str (cf_issuer c) = ISSUER @ ''/''" "cf_bind c = (V4 (127, 0, 0, 1), 8092)"
        "same_path (cf_signing_manifest c) MANIFEST" "dc_url (cf_database c) = None"
        "dc_url_env (cf_database c) = ''ERI_DATABASE_URL''" "gn_var (ho_google (bh_host B)) ''ERI_DATABASE_URL'' = Some raw"
        "url_parse (ho_libs (bh_host B)) raw = Some u" "staging_database u" by (elim exE conjE) (rule that; assumption)
      have "bn_world st = bh_world B (dp_pool database) cache"
        using quiet_measured 3(6) unfolding quiet_def by (metis bench.select_convs(2) snd_conv)
      with staged loaded_validated [OF staged(3)] staging_connection [OF 3(4) staged(8-10)] 3(3,7) show ?thesis
        by (intro disjI2 exI [of _ c] exI [of _ raw] exI [of _ u] conjI) simp_all
    qed
  qed (use assms Inr in \<open>simp add: bench_main_def\<close>)
qed (use assms in \<open>simp add: bench_main_def\<close>)

section \<open>Nearest ranks\<close>

text \<open>The least sample with at least \<open>p\<close> percent of the samples at or below it.\<close>

definition nearest_rank :: "nat list \<Rightarrow> nat \<Rightarrow> nat \<Rightarrow> bool" where
  "nearest_rank samples p v \<longleftrightarrow> v \<in> set samples
     \<and> p * length samples \<le> 100 * length (filter (\<lambda>x. x \<le> v) samples)
     \<and> 100 * length (filter (\<lambda>x. x < v) samples) < p * length samples"

lemma sorted_nth_ranks:
  assumes "sorted ys" and "i < length ys"
  shows "i < length (filter (\<lambda>x. x \<le> ys ! i) ys)" and "length (filter (\<lambda>x. x < ys ! i) ys) \<le> i"
proof -
  have "{..<Suc i} \<subseteq> {j. j < length ys \<and> ys ! j \<le> ys ! i}" using assms by (auto simp: sorted_iff_nth_mono less_Suc_eq)
  from card_mono [OF _ this] show "i < length (filter (\<lambda>x. x \<le> ys ! i) ys)" by (simp add: length_filter_conv_card)
  have "{j. j < length ys \<and> ys ! j < ys ! i} \<subseteq> {..<i}"
    using sorted_nth_mono [OF assms(1)] by (force simp: not_le [symmetric])
  from card_mono [OF _ this] show "length (filter (\<lambda>x. x < ys ! i) ys) \<le> i" by (simp add: length_filter_conv_card)
qed

lemma length_filter_sort: "length (filter P (sort xs)) = length (filter P (xs :: nat list))"
  by (metis mset_filter mset_sort size_mset)

lemma div_ceil_rank:
  assumes "0 < n" and "0 < p" and "p \<le> 100"
  shows "0 < div_ceil (n * p) 100" and "div_ceil (n * p) 100 \<le> n"
    and "p * n \<le> 100 * div_ceil (n * p) 100" and "100 * (div_ceil (n * p) 100 - 1) < p * n"
proof -
  obtain m where m: "m = n * p" by simp
  have pos: "0 < m" using assms by (simp add: m)
  have le: "m \<le> n * 100" unfolding m using assms(3) by simp
  have eq: "p * n = m" by (simp add: m mult.commute)
  show "0 < div_ceil (n * p) 100" "div_ceil (n * p) 100 \<le> n" "p * n \<le> 100 * div_ceil (n * p) 100"
    "100 * (div_ceil (n * p) 100 - 1) < p * n"
    using pos le unfolding eq m [symmetric] div_ceil_def by simp_all
qed

lemma percentile_nearest:
  assumes "samples \<noteq> []" and "0 < p" and "p \<le> 100"
  shows "\<exists>v. percentile (sort samples) p = Inr v \<and> nearest_rank samples p v
    \<and> v = sort samples ! (div_ceil (length samples * p) 100 - 1)"
proof -
  let ?rank = "div_ceil (length samples * p) 100"
  let ?v = "sort samples ! (?rank - 1)"
  have n: "0 < length samples" using assms(1) by simp
  note rank = div_ceil_rank [OF n assms(2,3)]
  have i: "?rank - 1 < length (sort samples)" using rank(1,2) by simp
  have le: "?rank \<le> length (filter (\<lambda>x. x \<le> ?v) samples)" and less: "length (filter (\<lambda>x. x < ?v) samples) \<le> ?rank - 1"
    using sorted_nth_ranks [OF sorted_sort i] rank(1) by (simp_all add: length_filter_sort)
  have "?v \<in> set samples" using nth_mem [OF i] by simp
  moreover have "p * length samples \<le> 100 * length (filter (\<lambda>x. x \<le> ?v) samples)" using rank(3) le by linarith
  moreover have "100 * length (filter (\<lambda>x. x < ?v) samples) < p * length samples" using rank(4) less by linarith
  ultimately show ?thesis using rank(1,2) by (simp add: percentile_def nearest_rank_def Let_def)
qed

definition statistics :: "nat list \<Rightarrow> nat \<Rightarrow> nat \<Rightarrow> nat \<Rightarrow> json" where
  "statistics samples a b c = JObject [nanoseconds ''samples'' (length samples), nanoseconds ''p50_ns'' a,
     nanoseconds ''p95_ns'' b, nanoseconds ''p99_ns'' c]"

lemma stats_nearest:
  assumes "samples \<noteq> []"
  shows "\<exists>a b c. stats samples = Inr (statistics samples a b c)
    \<and> nearest_rank samples 50 a \<and> nearest_rank samples 95 b \<and> nearest_rank samples 99 c \<and> a \<le> b \<and> b \<le> c"
proof -
  define v where "v p = sort samples ! (div_ceil (length samples * p) 100 - 1)" for p
  have at: "percentile (sort samples) p = Inr (v p)" "nearest_rank samples p (v p)" if "0 < p" "p \<le> 100" for p
    using percentile_nearest [OF assms that] by (simp_all add: v_def)
  have mono: "v p \<le> v q" if "p \<le> q" "0 < p" "q \<le> 100" for p q
  proof -
    have "div_ceil (length samples * p) 100 \<le> div_ceil (length samples * q) 100"
      using that(1) by (simp add: div_ceil_def div_le_mono)
    moreover have "div_ceil (length samples * q) 100 \<le> length samples" "0 < div_ceil (length samples * q) 100"
      using div_ceil_rank [of "length samples" q] assms that by simp_all
    ultimately show ?thesis unfolding v_def by (intro sorted_nth_mono sorted_sort) simp_all
  qed
  have "stats samples = Inr (statistics samples (v 50) (v 95) (v 99))"
    using at(1) by (simp add: stats_def Let_def statistics_def)
  then show ?thesis using at(2) mono by (intro exI [of _ "v 50"] exI [of _ "v 95"] exI [of _ "v 99"]) simp
qed

section \<open>What a report says\<close>

lemma chain_Inr:
  "chain m f st = (Inr v, st') \<longleftrightarrow> (\<exists>u st1. m st = (Inr u, st1) \<and> f u st1 = (Inr v, st'))"
  by (auto simp: chain_def split: prod.splits sum.splits)

lemma yields_Inr: "yields r st = (Inr v, st') \<longleftrightarrow> r = Inr v \<and> st' = st"
  by (auto simp: yields_def)

lemma times_Inr:
  "times n m st = (Inr xs, st') \<Longrightarrow> length xs = n \<and> (\<forall>x \<in> set xs. \<exists>s s'. m s = (Inr x, s'))"
  by (induction n arbitrary: st xs st') (fastforce simp: chain_Inr yields_Inr)+

lemma to_u64_Inr: "to_u64 n = Inr m \<Longrightarrow> m \<le> u64_max"
  by (simp add: to_u64_def split: if_splits)

lemma discovery_sample_bound: "discovery_sample B window app st = (Inr v, st') \<Longrightarrow> v \<le> u64_max"
  by (auto simp: discovery_sample_def probe_def Let_def chain_Inr yields_Inr dest: to_u64_Inr)

lemma verification_sample_bound: "verification_sample B window keys token st = (Inr v, st') \<Longrightarrow> v \<le> u64_max"
  by (auto simp: verification_sample_def chain_Inr yields_Inr dest: to_u64_Inr)

lemma measured_Inr:
  assumes "measured B source app keys token samples warmup st = (Inr report, st')"
  obtains ds vs d_stats v_stats where "length ds = samples" "length vs = samples" "\<forall>x \<in> set ds \<union> set vs. x \<le> u64_max"
    "stats ds = Inr d_stats" "stats vs = Inr v_stats" "report = summary source warmup d_stats v_stats"
proof -
  from assms obtain window st1 st2 st3 st4 units ds vs where
    ds: "times samples (discovery_sample B window app) st2 = (Inr ds, st3)"
    and vs: "times samples (verification_sample B window keys token) st3 = (Inr vs, st4)"
    and report: "and_then (stats ds) (\<lambda>discovery_stats. and_then (stats vs) (\<lambda>verification_stats.
                 Inr (summary source warmup discovery_stats verification_stats))) = Inr report"
    by (auto simp: measured_def chain_Inr yields_Inr)
  from times_Inr [OF ds] times_Inr [OF vs] have "\<forall>x \<in> set ds \<union> set vs. x \<le> u64_max" "length ds = samples" "length vs = samples"
    using discovery_sample_bound verification_sample_bound by blast+
  with report that show ?thesis by (auto simp: and_then_Inr_iff)
qed

lemma arguments_bounds:
  "arguments argv = Inr (Some (samples, warmup)) \<Longrightarrow> 100 \<le> samples \<and> samples \<le> 100000 \<and> 100 \<le> warmup \<and> warmup \<le> 10000"
  by (auto simp: arguments_def and_then_Inr_iff split: if_splits)

text \<open>C36: A report says what was measured: it holds as many samples of each kind as the command line asked for, between 100
  and 100000, none dropped, each in the range of \<open>u64\<close>; and its percentiles are nearest ranks of these samples, the
  least value with at least 50, 95 and 99 percent of the samples at or below it, in this order.  The
  index computed for them never leaves the vector.\<close>

theorem report_is_nearest_rank:
  assumes "bench_main B argv = (effects, Report report, final)"
  shows "\<exists>source samples warmup ds vs a b c a' b' c'. arguments argv = Inr (Some (samples, warmup))
    \<and> 100 \<le> samples \<and> samples \<le> 100000 \<and> length ds = samples \<and> length vs = samples
    \<and> report = summary source warmup (statistics ds a b c) (statistics vs a' b' c')
    \<and> list_all (\<lambda>x. x \<le> u64_max) (ds @ vs)
    \<and> nearest_rank ds 50 a \<and> nearest_rank ds 95 b \<and> nearest_rank ds 99 c \<and> a \<le> b \<and> b \<le> c
    \<and> nearest_rank vs 50 a' \<and> nearest_rank vs 95 b' \<and> nearest_rank vs 99 c' \<and> a' \<le> b' \<and> b' \<le> c'"
proof -
  from assms obtain samples warmup where args: "arguments argv = Inr (Some (samples, warmup))"
    and run: "run B samples warmup = ((effects, Inr report), final)"
    by (auto simp: bench_main_def split: sum.splits option.splits prod.splits)
  from run obtain source app keys token st st' where "measured B source app keys token samples warmup st = (Inr report, st')"
    by (cases rule: run_cases) auto
  then obtain ds vs d_stats v_stats where m: "length ds = samples" "length vs = samples"
    "\<forall>x \<in> set ds \<union> set vs. x \<le> u64_max" "stats ds = Inr d_stats" "stats vs = Inr v_stats"
    "report = summary source warmup d_stats v_stats" by (rule measured_Inr)
  note bounds = arguments_bounds [OF args]
  have "ds \<noteq> []" "vs \<noteq> []" using m(1,2) bounds by auto
  from stats_nearest [OF this(1)] stats_nearest [OF this(2)] m(4,5) obtain a b c a' b' c' where
    stats: "d_stats = statistics ds a b c" "v_stats = statistics vs a' b' c'"
    and near: "nearest_rank ds 50 a" "nearest_rank ds 95 b" "nearest_rank ds 99 c" "a \<le> b" "b \<le> c"
    "nearest_rank vs 50 a'" "nearest_rank vs 95 b'" "nearest_rank vs 99 c'" "a' \<le> b'" "b' \<le> c'"
    by auto
  have "list_all (\<lambda>x. x \<le> u64_max) (ds @ vs)" "report = summary source warmup (statistics ds a b c) (statistics vs a' b' c')"
    "100 \<le> samples" "samples \<le> 100000"
    using m(3) bounds by (auto simp: list_all_iff m(6) stats)
  with m(1,2) args near show ?thesis by (intro exI conjI)
qed

section \<open>The benchmark passes\<close>

definition returns :: "'a measured \<Rightarrow> ('a \<Rightarrow> bool) \<Rightarrow> bool" where
  "returns m P \<longleftrightarrow> (\<forall>st. \<exists>v st'. m st = (Inr v, st') \<and> P v)"

lemma returns_yields: "P v \<Longrightarrow> returns (yields (Inr v)) P"
  by (simp add: returns_def yields_def)

lemma returns_reading: "(\<And>n. P (source n)) \<Longrightarrow> returns (reading source) P"
  by (simp add: returns_def reading_def)

lemma returns_chain:
  assumes "returns m P" and "\<And>v. P v \<Longrightarrow> returns (f v) Q"
  shows "returns (chain m f) Q"
  unfolding returns_def
proof
  fix st
  from assms(1) obtain v st1 where v: "m st = (Inr v, st1)" "P v" unfolding returns_def by blast
  with assms(2) [OF v(2)] show "\<exists>u st'. chain m f st = (Inr u, st') \<and> Q u" by (simp add: chain_def returns_def)
qed

lemma returns_times: "returns m P \<Longrightarrow> returns (times n m) (\<lambda>xs. length xs = n)"
proof (induction n)
  case (Suc n)
  have tail: "returns (times n m) (\<lambda>xs. length xs = n)" by (rule Suc.IH [OF Suc.prems])
  show ?case
    unfolding times.simps
    by (rule returns_chain [OF Suc.prems], rule returns_chain [OF tail], rule returns_yields) simp
qed (simp add: returns_yields)

text \<open>No timeout elapses, any two readings of the monotonic clock are less than two minutes apart, and the token does not expire.\<close>

definition undisturbed :: "('p, 'l) bench_host \<Rightarrow> bool" where
  "undisturbed B \<longleftrightarrow> (\<forall>n. \<not> bh_dropped B n) \<and> (\<forall>i j. bh_instant B j - bh_instant B i < 120 * 1000000000)
     \<and> (\<forall>n. timestamp (bh_utc B n) \<le> timestamp (bh_utc B 0) + 330)"

text \<open>What the JWT library checks of claims that are a JSON object with an array of audiences.\<close>

definition value_accepted :: "json \<Rightarrow> validation \<Rightarrow> int \<Rightarrow> bool" where
  "value_accepted c v now \<longleftrightarrow>
     is_none_or (va_iss v) (\<lambda>iss. \<exists>i \<in> set iss. json_get ''iss'' c = Some (JString i))
     \<and> is_none_or (va_aud v) (\<lambda>aud. \<exists>a \<in> set aud. \<exists>as. json_get ''aud'' c = Some (JArray as) \<and> JString a \<in> set as)
     \<and> (\<exists>n. json_get ''exp'' c = Some (JNumber (show_int n)) \<and> timestamp now - int (va_leeway v) \<le> n)"

text \<open>The body of the metadata is within the limit, and reading it gives back a value with the members that were written.\<close>

definition metadata_readable :: "libs \<Rightarrow> (body \<Rightarrow> string) \<Rightarrow> provider \<Rightarrow> bool" where
  "metadata_readable L body p \<longleftrightarrow> length (body (JsonBody (metadata_of p))) \<le> MAX_BODY
     \<and> (\<exists>v. json_parse L (body (JsonBody (metadata_of p))) = Some v \<and> (\<forall>k. json_get k v = json_get k (metadata_of p)))"

lemma returns_await: "undisturbed B \<Longrightarrow> returns (await B) (\<lambda>_. True)"
  unfolding await_def
  by (rule returns_chain [where P = "\<lambda>dropped. \<not> dropped"]) (auto simp: undisturbed_def intro: returns_reading returns_yields)

lemma returns_elapsed:
  assumes "undisturbed B" and "start \<in> range (bh_instant B)"
  shows "returns (elapsed B start) (\<lambda>n. n < 120 * 1000000000)"
  unfolding elapsed_def
  by (rule returns_chain [where P = "\<lambda>now. now \<in> range (bh_instant B)"])
    (use assms in \<open>auto simp: undisturbed_def intro!: returns_reading returns_yields\<close>)

lemma returns_instant: "returns (reading (bh_instant B)) (\<lambda>start. start \<in> range (bh_instant B))"
  by (rule returns_reading) simp

lemma window_in_u64: "n < 120 * 1000000000 \<Longrightarrow> to_u64 n = Inr n"
  by (simp add: to_u64_def)

lemma returns_window:
  assumes "undisturbed B" and "start \<in> range (bh_instant B)"
  shows "returns (in_window B start) (\<lambda>_. True)"
  unfolding in_window_def
proof (rule returns_chain [OF returns_elapsed [OF assms]])
  fix n :: nat assume "n < 120 * 1000000000"
  then have "n div 1000000000 < DEADLINE_SECONDS" by (simp add: DEADLINE_SECONDS_def div_less_iff_less_mult)
  then show "returns (yields (ensure (n div 1000000000 < DEADLINE_SECONDS) ''deadline'')) (\<lambda>_. True)"
    by (simp add: ensure_def returns_yields)
qed

lemma staging_metadata:
  assumes "pr_issuer p = ISSUER"
  shows "metadata_matches (metadata_of p)"
  unfolding metadata_matches_def metadata_of_def assms Let_def
  by (simp add: strings_def) (simp add: ISSUER_def USERINFO_def)

lemma probe_not_head: "drop_body probe_request r = r"
  by (simp add: drop_body_def probe_request_def)

lemma returns_probe:
  assumes "undisturbed B" and "as_provider app = Some p" and "pr_issuer p = ISSUER"
    and "metadata_readable (ho_libs (bh_host B)) (bh_body B) p"
  shows "returns (probe B app) (\<lambda>_. True)"
proof -
  have dispatched: "returns (dispatched B app) (\<lambda>r. rs_status r = 200 \<and> rs_body r = JsonBody (metadata_of p))"
    by (simp add: returns_def dispatched_def probe_served assms(2) probe_not_head discovery_def json_public_def
        public_json_def security_middleware_def with_headers_def)
  have checked: "checked_discovery (ho_libs (bh_host B)) 200 (bh_body B (JsonBody (metadata_of p))) = Inr ()"
    using assms(4) staging_metadata [OF assms(3)]
    by (auto simp: checked_discovery_def metadata_readable_def metadata_matches_def ensure_def)
  show ?thesis
    unfolding probe_def Let_def
    by (rule returns_chain [OF returns_instant], rule returns_chain [OF dispatched], (rule returns_chain [OF returns_await [OF assms(1)]])+,
        rule returns_chain [where P = "\<lambda>_. True"], (use assms(4) in \<open>auto simp: metadata_readable_def intro: returns_yields\<close>)[1],
        rule returns_chain [OF returns_elapsed [OF assms(1)]], assumption,
        rule returns_chain [where P = "\<lambda>_. True"], (simp add: window_in_u64 returns_yields)[1],
        rule returns_chain [where P = "\<lambda>_. True"], (auto simp: checked intro: returns_yields))
qed

lemma probe_verifies:
  assumes "jwt_round_trip (ho_libs (bh_host B)) (ho_crypto (bh_host B)) (bh_encode_value B) (bh_decode_value B) value_accepted"
    and "load_keys (ho_libs (bh_host B)) (ho_crypto (bh_host B)) F path = Inr keys" and "signed_probe B keys = Inr token"
    and "timestamp now \<le> timestamp (bh_utc B 0) + 330"
  shows "is_ok (verify_value B keys token ISSUER USERINFO now)"
proof -
  let ?claims = "probe_claims (ho_libs (bh_host B)) (bh_subject B) (timestamp (bh_utc B 0))"
  let ?v = "(new_validation RS256)\<lparr>va_iss := Some [ISSUER], va_aud := Some [USERINFO],
          va_required := [''exp'', ''iss'', ''aud''], va_leeway := CLOCK_SKEW_SECONDS\<rparr>"
  have "bh_encode_value B (sign_header keys ''at+jwt'') ?claims (sk_encoding keys) = Some token"
    using assms(3) by (simp add: signed_probe_def)
  from signed_token_key [OF assms(2), OF assms(1), OF this refl, of "''token algorithm or type is invalid''"] obtain dk where
    dk: "token_key (ho_libs (bh_host B)) (ho_crypto (bh_host B)) keys token ''at+jwt'' ''token algorithm or type is invalid'' = Inr dk"
    and decode: "\<forall>v now. va_algorithm v = RS256 \<and> value_accepted ?claims v now \<longrightarrow> bh_decode_value B token dk v now = Some ?claims"
    by (elim exE conjE) (rule that; assumption)
  have "json_get ''iss'' ?claims = Some (JString ISSUER)" "json_get ''aud'' ?claims = Some (JArray [JString USERINFO])"
    "json_get ''exp'' ?claims = Some (JNumber (show_int (timestamp (bh_utc B 0) + 300)))"
    by (simp_all add: probe_claims_def del: show_int.simps)
  then have "va_algorithm ?v = RS256 \<and> value_accepted ?claims ?v now"
    using assms(4) by (auto simp: value_accepted_def new_validation_def CLOCK_SKEW_SECONDS_def simp del: show_int.simps
      intro!: exI [of _ "timestamp (bh_utc B 0) + 300"])
  with decode dk show ?thesis by (simp add: verify_value_def)
qed

lemma returns_verified:
  assumes "undisturbed B" and "\<And>now. timestamp now \<le> timestamp (bh_utc B 0) + 330 \<Longrightarrow> is_ok (verify_value B keys token ISSUER USERINFO now)"
  shows "returns (verified B keys token) (\<lambda>_. True)"
  unfolding verified_def
proof (rule returns_chain [where P = "\<lambda>now. timestamp now \<le> timestamp (bh_utc B 0) + 330"])
  show "returns (reading (bh_utc B)) (\<lambda>now. timestamp now \<le> timestamp (bh_utc B 0) + 330)"
    using assms(1) by (intro returns_reading) (simp add: undisturbed_def)
  fix now assume "timestamp now \<le> timestamp (bh_utc B 0) + 330"
  from assms(2) [OF this] show "returns (yields (map_err SigningError (map_ok (\<lambda>_. ()) (verify_value B keys token ISSUER USERINFO now)))) (\<lambda>_. True)"
    by (auto simp: is_ok_iff intro: returns_yields)
qed

lemma returns_verification_sample:
  assumes "undisturbed B" and "window \<in> range (bh_instant B)" and "returns (verified B keys token) (\<lambda>_. True)"
  shows "returns (verification_sample B window keys token) (\<lambda>_. True)"
  unfolding verification_sample_def
  by (rule returns_chain [OF returns_window [OF assms(1,2)]], rule returns_chain [OF returns_instant],
      rule returns_chain [OF assms(3)], rule returns_chain [OF returns_elapsed [OF assms(1)]], assumption,
      rule returns_chain [where P = "\<lambda>_. True"], (simp add: window_in_u64 returns_yields)[1],
      rule returns_chain [OF returns_await [OF assms(1)]], simp add: returns_yields)

lemma returns_measured:
  assumes "undisturbed B" and "returns (probe B app) (\<lambda>_. True)" and "returns (verified B keys token) (\<lambda>_. True)" and "0 < samples"
  shows "returns (measured B source app keys token samples warmup) (\<lambda>_. True)"
  unfolding measured_def
proof (rule returns_chain [OF returns_instant])
  fix window assume w: "window \<in> range (bh_instant B)"
  have warm: "returns (warm_up B window app keys token) (\<lambda>_. True)"
    unfolding warm_up_def
    by (rule returns_chain [OF returns_window [OF assms(1) w]], rule returns_chain [OF assms(2)], rule assms(3))
  have sample: "returns (discovery_sample B window app) (\<lambda>_. True)"
    unfolding discovery_sample_def by (rule returns_chain [OF returns_window [OF assms(1) w]], rule assms(2))
  have report: "returns (yields (and_then (stats ds) (\<lambda>discovery_stats. and_then (stats vs) (\<lambda>verification_stats.
      Inr (summary source warmup discovery_stats verification_stats))))) (\<lambda>_. True)"
    if "length ds = samples" "length vs = samples" for ds vs
  proof -
    have "ds \<noteq> []" "vs \<noteq> []" using that assms(4) by auto
    from stats_nearest [OF this(1)] stats_nearest [OF this(2)] obtain a b where "stats ds = Inr a" "stats vs = Inr b" by blast
    then show ?thesis by (simp add: returns_yields)
  qed
  show "returns (chain (times warmup (warm_up B window app keys token)) (\<lambda>_.
     chain (times samples (discovery_sample B window app)) (\<lambda>discovery_ns.
     chain (times samples (verification_sample B window keys token)) (\<lambda>verification_ns.
       yields (and_then (stats discovery_ns) (\<lambda>discovery_stats.
               and_then (stats verification_ns) (\<lambda>verification_stats.
                 Inr (summary source warmup discovery_stats verification_stats)))))))) (\<lambda>_. True)"
    by (rule returns_chain [OF returns_times [OF warm]], rule returns_chain [OF returns_times [OF sample]],
        rule returns_chain [OF returns_times [OF returns_verification_sample [OF assms(1) w assms(3)]]], rule report)
qed

lemma staging_issuer: "trim_end_slashes (ISSUER @ ''/'') = ISSUER"
  by code_simp

lemma staged_run:
  assumes "undisturbed B"
    and "jwt_round_trip (ho_libs (bh_host B)) (ho_crypto (bh_host B)) (bh_encode_value B) (bh_decode_value B) value_accepted"
    and "arguments argv = Inr (Some (samples, warmup))" and "source_sha B = Inr source" and "preflight B = Inr c"
    and "loaded_keys (bh_host B) c = Inr keys" and "signed_probe B keys = Inr token"
    and "connect (bh_host B) (cf_database c) = Inr database" and "environment_ready (bh_host B) c"
    and "\<And>app cache p. new_app_state (ho_libs (bh_host B)) (ho_google (bh_host B)) (ho_env (bh_host B)) c keys = Inr (app, cache)
      \<Longrightarrow> as_provider app = Some p \<Longrightarrow> metadata_readable (ho_libs (bh_host B)) (bh_body B) p"
  shows "\<exists>report final. bench_main B argv = (all_effects c, Report report, Some final)"
proof -
  let ?H = "bh_host B"
  from assms(5) [unfolded preflight_Inr] have config: "config_validate (ho_libs ?H) c = Inr ()"
    "url_as_str (cf_issuer c) = ISSUER @ ''/''" "is_some_and (cf_authorization c) (\<lambda>a. ac_google a \<noteq> None)"
    using loaded_validated by blast+
  obtain app cache where app: "new_app_state (ho_libs ?H) (ho_google ?H) (ho_env ?H) c keys = Inr (app, cache)"
    using validated_app_state [OF config(1) assms(9)] by blast
  from config(3) new_app_state_parts(3) [OF app] obtain p where p: "as_provider app = Some p"
    by (cases "as_provider app") auto
  have issuer: "pr_issuer p = ISSUER"
    using new_app_state_parts(2) [OF app p] config(2) staging_issuer by simp
  have undropped: "\<not> bh_dropped B (Suc 0)" using assms(1) by (simp add: undisturbed_def)
  have verified: "returns (verified B keys token) (\<lambda>_. True)"
    using returns_verified [OF assms(1)] probe_verifies [OF assms(2,6,7)] by blast
  have "0 < samples" using arguments_bounds [OF assms(3)] by simp
  from returns_measured [OF assms(1) returns_probe [OF assms(1) p issuer assms(10) [OF app p]] verified this]
  obtain report st where "measured B source app keys token samples warmup
      \<lparr>bn_reading = 2, bn_world = bh_world B (dp_pool database) cache\<rparr> = (Inr report, st)"
    unfolding returns_def by meson
  moreover have "assembled B c = (all_effects c, Inr (keys, token, dp_pool database, app, cache))"
    using assms(6,7,8) undropped app by (simp add: assembled_def attempt_def)
  ultimately show ?thesis using assms(3-5) by (simp add: bench_main_def run_def)
qed

text \<open>C35: The service passes its own benchmark: with an accepted staging configuration, keys that load and sign, a reachable
  database and an environment with the Google secret, every probe of the router is answered with the metadata that
  the benchmark asks for, the token verifies each time, and a report is printed.  Only a timeout or a slow clock, a
  library that breaks its promise, or metadata over 64 KiB can make it fail.\<close>

theorem benchmark_passes:
  assumes "undisturbed B"
    and "jwt_round_trip (ho_libs (bh_host B)) (ho_crypto (bh_host B)) (bh_encode_value B) (bh_decode_value B) value_accepted"
    and "arguments argv = Inr (Some (samples, warmup))" and "source_sha B = Inr source" and "preflight B = Inr c"
    and "loaded_keys (bh_host B) c = Inr keys" and "signed_probe B keys = Inr token"
    and "connect (bh_host B) (cf_database c) = Inr database" and "environment_ready (bh_host B) c"
    and "\<And>app cache p. new_app_state (ho_libs (bh_host B)) (ho_google (bh_host B)) (ho_env (bh_host B)) c keys = Inr (app, cache)
      \<Longrightarrow> as_provider app = Some p \<Longrightarrow> metadata_readable (ho_libs (bh_host B)) (bh_body B) p"
  shows "\<exists>report final. bench_main B argv = (all_effects c, Report report, Some final)"
  using assms by (rule staged_run)

section \<open>A staging deployment\<close>

definition stage_url :: string where
  "stage_url = ''postgres://eri_staging@127.0.0.1/eri_staging''"

definition stage_issuer :: url where
  "stage_issuer = base_url\<lparr>url_host_of := Some (Domain ''auth-staging.shocker.cl''), url_as_str := ''https://auth-staging.shocker.cl/''\<rparr>"

definition stage_urls :: "(string \<times> url) list" where
  "stage_urls = [(stage_url, base_url\<lparr>url_scheme := ''postgres'', url_username := ''eri_staging'',
     url_host_of := Some (Domain ''127.0.0.1''), url_path := ''/eri_staging'', url_as_str := stage_url\<rparr>)] @ ref_urls"

definition stage_metadata :: json where
  "stage_metadata = metadata_of (ref_provider\<lparr>pr_issuer := ISSUER\<rparr>)"

definition stage_libs :: libs where
  "stage_libs = cfg_libs\<lparr>url_parse := map_of stage_urls, json_parse := (\<lambda>s. Some stage_metadata)\<rparr>"

definition stage_config :: config where
  "stage_config = \<lparr>cf_mode = Production, cf_issuer = stage_issuer, cf_bind = (V4 (127, 0, 0, 1), 8092),
     cf_database = ref_database\<lparr>dc_url := None, dc_url_env := ''ERI_DATABASE_URL''\<rparr>, cf_signing_manifest = MANIFEST,
     cf_authorization = Some ref_authorization\<rparr>"

definition stage_net :: google_net where
  "stage_net = start_net\<lparr>gn_var := (\<lambda>v. Some (if v = ''ERI_DATABASE_URL'' then stage_url else ''secret''))\<rparr>"

definition stage_files :: files where
  "stage_files = ref_files\<lparr>fl_read_to_string := (\<lambda>p. Some (replicate 40 (CHR ''a''))), fl_parent := (\<lambda>p. Some [])\<rparr>"

definition stage_host :: "(nat, nat) host" where
  "stage_host = ref_host\<lparr>ho_libs := stage_libs, ho_crypto := flow_crypto, ho_files := stage_files,
     ho_toml := (\<lambda>text. Some stage_config), ho_google := stage_net\<rparr>"

definition stage_claims :: json where
  "stage_claims = probe_claims stage_libs 5 (timestamp (seconds 1000))"

definition stage_bench :: "(nat, nat) bench_host" where
  "stage_bench = \<lparr>bh_host = stage_host, bh_current_exe = Some ''/opt/eri/eri-benchmark'', bh_canonicalize = Some,
     bh_file_len = (\<lambda>p. Some 40),
     bh_encode_value = (\<lambda>h c k. if h = flow_header \<and> c = stage_claims then Some ''tok'' else None),
     bh_decode_value = (\<lambda>t k v now. if value_accepted stage_claims v now then Some stage_claims else None),
     bh_body = (\<lambda>b. ''{}''), bh_subject = 5, bh_world = (\<lambda>pool cache. ref_world sc_db0), bh_io = (\<lambda>n. ref_io),
     bh_instant = (\<lambda>n. n mod 1000), bh_utc = (\<lambda>n. seconds 1000), bh_dropped = (\<lambda>n. False)\<rparr>"

lemma stage_config_valid: "config_validate stage_libs stage_config = Inr ()"
proof -
  have "issuer_check stage_config = Inr ()" "bind_check stage_config = Inr ()" by code_simp+
  moreover have "database_check (cf_database stage_config) = Inr ()" by code_simp
  moreover have "authorization_check stage_libs stage_config = Inr ()" by code_simp
  ultimately show ?thesis by (simp add: config_validate_Inr)
qed

lemma stage_parts [simp]:
  "bh_host stage_bench = stage_host" "ho_libs stage_host = stage_libs" "ho_crypto stage_host = flow_crypto"
  "ho_files stage_host = stage_files" "ho_google stage_host = stage_net" "bh_dropped stage_bench n = False"
  "bh_utc stage_bench n = seconds 1000" "ho_toml stage_host text = Some stage_config"
  by (simp_all add: stage_bench_def stage_host_def)

lemma stage_loads: "load_config stage_libs (fl_read_to_string stage_files) (ho_toml stage_host) CONFIG = Inr stage_config"
proof -
  have "starts_with (cf_signing_manifest stage_config) ''/''" by code_simp
  then show ?thesis using stage_config_valid by (simp add: load_config_def stage_files_def Let_def)
qed

lemma stage_preflight: "preflight stage_bench = Inr stage_config"
proof -
  have paths: "canonical_path stage_bench path message = Inr ()" for path message
    by (simp add: canonical_path_def stage_bench_def same_path_def ensure_def)
  have "url_as_str (cf_issuer stage_config) = ISSUER @ ''/''" by code_simp
  moreover have "\<exists>u. url_parse stage_libs stage_url = Some u \<and> staging_database u"
    by (simp add: stage_libs_def stage_urls_def staging_database_def local_host_def base_url_def)
  moreover have "gn_var stage_net ''ERI_DATABASE_URL'' = Some stage_url" by (simp add: stage_net_def)
  ultimately show ?thesis
    using paths stage_loads
    by (auto simp: preflight_Inr stage_config_def same_path_def ref_authorization_def)
qed

lemma stage_keys: "\<exists>keys. loaded_keys stage_host stage_config = Inr keys \<and> sk_active_kid keys = ''k1''"
proof -
  have size: "validate_size (bit_length (rsa_n (ref_key k))) = Inr ()" for k
    using bit_length_big [of "2 ^ 2047 + k"] by (simp add: ref_key_def validate_size_def)
  have distinct: "rsa_n (ref_key 0) \<noteq> rsa_n (ref_key (Suc 0))" by (simp add: ref_key_def)
  have kids: "check_kid ''k1'' = Inr () \<and> check_kid ''k0'' = Inr ()" by code_simp
  show ?thesis
    using size distinct kids
    by (simp add: load_keys_def load_key_set_def flow_crypto_def ref_crypto_def stage_files_def ref_files_def ref_manifest_def
        read_private_key_def check_private_permissions_def parse_private_def
        parse_public_def add_public_def empty_key_set_def validate_size_def not_less Let_def)
qed

lemma stage_connects: "\<exists>database. connect stage_host (cf_database stage_config) = Inr database"
proof -
  have "resolved_url (gn_var stage_net) (cf_database stage_config) = Inr stage_url"
    by (simp add: resolved_url_def stage_net_def stage_config_def stage_url_def)
  then show ?thesis by (simp add: connect_def) (simp add: stage_host_def ref_host_def)
qed

lemma stage_environment: "environment_ready stage_host stage_config"
  by (simp add: environment_ready_def stage_config_def ref_authorization_def stage_net_def start_net_def stage_libs_def
      cfg_libs_def is_some_and_def)

lemma stage_jwt_laws: "jwt_round_trip stage_libs flow_crypto (bh_encode_value stage_bench) (bh_decode_value stage_bench) value_accepted"
proof -
  have "json_get ''crit'' stage_metadata = None" by (simp add: stage_metadata_def metadata_of_def Let_def)
  then have "\<not> has_unsupported_crit stage_libs t" for t
    by (cases "b64_decode stage_libs (hd (split_on (CHR ''.'') t))") (simp_all add: has_unsupported_crit_def stage_libs_def)
  then show ?thesis
    unfolding jwt_round_trip_def by (simp add: stage_bench_def flow_crypto_def split: if_splits)
qed

lemma stage_signs: "sk_active_kid keys = ''k1'' \<Longrightarrow> signed_probe stage_bench keys = Inr ''tok''"
  by (simp add: signed_probe_def sign_header_def) (simp add: stage_bench_def flow_header_def stage_claims_def)

lemma stage_undisturbed: "undisturbed stage_bench"
proof -
  have "i mod 1000 - j mod 1000 < 120 * 1000000000" for i j :: nat
    using mod_less_divisor [of 1000 i] by linarith
  then show ?thesis by (simp add: undisturbed_def) (simp add: stage_bench_def)
qed

lemma metadata_of_cong:
  "pr_issuer p = pr_issuer q \<Longrightarrow> provider_advertised_scopes p = provider_advertised_scopes q
    \<Longrightarrow> (pr_cimd_policy p \<noteq> None \<longleftrightarrow> pr_cimd_policy q \<noteq> None) \<Longrightarrow> metadata_of p = metadata_of q"
  by (simp add: metadata_of_def)

lemma stage_readable:
  assumes "new_app_state stage_libs stage_net e stage_config keys = Inr (app, cache)" and "as_provider app = Some p"
  shows "metadata_readable stage_libs (bh_body stage_bench) p"
proof -
  have issuer: "pr_issuer p = ISSUER"
    using new_app_state_parts(2) [OF assms] staging_issuer by (simp add: stage_config_def stage_issuer_def ISSUER_def)
  have registry: "authorization_registry stage_libs stage_config = Inr (Some (pr_registry p))"
    using new_app_state_parts(2) [OF assms] by blast
  have policy: "pr_cimd_policy p = None"
    using assms by (auto simp: new_app_state_def new_provider_def map_ok_Inr_iff and_then_Inr_iff Let_def stage_config_def
      ref_authorization_def)
  have scopes: "map_ok (map_option (\<lambda>r. sorted_list_of_set (advertised_scopes r))) (authorization_registry stage_libs stage_config)
      = Inr (Some (sorted_list_of_set (advertised_scopes ref_registry)))" by code_simp
  have "metadata_of p = stage_metadata"
    unfolding stage_metadata_def
    by (rule metadata_of_cong) (use scopes in \<open>simp_all add: issuer policy provider_advertised_scopes_def registry ref_provider_def\<close>)
  then show ?thesis by (simp add: metadata_readable_def stage_libs_def stage_bench_def MAX_BODY_def)
qed

definition stage_arguments :: "string list" where
  "stage_arguments = [''--samples'', ''100'', ''--warmup'', ''200'']"

lemma stage_arguments_parsed: "arguments stage_arguments = Inr (Some (100, 200))"
  by code_simp

lemma stage_marker: "\<exists>source. source_sha stage_bench = Inr source"
  by (simp add: source_sha_def) (simp add: stage_bench_def stage_files_def ref_files_def strip_newline_def is_lower_hex_def ensure_def
    Let_def last_replicate list_all_iff)

text \<open>What the run needs, in the form of the assumptions of \<open>staged_run\<close>.\<close>

lemma stage_needs:
  obtains source keys database where "source_sha stage_bench = Inr source" "loaded_keys (bh_host stage_bench) stage_config = Inr keys"
    "signed_probe stage_bench keys = Inr ''tok''" "connect (bh_host stage_bench) (cf_database stage_config) = Inr database"
  using stage_marker stage_keys stage_signs stage_connects by (metis stage_parts(1))

lemma stage_law: "jwt_round_trip (ho_libs (bh_host stage_bench)) (ho_crypto (bh_host stage_bench)) (bh_encode_value stage_bench)
    (bh_decode_value stage_bench) value_accepted"
  using stage_jwt_laws by simp

lemma stage_host_environment: "environment_ready (bh_host stage_bench) stage_config"
  using stage_environment by simp

lemma stage_metadata_read:
  "new_app_state (ho_libs (bh_host stage_bench)) (ho_google (bh_host stage_bench)) (ho_env (bh_host stage_bench)) stage_config keys
      = Inr (app, cache) \<Longrightarrow> as_provider app = Some p
    \<Longrightarrow> metadata_readable (ho_libs (bh_host stage_bench)) (bh_body stage_bench) p"
  using stage_readable by simp

lemma stage_run: "\<exists>report final. bench_main stage_bench stage_arguments = (all_effects stage_config, Report report, Some final)"
proof -
  obtain source keys database where "source_sha stage_bench = Inr source" "loaded_keys (bh_host stage_bench) stage_config = Inr keys"
    "signed_probe stage_bench keys = Inr ''tok''" "connect (bh_host stage_bench) (cf_database stage_config) = Inr database"
    by (rule stage_needs)
  from staged_run [OF stage_undisturbed stage_law stage_arguments_parsed this(1) stage_preflight this(2-4) stage_host_environment
      stage_metadata_read] show ?thesis .
qed

theorem benchmark_passes_witness:
  "\<exists>report pool cache w. bench_main stage_bench stage_arguments
     = ([LoadKeys MANIFEST, LoadKeys MANIFEST, Connect (cf_database stage_config)], Report report, Some (pool, cache, w))"
proof -
  obtain source keys database where "source_sha stage_bench = Inr source" "loaded_keys (bh_host stage_bench) stage_config = Inr keys"
    "signed_probe stage_bench keys = Inr ''tok''" "connect (bh_host stage_bench) (cf_database stage_config) = Inr database"
    by (rule stage_needs)
  from benchmark_passes [OF stage_undisturbed stage_law stage_arguments_parsed this(1) stage_preflight this(2-4) stage_host_environment
      stage_metadata_read] show ?thesis by (auto simp: stage_config_def)
qed

theorem benchmark_is_staging_only_witness:
  "\<exists>report pool cache. bench_main stage_bench stage_arguments
     = (all_effects stage_config, Report report, Some (pool, cache, bh_world stage_bench pool cache))"
proof -
  obtain report pool cache w where run: "bench_main stage_bench stage_arguments = (all_effects stage_config, Report report, Some (pool, cache, w))"
    using stage_run by auto
  from benchmark_is_staging_only [OF run] have "w = bh_world stage_bench pool cache" by auto
  with run show ?thesis by blast
qed

theorem report_is_nearest_rank_witness:
  "\<exists>report effects final ds source warmup stats' a b c. bench_main stage_bench stage_arguments = (effects, Report report, final)
     \<and> report = summary source warmup (statistics ds a b c) stats' \<and> length ds = 100 \<and> nearest_rank ds 95 b"
proof -
  obtain report final where run: "bench_main stage_bench stage_arguments = (all_effects stage_config, Report report, Some final)"
    using stage_run by blast
  from report_is_nearest_rank [OF run] obtain source samples warmup ds vs a b c a' b' c' where
    "arguments stage_arguments = Inr (Some (samples, warmup))" "length ds = samples" "length vs = samples"
    "report = summary source warmup (statistics ds a b c) (statistics vs a' b' c')" "nearest_rank ds 95 b"
    by (elim exE conjE) (rule that; assumption)
  moreover from this have "samples = 100" using stage_arguments_parsed by simp
  ultimately show ?thesis using run by (intro exI conjI) simp_all
qed

end
