(* ===== verification/Binding_Shape.thy ===== *)
theory Binding_Shape
  imports Registry_Facts Cimd_Properties
begin

text \<open>
  The durable form of a security binding (\<open>src/src/cimd.rs\<close>, the \<open>Serialize\<close> derivation of
  \<open>CimdSecurityBinding\<close>) against the constraint that \<open>src/migrations/202610110004_cimd_bindings.sql\<close>
  puts on the \<open>cimd_binding\<close> column of its three tables.  The text form of \<open>jsonb\<close> and its
  equality are parameters.
\<close>

section \<open>The JSON value of a binding\<close>

definition kind_name :: "cimd_redirect_kind \<Rightarrow> string" where
  "kind_name kind = (case kind of CExact \<Rightarrow> ''exact'' | CNativeLoopback \<Rightarrow> ''native_loopback'')"

definition redirect_value :: "cimd_bound_redirect \<Rightarrow> json" where
  "redirect_value r = JObject [(''uri'', JString (br_uri r)), (''kind'', JString (kind_name (br_kind r)))]"

text \<open>The decimal text of the version, an \<open>u8\<close>.\<close>

definition version_text :: "nat \<Rightarrow> string" where
  "version_text n =
     (if n < 10 then [char_of (48 + n)]
      else if n < 100 then [char_of (48 + n div 10), char_of (48 + n mod 10)]
      else [char_of (48 + n div 100), char_of (48 + n div 10 mod 10), char_of (48 + n mod 10)])"

definition binding_value :: "cimd_security_binding \<Rightarrow> json" where
  "binding_value b = JObject
     [(''version'', JNumber (version_text (cb_version b))),
      (''client_id'', JString (cb_client_id b)),
      (''redirects'', JArray (map redirect_value (cb_redirects b))),
      (''refresh_allowed'', JBool (cb_refresh_allowed b))]"

section \<open>The constraint of the tables\<close>

record jsonb =
  jb_octets :: "json \<Rightarrow> nat"
  jb_equal :: "json \<Rightarrow> json \<Rightarrow> bool"

text \<open>
  What PostgreSQL documents of \<open>jsonb\<close>: equality is reflexive; the text of a value puts at most a
  comma and a blank between elements, a colon and a blank after a name, and writes a byte of
  a string as at most six, the length of an escape.
\<close>

definition jsonb_laws :: "jsonb \<Rightarrow> bool" where
  "jsonb_laws J \<longleftrightarrow>
     (\<forall>v. jb_equal J v v)
     \<and> (\<forall>s. jb_octets J (JString s) \<le> 6 * length s + 2)
     \<and> (\<forall>b. jb_octets J (JBool b) \<le> 5)
     \<and> jb_octets J (JNumber ''1'') \<le> 1
     \<and> (\<forall>vs. jb_octets J (JArray vs) \<le> 2 + sum_list (map (\<lambda>v. jb_octets J v + 2) vs))
     \<and> (\<forall>es. jb_octets J (JObject es)
            \<le> 2 + sum_list (map (\<lambda>(k, v). jb_octets J (JString k) + jb_octets J v + 4) es))"

definition is_array :: "json \<Rightarrow> bool" where
  "is_array v \<longleftrightarrow> (case v of JArray _ \<Rightarrow> True | _ \<Rightarrow> False)"

definition is_boolean :: "json \<Rightarrow> bool" where
  "is_boolean v \<longleftrightarrow> (case v of JBool _ \<Rightarrow> True | _ \<Rightarrow> False)"

text \<open>
  A missing field makes a comparison null, which \<open>COALESCE\<close> turns into a refusal.  The same text
  stands on \<open>browser_authorizations\<close>, \<open>authorization_codes\<close> and \<open>refresh_families\<close>.
\<close>

definition binding_shape :: "jsonb \<Rightarrow> string \<Rightarrow> json option \<Rightarrow> bool" where
  "binding_shape J client_id column = (case column of
     None \<Rightarrow> True
   | Some v \<Rightarrow> (case v of
       JObject _ \<Rightarrow>
         is_some_and (json_get ''version'' v) (\<lambda>n. jb_equal J n (JNumber ''1''))
         \<and> is_some_and (json_get ''client_id'' v) (\<lambda>c. as_str c = Some client_id)
         \<and> is_some_and (json_get ''redirects'' v) is_array
         \<and> is_some_and (json_get ''refresh_allowed'' v) is_boolean
         \<and> jb_octets J v \<le> 49152
     | _ \<Rightarrow> False))"

definition pending_binding :: "pending_authorization_grant \<Rightarrow> json option" where
  "pending_binding p = map_option (\<lambda>d. binding_value (rcp_binding d)) (pg_dynamic p)"

definition grant_binding :: "validated_authorization_grant \<Rightarrow> json option" where
  "grant_binding g = map_option (\<lambda>d. binding_value (rcp_binding d)) (vg_dynamic g)"

section \<open>The size of a binding\<close>

text \<open>The bytes of the strings of a field, one level of arrays deep.\<close>

definition text_bytes :: "json \<Rightarrow> nat" where
  "text_bytes v = (case v of
     JString s \<Rightarrow> length s
   | JArray vs \<Rightarrow> sum_list (map (\<lambda>x. case as_str x of Some s \<Rightarrow> length s | None \<Rightarrow> 0) vs)
   | _ \<Rightarrow> 0)"

text \<open>An escape in a JSON document is at least as long as the bytes it stands for.\<close>

definition json_text_law :: "libs \<Rightarrow> bool" where
  "json_text_law L \<longleftrightarrow> (\<forall>body es. json_entries L body = Some es
     \<longrightarrow> sum_list (map (\<lambda>(k, v). text_bytes v) es) \<le> length body)"

lemma strict_object_sum:
  assumes "strict_object object es = Some obj"
  shows "sum_list (map f obj) = sum_list (map f object) + sum_list (map f es :: nat list)"
  using assms by (induction object es rule: strict_object.induct) (auto split: if_splits)

lemma strict_object_distinct:
  assumes "strict_object object es = Some obj" and "distinct (map fst object)"
  shows "distinct (map fst obj)"
  using assms
proof (induction object es rule: strict_object.induct)
  case (2 object key v rest)
  then have "key \<notin> fst ` set object" and go: "strict_object ((key, v) # object) rest = Some obj"
    by (auto simp: map_of_eq_None_iff split: if_splits)
  with 2 show ?case by (auto split: if_splits)
qed simp

lemma two_fields_sum:
  fixes f :: "string \<times> 'b \<Rightarrow> nat"
  assumes "map_of es k = Some v" and "map_of es k' = Some v'" and "k \<noteq> k'"
  shows "f (k, v) + f (k', v') \<le> sum_list (map f es)"
proof -
  have member: "(k, v) \<in> set es" "(k', v') \<in> set es" using assms by (auto dest: map_of_SomeD)
  from member(1) obtain xs ys where es: "es = xs @ (k, v) # ys" by (auto simp: in_set_conv_decomp)
  have "f (k', v') \<le> sum_list (map f (xs @ ys))"
    using member(2) assms(3) by (intro member_le_sum_list) (auto simp: es)
  then show ?thesis by (simp add: es)
qed

lemma collect_redirects_sum:
  assumes "collect_redirects L items uris0 = Inr uris"
  shows "sum_list (map length uris) = sum_list (map length uris0)
    + sum_list (map (\<lambda>x. case as_str x of Some s \<Rightarrow> length s | None \<Rightarrow> 0) items)"
  using assms
proof (induction L items uris0 rule: collect_redirects.induct)
  case (2 L item items uris0)
  then show ?case by (cases "as_str item") (auto split: if_splits)
qed simp

text \<open>The strings a validated document contributes to a binding fit into its body.\<close>

lemma document_bytes:
  assumes "validate_document L client_id body = Inr doc" and "json_text_law L"
  shows "length (doc_client_id doc) + sum_list (map length (doc_redirect_uris doc)) \<le> length body"
proof -
  let ?f = "\<lambda>(k, v). text_bytes v"
  from assms(1) obtain es obj items uris where es: "json_entries L body = Some es" "strict_object [] es = Some obj"
    and fields: "map_of obj ''client_id'' = Some (JString (doc_client_id doc))"
      "map_of obj ''redirect_uris'' = Some (JArray items)"
    and uris: "collect_redirects L items [] = Inr uris" and doc: "doc_redirect_uris doc = uris"
    by (auto simp: validate_document_def obj_str_def obj_get_def and_then_Inr_iff ok_or_Inr_iff
        split: if_splits option.splits)
  have "?f (''client_id'', JString (doc_client_id doc)) + ?f (''redirect_uris'', JArray items) \<le> sum_list (map ?f obj)"
    by (rule two_fields_sum [OF fields]) simp
  also have "\<dots> = sum_list (map ?f es)" using strict_object_sum [OF es(2), of ?f] by simp
  also have "\<dots> \<le> length body" using assms(2) es(1) unfolding json_text_law_def by blast
  finally show ?thesis using collect_redirects_sum [OF uris] by (simp add: text_bytes_def doc)
qed

lemma redirect_octets:
  assumes "jsonb_laws J"
  shows "jb_octets J (redirect_value r) \<le> 6 * length (br_uri r) + 150"
proof -
  have str: "jb_octets J (JString s) \<le> 6 * length s + 2" for s using assms by (simp add: jsonb_laws_def)
  have kind: "length (kind_name k) \<le> 15" for k by (cases k) (simp_all add: kind_name_def)
  have "jb_octets J (redirect_value r) \<le> 2 + sum_list (map (\<lambda>(k, v). jb_octets J (JString k) + jb_octets J v + 4)
      [(''uri'', JString (br_uri r)), (''kind'', JString (kind_name (br_kind r)))])"
    using assms unfolding jsonb_laws_def redirect_value_def by blast
  then show ?thesis
    using str [of "''uri''"] str [of "''kind''"] str [of "br_uri r"] str [of "kind_name (br_kind r)"] kind [of "br_kind r"]
    by simp
qed

lemma redirects_octets:
  assumes "jsonb_laws J"
  shows "jb_octets J (JArray (map redirect_value rs)) \<le> 2 + 6 * sum_list (map (\<lambda>r. length (br_uri r)) rs) + 152 * length rs"
proof -
  have "sum_list (map (\<lambda>v. jb_octets J v + 2) (map redirect_value rs))
      \<le> 6 * sum_list (map (\<lambda>r. length (br_uri r)) rs) + 152 * length rs"
  proof (induction rs)
    case (Cons r rs)
    then show ?case using redirect_octets [OF assms, of r] by simp
  qed simp
  moreover have "jb_octets J (JArray (map redirect_value rs))
      \<le> 2 + sum_list (map (\<lambda>v. jb_octets J v + 2) (map redirect_value rs))"
    using assms unfolding jsonb_laws_def by blast
  ultimately show ?thesis by linarith
qed

lemma version_one: "version_text 1 = ''1''"
  by code_simp

lemma binding_octets:
  assumes "jsonb_laws J" and "cb_version b = 1"
  shows "jb_octets J (binding_value b)
    \<le> 6 * (length (cb_client_id b) + sum_list (map (\<lambda>r. length (br_uri r)) (cb_redirects b)))
      + 152 * length (cb_redirects b) + 300"
proof -
  have str: "jb_octets J (JString s) \<le> 6 * length s + 2" for s using assms(1) by (simp add: jsonb_laws_def)
  have flat: "jb_octets J (JBool x) \<le> 5" "jb_octets J (JNumber ''1'') \<le> 1" for x
    using assms(1) by (auto simp: jsonb_laws_def)
  have version: "version_text (cb_version b) = ''1''" by (simp add: assms(2) version_one [simplified])
  let ?es = "[(''version'', JNumber ''1''), (''client_id'', JString (cb_client_id b)),
      (''redirects'', JArray (map redirect_value (cb_redirects b))), (''refresh_allowed'', JBool (cb_refresh_allowed b))]"
  have "jb_octets J (binding_value b) \<le> 2 + sum_list (map (\<lambda>(k, v). jb_octets J (JString k) + jb_octets J v + 4) ?es)"
    using assms(1) unfolding jsonb_laws_def binding_value_def version by blast
  then show ?thesis
    using str [of "''version''"] str [of "''client_id''"] str [of "''redirects''"] str [of "''refresh_allowed''"]
      str [of "cb_client_id b"] flat(1) [of "cb_refresh_allowed b"] flat(2) redirects_octets [OF assms(1), of "cb_redirects b"]
    by simp
qed

text \<open>A binding of a fetched document is within the constraint of a row of its client.\<close>

lemma fetched_binding_shape:
  assumes "check_response L client_id response = Inr (doc, ttl)" and "json_text_law L" and "jsonb_laws J"
  shows "binding_shape J (doc_client_id doc) (Some (binding_value (security_binding doc allow)))"
proof -
  let ?b = "security_binding doc allow"
  from check_response_Inr [OF assms(1)] have body: "length (rd_body response) \<le> 5120"
    and doc: "validate_document L client_id (rd_body response) = Inr doc" by auto
  have mset: "mset (cb_redirects ?b) = image_mset bound_redirect (mset (doc_redirect_uris doc))"
    by (simp add: binding_redirects)
  have sum: "sum_list (map (\<lambda>r. length (br_uri r)) (cb_redirects ?b)) = sum_list (map length (doc_redirect_uris doc))"
    unfolding sum_mset_sum_list [symmetric] mset_map mset by (simp add: image_mset.compositionality comp_def)
  have count: "length (cb_redirects ?b) \<le> 16"
    using validate_document_Inr [OF doc] by (simp add: binding_redirects)
  have parts: "cb_version ?b = 1" "cb_client_id ?b = doc_client_id doc" by (simp_all add: security_binding_def)
  have "jb_octets J (binding_value ?b) \<le> 49152"
    using binding_octets [OF assms(3) parts(1)] document_bytes [OF doc assms(2)] body count by (simp add: sum parts)
  moreover have "jb_equal J (JNumber ''1'') (JNumber ''1'')" using assms(3) by (simp add: jsonb_laws_def)
  ultimately show ?thesis
    by (simp add: binding_shape_def binding_value_def parts version_one [simplified] is_array_def is_boolean_def)
qed

text \<open>C38: No metadata client can make an insert fail on the constraint its binding column carries: whatever
  document a fetch accepts, every authorization request validated against its projection, and the
  grant approved from it, has a binding of the row's own client, with version 1, an array of redirects
  and a boolean for refresh, whose text stays within 49152 bytes; a first-party request has none.\<close>
theorem stored_bindings_fit:
  assumes "registry_wf reg" and "reg_dynamic reg = None"
    and "check_response L (doc_client_id (lease_document snap)) response = Inr (lease_document snap, ttl)"
    and "project_cimd L t0 reg snap scopes resources allow = Inr reg'"
    and "validate_pending L t1 reg' request = Inr pending"
    and "approve_grant t2 pending consent = Inr grant"
    and "json_text_law L" and "jsonb_laws J"
  shows "binding_shape J (pg_client_id pending) (pending_binding pending)
    \<and> binding_shape J (vg_client_id grant) (grant_binding grant)
    \<and> (pg_dynamic pending = None \<longleftrightarrow> ar_client_id request \<noteq> doc_client_id (lease_document snap))"
proof -
  let ?id = "doc_client_id (lease_document snap)"
  from assms(4) have dynamic: "reg_dynamic reg' = Some \<lparr>rcp_snapshot = snap,
      rcp_binding = security_binding (lease_document snap) allow\<rparr>"
    by (rule project_cimd_Inr) simp
  have pending: "pg_client_id pending = ar_client_id request"
    "pg_dynamic pending = dynamic_for reg' (ar_client_id request)"
    using validate_pending_parts_wf [OF project_cimd_wf [OF assms(4,1)]] assms(5)
    by (auto simp: validate_pending_def)
  have grant: "vg_client_id grant = pg_client_id pending" "vg_dynamic grant = pg_dynamic pending"
    using assms(6) by (auto simp: approve_grant_def and_then_Inr_iff Let_def split: if_splits)
  show ?thesis
    using fetched_binding_shape [OF assms(3,7,8), of allow]
    by (auto simp: pending_binding_def grant_binding_def grant pending dynamic_for_def dynamic binding_shape_def [of _ _ None])
qed

section \<open>A stored binding\<close>

definition shape_body :: string where
  "shape_body = concat
     [''{'', [CHR 0x22], ''client_id'', [CHR 0x22], '':'', [CHR 0x22], ''https://client.shocker.cl/meta'', [CHR 0x22],
      '','', [CHR 0x22], ''client_name'', [CHR 0x22], '':'', [CHR 0x22], ''C'', [CHR 0x22],
      '','', [CHR 0x22], ''token_endpoint_auth_method'', [CHR 0x22], '':'', [CHR 0x22], ''none'', [CHR 0x22],
      '','', [CHR 0x22], ''redirect_uris'', [CHR 0x22], '':['', [CHR 0x22], ''https://app.shocker.cl/cb'', [CHR 0x22], '']}'']"

definition shape_libs :: libs where
  "shape_libs = ref_libs\<lparr>json_entries := (\<lambda>s. if s = shape_body then Some
     [(''client_id'', JString ''https://client.shocker.cl/meta''), (''client_name'', JString ''C''),
      (''token_endpoint_auth_method'', JString ''none''),
      (''redirect_uris'', JArray [JString ''https://app.shocker.cl/cb''])] else None)\<rparr>"

definition shape_response :: response_document where
  "shape_response = \<lparr>rd_status = 200, rd_content_type = Some ''application/json'',
     rd_cache_control = None, rd_age = 0, rd_body = shape_body\<rparr>"

definition shape_lease :: leased_client_metadata where
  "shape_lease = \<lparr>lease_document = meta_document, lease_valid_until = 1000\<rparr>"

definition shape_registry :: client_registry where
  "shape_registry = projr (project_cimd shape_libs 10 ref_registry shape_lease [''openid'']
     [''https://api.shocker.cl/r''] True)"

definition shape_request :: authorization_request where
  "shape_request = ref_request\<lparr>ar_client_id := meta_id, ar_redirect_uri := ''https://app.shocker.cl/cb'',
     ar_scopes := [''openid''], ar_resource := Some ''https://api.shocker.cl/r''\<rparr>"

definition shape_pending :: pending_authorization_grant where
  "shape_pending = projr (validate_pending shape_libs 10 shape_registry shape_request)"

definition shape_grant :: validated_authorization_grant where
  "shape_grant = projr (approve_grant 10 shape_pending False)"

text \<open>A text form of \<open>jsonb\<close> that satisfies the laws with room to spare.\<close>

fun plain_octets :: "json \<Rightarrow> nat" where
  "plain_octets (JString s) = 6 * length s + 2"
| "plain_octets (JNumber n) = length n"
| "plain_octets (JArray vs) = 2 + sum_list (map (\<lambda>v. plain_octets v + 2) vs)"
| "plain_octets (JObject es) = 2 + sum_list (map (\<lambda>(k, v). 6 * length k + 2 + plain_octets v + 4) es)"
| "plain_octets v = 5"

definition plain_jsonb :: jsonb where
  "plain_jsonb = \<lparr>jb_octets = plain_octets, jb_equal = (=)\<rparr>"

lemma plain_jsonb_laws: "jsonb_laws plain_jsonb"
  by (simp add: jsonb_laws_def plain_jsonb_def add.assoc)

lemma shape_text_law: "json_text_law shape_libs"
proof -
  have "sum_list (map (\<lambda>(k, v). text_bytes v) (the (json_entries shape_libs shape_body))) \<le> length shape_body"
    by code_simp
  then show ?thesis by (auto simp: json_text_law_def shape_libs_def split: if_splits)
qed

lemma shape_checked: "check_response shape_libs meta_id shape_response = Inr (meta_document, None)"
  by code_simp

lemma shape_projected:
  "project_cimd shape_libs 10 ref_registry shape_lease [''openid''] [''https://api.shocker.cl/r''] True = Inr shape_registry"
proof -
  have "is_ok (project_cimd shape_libs 10 ref_registry shape_lease [''openid''] [''https://api.shocker.cl/r''] True)"
    by code_simp
  then show ?thesis by (auto simp: shape_registry_def is_ok_iff)
qed

lemma shape_validated: "validate_pending shape_libs 10 shape_registry shape_request = Inr shape_pending"
proof -
  have "is_ok (validate_pending shape_libs 10 shape_registry shape_request)" by code_simp
  then show ?thesis by (auto simp: shape_pending_def is_ok_iff)
qed

lemma shape_approved: "approve_grant 10 shape_pending False = Inr shape_grant"
proof -
  have "is_ok (approve_grant 10 shape_pending False)" by code_simp
  then show ?thesis by (auto simp: shape_grant_def is_ok_iff)
qed

theorem stored_bindings_fit_witness:
  "binding_shape plain_jsonb (pg_client_id shape_pending) (pending_binding shape_pending)
   \<and> pg_dynamic shape_pending \<noteq> None"
proof -
  have lease: "lease_document shape_lease = meta_document" by (simp add: shape_lease_def)
  have ids: "doc_client_id meta_document = meta_id" "ar_client_id shape_request = meta_id"
    by (simp_all add: meta_document_def shape_request_def)
  have static: "reg_dynamic ref_registry = None" by code_simp
  show ?thesis
    using stored_bindings_fit [OF ref_registry_wf static _ shape_projected shape_validated shape_approved
        shape_text_law plain_jsonb_laws] shape_checked
    by (simp add: lease ids)
qed

end
