(* ===== verification/Spec2Isabelle.thy ===== *)
theory Spec2Isabelle
  imports Session_Properties Google_Properties Fetcher_Properties Service_Cookies Client_Flow Benchmark_Properties
    Binding_Shape
begin

text \<open>
  A verification development for Eri, an OAuth 2.1 and OpenID Connect provider in Rust that logs
  its users in through Google.  This theory only gathers the others; the properties stand in the
  theories named \<open>_Properties\<close>, \<open>_Facts\<close>, \<open>_Invariant\<close>, \<open>_Flow\<close>, in the \<open>Service_\<close> theories and in \<open>System\<close>,
  \<open>Startup\<close> and \<open>Binding_Shape\<close>, each after the text that gives its number.

  \<^bold>\<open>The program.\<close>  A client sends the browser to the authorization endpoint (\<open>web.rs\<close>).  The client is
  either configured (\<open>config.rs\<close>, \<open>oauth.rs\<close>) or described by a metadata document that the provider
  fetches under strict network rules (\<open>cimd.rs\<close>).  A browser transaction (\<open>browser.rs\<close>) follows the
  user to Google (\<open>google.rs\<close>) and back, opens a provider session, asks for consent and ends in an
  authorization code (\<open>credentials.rs\<close>), which the client exchanges for tokens (\<open>keys.rs\<close>,
  \<open>tokens.rs\<close>) and later rotates.  Logout (\<open>logout.rs\<close>) revokes the session and what hangs on it.

  \<^bold>\<open>Theories and sources.\<close>
  \<^item> \<open>Prelude\<close>: results, Rust strings as their UTF-8 bytes, byte operations.  \<open>Externals\<close>: the record \<open>libs\<close>
    of third-party functions, environments and instants.  \<open>Reference_Libs\<close>: concrete values of
    these parameters for the witnesses.
  \<^item> \<open>OAuth_Policy\<close>, \<open>Registry\<close>: \<open>oauth.rs\<close>; \<open>Registry_Facts\<close> holds what it guarantees.
  \<^item> \<open>Cimd\<close> and \<open>Cimd_Fetch\<close>: the pure part and the fetcher of \<open>cimd.rs\<close>; \<open>Cimd_Properties\<close>,
    \<open>Fetcher_Properties\<close>.  \<open>Binding_Shape\<close>: the JSON form of a binding and the constraint of the tables on it.
  \<^item> \<open>Database\<close>: the tables of \<open>src/migrations\<close> as lists of rows with their keys, and \<open>identity.rs\<close> with the
    identity operations and the readiness probe of \<open>database.rs\<close>.
  \<^item> \<open>Credentials\<close>: \<open>credentials.rs\<close>; \<open>Evolution\<close> (what a committed transaction may change),
    \<open>Credential_Invariant\<close>, \<open>Credential_Operations\<close>, \<open>Credential_Scenario\<close>, \<open>Credential_Properties\<close>.
  \<^item> \<open>Keys\<close>, \<open>Tokens\<close>: \<open>keys.rs\<close>, \<open>tokens.rs\<close>; \<open>Token_Properties\<close>.
  \<^item> \<open>Browser\<close>, \<open>Logout\<close>: \<open>browser.rs\<close>, \<open>logout.rs\<close>; \<open>Browser_Facts\<close> (the stages as a step relation),
    \<open>Browser_Properties\<close>, \<open>Session_Properties\<close>.
  \<^item> \<open>System_Invariant\<close>, \<open>System\<close>: every transaction of every store over one database, in any interleaving.
  \<^item> \<open>Upstream\<close>, \<open>Google\<close>: the HTTP exchange and \<open>google.rs\<close>; \<open>Google_Properties\<close>.
  \<^item> \<open>Config\<close>: \<open>config.rs\<close>; \<open>Config_Properties\<close>.
  \<^item> \<open>Http\<close> (forms, cookies, headers, pages), \<open>Provider\<close> (state, client resolution), \<open>Authorize\<close>,
    \<open>Federation\<close> (Google round trip and consent), \<open>Endpoints\<close> (token, userinfo, revocation, logout),
    \<open>Router\<close>: \<open>web.rs\<close>; \<open>Http_Properties\<close>, \<open>Service_Headers\<close>, \<open>Service_Invariant\<close>, \<open>Service_Properties\<close>,
    \<open>Endpoint_Properties\<close>.
  \<^item> \<open>Service_History\<close>, \<open>Service_Logout\<close>, \<open>Service_Cookies\<close>: histories of requests that the service answers, with
    the transactions of other processes in between, and what holds of all of them.
  \<^item> \<open>Grant_Flow\<close>, \<open>Refresh_Flow\<close>: what the stores do for a legitimate client, from an approval to its code and from a code or a
    refresh token to the next; \<open>Client_Flow\<close>, \<open>Token_Flow\<close>: the same over HTTP, from the consent form to the
    tokens, from one answer to the next, and from an answer to userinfo.
  \<^item> \<open>Startup\<close>: \<open>main.rs\<close> and \<open>Database::connect\<close>, a run of the process as its effects in order.
  \<^item> \<open>Benchmark\<close>: \<open>examples/staging-benchmark.rs\<close>, over the models of the router, the keys and the start;
    \<open>Benchmark_Properties\<close>.

  \<^bold>\<open>Modelling.\<close>  A struct is a record and an enum a datatype.  A fallible function returns a sum, \<open>Inl\<close> the error.
  A store operation is a function from the database to its result and the database after it: the
  transaction is one step, a rollback returns the database it was given, and a read made before the
  locks are taken has its own argument, because another transaction may commit in between.
  Clocks and random numbers come from an environment (\<open>env_clock\<close>, \<open>env_instant\<close>, \<open>env_uuid\<close>), one
  reading per call of the code.  A handler is a function of the request and of the \<open>world\<close>: database,
  metadata fetcher, Google key cache.

  \<^bold>\<open>What the lemmas show.\<close>  The store lemmas give the outcome of each operation on each branch.  Two locales carry them
  to histories: \<open>evolution\<close> (an order on rows lifted to tables, interpreted for sessions, codes,
  families, members, browser rows and logout challenges) and \<open>transactional\<close> (operations that keep
  an invariant and move forward in an order, interpreted for the credential store and for the whole
  system).  So the single-use, replay and revocation properties hold with any number of transactions
  of other requests in between.  The locale \<open>revalidation\<close> states the law of repeated policy checks and is
  interpreted on the registry; \<open>retried_operation\<close> and \<open>rolled_back_operation\<close> state what the retry around a
  store operation relies on and are interpreted on the redemption of a grant and on the consent
  decision.  The service lemmas lift this to HTTP: every request keeps the invariant,
  every response has the security headers, every cookie is hardened, and each success of an endpoint is traced to
  the rows, the cookies and the secrets that entitle the request to it.  A history of answered requests refines
  one of committed transactions, and the locale \<open>single_use\<close>, interpreted on codes, refresh tokens, logout
  challenges and consent transactions, gives that each is accepted once over HTTP, too.  The flow lemmas are the
  converse of the refusals: nothing in the code refuses an approved code, a live refresh token or a fresh access
  token that its client presents, whatever other requests did in between.

  \<^bold>\<open>Parameters and hypotheses.\<close>  URL parsing, SHA-256, base64, JSON, UUID and form syntax, PEM and JWT, DNS, HTTP clients, the
  file system, the connection pool and migrator, the text of \<open>jsonb\<close> and the response of \<open>Redirect::to\<close> are parameters.  Where a property relies on one, the law is a named hypothesis
  (\<open>base64_laws\<close>, \<open>sha256_laws\<close>, \<open>form_laws\<close>, \<open>framework_laws\<close>, \<open>binding_laws\<close>, \<open>header_text_laws\<close>,
  \<open>first_key_law\<close>, \<open>json_text_law\<close>, \<open>jsonb_laws\<close>, \<open>jwt_round_trip\<close>, \<open>metadata_readable\<close>), and its witness gives a function that satisfies it.
  Nothing is assumed about collisions of the hash: properties speak of the stored hash of a secret.

  \<^bold>\<open>Bounds and termination.\<close>  Loops are structural recursion or recursion with a measure, so every operation is total;
  the retry of a store operation runs at most twice, as in the code.  Fuel occurs only in readers of
  the concrete library of the witnesses, bounded by the length of the text.  Integers the code
  holds in machine words are naturals or integers with the checks of the code; IPv6 segments
  are words.

  \<^bold>\<open>Not modelled.\<close>  Command-line parsing (\<open>clap\<close>), the wait for the shutdown signal, logging, the SQL of the migrations
  beyond keys and constraints, tests and deployment scripts: library calls, or input and
  output without a decision of the program.  A step of the fetcher (looking up, joining or ending a
  flight) is atomic, as its lock makes it; a handler runs alone, the interleaving of its
  transactions with those of other requests being the subject of \<open>System\<close>, and histories of requests
  that of \<open>Service_History\<close>.
\<close>

end
